(* ===== verification/Prelude.thy ===== *)
theory Prelude
  imports Complex_Main "HOL-Library.Sublist"
begin

text \<open>
  Shared vocabulary of the development: JavaScript strings as lists of UTF-16 code units with
  the string operations the sources call, decimal and radix printing, and the generic list
  lemmas the component theories use.

  A JavaScript string is a sequence of 16-bit code units, \<open>length\<close> and indexing count code
  units, and \<open>for (const ch of s)\<close> walks code points (a surrogate pair is one step). A code
  unit is a \<open>nat\<close>; every code unit the models create is below \<open>0x10000\<close>.
\<close>

named_theorems js_defs "definitions of the string operations, for evaluation of closed terms"

section \<open>Strings\<close>

type_synonym codeunit = nat
type_synonym ustring = "codeunit list"

text \<open>ASCII literals of the source are written \<open>js ''...''\<close>.\<close>

definition js :: "string \<Rightarrow> ustring" where
  "js s = map of_char s"

lemma js_Nil [simp]: "js [] = []"
  by (simp add: js_def)

lemma js_Cons: "js (c # s) = of_char c # js s"
  by (simp add: js_def)

lemma js_eq_Nil [simp]: "js s = [] \<longleftrightarrow> s = []"
  by (simp add: js_def)

lemma js_inject [simp]: "js s = js t \<longleftrightarrow> s = t"
  by (simp add: js_def inj_map_eq_map inj_def)

lemmas [js_defs] = js_def

abbreviation (input) U_DEL :: codeunit where "U_DEL \<equiv> 0x7f"
abbreviation (input) U_ESC :: codeunit where "U_ESC \<equiv> 0x1b"
abbreviation (input) U_BACKSLASH :: codeunit where "U_BACKSLASH \<equiv> 0x5c"
abbreviation (input) U_SPACE :: codeunit where "U_SPACE \<equiv> 0x20"
abbreviation (input) U_SLASH :: codeunit where "U_SLASH \<equiv> 0x2f"
abbreviation (input) U_LF :: codeunit where "U_LF \<equiv> 0x0a"
abbreviation (input) U_CR :: codeunit where "U_CR \<equiv> 0x0d"
abbreviation (input) U_TAB :: codeunit where "U_TAB \<equiv> 0x09"

subsection \<open>Code points: \<open>for (const ch of s)\<close> and \<open>ch.codePointAt(0)\<close>\<close>

definition high_surrogate :: "codeunit \<Rightarrow> bool" where
  "high_surrogate u \<longleftrightarrow> 0xd800 \<le> u \<and> u \<le> 0xdbff"

definition low_surrogate :: "codeunit \<Rightarrow> bool" where
  "low_surrogate u \<longleftrightarrow> 0xdc00 \<le> u \<and> u \<le> 0xdfff"

fun code_points :: "ustring \<Rightarrow> ustring list" where
  "code_points [] = []"
| "code_points [u] = [[u]]"
| "code_points (u # v # s) =
     (if high_surrogate u \<and> low_surrogate v then [u, v] # code_points s
      else [u] # code_points (v # s))"

fun code_point_at0 :: "ustring \<Rightarrow> nat" where
  "code_point_at0 [] = 0"
| "code_point_at0 [u] = u"
| "code_point_at0 (u # v # s) =
     (if high_surrogate u \<and> low_surrogate v
      then (u - 0xd800) * 0x400 + (v - 0xdc00) + 0x10000 else u)"

lemmas [js_defs] = high_surrogate_def low_surrogate_def

lemma concat_code_points [simp]: "concat (code_points s) = s"
  by (induction s rule: code_points.induct) auto

lemma code_points_shape:
  "ch \<in> set (code_points s) \<Longrightarrow>
     (\<exists>u. ch = [u]) \<or> (\<exists>u v. ch = [u, v] \<and> high_surrogate u \<and> low_surrogate v)"
  by (induction s rule: code_points.induct) (auto split: if_splits)

lemma code_points_cases [consumes 1, case_names unit pair]:
  assumes "ch \<in> set (code_points s)"
  obtains u where "ch = [u]"
  | u v where "ch = [u, v]" "high_surrogate u" "low_surrogate v"
  using code_points_shape [OF assms] by blast

subsection \<open>Searching and cutting\<close>

definition starts_with :: "ustring \<Rightarrow> ustring \<Rightarrow> bool" where
  "starts_with s p \<longleftrightarrow> prefix p s"

definition ends_with :: "ustring \<Rightarrow> ustring \<Rightarrow> bool" where
  "ends_with s p \<longleftrightarrow> suffix p s"

lemmas [js_defs] = starts_with_def ends_with_def

text \<open>\<open>s.slice(i, j)\<close> for \<open>0 \<le> i \<le> j\<close>, and \<open>s.slice(0, -n)\<close>.\<close>

definition slice :: "ustring \<Rightarrow> nat \<Rightarrow> nat \<Rightarrow> ustring" where
  "slice s i j = take (j - i) (drop i s)"

definition slice_drop_end :: "ustring \<Rightarrow> nat \<Rightarrow> ustring" where
  "slice_drop_end s n = take (length s - n) s"

text \<open>\<open>s.split(sep)[0]\<close> for a one-character separator: everything before the first separator.\<close>

definition split_first :: "codeunit \<Rightarrow> ustring \<Rightarrow> ustring" where
  "split_first c s = takeWhile (\<lambda>u. u \<noteq> c) s"

lemmas [js_defs] = slice_def slice_drop_end_def split_first_def

text \<open>\<open>s.split(c)\<close> and \<open>parts.join(c)\<close> for a one-character separator.\<close>

fun split_on :: "codeunit \<Rightarrow> ustring \<Rightarrow> ustring list" where
  "split_on c [] = [[]]"
| "split_on c (u # s) =
     (if u = c then [] # split_on c s
      else (case split_on c s of [] \<Rightarrow> [[u]] | w # ws \<Rightarrow> (u # w) # ws))"

fun join_with :: "codeunit \<Rightarrow> ustring list \<Rightarrow> ustring" where
  "join_with c [] = []"
| "join_with c [w] = w"
| "join_with c (w # v # ws) = w @ c # join_with c (v # ws)"

lemma split_on_nonempty [simp]: "split_on c s \<noteq> []"
  by (induction s) (auto split: list.splits)

lemma split_on_no_sep: "w \<in> set (split_on c s) \<Longrightarrow> c \<notin> set w"
  by (induction s arbitrary: w) (auto split: if_splits list.splits)

lemma split_on_free: "c \<notin> set w \<Longrightarrow> split_on c w = [w]"
  by (induction w) auto

lemma split_on_snoc: "c \<notin> set w \<Longrightarrow> split_on c (s @ c # w) = split_on c s @ [w]"
  by (induction s) (auto simp: split_on_free Cons_eq_append_conv split: list.splits)

lemma split_on_append: "split_on c (s @ c # t) = split_on c s @ split_on c t"
  by (induction s) (auto simp: Cons_eq_append_conv split: list.splits)

lemma join_split [simp]: "join_with c (split_on c s) = s"
proof (induction s)
  case (Cons u s)
  then show ?case
    by (cases "split_on c s"; cases "tl (split_on c s)") (auto split: list.splits)
qed simp

lemma split_join: "\<lbrakk>ls \<noteq> []; \<And>l. l \<in> set ls \<Longrightarrow> c \<notin> set l\<rbrakk> \<Longrightarrow> split_on c (join_with c ls) = ls"
proof (induction ls)
  case (Cons l ls)
  then show ?case by (cases ls) (simp_all add: split_on_free split_on_append)
qed simp

lemma split_first_notin [simp]: "c \<notin> set (split_first c s)"
  by (induction s) (auto simp: split_first_def)

lemma split_first_prefix: "prefix (split_first c s) s"
  by (simp add: split_first_def takeWhile_is_prefix)

text \<open>
  \<open>s.trim()\<close>: WhiteSpace and LineTerminator code points of ECMAScript, all in the basic plane.
\<close>

definition js_space :: "codeunit \<Rightarrow> bool" where
  "js_space u \<longleftrightarrow> u \<in> {0x09, 0x0a, 0x0b, 0x0c, 0x0d, 0x20, 0xa0, 0x1680, 0x2028, 0x2029,
     0x202f, 0x205f, 0x3000, 0xfeff} \<or> (0x2000 \<le> u \<and> u \<le> 0x200a)"

definition trim :: "ustring \<Rightarrow> ustring" where
  "trim s = rev (dropWhile js_space (rev (dropWhile js_space s)))"

text \<open>What was stripped at both ends has nothing left to strip.\<close>

lemma stripped_twice:
  "dropWhile P (rev (dropWhile P (rev (dropWhile P s)))) = rev (dropWhile P (rev (dropWhile P s)))"
proof (cases "rev (dropWhile P (rev (dropWhile P s)))")
  case (Cons u r)
  have "suffix (dropWhile P (rev (dropWhile P s))) (rev (dropWhile P s))" by (rule suffix_dropWhile)
  then have "prefix (u # r) (dropWhile P s)" unfolding Cons [symmetric] by (simp add: suffix_to_prefix)
  then obtain zs where "dropWhile P s = u # r @ zs" unfolding prefix_def by auto
  then have "\<not> P u" using hd_dropWhile [of P s] by (metis list.distinct(1) list.sel(1))
  then show ?thesis unfolding Cons by simp
next
  case Nil
  show ?thesis unfolding Nil by simp
qed

lemma trim_trim: "trim (trim s) = trim s"
  by (simp add: trim_def stripped_twice)

lemmas [js_defs] = js_space_def trim_def

section \<open>Printing numbers\<close>

text \<open>\<open>n.toString(b)\<close> for a natural number and \<open>s.padStart(w, '0')\<close>.\<close>

definition digit_char :: "nat \<Rightarrow> codeunit" where
  "digit_char d = (if d < 10 then 0x30 + d else 0x61 + (d - 10))"

fun radix_aux :: "nat \<Rightarrow> nat \<Rightarrow> ustring \<Rightarrow> ustring" where
  "radix_aux b n acc =
     (if b < 2 \<or> n < b then digit_char n # acc
      else radix_aux b (n div b) (digit_char (n mod b) # acc))"

declare radix_aux.simps [simp del]

definition to_radix :: "nat \<Rightarrow> nat \<Rightarrow> ustring" where
  "to_radix b n = radix_aux b n []"

definition show_nat :: "nat \<Rightarrow> ustring" where
  "show_nat n = to_radix 10 n"

definition pad_start :: "nat \<Rightarrow> codeunit \<Rightarrow> ustring \<Rightarrow> ustring" where
  "pad_start w c s = replicate (w - length s) c @ s"

text \<open>Two conditional equations: they evaluate closed terms and never unfold an open one.\<close>

lemma radix_aux_last: "n < b \<Longrightarrow> radix_aux b n acc = digit_char n # acc"
  by (simp add: radix_aux.simps [of b n acc])

lemma radix_aux_step:
  "2 \<le> b \<Longrightarrow> b \<le> n \<Longrightarrow> radix_aux b n acc = radix_aux b (n div b) (digit_char (n mod b) # acc)"
  by (simp add: radix_aux.simps [of b n acc])

lemmas [js_defs] = digit_char_def to_radix_def show_nat_def pad_start_def
  radix_aux_last radix_aux_step

subsection \<open>Reading digits back\<close>

definition digit_value :: "codeunit \<Rightarrow> nat" where
  "digit_value u = u - 0x30"

definition is_digit :: "codeunit \<Rightarrow> bool" where
  "is_digit u \<longleftrightarrow> 0x30 \<le> u \<and> u \<le> 0x39"

definition read_digits :: "ustring \<Rightarrow> nat" where
  "read_digits s = foldl (\<lambda>n u. 10 * n + digit_value u) 0 s"

lemmas [js_defs] = digit_value_def is_digit_def read_digits_def

lemma radix10_digits: "\<forall>u \<in> set (radix_aux 10 n acc). is_digit u \<or> u \<in> set acc"
proof (induction "10 :: nat" n acc rule: radix_aux.induct)
  case (1 n acc)
  show ?case
  proof (cases "n < 10")
    case True
    then show ?thesis by (subst radix_aux.simps) (simp add: digit_char_def is_digit_def)
  next
    case False
    then have ih: "\<forall>u\<in>set (radix_aux 10 (n div 10) (digit_char (n mod 10) # acc)).
        is_digit u \<or> u \<in> set (digit_char (n mod 10) # acc)"
      using "1" by simp
    have "n mod 10 < 10" by simp
    then have d: "is_digit (digit_char (n mod 10))"
      by (simp add: digit_char_def is_digit_def)
    show ?thesis
      using False ih d by (subst radix_aux.simps) auto
  qed
qed

lemma show_nat_digits: "u \<in> set (show_nat n) \<Longrightarrow> is_digit u"
  using radix10_digits [of n "[]"] by (simp add: show_nat_def to_radix_def)

lemma read_radix10:
  "foldl (\<lambda>n u. 10 * n + digit_value u) 0 (radix_aux 10 n acc)
     = foldl (\<lambda>n u. 10 * n + digit_value u) n acc"
proof (induction "10 :: nat" n acc rule: radix_aux.induct)
  case (1 n acc)
  have dv: "d < 10 \<Longrightarrow> digit_value (digit_char d) = d" for d
    by (simp add: digit_value_def digit_char_def)
  show ?case
  proof (cases "n < 10")
    case True
    then show ?thesis by (simp add: radix_aux.simps [of 10 n acc] dv)
  next
    case False
    then show ?thesis using "1" by (simp add: radix_aux.simps [of 10 n acc] dv)
  qed
qed

lemma read_show_nat [simp]: "read_digits (show_nat n) = n"
  by (simp add: read_digits_def show_nat_def to_radix_def read_radix10)

lemma show_nat_inject [simp]: "show_nat m = show_nat n \<longleftrightarrow> m = n"
  by (metis read_show_nat)

lemma radix_aux_nonempty [simp]: "radix_aux b n acc \<noteq> []"
  by (induction b n acc rule: radix_aux.induct) (subst radix_aux.simps, auto)

lemma show_nat_nonempty [simp]: "show_nat n \<noteq> []"
  by (simp add: show_nat_def to_radix_def)

section \<open>Lists\<close>

text \<open>\<open>Array.prototype.find\<close> is \<open>List.find\<close>; \<open>some\<close> is \<open>list_ex\<close>.\<close>

lemma find_Some_mem: "List.find P xs = Some x \<Longrightarrow> x \<in> set xs \<and> P x"
  by (auto simp: find_Some_iff)

lemma distinct_map_filter_id: "distinct (map f xs) \<Longrightarrow> distinct (map f (filter P xs))"
  by (rule distinct_map_filter)

section \<open>Query parameters\<close>

text \<open>
  A \<open>URLSearchParams\<close> object: its pairs in order. \<open>set\<close> overwrites the first pair of a key and
  drops its others, or appends; parsing and printing the query string is the platform's.
\<close>

type_synonym query = "(ustring \<times> ustring) list"

definition params_get :: "query \<Rightarrow> ustring \<Rightarrow> ustring option" where
  "params_get q k = map_of q k"

definition params_delete :: "ustring \<Rightarrow> query \<Rightarrow> query" where
  "params_delete k q = filter (\<lambda>(k', v). k' \<noteq> k) q"

fun params_set :: "ustring \<Rightarrow> ustring \<Rightarrow> query \<Rightarrow> query" where
  "params_set k v [] = [(k, v)]"
| "params_set k v ((k', v') # q) =
     (if k' = k then (k, v) # params_delete k q else (k', v') # params_set k v q)"

lemma params_get_delete [simp]:
  "params_get (params_delete k q) k' = (if k' = k then None else params_get q k')"
  by (induction q) (auto simp: params_get_def params_delete_def)

lemma params_get_set [simp]:
  "params_get (params_set k v q) k' = (if k' = k then Some v else params_get q k')"
proof (induction q)
  case (Cons p q)
  then show ?case
    using params_get_delete [of k q k']
    by (cases p) (auto simp: params_get_def)
qed (simp add: params_get_def)

section \<open>JSON values\<close>

text \<open>What \<open>JSON.parse\<close> returns; the names in an object are distinct.\<close>

datatype json =
    JNull | JBool bool | JNumber rat | JString ustring
  | JArray "json list" | JObject "(ustring \<times> json) list"

end
