(* ===== verification/Escape_Codec.thy ===== *)
theory Escape_Codec
  imports Prelude
begin

text \<open>
  \<open>components/Terminal/escapeCodec.ts\<close>: the two-way conversion between the raw byte string of a
  key binding and its editable text form.
\<close>

section \<open>Definitions\<close>

text \<open>The loop body of \<open>bytesToDisplay\<close> for one code point \<open>ch\<close>.\<close>

definition display_char :: "ustring \<Rightarrow> ustring" where
  "display_char ch =
     (let code = code_point_at0 ch in
      if ch = [U_BACKSLASH] then [U_BACKSLASH, U_BACKSLASH]
      else if code = 0x1b then U_BACKSLASH # js ''x1b''
      else if code = 0x09 then U_BACKSLASH # js ''t''
      else if code = 0x0d then U_BACKSLASH # js ''r''
      else if code = 0x0a then U_BACKSLASH # js ''n''
      else if code < 0x20 \<or> code = 0x7f
        then U_BACKSLASH # js ''x'' @ pad_start 2 0x30 (to_radix 16 code)
      else ch)"

definition bytes_to_display :: "ustring \<Rightarrow> ustring" where
  "bytes_to_display bytes = concat (map display_char (code_points bytes))"

definition hex_value :: "codeunit \<Rightarrow> nat option" where
  "hex_value u =
     (if 0x30 \<le> u \<and> u \<le> 0x39 then Some (u - 0x30)
      else if 0x61 \<le> u \<and> u \<le> 0x66 then Some (u - 0x61 + 10)
      else if 0x41 \<le> u \<and> u \<le> 0x46 then Some (u - 0x41 + 10)
      else None)"

text \<open>
  \<open>/^[0-9a-fA-F]{2}$/.test(s)\<close> together with \<open>parseInt(s, 16)\<close>: the value when \<open>s\<close> is exactly
  two hexadecimal digits.
\<close>

fun hex_pair :: "ustring \<Rightarrow> nat option" where
  "hex_pair [a, b] =
     (case (hex_value a, hex_value b) of (Some x, Some y) \<Rightarrow> Some (16 * x + y) | _ \<Rightarrow> None)"
| "hex_pair _ = None"

text \<open>
  \<open>displayToBytes\<close>: the index loop is a recursion over the rest of the text; a branch that
  advances \<open>i\<close> past an escape recurses on the text after it.
\<close>

function display_to_bytes :: "ustring \<Rightarrow> ustring" where
  "display_to_bytes [] = []"
| "display_to_bytes [ch] = [ch]"
| "display_to_bytes (ch # nxt # more) =
     (if ch = U_BACKSLASH then
        (if nxt = 0x78 \<and> hex_pair (take 2 more) \<noteq> None
           then the (hex_pair (take 2 more)) # display_to_bytes (drop 2 more)
         else if nxt = 0x74 then U_TAB # display_to_bytes more
         else if nxt = 0x6e then U_LF # display_to_bytes more
         else if nxt = 0x72 then U_CR # display_to_bytes more
         else if nxt = 0x65 then U_ESC # display_to_bytes more
         else if nxt = U_BACKSLASH then U_BACKSLASH # display_to_bytes more
         else ch # display_to_bytes (nxt # more))
      else ch # display_to_bytes (nxt # more))"
  by pat_completeness auto
termination
  by (relation "measure length") auto

section \<open>Decoding what was printed\<close>

lemma display_to_bytes_plain:
  "u \<noteq> U_BACKSLASH \<Longrightarrow> display_to_bytes (u # s) = u # display_to_bytes s"
  by (cases s) auto

text \<open>
  Every character \<open>display_char\<close> escapes is below \<open>0x80\<close>, so the escape is one of finitely many
  words; the decoder reads each of them back.
\<close>

lemma hex_escape_table:
  "\<forall>code \<in> set ([0..<0x20] @ [0x7f]).
     (\<exists>a b. pad_start 2 0x30 (to_radix 16 code) = [a, b] \<and> hex_pair [a, b] = Some code)"
  by (simp add: upt_rec js_defs hex_value_def)

lemma hex_escape_decodes:
  assumes "code < 0x20 \<or> code = 0x7f"
  shows "display_to_bytes (U_BACKSLASH # 0x78 # pad_start 2 0x30 (to_radix 16 code) @ s)
           = code # display_to_bytes s"
proof -
  have "code \<in> set ([0..<0x20] @ [0x7f])" using assms by auto
  with hex_escape_table obtain a b where
    "pad_start 2 0x30 (to_radix 16 code) = [a, b]" "hex_pair [a, b] = Some code"
    by blast
  then show ?thesis by (simp del: hex_pair.simps)
qed

lemma display_char_decodes:
  assumes "ch \<in> set (code_points s)"
  shows "display_to_bytes (display_char ch @ t) = ch @ display_to_bytes t"
  using assms
proof (cases rule: code_points_cases)
  case (unit u)
  consider "u = U_BACKSLASH" | "u = 0x1b" | "u = 0x09" | "u = 0x0d" | "u = 0x0a"
    | "u \<notin> {0x1b, 0x09, 0x0d, 0x0a}" "u < 0x20 \<or> u = 0x7f"
    | "u \<noteq> U_BACKSLASH" "\<not> (u < 0x20 \<or> u = 0x7f)"
    by auto
  then show ?thesis
  proof cases
    case 6
    then have "display_char ch = U_BACKSLASH # 0x78 # pad_start 2 0x30 (to_radix 16 u)"
      using unit by (auto simp: display_char_def js_def)
    then show ?thesis using unit hex_escape_decodes [OF 6(2)] by simp
  qed (use unit in \<open>auto simp: display_char_def js_def hex_value_def display_to_bytes_plain
         numeral_2_eq_2\<close>)
next
  case (pair u v)
  then have "u \<noteq> U_BACKSLASH" "v \<noteq> U_BACKSLASH" "\<not> code_point_at0 ch < 0x80"
    by (auto simp: high_surrogate_def low_surrogate_def)
  with pair show ?thesis
    by (auto simp: display_char_def display_to_bytes_plain)
qed

lemma display_to_bytes_concat:
  assumes "set chs \<subseteq> set (code_points s)"
  shows "display_to_bytes (concat (map display_char chs) @ t) = concat chs @ display_to_bytes t"
  using assms by (induction chs) (auto simp: display_char_decodes [of _ s])

section \<open>Properties\<close>

text \<open>C38: the editable text form loses nothing. For every byte string a key binding can hold,
  \<open>displayToBytes(bytesToDisplay(bytes))\<close> is \<open>bytes\<close> again: control bytes, backslashes and
  surrogate pairs included.\<close>

theorem display_roundtrip: "display_to_bytes (bytes_to_display bytes) = bytes"
  using display_to_bytes_concat [of "code_points bytes" bytes "[]"]
  by (simp add: bytes_to_display_def)

lemma hex_escape_printable:
  assumes "code < 0x20 \<or> code = 0x7f"
  shows "\<forall>u \<in> set (pad_start 2 0x30 (to_radix 16 code)). 0x20 \<le> u \<and> u \<noteq> 0x7f"
proof -
  have "\<forall>code \<in> set ([0..<0x20] @ [0x7f]).
      \<forall>u \<in> set (pad_start 2 0x30 (to_radix 16 code)). 0x20 \<le> u \<and> u \<noteq> (0x7f :: nat)"
    by (simp add: upt_rec js_defs)
  moreover have "code \<in> set ([0..<0x20] @ [0x7f])" using assms by auto
  ultimately show ?thesis by blast
qed

lemma display_char_printable:
  assumes "ch \<in> set (code_points s)" "u \<in> set (display_char ch)"
  shows "0x20 \<le> u \<and> u \<noteq> 0x7f"
  using assms
proof (cases rule: code_points_cases)
  case (unit w)
  show ?thesis
  proof (cases "w < 0x20 \<or> w = 0x7f")
    case True
    then show ?thesis
      using unit assms(2) hex_escape_printable [OF True]
      by (auto simp: display_char_def js_def split: if_splits)
  next
    case False
    then show ?thesis using unit assms(2) by (auto simp: display_char_def split: if_splits)
  qed
next
  case (pair w v)
  then show ?thesis
    using assms(2)
    by (auto simp: display_char_def high_surrogate_def low_surrogate_def)
qed

text \<open>The text form fits a plain text input. Nothing \<open>bytesToDisplay\<close> produces is a control
  character: every code unit is at least \<open>0x20\<close> and none is DEL.\<close>

lemma bytes_to_display_printable:
  "list_all (\<lambda>u. 0x20 \<le> u \<and> u \<noteq> 0x7f) (bytes_to_display bytes)"
  using display_char_printable by (auto simp: bytes_to_display_def list_all_iff)

end
