(* ===== verification/Api_Types.thy ===== *)
theory Api_Types
  imports Prelude
begin

text \<open>
  The response and settings types of \<open>api/types.ts\<close> the modelled components read, each a record
  with the source's fields. An optional field (\<open>cwd?: string\<close>) is an \<open>option\<close>; process ids are
  \<open>int\<close>, counts of bytes \<open>nat\<close> and percentages \<open>rat\<close>.
\<close>

text \<open>\<open>KeyBinding\<close>\<close>

record key_binding =
  kb_id :: ustring
  kb_label :: ustring
  kb_bytes :: ustring

text \<open>\<open>ProcessInfo\<close>\<close>

record process_info =
  pi_pid :: int
  pi_ppid :: int
  pi_name :: ustring
  pi_username :: ustring
  pi_status :: ustring
  pi_cpuPercent :: rat
  pi_memPercent :: rat
  pi_rssBytes :: nat
  pi_cmdline :: ustring

text \<open>\<open>AuthStatus\<close>; \<open>unlockedUntil?: string | null\<close> is an option, absent and null alike.\<close>

record auth_status =
  as_required :: bool
  as_unlocked :: bool
  as_unlockedUntil :: "ustring option"
  as_webauthnEnroll :: "bool option"
  as_webauthn :: "bool option"

text \<open>\<open>TerminalSessionInfo\<close>\<close>

record terminal_session_info =
  ts_name :: ustring
  ts_pinned :: bool
  ts_createdAt :: ustring
  ts_lastAttachedAt :: ustring
  ts_attached :: bool
  ts_pid :: int
  ts_cwd :: "ustring option"

text \<open>\<open>TerminalProfile\<close>\<close>

record terminal_profile =
  tp_id :: ustring
  tp_label :: ustring
  tp_cwd :: "ustring option"
  tp_command :: "ustring option"

text \<open>\<open>FileEntry\<close>, \<open>FileContent\<close>, \<open>FileOpResult\<close> and \<open>FileUploadResult\<close>; \<open>exists?: boolean\<close> is false when absent.\<close>

record file_entry =
  fe_name :: ustring
  fe_path :: ustring
  fe_isDir :: bool
  fe_isSymlink :: bool
  fe_symlinkTarget :: "ustring option"
  fe_size :: nat
  fe_mode :: ustring
  fe_modTime :: ustring

record file_content =
  fc_content :: ustring
  fc_truncated :: bool
  fc_version :: ustring

record file_op_result =
  fo_path :: ustring
  fo_ok :: bool
  fo_error :: "ustring option"
  fo_exists :: bool

record file_upload_result =
  fu_name :: ustring
  fu_ok :: bool
  fu_error :: "ustring option"
  fu_exists :: bool

end
