(* ===== verification/Modifiers.thy ===== *)
theory Modifiers
  imports Api_Types "HOL-Library.Word"
begin

text \<open>
  \<open>components/Terminal/keybindings.ts\<close> and \<open>modifiers.ts\<close>: the default control-bar bindings and
  the byte transforms of the sticky Ctrl/Alt/Shift modifiers.
\<close>

section \<open>Key bindings\<close>

datatype modifier_id = Ctrl | Alt | Shift

definition MODIFIER_IDS :: "ustring list" where
  "MODIFIER_IDS = [js ''ctrl'', js ''alt'', js ''shift'']"

definition isModifierBinding :: "ustring \<Rightarrow> bool" where
  "isModifierBinding i \<longleftrightarrow> List.member MODIFIER_IDS i"

text \<open>The value of type \<open>ModifierId\<close> a string is, where it is one.\<close>

definition modifier_of_id :: "ustring \<Rightarrow> modifier_id option" where
  "modifier_of_id i =
     (if i = js ''ctrl'' then Some Ctrl else if i = js ''alt'' then Some Alt
      else if i = js ''shift'' then Some Shift else None)"

definition DEFAULT_KEYBINDINGS :: "key_binding list" where
  "DEFAULT_KEYBINDINGS =
    [\<lparr>kb_id = js ''esc'', kb_label = js ''Esc'', kb_bytes = [0x1b]\<rparr>,
     \<lparr>kb_id = js ''ctrl'', kb_label = js ''Ctrl'', kb_bytes = []\<rparr>,
     \<lparr>kb_id = js ''alt'', kb_label = js ''Alt'', kb_bytes = []\<rparr>,
     \<lparr>kb_id = js ''shift'', kb_label = js ''Shift'', kb_bytes = []\<rparr>,
     \<lparr>kb_id = js ''tab'', kb_label = js ''Tab'', kb_bytes = [0x09]\<rparr>,
     \<lparr>kb_id = js ''up'', kb_label = [0x2191], kb_bytes = 0x1b # js ''[A''\<rparr>,
     \<lparr>kb_id = js ''down'', kb_label = [0x2193], kb_bytes = 0x1b # js ''[B''\<rparr>,
     \<lparr>kb_id = js ''left'', kb_label = [0x2190], kb_bytes = 0x1b # js ''[D''\<rparr>,
     \<lparr>kb_id = js ''right'', kb_label = [0x2192], kb_bytes = 0x1b # js ''[C''\<rparr>]"

lemma modifier_of_id_iff: "isModifierBinding i \<longleftrightarrow> modifier_of_id i \<noteq> None"
  by (simp add: isModifierBinding_def MODIFIER_IDS_def modifier_of_id_def)

section \<open>Modifier transforms\<close>

text \<open>\<open>/^[a-zA-Z@[\]\\^_?]$/\<close> on a one-unit string.\<close>

definition CTRL_MAPPABLE :: "codeunit \<Rightarrow> bool" where
  "CTRL_MAPPABLE u \<longleftrightarrow>
     (0x61 \<le> u \<and> u \<le> 0x7a) \<or> (0x41 \<le> u \<and> u \<le> 0x5a) \<or>
     u \<in> {0x40, 0x5b, 0x5d, 0x5c, 0x5e, 0x5f, 0x3f}"

definition applyCtrl :: "ustring \<Rightarrow> ustring" where
  "applyCtrl data =
     (case data of
        [u] \<Rightarrow> if CTRL_MAPPABLE u then [unat (and (of_nat u :: 16 word) 0x1f)] else data
      | _ \<Rightarrow> data)"

definition applyAlt :: "ustring \<Rightarrow> ustring" where
  "applyAlt data = 0x1b # data"

definition SHIFT_ARROWS :: "ustring \<Rightarrow> ustring option" where
  "SHIFT_ARROWS = map_of
     [(0x1b # js ''[A'', 0x1b # js ''[1;2A''),
      (0x1b # js ''[B'', 0x1b # js ''[1;2B''),
      (0x1b # js ''[C'', 0x1b # js ''[1;2C''),
      (0x1b # js ''[D'', 0x1b # js ''[1;2D'')]"

definition applyShift :: "ustring \<Rightarrow> ustring" where
  "applyShift data =
     (if data = [0x09] then 0x1b # js ''[Z''
      else case SHIFT_ARROWS data of Some d \<Rightarrow> d | None \<Rightarrow> data)"

fun applyModifier :: "modifier_id \<Rightarrow> ustring \<Rightarrow> ustring" where
  "applyModifier Ctrl data = applyCtrl data"
| "applyModifier Alt data = applyAlt data"
| "applyModifier Shift data = applyShift data"

section \<open>Properties\<close>

lemma unat_of_nat16: "unat (of_nat u :: 16 word) = u mod 65536"
proof (subst unat_of_nat, rule arg_cong [where f = "\<lambda>x. u mod x"])
  show "(2 :: nat) ^ LENGTH(16) = 65536" by simp
qed

lemma nat_and_low5: "and (n :: nat) 31 = n mod 32"
proof -
  have "take_bit 5 n = and n (mask 5)" by (rule take_bit_eq_mask)
  then show ?thesis by (simp add: take_bit_eq_mod mask_eq_exp_minus_1)
qed

lemma and_low5: "unat (and (of_nat u :: 16 word) 0x1f) = u mod 32"
proof -
  have "unat (and (of_nat u :: 16 word) 0x1f) = and (unat (of_nat u :: 16 word)) (unat (0x1f :: 16 word))"
    by (rule unsigned_and_eq)
  also have "unat (0x1f :: 16 word) = 31" by simp
  also have "and (unat (of_nat u :: 16 word)) 31 = unat (of_nat u :: 16 word) mod 32"
    by (rule nat_and_low5)
  also have "unat (of_nat u :: 16 word) = u mod 65536"
    by (rule unat_of_nat16)
  also have "u mod 65536 mod 32 = u mod 32"
    by (rule mod_mod_cancel) simp
  finally show ?thesis .
qed

lemma applyCtrl_unit: "CTRL_MAPPABLE u \<Longrightarrow> applyCtrl [u] = [u mod 32]"
  by (simp add: applyCtrl_def and_low5)

text \<open>Ctrl turns a mappable key into one control byte, the same one for either case of a
  letter: for every letter code \<open>u\<close> in \<open>A..Z\<close>, Ctrl on the upper-case and on the lower-case
  letter both send the single byte \<open>u - 0x40\<close>, between 1 and 26; everything that is not a single
  mappable character is sent unchanged.\<close>

lemma applyCtrl_letters:
  "(\<forall>u \<in> {0x41..0x5a}. applyCtrl [u] = [u - 0x40] \<and> applyCtrl [u + 0x20] = [u - 0x40]
      \<and> 1 \<le> u - 0x40 \<and> u - 0x40 \<le> 26)
   \<and> (\<forall>data. (\<forall>u. data = [u] \<longrightarrow> \<not> CTRL_MAPPABLE u) \<longrightarrow> applyCtrl data = data)"
proof (intro conjI ballI allI impI)
  fix u :: nat assume u: "u \<in> {0x41..0x5a}"
  then have m: "CTRL_MAPPABLE u" "CTRL_MAPPABLE (u + 0x20)" by (auto simp: CTRL_MAPPABLE_def)
  from u obtain k where k: "u = k + 64" "k < 32" by (intro that [of "u - 64"]) auto
  then have "(k + 2 * 32) mod 32 = k" "(k + 3 * 32) mod 32 = k"
    by (simp_all only: mod_mult_self1 mod_less)
  then have r: "u mod 32 = u - 0x40" "(u + 0x20) mod 32 = u - 0x40"
    by (simp_all add: k(1) add.commute)
  show "applyCtrl [u] = [u - 0x40]" "applyCtrl [u + 0x20] = [u - 0x40]"
    using m r by (simp_all add: applyCtrl_unit)
  show "1 \<le> u - 0x40" "u - 0x40 \<le> 26" using u by auto
next
  fix data assume "\<forall>u. data = [u] \<longrightarrow> \<not> CTRL_MAPPABLE u"
  then show "applyCtrl data = data" by (auto simp: applyCtrl_def split: list.splits)
qed

lemma applyCtrl_letters_witness:
  "applyCtrl (js ''C'') = [3] \<and> applyCtrl (js ''c'') = [3] \<and> applyCtrl (js ''ls'') = js ''ls''"
proof -
  have a: "(0x43 :: nat) \<in> {0x41..0x5a}" by simp
  have b: "\<forall>u. js ''ls'' = [u] \<longrightarrow> \<not> CTRL_MAPPABLE u" by (simp add: js_def)
  show ?thesis
    using bspec [OF conjunct1 [OF applyCtrl_letters] a]
      spec [OF conjunct2 [OF applyCtrl_letters], of "js ''ls''"] b
    by (simp add: js_def)
qed

end
