(* ===== verification/Project_Path.thy ===== *)
theory Project_Path
  imports Prelude
begin

text \<open>
  \<open>utils/projectPath.ts\<close>: from a session's live directory to the project it belongs to, and the
  converse test the Projects sheet uses.
\<close>

section \<open>Definitions\<close>

text \<open>\<open>root.endsWith('/') ? root : `${root}/`\<close>, in both functions.\<close>

definition with_slash :: "ustring \<Rightarrow> ustring" where
  "with_slash base = (if ends_with base [U_SLASH] then base else base @ [U_SLASH])"

fun project_in_roots :: "ustring \<Rightarrow> ustring list \<Rightarrow> ustring option" where
  "project_in_roots cwd [] = None"
| "project_in_roots cwd (base # roots) =
     (let prefix = with_slash base in
      if \<not> starts_with cwd prefix then project_in_roots cwd roots
      else let rest = drop (length prefix) cwd;
               segment = split_first U_SLASH rest
           in if segment = [] then project_in_roots cwd roots
              else Some (prefix @ segment))"

definition projectPathForCwd :: "ustring \<Rightarrow> ustring list \<Rightarrow> ustring option" where
  "projectPathForCwd cwd roots = (if cwd = [] then None else project_in_roots cwd roots)"

definition isUnderProjectPath :: "ustring \<Rightarrow> ustring \<Rightarrow> bool" where
  "isUnderProjectPath path projectPath =
     (if path = [] \<or> projectPath = [] then False
      else if path = projectPath then True
      else starts_with path (with_slash projectPath))"

section \<open>Lemmas\<close>

lemma with_slash_nonempty [simp]: "with_slash base \<noteq> []"
  by (auto simp: with_slash_def ends_with_def)

lemma with_slash_suffix: "suffix [U_SLASH] (with_slash base)"
  by (simp add: with_slash_def ends_with_def)

lemma with_slash_snoc: "last s \<noteq> U_SLASH \<Longrightarrow> s \<noteq> [] \<Longrightarrow> with_slash s = s @ [U_SLASH]"
  by (auto simp: with_slash_def ends_with_def suffix_def)

lemma split_first_rest:
  "rest = split_first c rest \<or> (\<exists>more. rest = split_first c rest @ c # more)"
  by (induction rest) (auto simp: split_first_def)

lemma segment_covers:
  assumes "rest \<noteq> []" "split_first U_SLASH rest \<noteq> []"
  shows "isUnderProjectPath (p @ rest) (p @ split_first U_SLASH rest)"
proof -
  let ?seg = "split_first U_SLASH rest"
  have "last ?seg \<noteq> U_SLASH"
    using assms(2) split_first_notin [of U_SLASH rest] last_in_set by fastforce
  then have ws: "with_slash (p @ ?seg) = p @ ?seg @ [U_SLASH]"
    using assms(2) by (simp add: with_slash_snoc)
  from split_first_rest [of rest U_SLASH] show ?thesis
  proof
    assume "rest = ?seg"
    then show ?thesis using assms by (simp add: isUnderProjectPath_def)
  next
    assume "\<exists>more. rest = ?seg @ U_SLASH # more"
    then obtain more where r: "rest = ?seg @ U_SLASH # more" by blast
    have "prefix (p @ ?seg @ [U_SLASH]) (p @ rest)"
      by (subst (2) r) simp
    then show ?thesis
      using assms ws by (simp add: isUnderProjectPath_def starts_with_def)
  qed
qed

lemma project_in_roots_Some:
  "project_in_roots cwd roots = Some p \<Longrightarrow>
     \<exists>base \<in> set roots. \<exists>rest. cwd = with_slash base @ rest \<and> rest \<noteq> []
       \<and> split_first U_SLASH rest \<noteq> [] \<and> p = with_slash base @ split_first U_SLASH rest"
proof (induction roots)
  case (Cons base roots)
  show ?case
  proof (cases "starts_with cwd (with_slash base)
      \<and> split_first U_SLASH (drop (length (with_slash base)) cwd) \<noteq> []")
    case True
    then obtain rest where "cwd = with_slash base @ rest" by (auto simp: starts_with_def prefix_def)
    with True Cons.prems show ?thesis
      by (intro bexI [of _ base] exI [of _ rest]) (auto simp: Let_def split_first_def)
  next
    case False
    then have "project_in_roots cwd roots = Some p"
      using Cons.prems by (auto simp: Let_def split: if_splits)
    then show ?thesis using Cons.IH by auto
  qed
qed simp

section \<open>Properties\<close>

text \<open>The project found for a directory is one level below a configured root and contains
  the directory: when \<open>projectPathForCwd(cwd, roots)\<close> answers \<open>p\<close>, \<open>p\<close> is some root, a slash and
  one non-empty segment without a slash, and \<open>isUnderProjectPath(cwd, p)\<close> holds - so the jump
  from a session to its project and the list of sessions open under a project agree.\<close>

lemma projectPathForCwd_sound:
  assumes "projectPathForCwd cwd roots = Some p"
  shows "isUnderProjectPath cwd p \<and>
    (\<exists>base \<in> set roots. \<exists>seg. p = with_slash base @ seg \<and> seg \<noteq> [] \<and> U_SLASH \<notin> set seg)"
proof -
  from assms have "project_in_roots cwd roots = Some p"
    by (simp add: projectPathForCwd_def split: if_splits)
  then obtain base rest where *: "base \<in> set roots" "cwd = with_slash base @ rest" "rest \<noteq> []"
    "split_first U_SLASH rest \<noteq> []" "p = with_slash base @ split_first U_SLASH rest"
    using project_in_roots_Some by blast
  have "isUnderProjectPath cwd p" using * segment_covers by simp
  then show ?thesis using * split_first_notin by blast
qed

lemma projectPathForCwd_sound_witness:
  "projectPathForCwd (js ''/code/P/app/src'') [js ''/srv'', js ''/code/P''] = Some (js ''/code/P/app'')
   \<and> isUnderProjectPath (js ''/code/P/app/src'') (js ''/code/P/app'')"
proof -
  have h: "projectPathForCwd (js ''/code/P/app/src'') [js ''/srv'', js ''/code/P'']
      = Some (js ''/code/P/app'')"
    by (simp add: projectPathForCwd_def with_slash_def js_defs suffix_def)
  show ?thesis using h projectPathForCwd_sound [OF h] by simp
qed

end
