(* ===== verification/Ordering.thy ===== *)
theory Ordering
  imports Api_Types "HOL-Library.Multiset"
begin

text \<open>
  User-chosen orders: \<open>reconcileTabOrder\<close> and \<open>handleDrop\<close> of \<open>Terminal/TerminalTabs.tsx\<close>,
  \<open>reconcileOrder\<close> and \<open>handleDrop\<close> of \<open>Layout/Sidebar.tsx\<close> and \<open>handleProfileDrop\<close> of
  \<open>Terminal/TerminalHome.tsx\<close>. The bodies are the same list logic on different item types, so
  they are defined once over a key function. The interface a drag-and-drop list relies on is the
  locale \<open>reconciling\<close>.
\<close>

section \<open>Applying a saved order\<close>

text \<open>\<open>new Map(items.map((i) => [i.id, i]))\<close>: a later item of the same key wins.\<close>

definition by_key :: "('a \<Rightarrow> 'k) \<Rightarrow> 'a list \<Rightarrow> 'k \<Rightarrow> 'a option" where
  "by_key key items = map_of (rev (map (\<lambda>i. (key i, i)) items))"

text \<open>The first loop: state is the result so far and the keys seen.\<close>

fun place_saved :: "('k \<Rightarrow> 'a option) \<Rightarrow> 'k list \<Rightarrow> 'a list \<Rightarrow> 'k list \<Rightarrow> 'a list \<times> 'k list" where
  "place_saved m [] ordered seen = (ordered, seen)"
| "place_saved m (k # ks) ordered seen =
     (case m k of
        Some item \<Rightarrow> if k \<notin> set seen then place_saved m ks (ordered @ [item]) (k # seen)
                     else place_saved m ks ordered seen
      | None \<Rightarrow> place_saved m ks ordered seen)"

definition reconcile :: "('a \<Rightarrow> 'k) \<Rightarrow> 'a list \<Rightarrow> 'k list \<Rightarrow> 'a list" where
  "reconcile key items saved =
     (let (ordered, seen) = place_saved (by_key key items) saved [] []
      in ordered @ filter (\<lambda>i. key i \<notin> set seen) items)"

definition reconcileTabOrder ::
  "terminal_session_info list \<Rightarrow> ustring list \<Rightarrow> terminal_session_info list" where
  "reconcileTabOrder sessions order = reconcile ts_name sessions order"

record sidebar_item =
  si_id :: ustring
  si_label :: ustring
  si_enabled :: "bool option"
  si_badge :: "ustring option"

definition reconcileOrder :: "sidebar_item list \<Rightarrow> ustring list \<Rightarrow> sidebar_item list" where
  "reconcileOrder items saved = reconcile si_id items saved"

text \<open>\<open>order.length > 0 ? reconcileOrder(items, order) : items\<close> in \<open>Sidebar\<close>.\<close>

definition sidebar_sections :: "sidebar_item list \<Rightarrow> ustring list \<Rightarrow> sidebar_item list" where
  "sidebar_sections items order = (if order \<noteq> [] then reconcileOrder items order else items)"

section \<open>Dropping a dragged item\<close>

fun find_index :: "('a \<Rightarrow> bool) \<Rightarrow> 'a list \<Rightarrow> nat option" where
  "find_index P [] = None"
| "find_index P (x # xs) = (if P x then Some 0 else map_option Suc (find_index P xs))"

text \<open>\<open>next.splice(from, 1)\<close> followed by \<open>next.splice(to, 0, moved)\<close>.\<close>

definition splice_move :: "nat \<Rightarrow> nat \<Rightarrow> 'a list \<Rightarrow> 'a list" where
  "splice_move i j xs =
     (let rest = take i xs @ drop (Suc i) xs in take j rest @ [xs ! i] @ drop j rest)"

text \<open>
  \<open>handleDrop(targetId)\<close> with \<open>draggedId\<close> the drag in progress (\<open>dragIdRef.current\<close>): the new
  list, or \<open>None\<close> where the handler returns without reporting an order.
\<close>

definition drop_on :: "('a \<Rightarrow> ustring) \<Rightarrow> ustring option \<Rightarrow> ustring \<Rightarrow> 'a list \<Rightarrow> 'a list option" where
  "drop_on key draggedId targetId items =
     (case draggedId of
        None \<Rightarrow> None
      | Some d \<Rightarrow>
          if d = [] \<or> d = targetId then None
          else case (find_index (\<lambda>x. key x = d) items, find_index (\<lambda>x. key x = targetId) items) of
                 (Some i, Some j) \<Rightarrow> Some (splice_move i j items)
               | _ \<Rightarrow> None)"

text \<open>\<open>handleDrop\<close> of the tab bar works on the list of names.\<close>

definition tabs_handleDrop :: "ustring option \<Rightarrow> ustring \<Rightarrow> terminal_session_info list \<Rightarrow> ustring list option" where
  "tabs_handleDrop dragged target tabs = drop_on (\<lambda>n. n) dragged target (map ts_name tabs)"

definition sidebar_handleDrop :: "ustring option \<Rightarrow> ustring \<Rightarrow> sidebar_item list \<Rightarrow> ustring list option" where
  "sidebar_handleDrop dragged target sections =
     map_option (map si_id) (drop_on si_id dragged target sections)"

definition handleProfileDrop ::
  "ustring option \<Rightarrow> ustring \<Rightarrow> terminal_profile list \<Rightarrow> terminal_profile list option" where
  "handleProfileDrop dragged target profiles = drop_on tp_id dragged target profiles"

section \<open>Lemmas on the loops\<close>

lemma by_key_Some: "by_key key items k = Some i \<Longrightarrow> i \<in> set items \<and> key i = k"
  by (auto simp: by_key_def dest: map_of_SomeD)

lemma by_key_None: "by_key key items k = None \<longleftrightarrow> k \<notin> key ` set items"
  by (auto simp: by_key_def map_of_eq_None_iff image_iff)

lemma by_key_distinct:
  assumes "distinct (map key items)" "i \<in> set items"
  shows "by_key key items (key i) = Some i"
proof -
  obtain i' where i': "by_key key items (key i) = Some i'"
    using assms(2) by_key_None [of key items "key i"] by auto
  then have "i' \<in> set items" "key i' = key i" by (auto dest: by_key_Some)
  then have "i' = i" using assms by (auto simp: distinct_map inj_on_def)
  then show ?thesis using i' by simp
qed

text \<open>The keys the first loop takes: known, first occurrence, not seen before.\<close>

fun fresh_keys :: "('k \<Rightarrow> 'a option) \<Rightarrow> 'k list \<Rightarrow> 'k list \<Rightarrow> 'k list" where
  "fresh_keys m seen [] = []"
| "fresh_keys m seen (k # ks) =
     (if m k \<noteq> None \<and> k \<notin> set seen then k # fresh_keys m (k # seen) ks
      else fresh_keys m seen ks)"

lemma place_saved_fresh:
  "place_saved m ks ordered seen =
     (ordered @ map (the \<circ> m) (fresh_keys m seen ks), rev (fresh_keys m seen ks) @ seen)"
  by (induction m ks ordered seen rule: place_saved.induct) (auto split: option.splits)

lemma set_fresh_keys: "set (fresh_keys m seen ks) = {k \<in> set ks. m k \<noteq> None} - set seen"
  by (induction m seen ks rule: fresh_keys.induct) auto

lemma distinct_fresh_keys: "distinct (fresh_keys m seen ks)"
  by (induction m seen ks rule: fresh_keys.induct) (auto simp: set_fresh_keys)

lemma fresh_keys_all:
  "distinct ks \<Longrightarrow> set ks \<inter> set seen = {} \<Longrightarrow> \<forall>k \<in> set ks. m k \<noteq> None \<Longrightarrow> fresh_keys m seen ks = ks"
  by (induction m seen ks rule: fresh_keys.induct) auto

lemma fresh_keys_restrict:
  assumes "\<And>k. m' k \<noteq> None \<Longrightarrow> m k \<noteq> None"
    and "\<And>k. m' k \<noteq> None \<Longrightarrow> k \<in> set seen' \<longleftrightarrow> k \<in> set seen"
  shows "fresh_keys m' seen' ks = filter (\<lambda>k. m' k \<noteq> None) (fresh_keys m seen ks)"
  using assms(2)
proof (induction ks arbitrary: seen seen')
  case (Cons k ks)
  show ?case
  proof (cases "m' k \<noteq> None \<and> k \<notin> set seen'")
    case True
    then show ?thesis using Cons.IH [of "k # seen'" "k # seen"] Cons.prems assms(1) by auto
  next
    case False
    then have skip: "fresh_keys m' seen' (k # ks) = fresh_keys m' seen' ks" by auto
    show ?thesis
    proof (cases "m k \<noteq> None \<and> k \<notin> set seen")
      case True
      with False Cons.prems have none: "m' k = None" by blast
      then have "fresh_keys m' seen' ks = filter (\<lambda>k. m' k \<noteq> None) (fresh_keys m (k # seen) ks)"
        using Cons.prems by (intro Cons.IH) auto
      with True none skip show ?thesis by simp
    next
      case known: False
      then have "fresh_keys m seen (k # ks) = fresh_keys m seen ks" by auto
      with skip Cons.IH [OF Cons.prems] show ?thesis by simp
    qed
  qed
qed simp

lemma reconcile_eq:
  "reconcile key items saved =
     (let ks = fresh_keys (by_key key items) [] saved
      in map (the \<circ> by_key key items) ks @ filter (\<lambda>i. key i \<notin> set ks) items)"
  by (simp add: reconcile_def place_saved_fresh Let_def)

lemma map_key_known:
  "set ks \<subseteq> key ` set items \<Longrightarrow> map key (map (the \<circ> by_key key items) ks) = ks"
proof (induction ks)
  case (Cons k ks)
  then obtain i where "by_key key items k = Some i"
    using by_key_None [of key items k] by auto
  with Cons show ?case by (auto dest: by_key_Some)
qed simp

lemma fresh_subset: "set (fresh_keys (by_key key items) [] saved) = set saved \<inter> key ` set items"
  by (auto simp: set_fresh_keys by_key_None)

lemma map_key_reconcile:
  "map key (reconcile key items saved) =
     (let ks = fresh_keys (by_key key items) [] saved
      in ks @ filter (\<lambda>k. k \<notin> set ks) (map key items))"
  using map_key_known [of "fresh_keys (by_key key items) [] saved" key items]
  by (simp add: reconcile_eq Let_def fresh_subset filter_map comp_def)

lemma mset_reconcile:
  assumes d: "distinct (map key items)"
  shows "mset (reconcile key items saved) = mset items"
proof -
  let ?ks = "fresh_keys (by_key key items) [] saved"
  let ?front = "map (the \<circ> by_key key items) ?ks"
  have sub: "set ?ks \<subseteq> key ` set items" by (simp add: fresh_subset)
  have "distinct (map key ?front)"
    using map_key_known [OF sub] distinct_fresh_keys [of "by_key key items" "[]" saved] by simp
  then have "distinct ?front" by (simp only: distinct_map)
  moreover have "set ?front = {i \<in> set items. key i \<in> set ?ks}"
  proof (intro equalityI subsetI)
    fix i assume "i \<in> set ?front"
    then obtain k where "k \<in> set ?ks" "i = the (by_key key items k)" by auto
    moreover from this sub obtain i' where "by_key key items k = Some i'"
      using by_key_None [of key items k] by auto
    ultimately show "i \<in> {i \<in> set items. key i \<in> set ?ks}" by (auto dest: by_key_Some)
  next
    fix i assume "i \<in> {i \<in> set items. key i \<in> set ?ks}"
    then show "i \<in> set ?front" using by_key_distinct [OF d, of i] by (force simp: image_iff)
  qed
  ultimately have "mset ?front = mset (filter (\<lambda>i. key i \<in> set ?ks) items)"
    using d by (subst set_eq_iff_mset_eq_distinct [symmetric])
      (auto simp: distinct_map distinct_filter)
  then show ?thesis
    by (simp add: reconcile_eq Let_def flip: multiset_partition)
qed

lemma reconcile_complete:
  assumes "distinct saved" "set saved = key ` set items"
  shows "map key (reconcile key items saved) = saved"
proof -
  have "fresh_keys (by_key key items) [] saved = saved"
    using assms by (intro fresh_keys_all) (auto simp: by_key_None)
  then show ?thesis using assms(2) by (simp add: map_key_reconcile Let_def filter_empty_conv)
qed

lemma map_key_reconcile_filter:
  "map key (reconcile key (filter (\<lambda>i. P (key i)) items) saved)
     = filter P (map key (reconcile key items saved))"
proof -
  let ?m = "by_key key items" and ?m' = "by_key key (filter (\<lambda>i. P (key i)) items)"
  have known: "?m' k \<noteq> None \<longleftrightarrow> ?m k \<noteq> None \<and> P k" for k
    by (auto simp: by_key_None)
  have "fresh_keys ?m' [] saved = filter (\<lambda>k. ?m' k \<noteq> None) (fresh_keys ?m [] saved)"
    using known by (intro fresh_keys_restrict) auto
  also have "\<dots> = filter P (fresh_keys ?m [] saved)"
    using known by (intro filter_cong) (auto simp: set_fresh_keys)
  finally show ?thesis
    by (auto simp: map_key_reconcile Let_def filter_map comp_def
        intro!: arg_cong [where f = "map key"] filter_cong)
qed

lemma find_index_Some: "find_index P xs = Some i \<Longrightarrow> i < length xs \<and> P (xs ! i)"
  by (induction xs arbitrary: i) (auto split: if_splits)

lemma mset_splice_move:
  assumes "i < length xs"
  shows "mset (splice_move i j xs) = mset xs"
proof -
  let ?rest = "take i xs @ drop (Suc i) xs"
  have "mset (splice_move i j xs) = mset (take j ?rest @ drop j ?rest) + {#xs ! i#}"
    by (simp add: splice_move_def Let_def del: append_take_drop_id)
  also have "mset (take j ?rest @ drop j ?rest) = mset ?rest"
    by (simp only: append_take_drop_id)
  also have "mset ?rest + {#xs ! i#} = mset (take i xs @ xs ! i # drop (Suc i) xs)" by simp
  also have "\<dots> = mset xs" using assms by (simp only: id_take_nth_drop [symmetric])
  finally show ?thesis .
qed

lemma drop_on_mset: "drop_on key d t items = Some next \<Longrightarrow> mset next = mset items"
  by (auto simp: drop_on_def mset_splice_move dest!: find_index_Some
      split: option.splits if_splits)

section \<open>The interface of an ordered view\<close>

text \<open>
  What a drag-and-drop list relies on: \<open>view items saved\<close> shows every item once, honours a
  complete saved order exactly, and leaving an item out leaves the others where they were.
\<close>

locale ordered_view =
  fixes key :: "'a \<Rightarrow> ustring" and view :: "'a list \<Rightarrow> ustring list \<Rightarrow> 'a list"
  assumes view_mset: "distinct (map key items) \<Longrightarrow> mset (view items saved) = mset items"
    and view_complete:
      "distinct saved \<Longrightarrow> set saved = key ` set items \<Longrightarrow> map key (view items saved) = saved"
    and view_filter:
      "map key (view (filter (\<lambda>i. P (key i)) items) saved) = filter P (map key (view items saved))"
begin

lemma view_keys: "distinct (map key items) \<Longrightarrow> mset (map key (view items saved)) = mset (map key items)"
  using view_mset [of items saved] by (metis mset_map)

lemma saved_permutation:
  assumes "distinct (map key items)" "mset order = mset (map key items)"
  shows "map key (view items order) = order"
proof (rule view_complete)
  show "distinct order" using assms by (metis mset_eq_imp_distinct_iff)
  show "set order = key ` set items" using assms(2) by (metis list.set_map set_mset_mset)
qed

lemma saving_the_view_is_stable:
  assumes "distinct (map key items)"
  shows "map key (view items (map key (view items saved))) = map key (view items saved)"
  by (rule saved_permutation [OF assms view_keys [OF assms]])

end

interpretation tab_view: ordered_view ts_name reconcileTabOrder
  by unfold_locales
    (simp_all add: reconcileTabOrder_def mset_reconcile reconcile_complete map_key_reconcile_filter)

interpretation side_view: ordered_view si_id reconcileOrder
  by unfold_locales
    (simp_all add: reconcileOrder_def mset_reconcile reconcile_complete map_key_reconcile_filter)

section \<open>Properties\<close>

text \<open>A drag in the tab bar does what it shows. When a drop on the tab bar is accepted, the
  order it saves is a permutation of the open sessions' names, and the next render with that
  order shows the tabs in exactly that order - for any previous order, complete or stale.\<close>

lemma tab_drop_is_what_renders:
  assumes "distinct (map ts_name sessions)"
    and "tabs_handleDrop dragged target (reconcileTabOrder sessions order) = Some next"
  shows "map ts_name (reconcileTabOrder sessions next) = next
    \<and> mset next = mset (map ts_name sessions)"
proof -
  have "mset next = mset (map ts_name (reconcileTabOrder sessions order))"
    using assms(2) by (auto simp: tabs_handleDrop_def dest: drop_on_mset)
  then have m: "mset next = mset (map ts_name sessions)"
    using tab_view.view_keys [OF assms(1)] by simp
  then show ?thesis using tab_view.saved_permutation [OF assms(1) m] by simp
qed

definition sample_session :: "string \<Rightarrow> terminal_session_info" where
  "sample_session n = \<lparr>ts_name = js n, ts_pinned = False, ts_createdAt = [], ts_lastAttachedAt = [],
     ts_attached = True, ts_pid = 7, ts_cwd = None\<rparr>"

lemmas order_eval = reconcileTabOrder_def reconcile_eq by_key_def tabs_handleDrop_def drop_on_def
  splice_move_def sample_session_def js_def

lemma tab_drop_is_what_renders_witness:
  "map ts_name (reconcileTabOrder (map sample_session [''a'', ''b'', ''c''])
     [js ''c'', js ''b'', js ''a'']) = [js ''c'', js ''b'', js ''a'']"
proof -
  let ?ss = "map sample_session [''a'', ''b'', ''c'']"
  have d: "distinct (map ts_name ?ss)" by (simp add: order_eval)
  have drop: "tabs_handleDrop (Some (js ''c'')) (js ''b'')
      (reconcileTabOrder ?ss [js ''gone'', js ''b'', js ''a'', js ''b''])
      = Some [js ''c'', js ''b'', js ''a'']"
    by (simp add: order_eval)
  show ?thesis by (rule tab_drop_is_what_renders [OF d drop, THEN conjunct1])
qed

text \<open>Closing a session leaves the other tabs where they are. Rendering the list without some
  sessions gives the previous tabs with just those left out, whatever order is saved and even
  with repeated or dead names in it.\<close>

lemma closing_keeps_tab_order:
  "map ts_name (reconcileTabOrder (filter (\<lambda>s. ts_name s \<noteq> gone) sessions) order)
     = filter (\<lambda>n. n \<noteq> gone) (map ts_name (reconcileTabOrder sessions order))"
  by (rule tab_view.view_filter)

text \<open>The sidebar never loses or repeats a section. With distinct section ids, what the sidebar
  shows is a permutation of the sections it was given, for every saved order (empty, stale,
  partial or with repeated ids); and an order saved by an accepted drop is shown exactly.\<close>

lemma sidebar_shows_every_section:
  assumes "distinct (map si_id items)"
  shows "mset (sidebar_sections items order) = mset items \<and>
    (\<forall>d t next. sidebar_handleDrop d t (sidebar_sections items order) = Some next \<and> next \<noteq> []
       \<longrightarrow> map si_id (sidebar_sections items next) = next)"
proof (intro conjI allI impI)
  have m: "mset (sidebar_sections items order) = mset items" for order
    using assms by (simp add: sidebar_sections_def side_view.view_mset)
  show "mset (sidebar_sections items order) = mset items" by (rule m)
  fix d t "next"
  assume a: "sidebar_handleDrop d t (sidebar_sections items order) = Some next \<and> next \<noteq> []"
  then have drop: "sidebar_handleDrop d t (sidebar_sections items order) = Some next" and "next \<noteq> []"
    by auto
  from drop obtain moved where moved: "drop_on si_id d t (sidebar_sections items order) = Some moved"
    "next = map si_id moved"
    by (auto simp: sidebar_handleDrop_def)
  have "mset next = mset (map si_id items)"
    using drop_on_mset [OF moved(1)] moved(2) m [of order] by simp
  then show "map si_id (sidebar_sections items next) = next"
    using \<open>next \<noteq> []\<close> side_view.saved_permutation [OF assms]
    by (simp add: sidebar_sections_def)
qed

definition sample_item :: "string \<Rightarrow> sidebar_item" where
  "sample_item n = \<lparr>si_id = js n, si_label = js n, si_enabled = None, si_badge = None\<rparr>"

lemma sidebar_shows_every_section_witness:
  "map si_id (sidebar_sections (map sample_item [''logs'', ''dns'']) [js ''dns'', js ''logs''])
     = [js ''dns'', js ''logs'']"
proof -
  let ?items = "map sample_item [''logs'', ''dns'']"
  have d: "distinct (map si_id ?items)" by (simp add: sample_item_def)
  have drop: "sidebar_handleDrop (Some (js ''dns'')) (js ''logs'') (sidebar_sections ?items [])
      = Some [js ''dns'', js ''logs'']"
    by (simp add: sidebar_handleDrop_def sidebar_sections_def sample_item_def order_eval)
  show ?thesis
    using sidebar_shows_every_section [OF d, of "[]"] drop by blast
qed

end
