(* ===== verification/Session_Names.thy ===== *)
theory Session_Names
  imports Api_Types
begin

text \<open>
  Names of terminal sessions (\<open>components/Terminal/Terminal.tsx\<close>): \<open>nextSessionName\<close>, the virtual
  Home tab, and \<open>ensureActiveIncluded\<close> of \<open>TerminalTabs.tsx\<close>.
\<close>

section \<open>Definitions\<close>

definition HOME_TAB_ID :: ustring where
  "HOME_TAB_ID = js ''__home__''"

definition ensureActiveIncluded ::
  "terminal_session_info list \<Rightarrow> ustring \<Rightarrow> terminal_session_info list" where
  "ensureActiveIncluded sessions activeSession =
     (if activeSession = HOME_TAB_ID \<or> list_ex (\<lambda>s. ts_name s = activeSession) sessions
      then sessions
      else sessions @ [\<lparr>ts_name = activeSession, ts_pinned = False, ts_createdAt = [],
             ts_lastAttachedAt = [], ts_attached = False, ts_pid = 0, ts_cwd = None\<rparr>])"

text \<open>The default base name, two Hangul syllables in the source.\<close>

definition DEFAULT_BASE :: ustring where
  "DEFAULT_BASE = [0xc138, 0xc158]"

definition numbered :: "ustring \<Rightarrow> nat \<Rightarrow> ustring" where
  "numbered b n = b @ [U_SPACE] @ show_nat n"

lemma numbered_inject [simp]: "numbered b m = numbered b n \<longleftrightarrow> m = n"
  by (simp add: numbered_def)

text \<open>
  The loop \<open>while (taken.has(`${base} ${n}`)) n++\<close>. It stops because every turn leaves behind one
  name of \<open>taken\<close> that no later turn can meet again.
\<close>

lemma finite_numbered: "finite {k. n \<le> k \<and> numbered b k \<in> set taken}"
proof (rule finite_imageD [where f = "numbered b"])
  show "finite (numbered b ` {k. n \<le> k \<and> numbered b k \<in> set taken})"
    by (rule finite_subset [of _ "set taken"]) auto
qed (simp add: inj_on_def)

function first_free :: "ustring list \<Rightarrow> ustring \<Rightarrow> nat \<Rightarrow> nat" where
  "first_free taken b n =
     (if numbered b n \<in> set taken then first_free taken b (Suc n) else n)"
  by pat_completeness auto
termination
proof (relation "measure (\<lambda>(taken, b, n). card {k. n \<le> k \<and> numbered b k \<in> set taken})")
  fix taken b n assume "numbered b n \<in> set taken"
  then have "{k. Suc n \<le> k \<and> numbered b k \<in> set taken} \<subset> {k. n \<le> k \<and> numbered b k \<in> set taken}"
    by (intro psubsetI) (auto dest: equalityD2 [THEN subsetD, of _ _ n])
  then show "((taken, b, Suc n), taken, b, n)
      \<in> measure (\<lambda>(taken, b, n). card {k. n \<le> k \<and> numbered b k \<in> set taken})"
    by (simp add: psubset_card_mono finite_numbered)
qed simp

declare first_free.simps [simp del]

definition nextSessionName ::
  "terminal_session_info list \<Rightarrow> ustring \<Rightarrow> ustring option \<Rightarrow> ustring" where
  "nextSessionName existing alsoTaken label =
     (let taken = alsoTaken # map ts_name existing;
          trimmed = (case label of None \<Rightarrow> [] | Some l \<Rightarrow> trim l);
          base = (if trimmed = [] then DEFAULT_BASE else trimmed)
      in if base = DEFAULT_BASE then numbered DEFAULT_BASE (first_free taken DEFAULT_BASE 1)
         else if base \<notin> set taken then base
         else numbered base (first_free taken base 2))"

section \<open>Lemmas\<close>

lemma first_free_free: "numbered b (first_free taken b n) \<notin> set taken"
  by (induction taken b n rule: first_free.induct) (subst first_free.simps, auto)

lemma first_free_ge: "n \<le> first_free taken b n"
proof (induction taken b n rule: first_free.induct)
  case (1 taken b n)
  then show ?case by (subst first_free.simps) auto
qed

lemma first_free_least: "n \<le> k \<Longrightarrow> k < first_free taken b n \<Longrightarrow> numbered b k \<in> set taken"
proof (induction taken b n rule: first_free.induct)
  case (1 taken b n)
  show ?case
  proof (cases "numbered b n \<in> set taken \<and> k \<noteq> n")
    case True
    then show ?thesis using "1" by (simp add: first_free.simps [of taken b n])
  next
    case False
    then show ?thesis
      using "1.prems" by (cases "numbered b n \<in> set taken") (auto simp: first_free.simps [of taken b n])
  qed
qed

section \<open>Properties\<close>

text \<open>A new session never takes a name that is in use. The name \<open>nextSessionName\<close> picks is
  neither the active session's nor any listed session's, whatever the label; and without a label
  it is the smallest free number: every lower-numbered default name is taken.\<close>

lemma nextSessionName_fresh:
  "nextSessionName existing alsoTaken label \<notin> insert alsoTaken (ts_name ` set existing)
   \<and> (\<exists>n \<ge> 1. nextSessionName existing alsoTaken None = numbered DEFAULT_BASE n \<and>
        (\<forall>k. 1 \<le> k \<and> k < n \<longrightarrow> numbered DEFAULT_BASE k \<in> insert alsoTaken (ts_name ` set existing)))"
proof
  let ?taken = "alsoTaken # map ts_name existing"
  have taken: "insert alsoTaken (ts_name ` set existing) = set ?taken" by simp
  show "nextSessionName existing alsoTaken label \<notin> insert alsoTaken (ts_name ` set existing)"
    unfolding taken nextSessionName_def Let_def
    using first_free_free [of _ ?taken] by (simp del: list.set)
  show "\<exists>n \<ge> 1. nextSessionName existing alsoTaken None = numbered DEFAULT_BASE n \<and>
      (\<forall>k. 1 \<le> k \<and> k < n \<longrightarrow> numbered DEFAULT_BASE k \<in> insert alsoTaken (ts_name ` set existing))"
    unfolding taken
    using first_free_ge [of 1 ?taken DEFAULT_BASE] first_free_least [of 1 _ ?taken DEFAULT_BASE]
    by (intro exI [of _ "first_free ?taken DEFAULT_BASE 1"])
      (auto simp: nextSessionName_def simp del: list.set)
qed

lemma nextSessionName_fresh_witness:
  "nextSessionName [] (numbered DEFAULT_BASE 1) None \<noteq> numbered DEFAULT_BASE 1"
  using conjunct1 [OF nextSessionName_fresh [of "[]" "numbered DEFAULT_BASE 1" None]] by simp

text \<open>The tab bar always has the active tab. After \<open>ensureActiveIncluded\<close> the active session
  (any but the Home tab) is among the tabs, no name is shown twice, and every session that was
  listed still is, in place.\<close>

lemma ensureActiveIncluded_covers:
  assumes "distinct (map ts_name sessions)" and "activeSession \<noteq> HOME_TAB_ID"
  shows "activeSession \<in> set (map ts_name (ensureActiveIncluded sessions activeSession))
    \<and> distinct (map ts_name (ensureActiveIncluded sessions activeSession))
    \<and> prefix sessions (ensureActiveIncluded sessions activeSession)"
  using assms by (auto simp: ensureActiveIncluded_def list_ex_iff)

lemma ensureActiveIncluded_covers_witness:
  "map ts_name (ensureActiveIncluded [] (js ''new'')) = [js ''new'']
   \<and> js ''new'' \<in> set (map ts_name (ensureActiveIncluded [] (js ''new'')))"
proof -
  have "distinct (map ts_name ([] :: terminal_session_info list))" by simp
  moreover have "js ''new'' \<noteq> HOME_TAB_ID" by (simp add: HOME_TAB_ID_def)
  ultimately have "js ''new'' \<in> set (map ts_name (ensureActiveIncluded [] (js ''new'')))"
    by (rule ensureActiveIncluded_covers [THEN conjunct1])
  then show ?thesis by (simp add: ensureActiveIncluded_def HOME_TAB_ID_def)
qed

end
