(* ===== verification/Mobile_Input.thy ===== *)
theory Mobile_Input
  imports Prelude
begin

text \<open>
  The mobile text-input path of \<open>components/Terminal/Terminal.tsx\<close> (the effect keyed on
  \<open>inputMode\<close>): an input field outside xterm whose changes are turned into bytes for the PTY.
  Mode \<open>diff\<close> keeps everything already forwarded in \<open>sent\<close> and sends common-prefix
  differences; mode \<open>password\<close> sends length differences against a field that is reset after every
  keystroke.

  The closure variables and DOM properties the handlers read and write are the fields of a
  record; a handler is a function on it. \<open>emit\<close> appends to \<open>df_out\<close>, the list of chunks handed to
  \<open>sendBytes\<close>. Timers and animation frames are a pending flag and an event that fires it. Logging
  is not modelled.
\<close>

section \<open>State of the diff field\<close>

definition ANCHOR :: ustring where
  "ANCHOR = [U_SPACE]"

definition MAX_FIELD_LENGTH :: nat where
  "MAX_FIELD_LENGTH = 512"

datatype key_out = Bytes ustring | ForwardedKey ustring nat

record diff_field =
  df_value :: ustring              \<comment> \<open>\<open>field.value\<close>\<close>
  df_sel :: "nat \<times> nat"            \<comment> \<open>\<open>selectionStart\<close>, \<open>selectionEnd\<close>\<close>
  df_focused :: bool               \<comment> \<open>\<open>document.activeElement === field\<close>\<close>
  df_sent :: ustring
  df_composing :: bool
  df_anchorAtEnd :: bool
  df_reanchorScheduled :: bool
  df_refocusTimer :: bool
  df_refocusing :: bool
  df_mark :: ustring               \<comment> \<open>text of the composition mark\<close>
  df_live :: bool                  \<comment> \<open>\<open>liveCompositionRef.current\<close>\<close>
  df_refocusOnWord :: bool         \<comment> \<open>\<open>refocusOnWordRef.current\<close>\<close>
  df_out :: "key_out list"

definition diff_init :: "bool \<Rightarrow> bool \<Rightarrow> diff_field" where
  "diff_init live refocus =
     \<lparr>df_value = ANCHOR, df_sel = (length ANCHOR, length ANCHOR), df_focused = False,
      df_sent = ANCHOR, df_composing = False, df_anchorAtEnd = False,
      df_reanchorScheduled = False, df_refocusTimer = False, df_refocusing = False,
      df_mark = [], df_live = live, df_refocusOnWord = refocus, df_out = []\<rparr>"

definition emit :: "ustring \<Rightarrow> diff_field \<Rightarrow> diff_field" where
  "emit bytes s = s\<lparr>df_out := df_out s @ [Bytes bytes]\<rparr>"

definition scheduleReanchor :: "diff_field \<Rightarrow> diff_field" where
  "scheduleReanchor s = (if df_reanchorScheduled s then s else s\<lparr>df_reanchorScheduled := True\<rparr>)"

definition reanchor_frame :: "diff_field \<Rightarrow> diff_field" where
  "reanchor_frame s =
     (let s1 = s\<lparr>df_reanchorScheduled := False\<rparr> in
      if df_composing s1 \<or> df_value s1 \<noteq> [] then s1
      else s1\<lparr>df_value := ANCHOR, df_sent := ANCHOR, df_anchorAtEnd := False,
              df_sel := (length ANCHOR, length ANCHOR)\<rparr>)"

definition resetField :: "diff_field \<Rightarrow> diff_field" where
  "resetField s =
     (let s1 = s\<lparr>df_anchorAtEnd := False\<rparr> in
      if df_value s1 = ANCHOR then s1
      else s1\<lparr>df_value := ANCHOR, df_sent := ANCHOR, df_sel := (length ANCHOR, length ANCHOR)\<rparr>)"

definition readValue :: "diff_field \<Rightarrow> ustring \<times> diff_field" where
  "readValue s =
     (let raw = df_value s;
          s1 = (if \<not> df_anchorAtEnd s \<and> df_sent s = ANCHOR \<and> length raw > length ANCHOR
                   \<and> ends_with raw ANCHOR \<and> \<not> starts_with raw ANCHOR
                then s\<lparr>df_anchorAtEnd := True\<rparr> else s)
      in if \<not> df_anchorAtEnd s1 then (raw, s1)
         else if \<not> ends_with raw ANCHOR then (raw, s1\<lparr>df_anchorAtEnd := False\<rparr>)
         else (ANCHOR @ slice_drop_end raw (length ANCHOR), s1))"

definition pinCaretToEnd :: "diff_field \<Rightarrow> diff_field" where
  "pinCaretToEnd s =
     (if df_composing s then s
      else
        let s1 = (if df_anchorAtEnd s then
                    (let (repaired, s') = readValue s; s'' = s'\<lparr>df_anchorAtEnd := False\<rparr>
                     in if df_value s'' \<noteq> repaired then s''\<lparr>df_value := repaired\<rparr> else s'')
                  else s);
            fin = length (df_value s1)
        in s1\<lparr>df_sel := (fin, fin)\<rparr>)"

definition scheduleRefocus :: "diff_field \<Rightarrow> diff_field" where
  "scheduleRefocus s = s\<lparr>df_refocusTimer := True\<rparr>"

section \<open>Sending a difference\<close>

fun common_length :: "ustring \<Rightarrow> ustring \<Rightarrow> nat" where
  "common_length (x # xs) (y # ys) = (if x = y then Suc (common_length xs ys) else 0)"
| "common_length _ _ = 0"

definition lf_to_cr :: "ustring \<Rightarrow> ustring" where
  "lf_to_cr s = map (\<lambda>u. if u = U_LF then U_CR else u) s"

definition flush :: "diff_field \<Rightarrow> diff_field" where
  "flush s =
     (let (v, s1) = readValue s in
      if v = df_sent s1 then s1
      else
        let common = common_length v (df_sent s1);
            removed = length (df_sent s1) - common;
            added = drop common v;
            s2 = s1\<lparr>df_sent := v\<rparr>;
            s3 = (if removed > 0 then emit (replicate removed U_DEL) s2 else s2)
        in if added \<noteq> [] \<and> List.member added U_LF then resetField (emit (lf_to_cr added) s3)
           else
             let s4 = (if added \<noteq> [] then emit added s3 else s3) in
             if v = [] then scheduleReanchor s4
             else if \<not> df_composing s4 \<and> List.member added U_SPACE then
               (let s5 = resetField s4 in if df_refocusOnWord s5 then scheduleRefocus s5 else s5)
             else if \<not> df_composing s4 \<and> length v > MAX_FIELD_LENGTH then resetField s4
             else pinCaretToEnd s4)"

section \<open>Key events\<close>

record key_event =
  ke_key :: ustring
  ke_keyCode :: nat
  ke_ctrl :: bool
  ke_alt :: bool
  ke_shift :: bool
  ke_meta :: bool
  ke_isComposing :: bool

definition NAVIGATION_KEYS :: "ustring list" where
  "NAVIGATION_KEYS = map js [''ArrowUp'', ''ArrowDown'', ''ArrowLeft'', ''ArrowRight'', ''Home'',
     ''End'', ''PageUp'', ''PageDown'']"

definition FORWARDED_KEYS :: "ustring list" where
  "FORWARDED_KEYS = map js [''ArrowUp'', ''ArrowDown'', ''ArrowLeft'', ''ArrowRight'', ''Home'',
     ''End'', ''PageUp'', ''PageDown'', ''Insert'', ''Delete'', ''Tab'', ''Escape'']"

definition KEY_CODES :: "ustring \<Rightarrow> nat option" where
  "KEY_CODES = map_of
     [(js ''Tab'', 9), (js ''Escape'', 27), (js ''PageUp'', 33), (js ''PageDown'', 34),
      (js ''End'', 35), (js ''Home'', 36), (js ''ArrowLeft'', 37), (js ''ArrowUp'', 38),
      (js ''ArrowRight'', 39), (js ''ArrowDown'', 40), (js ''Insert'', 45), (js ''Delete'', 46)]"

text \<open>\<open>/^F(\d{1,2})$/\<close>: the number of a function key.\<close>

definition function_key :: "ustring \<Rightarrow> nat option" where
  "function_key k =
     (case k of
        c # ds \<Rightarrow> if c = 0x46 \<and> length ds \<in> {1, 2} \<and> list_all is_digit ds
                  then Some (read_digits ds) else None
      | [] \<Rightarrow> None)"

text \<open>
  \<open>String.prototype.toUpperCase\<close> and \<open>toLowerCase\<close> of one ASCII letter; the other characters are
  left alone, which is what both comparisons below need (\<open>'v'\<close> has no other case variant, and a
  key code is derived only for a keyboard that reports none).
\<close>

definition upper_ascii :: "codeunit \<Rightarrow> codeunit" where
  "upper_ascii u = (if 0x61 \<le> u \<and> u \<le> 0x7a then u - 0x20 else u)"

definition lower_ascii :: "codeunit \<Rightarrow> codeunit" where
  "lower_ascii u = (if 0x41 \<le> u \<and> u \<le> 0x5a then u + 0x20 else u)"

definition keyCodeFor :: "key_event \<Rightarrow> nat" where
  "keyCodeFor e =
     (if ke_keyCode e \<noteq> 0 then ke_keyCode e
      else case KEY_CODES (ke_key e) of
        Some c \<Rightarrow> c
      | None \<Rightarrow>
          (case function_key (ke_key e) of
             Some n \<Rightarrow> 111 + n
           | None \<Rightarrow> (case ke_key e of [u] \<Rightarrow> upper_ascii u | _ \<Rightarrow> 0)))"

text \<open>Whether \<open>forwardSpecialKey\<close> hands the key to xterm.\<close>

definition forwards :: "key_event \<Rightarrow> bool" where
  "forwards e =
     (if ke_isComposing e \<or> ke_keyCode e = 229 then False
      else if ke_key e = js ''Enter'' \<or> ke_key e = js ''Backspace'' then False
      else
        let special = List.member FORWARDED_KEYS (ke_key e) \<or> function_key (ke_key e) \<noteq> None;
            chord = (ke_ctrl e \<or> ke_alt e) \<and> length (ke_key e) = 1
        in if \<not> special \<and> \<not> chord then False
           else if chord \<and> (ke_ctrl e \<or> ke_meta e) \<and> map lower_ascii (ke_key e) = js ''v'' then False
           else if ke_key e = [U_SPACE] \<and> (ke_ctrl e \<or> ke_shift e) then False
           else True)"

definition forwardSpecialKey :: "key_event \<Rightarrow> diff_field \<Rightarrow> bool \<times> diff_field" where
  "forwardSpecialKey e s =
     (if forwards e
      then (True, s\<lparr>df_out := df_out s @ [ForwardedKey (ke_key e) (keyCodeFor e)]\<rparr>)
      else (False, s))"

section \<open>Handlers of the diff field\<close>

definition markComposition :: "ustring \<Rightarrow> diff_field \<Rightarrow> diff_field" where
  "markComposition t s = s\<lparr>df_mark := t\<rparr>"

definition onCompositionStart :: "ustring \<Rightarrow> diff_field \<Rightarrow> diff_field" where
  "onCompositionStart data s = markComposition data (s\<lparr>df_composing := True\<rparr>)"

definition onCompositionUpdate :: "ustring \<Rightarrow> diff_field \<Rightarrow> diff_field" where
  "onCompositionUpdate data s = markComposition data s"

definition onCompositionEnd :: "diff_field \<Rightarrow> diff_field" where
  "onCompositionEnd s =
     (let s1 = flush (markComposition [] (s\<lparr>df_composing := False\<rparr>));
          (logical, s2) = readValue s1
      in if logical \<noteq> ANCHOR \<and> ends_with logical [U_SPACE]
         then (let s3 = resetField s2 in if df_refocusOnWord s3 then scheduleRefocus s3 else s3)
         else pinCaretToEnd s2)"

text \<open>\<open>onInput\<close> for an \<open>InputEvent\<close> with the given \<open>isComposing\<close>.\<close>

definition onInput :: "bool \<Rightarrow> diff_field \<Rightarrow> diff_field" where
  "onInput isComposing s =
     (let s1 = (if df_composing s \<and> \<not> isComposing then s\<lparr>df_composing := False\<rparr> else s);
          s2 = (if \<not> df_composing s1 then markComposition [] s1 else s1)
      in if df_composing s2 \<and> \<not> df_live s2 then s2 else flush s2)"

definition deleteAtCaretStart :: "diff_field \<Rightarrow> bool \<times> diff_field" where
  "deleteAtCaretStart s =
     (if df_composing s \<or> fst (df_sel s) \<noteq> 0 \<or> snd (df_sel s) \<noteq> 0 then (False, s)
      else
        let (logical, s1) = readValue s;
            s2 = emit [U_DEL] s1;
            s3 = (if logical \<noteq> ANCHOR then
                    (let trimmed = slice_drop_end logical 1;
                         v = (if starts_with trimmed ANCHOR then trimmed else ANCHOR @ trimmed)
                     in s2\<lparr>df_value := v, df_sent := v\<rparr>)
                  else s2)
        in (True, pinCaretToEnd (s3\<lparr>df_anchorAtEnd := False\<rparr>)))"

text \<open>\<open>onBeforeInput\<close>: whether the default action is cancelled, and the state.\<close>

definition onBeforeInput :: "ustring \<Rightarrow> bool \<Rightarrow> diff_field \<Rightarrow> bool \<times> diff_field" where
  "onBeforeInput inputType isComposing s =
     (if inputType = js ''deleteContentBackward'' \<and> \<not> isComposing then deleteAtCaretStart s
      else (False, s))"

definition onKeyDown :: "key_event \<Rightarrow> diff_field \<Rightarrow> bool \<times> diff_field" where
  "onKeyDown e s =
     (case forwardSpecialKey e s of
        (True, s1) \<Rightarrow> (True, if List.member NAVIGATION_KEYS (ke_key e) then resetField s1 else s1)
      | (False, s1) \<Rightarrow>
          (case (if ke_key e = js ''Backspace'' \<and> \<not> ke_isComposing e then deleteAtCaretStart s1
                 else (False, s1)) of
             (True, s2) \<Rightarrow> (True, s2)
           | (False, s2) \<Rightarrow>
               if ke_key e = js ''Enter'' \<and> \<not> df_composing s2
               then (True, resetField (emit [U_CR] (flush s2)))
               else (False, s2)))"

definition onBlur :: "diff_field \<Rightarrow> diff_field" where
  "onBlur s =
     (let s1 = markComposition [] (s\<lparr>df_composing := False\<rparr>)
      in if df_refocusing s1 then s1 else resetField s1)"

definition onFocus :: "diff_field \<Rightarrow> diff_field" where
  "onFocus s = pinCaretToEnd s"

text \<open>The timer of \<open>scheduleRefocus\<close>: blur and focus the field, which run the two handlers.\<close>

definition refocus_timer :: "diff_field \<Rightarrow> diff_field" where
  "refocus_timer s =
     (let s0 = s\<lparr>df_refocusTimer := False\<rparr> in
      if \<not> df_focused s0 then s0
      else
        let s1 = s0\<lparr>df_refocusing := True\<rparr>;
            s2 = onBlur (s1\<lparr>df_focused := False\<rparr>);
            s3 = onFocus (s2\<lparr>df_focused := True\<rparr>)
        in s3\<lparr>df_refocusing := False\<rparr>)"

definition resync :: "diff_field \<Rightarrow> diff_field" where
  "resync s =
     (if \<not> df_focused s then s
      else pinCaretToEnd (resetField (markComposition [] (s\<lparr>df_composing := False\<rparr>))))"

definition onVisibilityChange :: "bool \<Rightarrow> diff_field \<Rightarrow> diff_field" where
  "onVisibilityChange hidden s = (if hidden then s\<lparr>df_composing := False\<rparr> else resync s)"

section \<open>Events\<close>

text \<open>
  \<open>Typed v a b c\<close> is a native change of the field to value \<open>v\<close> with selection \<open>a\<close>, \<open>b\<close>, followed by
  the \<open>input\<close> event the browser fires for it. A cancelled \<open>beforeinput\<close> or \<open>keydown\<close> is followed by no
  native change. \<open>pageshow\<close> and the window's \<open>focus\<close> run \<open>resync\<close>.
\<close>

datatype field_event =
    CompositionStart ustring | CompositionUpdate ustring | CompositionEnd
  | Typed ustring nat nat bool
  | BeforeInput ustring bool
  | KeyDown key_event
  | FieldBlur | FieldFocus
  | Visibility bool | PageShow | WindowFocus
  | ReanchorFrame | RefocusTimer

fun field_step :: "field_event \<Rightarrow> diff_field \<Rightarrow> diff_field" where
  "field_step (CompositionStart d) s = onCompositionStart d s"
| "field_step (CompositionUpdate d) s = onCompositionUpdate d s"
| "field_step CompositionEnd s = onCompositionEnd s"
| "field_step (Typed v a b c) s = onInput c (s\<lparr>df_value := v, df_sel := (a, b)\<rparr>)"
| "field_step (BeforeInput t c) s = snd (onBeforeInput t c s)"
| "field_step (KeyDown e) s = snd (onKeyDown e s)"
| "field_step FieldBlur s = onBlur (s\<lparr>df_focused := False\<rparr>)"
| "field_step FieldFocus s = onFocus (s\<lparr>df_focused := True\<rparr>)"
| "field_step (Visibility hidden) s = onVisibilityChange hidden s"
| "field_step PageShow s = resync s"
| "field_step WindowFocus s = resync s"
| "field_step ReanchorFrame s = reanchor_frame s"
| "field_step RefocusTimer s = refocus_timer s"

fun field_run :: "field_event list \<Rightarrow> diff_field \<Rightarrow> diff_field" where
  "field_run [] s = s"
| "field_run (e # es) s = field_run es (field_step e s)"

section \<open>What the terminal makes of the bytes\<close>

text \<open>
  The receiving end, as far as plain typing goes: DEL erases the last character of the line, any
  other byte is appended. A forwarded key is not plain typing and is not interpreted here.
\<close>

fun tty :: "ustring \<Rightarrow> ustring \<Rightarrow> ustring" where
  "tty line [] = line"
| "tty line (u # us) = tty (if u = U_DEL then butlast line else line @ [u]) us"

fun out_bytes :: "key_out list \<Rightarrow> ustring" where
  "out_bytes [] = []"
| "out_bytes (Bytes b # os) = b @ out_bytes os"
| "out_bytes (ForwardedKey k c # os) = out_bytes os"

definition screen :: "ustring \<Rightarrow> diff_field \<Rightarrow> ustring" where
  "screen prompt s = tty prompt (out_bytes (df_out s))"

lemma tty_append: "tty line (us @ vs) = tty (tty line us) vs"
  by (induction line us rule: tty.induct) auto

lemma out_bytes_append [simp]: "out_bytes (xs @ ys) = out_bytes xs @ out_bytes ys"
  by (induction xs rule: out_bytes.induct) auto

lemma tty_erase: "tty line (replicate n U_DEL) = take (length line - n) line"
proof (induction n arbitrary: line)
  case (Suc n)
  then show ?case by (simp add: butlast_conv_take take_take min_def)
qed simp

lemma tty_plain: "U_DEL \<notin> set us \<Longrightarrow> tty line us = line @ us"
  by (induction line us rule: tty.induct) auto

end
