(* ===== verification/Mobile_Mirror.thy ===== *)
theory Mobile_Mirror
  imports Mobile_Input
begin

text \<open>
  Why the diff field is safe: between events the field's text and \<open>sent\<close> agree, and the terminal
  line ends with exactly the text the field believes it has sent. One lemma per handler, then
  the runs.
\<close>

section \<open>The invariant\<close>

text \<open>\<open>sent\<close> without the leading anchor, which never reaches the terminal.\<close>

definition typed_part :: "ustring \<Rightarrow> ustring" where
  "typed_part s = (if starts_with s ANCHOR then drop (length ANCHOR) s else s)"

definition in_sync :: "diff_field \<Rightarrow> bool" where
  "in_sync s \<longleftrightarrow> readValue s = (df_sent s, s)"

definition mirrored :: "ustring \<Rightarrow> diff_field \<Rightarrow> bool" where
  "mirrored prompt s \<longleftrightarrow> suffix (typed_part (df_sent s)) (screen prompt s)"

definition field_inv :: "ustring \<Rightarrow> diff_field \<Rightarrow> bool" where
  "field_inv prompt s \<longleftrightarrow>
     in_sync s \<and> mirrored prompt s \<and> U_DEL \<notin> set (df_value s) \<and> df_live s"

lemma anchor_simps [simp]:
  "length ANCHOR = 1" "starts_with s ANCHOR \<longleftrightarrow> (\<exists>w. s = U_SPACE # w)"
  "ends_with s ANCHOR \<longleftrightarrow> (\<exists>w. s = w @ [U_SPACE])" "U_DEL \<notin> set ANCHOR" "ANCHOR \<noteq> []"
  by (auto simp: ANCHOR_def js_defs prefix_def suffix_def)

lemma typed_part_anchor [simp]: "typed_part ANCHOR = []" "typed_part (U_SPACE # w) = w" "typed_part [] = []"
  by (simp_all add: typed_part_def) (simp add: ANCHOR_def)

lemma typed_part_other: "(\<nexists>w. s = U_SPACE # w) \<Longrightarrow> typed_part s = s"
  by (simp add: typed_part_def)

lemma suffix_typed_part: "suffix (typed_part s) s"
  by (auto simp: typed_part_def suffix_def intro: exI [of _ "[U_SPACE]"])

lemma mirrored_anchor: "df_sent s = ANCHOR \<Longrightarrow> mirrored prompt s"
  by (simp add: mirrored_def)

section \<open>\<open>readValue\<close>, \<open>resetField\<close>, \<open>pinCaretToEnd\<close>\<close>

lemma readValue_frame:
  assumes "readValue s = (v, s1)"
  shows "s1 = s\<lparr>df_anchorAtEnd := df_anchorAtEnd s1\<rparr>"
  using assms by (auto simp: readValue_def Let_def split: if_splits)

lemma readValue_fields:
  assumes "readValue s = (v, s1)"
  shows "df_value s1 = df_value s" "df_sent s1 = df_sent s" "df_out s1 = df_out s"
    "df_composing s1 = df_composing s" "df_live s1 = df_live s"
    "df_refocusOnWord s1 = df_refocusOnWord s"
  by (subst readValue_frame [OF assms], simp)+

lemma readValue_value:
  assumes "readValue s = (v, s1)"
  shows "(\<not> df_anchorAtEnd s1 \<and> v = df_value s)
    \<or> (df_anchorAtEnd s1 \<and> (\<exists>w. df_value s = w @ [U_SPACE] \<and> v = U_SPACE # w))"
  using assms by (auto simp: readValue_def Let_def slice_drop_end_def split: if_splits)
    (auto simp: ANCHOR_def)

lemma readValue_anchor: "readValue s = (v, s1) \<Longrightarrow> df_value s = ANCHOR \<longleftrightarrow> v = ANCHOR"
  using readValue_value [of s v s1] by (auto simp: ANCHOR_def append_eq_Cons_conv)

lemma readValue_set: "readValue s = (v, s1) \<Longrightarrow> set v \<subseteq> set (df_value s)"
  using readValue_value [of s v s1] by auto

lemma in_sync_iff:
  "in_sync s \<longleftrightarrow>
     (if df_anchorAtEnd s then \<exists>w. df_value s = w @ [U_SPACE] \<and> df_sent s = U_SPACE # w
      else df_value s = df_sent s)"
  (is "_ \<longleftrightarrow> ?R")
proof
  assume "in_sync s"
  then show ?R using readValue_value [of s "df_sent s" s] by (auto simp: in_sync_def)
next
  assume R: ?R
  show "in_sync s"
  proof (cases "df_anchorAtEnd s")
    case True
    then show ?thesis using R
      by (auto simp: in_sync_def readValue_def Let_def slice_drop_end_def) (simp_all add: ANCHOR_def)
  next
    case False
    then show ?thesis using R by (auto simp: in_sync_def readValue_def Let_def ANCHOR_def)
  qed
qed

lemma in_sync_sent:
  assumes "readValue s = (v, s1)"
  shows "in_sync (s1\<lparr>df_sent := v, df_out := os\<rparr>)"
  using readValue_value [OF assms] by (auto simp: in_sync_iff readValue_fields [OF assms])

lemma in_sync_readValue: "in_sync s \<Longrightarrow> readValue s = (df_sent s, s)"
  by (simp add: in_sync_def)

lemma in_sync_anchor: "in_sync s \<Longrightarrow> df_value s = ANCHOR \<longleftrightarrow> df_sent s = ANCHOR"
  using readValue_anchor [OF in_sync_readValue] by blast

lemma resetField_frame [simp]:
  "df_out (resetField s) = df_out s" "df_composing (resetField s) = df_composing s"
  "df_live (resetField s) = df_live s" "df_refocusOnWord (resetField s) = df_refocusOnWord s"
  "df_anchorAtEnd (resetField s) = False" "df_value (resetField s) = ANCHOR"
  by (simp_all add: resetField_def Let_def)

lemma resetField_sent:
  "(df_value s = ANCHOR \<Longrightarrow> df_sent s = ANCHOR) \<Longrightarrow> df_sent (resetField s) = ANCHOR"
  by (simp add: resetField_def Let_def)

lemma resetField_sync:
  assumes "df_value s = ANCHOR \<Longrightarrow> df_sent s = ANCHOR"
  shows "in_sync (resetField s)"
  using resetField_sent [OF assms] by (simp add: in_sync_iff)

lemma pinCaret_frame [simp]:
  "df_out (pinCaretToEnd s) = df_out s" "df_composing (pinCaretToEnd s) = df_composing s"
  "df_live (pinCaretToEnd s) = df_live s" "df_sent (pinCaretToEnd s) = df_sent s"
proof -
  obtain v s1 where r: "readValue s = (v, s1)" by fastforce
  show "df_out (pinCaretToEnd s) = df_out s" "df_composing (pinCaretToEnd s) = df_composing s"
    "df_live (pinCaretToEnd s) = df_live s" "df_sent (pinCaretToEnd s) = df_sent s"
    by (simp_all add: pinCaretToEnd_def Let_def r readValue_fields [OF r])
qed

lemma pinCaret_sync:
  assumes "in_sync s"
  shows "in_sync (pinCaretToEnd s)"
  using assms in_sync_readValue [OF assms] by (auto simp: in_sync_iff pinCaretToEnd_def Let_def)

lemma pinCaret_set: "set (df_value (pinCaretToEnd s)) \<subseteq> set (df_value s)"
proof -
  obtain v s1 where r: "readValue s = (v, s1)" by fastforce
  show ?thesis
    using readValue_set [OF r] readValue_fields(1) [OF r]
    by (auto simp: pinCaretToEnd_def Let_def r split: if_splits)
qed

section \<open>The difference that is sent\<close>

lemma common_length_le: "common_length v a \<le> length v" "common_length v a \<le> length a"
  by (induction v a rule: common_length.induct) auto

lemma common_length_take: "take (common_length v a) v = take (common_length v a) a"
  by (induction v a rule: common_length.induct) auto

lemma common_length_0: "common_length v a = 0 \<Longrightarrow> v = [] \<or> a = [] \<or> hd v \<noteq> hd a"
  by (cases v; cases a) (auto split: if_splits)

text \<open>The chunk a difference amounts to.\<close>

definition diff_bytes :: "ustring \<Rightarrow> ustring \<Rightarrow> ustring" where
  "diff_bytes a v =
     replicate (length a - common_length v a) U_DEL @ drop (common_length v a) v"

lemma tty_diff:
  assumes "U_DEL \<notin> set v"
  shows "tty T (diff_bytes a v) =
    take (length T - (length a - common_length v a)) T @ drop (common_length v a) v"
proof -
  have "U_DEL \<notin> set (drop (common_length v a) v)" using assms by (meson in_set_dropD)
  then show ?thesis by (simp add: diff_bytes_def tty_append tty_erase tty_plain)
qed

lemma tty_diff_exact:
  assumes "U_DEL \<notin> set v"
  shows "tty (pre @ a) (diff_bytes a v) = pre @ v"
proof -
  let ?c = "common_length v a"
  have "length (pre @ a) - (length a - ?c) = length pre + ?c"
    using common_length_le(2) [of v a] by simp
  then have "tty (pre @ a) (diff_bytes a v) = pre @ take ?c a @ drop ?c v"
    using tty_diff [OF assms, of "pre @ a" a] by simp
  also have "take ?c a @ drop ?c v = v"
    by (metis append_take_drop_id common_length_take)
  finally show ?thesis .
qed

lemma diff_bytes_anchor: "diff_bytes (U_SPACE # a) (U_SPACE # v) = diff_bytes a v"
  by (simp add: diff_bytes_def)

lemma tty_diff_mirror:
  assumes del: "U_DEL \<notin> set v" and T: "suffix (typed_part a) T"
  shows "suffix (typed_part v) (tty T (diff_bytes a v))"
proof (cases "common_length v a = 0")
  case True
  have "suffix v (tty T (diff_bytes a v))"
    using True by (simp add: tty_diff [OF del] suffix_def)
  then show ?thesis using suffix_typed_part suffix_order.trans by blast
next
  case False
  then obtain x v' a' where va: "v = x # v'" "a = x # a'"
    by (cases v; cases a) (auto split: if_splits)
  obtain pre where pre: "T = pre @ typed_part a" using T by (auto simp: suffix_def)
  show ?thesis
  proof (cases "x = U_SPACE")
    case True
    then show ?thesis
      using tty_diff_exact [of v' pre a'] del pre va by (simp add: diff_bytes_anchor suffix_def)
  next
    case False
    then have "typed_part a = a" using va by (intro typed_part_other) simp
    then have "tty T (diff_bytes a v) = pre @ v" using tty_diff_exact [OF del] pre by simp
    then show ?thesis using suffix_typed_part suffix_order.trans suffixI by metis
  qed
qed

section \<open>Every handler keeps the invariant\<close>

named_theorems field_preserve "one lemma per operation: the invariant is kept"

lemma field_inv_cong:
  assumes "field_inv prompt s"
    and "df_value t = df_value s" "df_sent t = df_sent s" "df_anchorAtEnd t = df_anchorAtEnd s"
      "df_out t = df_out s" "df_live t = df_live s"
  shows "field_inv prompt t"
  using assms by (simp add: field_inv_def in_sync_iff mirrored_def screen_def)


lemma resetField_from_sync:
  assumes "in_sync s" "df_live s"
  shows "field_inv prompt (resetField s)"
  using assms in_sync_anchor [of s] resetField_sent [of s] resetField_sync [of s]
  by (simp add: field_inv_def mirrored_anchor)

lemma resetField_inv [field_preserve]:
  "field_inv prompt s \<Longrightarrow> field_inv prompt (resetField s)"
  by (simp add: field_inv_def resetField_from_sync [unfolded field_inv_def])

lemma pinCaret_inv [field_preserve]:
  "field_inv prompt s \<Longrightarrow> field_inv prompt (pinCaretToEnd s)"
  using pinCaret_set [of s]
  by (auto simp: field_inv_def pinCaret_sync mirrored_def screen_def)

lemma field_inv_marks [field_preserve]:
  assumes "field_inv prompt s"
  shows "field_inv prompt (scheduleReanchor s)" "field_inv prompt (scheduleRefocus s)"
    "field_inv prompt (markComposition t s)" "field_inv prompt (s\<lparr>df_composing := c\<rparr>)"
    "field_inv prompt (s\<lparr>df_focused := f\<rparr>)" "field_inv prompt (s\<lparr>df_refocusing := f\<rparr>)"
    "field_inv prompt (s\<lparr>df_refocusTimer := f\<rparr>)" "field_inv prompt (s\<lparr>df_reanchorScheduled := f\<rparr>)"
  by (rule field_inv_cong [OF assms],
      simp_all add: scheduleReanchor_def scheduleRefocus_def markComposition_def)+

subsection \<open>\<open>flush\<close>\<close>

lemma flush_same: "readValue s = (v, s1) \<Longrightarrow> v = df_sent s \<Longrightarrow> flush s = s1"
  by (simp add: flush_def readValue_fields)

lemma flush_lf:
  assumes "readValue s = (v, s1)" "v \<noteq> df_sent s"
    and "U_LF \<in> set (drop (common_length v (df_sent s)) v)"
  shows "\<exists>os. flush s = resetField (s1\<lparr>df_sent := v, df_out := os\<rparr>)"
  using assms by (auto simp: flush_def readValue_fields [OF assms(1)] Let_def emit_def)

lemma flush_plain:
  assumes "readValue s = (v, s1)" "v \<noteq> df_sent s"
    and "U_LF \<notin> set (drop (common_length v (df_sent s)) v)"
  obtains os where "out_bytes os = out_bytes (df_out s) @ diff_bytes (df_sent s) v"
    and "flush s \<in> (\<lambda>f. f (s1\<lparr>df_sent := v, df_out := os\<rparr>)) `
      {scheduleReanchor, resetField, \<lambda>s. scheduleRefocus (resetField s), pinCaretToEnd}"
proof -
  let ?c = "common_length v (df_sent s)"
  let ?removed = "length (df_sent s) - ?c"
  let ?os = "df_out s @ (if ?removed > 0 then [Bytes (replicate ?removed U_DEL)] else [])
    @ (if drop ?c v \<noteq> [] then [Bytes (drop ?c v)] else [])"
  have "out_bytes ?os = out_bytes (df_out s) @ diff_bytes (df_sent s) v"
    by (simp add: diff_bytes_def)
  moreover have keep: "s1\<lparr>df_sent := x, df_out := df_out s\<rparr> = s1\<lparr>df_sent := x\<rparr>" for x
    using readValue_fields(3) [OF assms(1)] by simp
  have "flush s \<in> (\<lambda>f. f (s1\<lparr>df_sent := v, df_out := ?os\<rparr>)) `
      {scheduleReanchor, resetField, \<lambda>s. scheduleRefocus (resetField s), pinCaretToEnd}"
    using assms
    by (cases "?removed > 0"; cases "drop ?c v = []")
      (simp_all add: flush_def readValue_fields [OF assms(1)] Let_def emit_def keep)
  ultimately show ?thesis by (rule that)
qed

lemma flush_inv:
  assumes m: "mirrored prompt s" and del: "U_DEL \<notin> set (df_value s)" and live: "df_live s"
  shows "field_inv prompt (flush s)"
proof -
  obtain v s1 where r: "readValue s = (v, s1)" by fastforce
  have dv: "U_DEL \<notin> set v" using readValue_set [OF r] del by blast
  let ?T = "\<lambda>os. s1\<lparr>df_sent := v, df_out := os\<rparr>"
  have sync: "in_sync (?T os)" for os by (rule in_sync_sent [OF r])
  have T: "field_inv prompt (?T os)"
    if "suffix (typed_part v) (tty prompt (out_bytes os))" for os
    using that sync del live
    by (simp add: field_inv_def mirrored_def screen_def readValue_fields [OF r])
  show ?thesis
  proof (cases "v = df_sent s")
    case True
    have "field_inv prompt (?T (df_out s))"
      using m True by (intro T) (simp add: mirrored_def screen_def)
    then show ?thesis
      by (rule field_inv_cong)
        (simp_all add: flush_same [OF r True] readValue_fields [OF r] True)
  next
    case False
    show ?thesis
    proof (cases "U_LF \<in> set (drop (common_length v (df_sent s)) v)")
      case True
      then obtain os where "flush s = resetField (?T os)" using flush_lf [OF r False] by blast
      then show ?thesis
        using sync live by (simp add: resetField_from_sync readValue_fields [OF r])
    next
      case no: False
      obtain os where os: "out_bytes os = out_bytes (df_out s) @ diff_bytes (df_sent s) v"
        and f: "flush s \<in> (\<lambda>f. f (?T os)) `
          {scheduleReanchor, resetField, \<lambda>s. scheduleRefocus (resetField s), pinCaretToEnd}"
        using flush_plain [OF r False no] by blast
      have "field_inv prompt (?T os)"
        using m tty_diff_mirror [OF dv]
        by (intro T) (simp add: os tty_append mirrored_def screen_def)
      then show ?thesis using f by (auto intro!: field_preserve)
    qed
  qed
qed

lemma flush_keeps [field_preserve]: "field_inv prompt s \<Longrightarrow> field_inv prompt (flush s)"
  by (rule flush_inv) (simp_all add: field_inv_def)

subsection \<open>The handlers\<close>

lemma composition_inv [field_preserve]:
  assumes "field_inv prompt s"
  shows "field_inv prompt (onCompositionStart d s)" "field_inv prompt (onCompositionUpdate d s)"
  using assms by (auto simp: onCompositionStart_def onCompositionUpdate_def intro!: field_preserve)

lemma compositionEnd_inv [field_preserve]:
  assumes "field_inv prompt s"
  shows "field_inv prompt (onCompositionEnd s)"
proof -
  let ?f = "flush (markComposition [] (s\<lparr>df_composing := False\<rparr>))"
  have f: "field_inv prompt ?f" using assms by (intro field_preserve)
  then have "readValue ?f = (df_sent ?f, ?f)" by (simp add: field_inv_def in_sync_def)
  with f show ?thesis
    by (auto simp: onCompositionEnd_def Let_def intro!: field_preserve)
qed


lemma butlast_suffix: "suffix (x @ [u]) T \<Longrightarrow> suffix x (butlast T)"
  by (auto simp: suffix_def butlast_append)

lemma typed_part_trim:
  assumes "a \<noteq> ANCHOR"
  shows "typed_part (let t = slice_drop_end a 1 in if starts_with t ANCHOR then t else ANCHOR @ t)
    = butlast (typed_part a)"
proof -
  have app: "typed_part (ANCHOR @ t) = t" for t by (simp add: ANCHOR_def)
  have cut: "slice_drop_end t (Suc 0) = butlast t" for t :: ustring
    by (simp add: slice_drop_end_def butlast_conv_take)
  show ?thesis
  proof (cases a)
    case Nil
    then show ?thesis using app [of "[]"] by (simp add: cut Let_def)
  next
    case (Cons x w)
    with assms have "w \<noteq> [] \<or> x \<noteq> U_SPACE" by (auto simp: ANCHOR_def)
    with Cons show ?thesis
      by (cases "x = U_SPACE"; cases "w = []")
        (simp_all add: cut app typed_part_other Let_def)
  qed
qed

lemma deleteAtCaretStart_inv [field_preserve]:
  assumes "field_inv prompt s"
  shows "field_inv prompt (snd (deleteAtCaretStart s))"
proof (cases "df_composing s \<or> fst (df_sel s) \<noteq> 0 \<or> snd (df_sel s) \<noteq> 0")
  case True
  then show ?thesis using assms by (simp add: deleteAtCaretStart_def)
next
  case False
  have r: "readValue s = (df_sent s, s)" using assms by (simp add: field_inv_def in_sync_def)
  let ?t = "slice_drop_end (df_sent s) 1"
  let ?v = "if starts_with ?t ANCHOR then ?t else ANCHOR @ ?t"
  let ?s3 = "if df_sent s \<noteq> ANCHOR
    then (emit [U_DEL] s)\<lparr>df_value := ?v, df_sent := ?v\<rparr> else emit [U_DEL] s"
  have scr: "screen prompt (emit [U_DEL] s) = butlast (screen prompt s)"
    by (simp add: screen_def emit_def tty_append)
  have m: "suffix (typed_part (df_sent s)) (screen prompt s)" and live: "df_live s"
    and del: "U_DEL \<notin> set (df_value s)"
    using assms by (simp_all add: field_inv_def mirrored_def)
  have del': "U_DEL \<notin> set ?v"
    using readValue_set [OF r] del by (auto simp: slice_drop_end_def dest: in_set_takeD)
  have "suffix (typed_part ?v) (butlast (screen prompt s))" if "df_sent s \<noteq> ANCHOR"
  proof -
    have v: "typed_part ?v = butlast (typed_part (df_sent s))"
      using typed_part_trim [OF that] by (simp only: Let_def)
    show ?thesis
    proof (cases "typed_part (df_sent s)" rule: rev_cases)
      case Nil
      then show ?thesis using v by simp
    next
      case (snoc x u)
      then show ?thesis using v m butlast_suffix [of x u] by simp
    qed
  qed
  then have "field_inv prompt (?s3\<lparr>df_anchorAtEnd := False\<rparr>)"
    using del del' live scr in_sync_anchor [of s] assms
    by (auto simp: field_inv_def in_sync_iff mirrored_def screen_def emit_def)
  moreover have "deleteAtCaretStart s = (True, pinCaretToEnd (?s3\<lparr>df_anchorAtEnd := False\<rparr>))"
    using False by (simp only: deleteAtCaretStart_def r Let_def prod.case if_False)
  ultimately show ?thesis by (simp only: snd_conv pinCaret_inv)
qed

lemma beforeInput_inv [field_preserve]:
  "field_inv prompt s \<Longrightarrow> field_inv prompt (snd (onBeforeInput t c s))"
  by (simp add: onBeforeInput_def deleteAtCaretStart_inv)

lemma emit_reset_inv:
  "field_inv prompt s \<Longrightarrow> field_inv prompt (resetField (emit b s))"
  by (rule resetField_from_sync) (simp_all add: field_inv_def in_sync_iff emit_def)

lemma keyDown_inv [field_preserve]:
  assumes "field_inv prompt s" "\<not> forwards e"
  shows "field_inv prompt (snd (onKeyDown e s))"
proof -
  have "field_inv prompt (resetField (emit [U_CR] (flush s)))"
    using assms(1) by (intro emit_reset_inv flush_keeps)
  moreover have "s' = s" if "deleteAtCaretStart s = (False, s')" for s'
    using that by (auto simp: deleteAtCaretStart_def Let_def split: prod.splits if_splits)
  ultimately show ?thesis
    using assms deleteAtCaretStart_inv [OF assms(1)]
    by (auto simp: onKeyDown_def forwardSpecialKey_def split: prod.split bool.split)
qed

lemma blur_focus_inv [field_preserve]:
  assumes "field_inv prompt s"
  shows "field_inv prompt (onBlur s)" "field_inv prompt (onFocus s)"
  using assms by (auto simp: onBlur_def onFocus_def Let_def intro!: field_preserve)

lemma timers_inv [field_preserve]:
  assumes "field_inv prompt s"
  shows "field_inv prompt (refocus_timer s)" "field_inv prompt (reanchor_frame s)"
proof -
  show "field_inv prompt (refocus_timer s)"
    using assms by (auto simp: refocus_timer_def Let_def intro!: field_preserve)
  have "field_inv prompt (s\<lparr>df_reanchorScheduled := False, df_value := ANCHOR, df_sent := ANCHOR,
      df_anchorAtEnd := False, df_sel := (length ANCHOR, length ANCHOR)\<rparr>)"
    using assms by (simp add: field_inv_def in_sync_iff mirrored_anchor)
  then show "field_inv prompt (reanchor_frame s)"
    using assms by (auto simp: reanchor_frame_def Let_def intro!: field_preserve)
qed

lemma resync_inv [field_preserve]:
  assumes "field_inv prompt s"
  shows "field_inv prompt (resync s)" "field_inv prompt (onVisibilityChange h s)"
proof -
  show "field_inv prompt (resync s)"
    using assms by (auto simp: resync_def intro!: field_preserve)
  then show "field_inv prompt (onVisibilityChange h s)"
    using assms by (auto simp: onVisibilityChange_def intro!: field_preserve)
qed

section \<open>Runs\<close>






section \<open>One edit\<close>

lemma common_length_self [simp]: "common_length a a = length a"
  by (induction a) auto


lemma readValue_leading:
  "\<not> df_anchorAtEnd s \<Longrightarrow> df_value s = U_SPACE # w \<Longrightarrow> readValue s = (U_SPACE # w, s)"
  by (simp add: readValue_def)



text \<open>Outside a composition, text that adds a space or a line feed ends the word: the field is
  back to its anchor, nothing is left to correct, and a line feed reaches the terminal as a
  carriage return, never as a raw line feed in the added text.\<close>
lemma word_boundary_resets:
  assumes "\<not> df_composing s" "\<not> df_anchorAtEnd s" "df_value s = U_SPACE # w"
    and "df_sent s = U_SPACE # old" "prefix old w" "U_SPACE \<in> set (drop (length old) w) \<or>
      U_LF \<in> set (drop (length old) w)"
  shows "df_value (flush s) = ANCHOR \<and> df_sent (flush s) = ANCHOR \<and>
    df_out (flush s) = df_out s @ [Bytes (lf_to_cr (drop (length old) w))] \<and>
    U_LF \<notin> set (lf_to_cr (drop (length old) w))"
proof -
  obtain add where w: "w = old @ add" using assms(5) by (auto simp: prefix_def)
  then have add: "add \<noteq> []" "U_SPACE \<in> set add \<or> U_LF \<in> set add" using assms(6) by auto
  have "common_length (x @ add) x = length x" for x
    by (induction x) (cases add, simp_all)
  from this [of old] have cl: "common_length (U_SPACE # old @ add) (U_SPACE # old) = Suc (length old)"
    by simp
  have r: "readValue s = (U_SPACE # old @ add, s)"
    using readValue_leading [OF assms(2)] assms(3) w by simp
  have v: "df_value s \<noteq> ANCHOR" using assms(3) w add(1) by (simp add: ANCHOR_def)
  have noLF: "lf_to_cr add = add" if "U_LF \<notin> set add"
    using that by (auto simp: lf_to_cr_def intro: map_idI)
  have "U_LF \<notin> set (lf_to_cr add)" by (auto simp: lf_to_cr_def)
  with add v noLF show ?thesis
    using assms(1) by (auto simp: flush_def r Let_def assms(4) w cl [simplified] emit_def resetField_def
        scheduleRefocus_def)
qed

lemma word_boundary_resets_witness:
  "let s = (diff_init True True)\<lparr>df_value := js '' ls '', df_sent := js '' ls''\<rparr>
   in df_value (flush s) = ANCHOR \<and> df_out (flush s) = [Bytes (js '' '')]"
  using word_boundary_resets [of "(diff_init True True)\<lparr>df_value := js '' ls '', df_sent := js '' ls''\<rparr>"
      "js ''ls ''" "js ''ls''"]
  by (simp add: Let_def diff_init_def js_defs lf_to_cr_def)

end
