(* ===== verification/Mobile_Password.thy ===== *)
theory Mobile_Password
  imports Mobile_Input
begin

text \<open>
  The \<open>password\<close> input mode of \<open>components/Terminal/Terminal.tsx\<close>: length differences against a
  field that is reset to the anchor in the next animation frame. The pending frame is the value
  it expects, \<open>None\<close> when none is scheduled.
\<close>

section \<open>State and handlers\<close>

record password_field =
  pf_value :: ustring
  pf_baseline :: ustring
  pf_composing :: bool
  pf_resetScheduled :: "ustring option"
  pf_out :: "key_out list"


definition scheduleReset :: "password_field \<Rightarrow> password_field" where
  "scheduleReset s =
     (if pf_resetScheduled s \<noteq> None then s else s\<lparr>pf_resetScheduled := Some (pf_value s)\<rparr>)"


definition processValueChange :: "password_field \<Rightarrow> password_field" where
  "processValueChange s =
     (let v = pf_value s; n = length (pf_baseline s);
          s1 = (if length v > n then s\<lparr>pf_out := pf_out s @ [Bytes (drop n v)]\<rparr>
                else if length v < n
                then s\<lparr>pf_out := pf_out s @ [Bytes (replicate (n - length v) U_DEL)]\<rparr>
                else s)
      in scheduleReset (s1\<lparr>pf_baseline := v\<rparr>))"

definition password_compositionStart :: "password_field \<Rightarrow> password_field" where
  "password_compositionStart s = s\<lparr>pf_composing := True\<rparr>"

definition password_compositionEnd :: "password_field \<Rightarrow> password_field" where
  "password_compositionEnd s = processValueChange (s\<lparr>pf_composing := False\<rparr>)"



section \<open>What a password field delivers\<close>


lemma scheduleReset_frame [simp]:
  "pf_value (scheduleReset s) = pf_value s" "pf_baseline (scheduleReset s) = pf_baseline s"
  "pf_composing (scheduleReset s) = pf_composing s" "pf_out (scheduleReset s) = pf_out s"
  by (simp_all add: scheduleReset_def)

lemma processValueChange_frame [simp]:
  "pf_value (processValueChange s) = pf_value s"
  "pf_baseline (processValueChange s) = pf_value s"
  "pf_composing (processValueChange s) = pf_composing s"
  by (simp_all add: processValueChange_def Let_def)






end
