(* ===== verification/Api_Client.thy ===== *)
theory Api_Client
  imports Prelude
begin

text \<open>
  The HTTP client of the web manager, \<open>api/client.ts\<close>: module state, listeners and inline gates, and
  \<open>request\<close> as a machine whose phases are the points where the function awaits something, so that
  several requests interleave on the shared module state exactly where the code lets them.

  \<open>JSON.parse\<close> is an argument \<open>parse\<close> (\<open>None\<close> when it throws). What \<open>fetch\<close>, \<open>res.text()\<close> and the
  prompter answer, and when, is the input of a step. Message texts are kept as constructors.
\<close>

section \<open>Values\<close>

datatype message = LoginExpired | TimedOut | RequestFailed nat | ServerError ustring

datatype api_error = ApiError nat message | OtherError ustring

text \<open>\<open>undefined\<close> is \<open>None\<close>.\<close>

type_synonym api_result = "api_error + json option"

record api_request =
  rq_path :: ustring
  rq_method :: "ustring option"
  rq_timeoutMs :: nat
  rq_prompt :: bool

record api_response =
  rs_opaqueredirect :: bool
  rs_status :: nat

definition res_ok :: "api_response \<Rightarrow> bool" where
  "res_ok r \<longleftrightarrow> 200 \<le> rs_status r \<and> rs_status r \<le> 299"

datatype fetch_outcome = FetchAborted | FetchFailed ustring | Responded api_response

section \<open>Module state\<close>

datatype effect =
    Fetch nat                      \<comment> \<open>request \<open>id\<close> touches the network\<close>
  | Prompt nat                     \<comment> \<open>request \<open>id\<close> calls the prompter\<close>
  | CallListener nat
  | Broadcast

record client =
  unlockPrompter :: bool           \<comment> \<open>a prompter is registered\<close>
  promptDeclinedAt :: nat
  loginExpired :: bool
  authStatusListeners :: "nat list"
  inlineGates :: "nat list"
  inlineGateListeners :: "nat list"
  effects :: "effect list"

definition client_init :: client where
  "client_init = \<lparr>unlockPrompter = False, promptDeclinedAt = 0, loginExpired = False,
     authStatusListeners = [], inlineGates = [], inlineGateListeners = [], effects = []\<rparr>"

definition effect :: "effect \<Rightarrow> client \<Rightarrow> client" where
  "effect e c = c\<lparr>effects := effects c @ [e]\<rparr>"

text \<open>A JavaScript \<open>Set\<close> iterates in insertion order; adding a member again changes nothing.\<close>

definition set_add :: "nat \<Rightarrow> nat list \<Rightarrow> nat list" where
  "set_add x xs = (if x \<in> set xs then xs else xs @ [x])"

definition set_delete :: "nat \<Rightarrow> nat list \<Rightarrow> nat list" where
  "set_delete x xs = filter (\<lambda>y. y \<noteq> x) xs"

definition call_all :: "nat list \<Rightarrow> client \<Rightarrow> client" where
  "call_all ls c = c\<lparr>effects := effects c @ map CallListener ls\<rparr>"

definition setUnlockPrompter :: "bool \<Rightarrow> client \<Rightarrow> client" where
  "setUnlockPrompter fn c = c\<lparr>unlockPrompter := fn\<rparr>"

definition registerInlineGate :: "nat \<Rightarrow> client \<Rightarrow> client" where
  "registerInlineGate g c =
     (let c1 = c\<lparr>inlineGates := set_add g (inlineGates c)\<rparr> in call_all (inlineGateListeners c1) c1)"

definition unregisterInlineGate :: "nat \<Rightarrow> client \<Rightarrow> client" where
  "unregisterInlineGate g c =
     (let c1 = c\<lparr>inlineGates := set_delete g (inlineGates c)\<rparr> in call_all (inlineGateListeners c1) c1)"

definition subscribeInlineGates :: "nat \<Rightarrow> client \<Rightarrow> client" where
  "subscribeInlineGates cb c = c\<lparr>inlineGateListeners := set_add cb (inlineGateListeners c)\<rparr>"

definition unsubscribeInlineGates :: "nat \<Rightarrow> client \<Rightarrow> client" where
  "unsubscribeInlineGates cb c = c\<lparr>inlineGateListeners := set_delete cb (inlineGateListeners c)\<rparr>"

definition inlineGateVisible :: "client \<Rightarrow> bool" where
  "inlineGateVisible c \<longleftrightarrow> length (inlineGates c) > 0"

text \<open>The gate \<open>focusInlineGate\<close> focuses, if any.\<close>

definition focusInlineGate :: "client \<Rightarrow> nat option" where
  "focusInlineGate c = (if inlineGates c = [] then None else Some (last (inlineGates c)))"

definition onAuthStatusChange :: "nat \<Rightarrow> client \<Rightarrow> client" where
  "onAuthStatusChange cb c = c\<lparr>authStatusListeners := set_add cb (authStatusListeners c)\<rparr>"

definition offAuthStatusChange :: "nat \<Rightarrow> client \<Rightarrow> client" where
  "offAuthStatusChange cb c = c\<lparr>authStatusListeners := set_delete cb (authStatusListeners c)\<rparr>"

text \<open>A message of another page on the \<open>webmanager-auth\<close> channel.\<close>

definition authChannel_message :: "client \<Rightarrow> client" where
  "authChannel_message c = call_all (authStatusListeners c) c"

definition notifyAuthStatusChange :: "client \<Rightarrow> client" where
  "notifyAuthStatusChange c = effect Broadcast (call_all (authStatusListeners c) c)"

section \<open>Paths and the prompt cooldown\<close>

definition UNLOCK_PATH :: ustring where
  "UNLOCK_PATH = js ''/auth/unlock''"

definition isUnlockPath :: "ustring \<Rightarrow> bool" where
  "isUnlockPath p \<longleftrightarrow> p = UNLOCK_PATH \<or> starts_with p (js ''/auth/webauthn/unlock/'')
     \<or> starts_with p (js ''/auth/webauthn/register/'')"

definition PROMPT_COOLDOWN_MS :: nat where
  "PROMPT_COOLDOWN_MS = 60000"

definition DEFAULT_TIMEOUT_MS :: nat where
  "DEFAULT_TIMEOUT_MS = 15000"

definition ascii_upper :: "ustring \<Rightarrow> ustring" where
  "ascii_upper s = map (\<lambda>u. if 0x61 \<le> u \<and> u \<le> 0x7a then u - 0x20 else u) s"

text \<open>
  The method is one of the ASCII verbs below. \<open>Date.now() - promptDeclinedAt\<close> is an integer
  difference: a clock set back after a decline suppresses too.
\<close>

definition promptSuppressed :: "nat \<Rightarrow> ustring option \<Rightarrow> client \<Rightarrow> bool" where
  "promptSuppressed now mthd c =
     (let m = ascii_upper (case mthd of None \<Rightarrow> js ''GET'' | Some m \<Rightarrow> m) in
      if m \<noteq> js ''GET'' then False
      else int now - int (promptDeclinedAt c) < int PROMPT_COOLDOWN_MS)"

section \<open>\<open>request\<close>\<close>

datatype phase =
    Fetching bool                          \<comment> \<open>awaiting \<open>fetch\<close>; the argument is \<open>retried\<close>\<close>
  | Reading bool api_response              \<comment> \<open>awaiting \<open>res.text()\<close>\<close>
  | Prompting api_error                    \<comment> \<open>awaiting the prompter; the error thrown on a refusal\<close>
  | Settled api_result

definition request_start :: "nat \<Rightarrow> bool \<Rightarrow> client \<Rightarrow> phase \<times> client" where
  "request_start i retried c =
     (if loginExpired c then (Settled (Inl (ApiError 0 LoginExpired)), c)
      else (Fetching retried, effect (Fetch i) c))"

definition request_fetched ::
  "api_request \<Rightarrow> bool \<Rightarrow> fetch_outcome \<Rightarrow> client \<Rightarrow> phase \<times> client" where
  "request_fetched rq retried out c =
     (case out of
        FetchAborted \<Rightarrow> (Settled (Inl (ApiError 0 TimedOut)), c)
      | FetchFailed m \<Rightarrow> (Settled (Inl (OtherError m)), c)
      | Responded res \<Rightarrow>
          if rs_opaqueredirect res
          then (Settled (Inl (ApiError 0 LoginExpired)), c\<lparr>loginExpired := True\<rparr>)
          else
            let c1 = (if isUnlockPath (rq_path rq) \<and> res_ok res
                      then notifyAuthStatusChange (c\<lparr>promptDeclinedAt := 0\<rparr>) else c)
            in if rs_status res = 204 then (Settled (Inr None), c1)
               else (Reading retried res, c1))"

fun json_error_field :: "json option \<Rightarrow> ustring option" where
  "json_error_field (Some (JObject fs)) =
     (case map_of fs (js ''error'') of Some (JString m) \<Rightarrow> Some m | _ \<Rightarrow> None)"
| "json_error_field _ = None"

definition parse_body :: "(ustring \<Rightarrow> json option) \<Rightarrow> ustring \<Rightarrow> json option" where
  "parse_body parse raw = (if raw = [] then None else parse raw)"

definition response_message :: "api_response \<Rightarrow> ustring \<Rightarrow> json option \<Rightarrow> message" where
  "response_message res raw data =
     (case json_error_field data of
        Some m \<Rightarrow> ServerError m
      | None \<Rightarrow> if raw \<noteq> [] then ServerError raw else RequestFailed (rs_status res))"

definition may_prompt :: "api_request \<Rightarrow> bool \<Rightarrow> nat \<Rightarrow> client \<Rightarrow> bool" where
  "may_prompt rq retried now c \<longleftrightarrow> rq_prompt rq \<and> \<not> retried \<and> unlockPrompter c
     \<and> \<not> isUnlockPath (rq_path rq) \<and> \<not> promptSuppressed now (rq_method rq) c"

definition request_text ::
  "(ustring \<Rightarrow> json option) \<Rightarrow> nat \<Rightarrow> api_request \<Rightarrow> bool \<Rightarrow> api_response \<Rightarrow> ustring \<Rightarrow> nat \<Rightarrow>
     client \<Rightarrow> phase \<times> client" where
  "request_text parse i rq retried res raw now c =
     (let data = parse_body parse raw in
      if \<not> res_ok res then
        let c1 = (if rs_status res = 401 \<and> \<not> rq_prompt rq \<and> \<not> isUnlockPath (rq_path rq)
                  then call_all (authStatusListeners c) c else c);
            err = ApiError (rs_status res) (response_message res raw data)
        in if rs_status res = 401 \<and> may_prompt rq retried now c1
           then (Prompting err, effect (Prompt i) c1)
           else (Settled (Inl err), c1)
      else (Settled (Inr data), c))"

definition request_prompted :: "nat \<Rightarrow> api_error \<Rightarrow> bool \<Rightarrow> nat \<Rightarrow> client \<Rightarrow> phase \<times> client" where
  "request_prompted i err unlocked now c =
     (if unlocked then request_start i True (c\<lparr>promptDeclinedAt := 0\<rparr>)
      else (Settled (Inl err), c\<lparr>promptDeclinedAt := now\<rparr>))"

section \<open>The verbs\<close>

definition timeout_or_default :: "nat option \<Rightarrow> nat" where
  "timeout_or_default t = (case t of None \<Rightarrow> DEFAULT_TIMEOUT_MS | Some n \<Rightarrow> n)"

definition api_get :: "ustring \<Rightarrow> nat option \<Rightarrow> api_request" where
  "api_get p t = \<lparr>rq_path = p, rq_method = None, rq_timeoutMs = timeout_or_default t, rq_prompt = True\<rparr>"

definition api_poll :: "ustring \<Rightarrow> nat option \<Rightarrow> api_request" where
  "api_poll p t = \<lparr>rq_path = p, rq_method = None, rq_timeoutMs = timeout_or_default t, rq_prompt = False\<rparr>"

definition api_send :: "string \<Rightarrow> ustring \<Rightarrow> nat option \<Rightarrow> api_request" where
  "api_send verb p t =
     \<lparr>rq_path = p, rq_method = Some (js verb), rq_timeoutMs = timeout_or_default t, rq_prompt = True\<rparr>"

abbreviation "api_post \<equiv> api_send ''POST''"
abbreviation "api_put \<equiv> api_send ''PUT''"
abbreviation "api_patch \<equiv> api_send ''PATCH''"
abbreviation "api_del \<equiv> api_send ''DELETE''"

text \<open>The abort timer is armed only for a positive timeout.\<close>

definition can_time_out :: "api_request \<Rightarrow> bool" where
  "can_time_out rq \<longleftrightarrow> rq_timeoutMs rq > 0"

text \<open>\<open>lockNow\<close>: the request to issue, and what runs once it has settled.\<close>

definition lock_request :: api_request where
  "lock_request = \<lparr>rq_path = js ''/auth/lock'', rq_method = Some (js ''POST''),
     rq_timeoutMs = DEFAULT_TIMEOUT_MS, rq_prompt = True\<rparr>"

definition lockNow_settled :: "api_result \<Rightarrow> client \<Rightarrow> client" where
  "lockNow_settled r c = (case r of Inl _ \<Rightarrow> c | Inr _ \<Rightarrow> notifyAuthStatusChange c)"

definition requestUnlock :: "nat \<Rightarrow> client \<Rightarrow> client option" where
  "requestUnlock i c = (if \<not> unlockPrompter c then None else Some (effect (Prompt i) c))"

section \<open>Interleaved requests\<close>

record api_world =
  wclient :: client
  wrequests :: "nat \<rightharpoonup> api_request \<times> phase"

definition world_init :: "client \<Rightarrow> api_world" where
  "world_init c = \<lparr>wclient = c\<lparr>effects := []\<rparr>, wrequests = Map.empty\<rparr>"

definition advance :: "nat \<Rightarrow> api_request \<Rightarrow> phase \<times> client \<Rightarrow> api_world \<Rightarrow> api_world" where
  "advance i rq pc w = w\<lparr>wclient := snd pc, wrequests := (wrequests w)(i \<mapsto> (rq, fst pc))\<rparr>"

text \<open>
  One await of one request ends, a request begins under a fresh id, or another part of the page
  changes the registrations.
\<close>

inductive api_step :: "(ustring \<Rightarrow> json option) \<Rightarrow> api_world \<Rightarrow> api_world \<Rightarrow> bool" for parse where
  issue: "wrequests w i = None \<Longrightarrow>
    api_step parse w (advance i rq (request_start i False (wclient w)) w)"
| fetched: "wrequests w i = Some (rq, Fetching retried) \<Longrightarrow>
    (out = FetchAborted \<Longrightarrow> can_time_out rq) \<Longrightarrow>
    api_step parse w (advance i rq (request_fetched rq retried out (wclient w)) w)"
| body: "wrequests w i = Some (rq, Reading retried res) \<Longrightarrow>
    api_step parse w (advance i rq (request_text parse i rq retried res raw now (wclient w)) w)"
| body_failed: "wrequests w i = Some (rq, Reading retried res) \<Longrightarrow>
    api_step parse w (advance i rq (Settled (Inl (OtherError m)), wclient w) w)"
| prompted: "wrequests w i = Some (rq, Prompting err) \<Longrightarrow>
    api_step parse w (advance i rq (request_prompted i err unlocked now (wclient w)) w)"
| prompter: "api_step parse w (w\<lparr>wclient := setUnlockPrompter fn (wclient w)\<rparr>)"
| listen: "api_step parse w (w\<lparr>wclient := onAuthStatusChange cb (wclient w)\<rparr>)"
| unlisten: "api_step parse w (w\<lparr>wclient := offAuthStatusChange cb (wclient w)\<rparr>)"
| channel: "api_step parse w (w\<lparr>wclient := authChannel_message (wclient w)\<rparr>)"
| locked: "wrequests w i = Some (rq, Settled r) \<Longrightarrow>
    api_step parse w (w\<lparr>wclient := lockNow_settled r (wclient w)\<rparr>)"

definition api_reachable :: "(ustring \<Rightarrow> json option) \<Rightarrow> api_world \<Rightarrow> api_world \<Rightarrow> bool" where
  "api_reachable parse = (api_step parse)\<^sup>*\<^sup>*"


section \<open>What one step does to the log\<close>

abbreviation fetches :: "nat \<Rightarrow> client \<Rightarrow> nat" where
  "fetches i c \<equiv> count_list (effects c) (Fetch i)"

abbreviation prompts :: "nat \<Rightarrow> client \<Rightarrow> nat" where
  "prompts i c \<equiv> count_list (effects c) (Prompt i)"

lemma count_listeners [simp]:
  "count_list (map CallListener ls) (Fetch i) = 0" "count_list (map CallListener ls) (Prompt i) = 0"
  by (induction ls) auto

lemma count_append [simp]: "count_list (xs @ ys) x = count_list xs x + count_list ys x"
  by (induction xs) auto

lemma notify_counts [simp]:
  "fetches i (call_all ls c) = fetches i c" "prompts i (call_all ls c) = prompts i c"
  "fetches i (notifyAuthStatusChange c) = fetches i c"
  "prompts i (notifyAuthStatusChange c) = prompts i c"
  by (simp_all add: call_all_def notifyAuthStatusChange_def effect_def)

lemma notify_fields [simp]:
  "loginExpired (call_all ls c) = loginExpired c"
  "loginExpired (notifyAuthStatusChange c) = loginExpired c"
  "promptDeclinedAt (call_all ls c) = promptDeclinedAt c"
  "promptDeclinedAt (notifyAuthStatusChange c) = promptDeclinedAt c"
  "unlockPrompter (call_all ls c) = unlockPrompter c"
  by (simp_all add: call_all_def notifyAuthStatusChange_def effect_def)

lemma other_step_counts [simp]:
  "effects (setUnlockPrompter fn c) = effects c" "effects (onAuthStatusChange cb c) = effects c"
  "effects (offAuthStatusChange cb c) = effects c"
  "fetches i (authChannel_message c) = fetches i c" "prompts i (authChannel_message c) = prompts i c"
  "fetches i (lockNow_settled r c) = fetches i c" "prompts i (lockNow_settled r c) = prompts i c"
  by (simp_all add: setUnlockPrompter_def onAuthStatusChange_def offAuthStatusChange_def
      authChannel_message_def lockNow_settled_def split: sum.split)

lemma other_step_expired [simp]:
  "loginExpired (setUnlockPrompter fn c) = loginExpired c"
  "loginExpired (onAuthStatusChange cb c) = loginExpired c"
  "loginExpired (offAuthStatusChange cb c) = loginExpired c"
  "loginExpired (authChannel_message c) = loginExpired c"
  "loginExpired (lockNow_settled r c) = loginExpired c"
  by (simp_all add: setUnlockPrompter_def onAuthStatusChange_def offAuthStatusChange_def
      authChannel_message_def lockNow_settled_def split: sum.split)

lemma start_counts:
  "fetches j (snd (request_start i b c)) = fetches j c + (if j = i \<and> \<not> loginExpired c then 1 else 0)"
  "prompts j (snd (request_start i b c)) = prompts j c"
  by (simp_all add: request_start_def effect_def)

lemma fetched_counts [simp]:
  "fetches j (snd (request_fetched rq b out c)) = fetches j c"
  "prompts j (snd (request_fetched rq b out c)) = prompts j c"
  by (simp_all add: request_fetched_def Let_def split: fetch_outcome.split)

lemma text_fetches [simp]:
  "fetches j (snd (request_text parse i rq b res raw now c)) = fetches j c"
  by (simp add: request_text_def Let_def effect_def)

lemma text_prompts:
  "prompts j (snd (request_text parse i rq b res raw now c)) = prompts j c +
     (if j = i \<and> (\<exists>e. fst (request_text parse i rq b res raw now c) = Prompting e) then 1 else 0)"
  by (simp add: request_text_def Let_def effect_def)

lemma text_prompting:
  "fst (request_text parse i rq b res raw now c) = Prompting e \<Longrightarrow>
     rq_prompt rq \<and> \<not> b \<and> \<not> isUnlockPath (rq_path rq) \<and> rs_status res = 401
     \<and> \<not> promptSuppressed now (rq_method rq) c"
  by (auto simp: request_text_def Let_def may_prompt_def promptSuppressed_def split: if_splits)

lemma prompted_counts:
  "fetches j (snd (request_prompted i err u now c)) =
     fetches j c + (if j = i \<and> u \<and> \<not> loginExpired c then 1 else 0)"
  "prompts j (snd (request_prompted i err u now c)) = prompts j c"
  by (simp_all add: request_prompted_def start_counts)

section \<open>The life of a request\<close>

text \<open>How often a request has fetched and prompted, by its phase.\<close>

fun phase_counts :: "api_request \<Rightarrow> phase \<Rightarrow> nat \<Rightarrow> nat \<Rightarrow> bool" where
  "phase_counts rq (Fetching b) f p \<longleftrightarrow> f = (if b then 2 else 1) \<and> p = (if b then 1 else 0)"
| "phase_counts rq (Reading b res) f p \<longleftrightarrow> f = (if b then 2 else 1) \<and> p = (if b then 1 else 0)"
| "phase_counts rq (Prompting e) f p \<longleftrightarrow> f = 1 \<and> p = 1"
| "phase_counts rq (Settled r) f p \<longleftrightarrow> f \<le> p + 1 \<and> p \<le> 1"

definition request_ok :: "client \<Rightarrow> nat \<Rightarrow> (api_request \<times> phase) option \<Rightarrow> bool" where
  "request_ok c i st = (case st of
      None \<Rightarrow> fetches i c = 0 \<and> prompts i c = 0
    | Some (rq, ph) \<Rightarrow> phase_counts rq ph (fetches i c) (prompts i c)
        \<and> (prompts i c > 0 \<longrightarrow> rq_prompt rq \<and> \<not> isUnlockPath (rq_path rq)))"

definition world_ok :: "api_world \<Rightarrow> bool" where
  "world_ok w \<longleftrightarrow> (\<forall>i. request_ok (wclient w) i (wrequests w i))"

lemma world_ok_init: "world_ok (world_init c)"
  by (simp add: world_ok_def world_init_def request_ok_def)

lemma request_ok_cong:
  "fetches i c = fetches i c' \<Longrightarrow> prompts i c = prompts i c' \<Longrightarrow>
     request_ok c i st \<longleftrightarrow> request_ok c' i st"
  by (simp add: request_ok_def split: option.split)

lemma world_ok_advance:
  assumes "world_ok w" "request_ok (snd pc) i (Some (rq, fst pc))"
    and "\<And>j. j \<noteq> i \<Longrightarrow> fetches j (snd pc) = fetches j (wclient w)"
    and "\<And>j. j \<noteq> i \<Longrightarrow> prompts j (snd pc) = prompts j (wclient w)"
  shows "world_ok (advance i rq pc w)"
  unfolding world_ok_def
proof
  fix j
  show "request_ok (wclient (advance i rq pc w)) j (wrequests (advance i rq pc w) j)"
    using assms request_ok_cong [where i = j and c = "snd pc" and c' = "wclient w"]
    by (cases "j = i") (simp_all add: advance_def world_ok_def)
qed

lemma world_ok_client:
  assumes "world_ok w" "\<And>j. fetches j c = fetches j (wclient w)" "\<And>j. prompts j c = prompts j (wclient w)"
  shows "world_ok (w\<lparr>wclient := c\<rparr>)"
  using assms request_ok_cong [where c = c and c' = "wclient w"] by (simp add: world_ok_def)

lemma world_ok_at: "world_ok w \<Longrightarrow> wrequests w i = st \<Longrightarrow> request_ok (wclient w) i st"
  by (auto simp: world_ok_def)

lemma api_step_ok:
  assumes "api_step parse w w'" "world_ok w"
  shows "world_ok w'"
  using assms
proof (induction rule: api_step.induct)
  case (issue w i rq)
  then show ?case
    using world_ok_at [OF issue(2,1)]
    by (intro world_ok_advance) (auto simp: request_ok_def start_counts request_start_def effect_def)
next
  case (fetched w i rq retried out)
  then show ?case
    using world_ok_at [OF fetched(3,1)]
    by (intro world_ok_advance)
      (auto simp: request_ok_def request_fetched_def Let_def split: fetch_outcome.split)
next
  case (body w i rq retried res raw now)
  let ?pc = "request_text parse i rq retried res raw now (wclient w)"
  have ph: "(\<exists>e. fst ?pc = Prompting e) \<or> (\<exists>r. fst ?pc = Settled r)"
    by (auto simp: request_text_def Let_def)
  show ?case
    using world_ok_at [OF body(2,1)] ph text_prompting [of parse i rq retried res raw now "wclient w"]
    by (intro world_ok_advance body) (auto simp: request_ok_def text_prompts)
next
  case (body_failed w i rq retried res m)
  then show ?case
    using world_ok_at [OF body_failed(2,1)]
    by (intro world_ok_advance) (auto simp: request_ok_def)
next
  case (prompted w i rq err unlocked now)
  then show ?case
    using world_ok_at [OF prompted(2,1)]
    by (intro world_ok_advance)
      (auto simp: request_ok_def prompted_counts request_prompted_def request_start_def effect_def)
qed (auto intro!: world_ok_client)

lemma api_reachable_ok: "api_reachable parse w w' \<Longrightarrow> world_ok w \<Longrightarrow> world_ok w'"
  unfolding api_reachable_def by (induction rule: rtranclp_induct) (auto intro: api_step_ok)

text \<open>C4: However requests, prompts, unlocks and locks interleave, a request touches the network at
  most twice and asks for the password at most once, it retries only after its own prompt was
  answered, and a poll or an unlock request never asks.\<close>
theorem request_prompts_and_retries_once:
  assumes "api_reachable parse (world_init c) w" "wrequests w i = Some (rq, ph)"
  shows "fetches i (wclient w) \<le> 2 \<and> prompts i (wclient w) \<le> 1 \<and>
    fetches i (wclient w) \<le> prompts i (wclient w) + 1 \<and>
    (\<not> rq_prompt rq \<or> isUnlockPath (rq_path rq) \<longrightarrow> prompts i (wclient w) = 0)"
proof -
  have "request_ok (wclient w) i (Some (rq, ph))"
    using api_reachable_ok [OF assms(1) world_ok_init] assms(2) by (metis world_ok_at)
  then show ?thesis by (cases ph) (auto simp: request_ok_def)
qed

theorem request_prompts_and_retries_once_witness:
  "\<exists>w rq ph. api_reachable (\<lambda>_. None) (world_init client_init) w
     \<and> wrequests w 7 = Some (rq, ph) \<and> fetches 7 (wclient w) \<le> 2"
proof -
  let ?w = "advance 7 (api_poll (js ''/x'') None) (request_start 7 False (wclient (world_init client_init)))
    (world_init client_init)"
  have r: "api_reachable (\<lambda>_. None) (world_init client_init) ?w"
    unfolding api_reachable_def
    by (rule r_into_rtranclp, rule api_step.issue) (simp add: world_init_def)
  have st: "wrequests ?w 7 = Some (api_poll (js ''/x'') None, Fetching False)"
    by (simp add: advance_def request_start_def world_init_def client_init_def)
  from request_prompts_and_retries_once [OF r st] r st show ?thesis by blast
qed

section \<open>An expired outer login\<close>




section \<open>When a locked answer prompts\<close>

text \<open>A 401 asks for the password exactly when the caller allows it, the request is not a
  retry, a prompter is mounted, the path is no unlock path and, for a read, the last refusal is
  at least a minute old; a write is never held back. Otherwise the caller gets the server's error.\<close>
lemma locked_answer_prompts_iff:
  assumes "rs_status res = 401"
  shows "fst (request_text parse i rq retried res raw now c) =
    (let err = ApiError 401 (response_message res raw (parse_body parse raw)) in
     if rq_prompt rq \<and> \<not> retried \<and> unlockPrompter c \<and> \<not> isUnlockPath (rq_path rq) \<and>
        (ascii_upper (case rq_method rq of None \<Rightarrow> js ''GET'' | Some m \<Rightarrow> m) = js ''GET'' \<longrightarrow>
           int now - int (promptDeclinedAt c) \<ge> 60000)
     then Prompting err else Settled (Inl err))"
  using assms
  by (auto simp: request_text_def Let_def res_ok_def may_prompt_def promptSuppressed_def
      PROMPT_COOLDOWN_MS_def call_all_def)

lemma locked_answer_prompts_iff_witness:
  "let c = client_init\<lparr>unlockPrompter := True, promptDeclinedAt := 1000\<rparr>;
       res = \<lparr>rs_opaqueredirect = False, rs_status = 401\<rparr>;
       go = (\<lambda>rq now. fst (request_text (\<lambda>_. None) 0 rq False res [] now c))
   in go (api_get (js ''/sessions'') None) 60999 = Settled (Inl (ApiError 401 (RequestFailed 401))) \<and>
      go (api_get (js ''/sessions'') None) 61000 = Prompting (ApiError 401 (RequestFailed 401)) \<and>
      go (api_post (js ''/sessions'') None) 1001 = Prompting (ApiError 401 (RequestFailed 401))"
  using locked_answer_prompts_iff [of "\<lparr>rs_opaqueredirect = False, rs_status = 401\<rparr>" "\<lambda>_. None" 0 _ False "[]"
      _ "client_init\<lparr>unlockPrompter := True, promptDeclinedAt := 1000\<rparr>"]
  by (simp add: Let_def api_get_def api_send_def client_init_def isUnlockPath_def UNLOCK_PATH_def
      js_defs ascii_upper_def response_message_def parse_body_def)

section \<open>Every request settles\<close>

text \<open>An upper bound on the awaits a request still has before it.\<close>

fun awaits_left :: "phase \<Rightarrow> nat" where
  "awaits_left (Fetching b) = (if b then 2 else 5)"
| "awaits_left (Reading b res) = (if b then 1 else 4)"
| "awaits_left (Prompting e) = 3"
| "awaits_left (Settled r) = 0"

text \<open>C32: Every await that ends brings its request closer to an answer: after at most five of them,
  whatever the network and the user answer, the request has settled, and it stays settled.\<close>
theorem request_always_settles:
  "awaits_left (fst (request_start i b c)) \<le> 5 \<and>
   awaits_left (fst (request_fetched rq b out c)) < awaits_left (Fetching b) \<and>
   awaits_left (fst (request_text parse i rq b res raw now c)) < awaits_left (Reading b res) \<and>
   awaits_left (fst (request_prompted i err u now c)) < awaits_left (Prompting err) \<and>
   (awaits_left ph = 0 \<longleftrightarrow> (\<exists>r. ph = Settled r))"
  by (cases ph)
    (auto simp: request_start_def request_fetched_def request_text_def request_prompted_def Let_def
      may_prompt_def split: fetch_outcome.split)

text \<open>A successful unlock, through any of its endpoints, ends the cooldown and tells every
  listener of this page and every other page; a refused or failed one leaves both alone.\<close>
lemma unlock_notifies_everyone:
  "snd (request_fetched rq retried (Responded res) c) =
     (if rs_opaqueredirect res then c\<lparr>loginExpired := True\<rparr>
      else if isUnlockPath (rq_path rq) \<and> res_ok res
      then c\<lparr>promptDeclinedAt := 0,
             effects := effects c @ map CallListener (authStatusListeners c) @ [Broadcast]\<rparr>
      else c)"
  by (simp add: request_fetched_def Let_def notifyAuthStatusChange_def call_all_def effect_def)

section \<open>Inline gates\<close>

lemma set_add_distinct: "distinct xs \<Longrightarrow> distinct (set_add x xs)"
  by (simp add: set_add_def)

lemma set_delete_add: "x \<notin> set xs \<Longrightarrow> set_delete x (set_add x xs) = xs"
  by (auto simp: set_delete_def set_add_def filter_id_conv)

text \<open>The gate registered last is the one that gets the focus, and unregistering it gives the
  focus back to whichever had it before, telling every listener both times.\<close>
lemma inline_gate_stack:
  assumes "g \<notin> set (inlineGates c)"
  shows "focusInlineGate (registerInlineGate g c) = Some g \<and>
    inlineGateVisible (registerInlineGate g c) \<and>
    inlineGates (unregisterInlineGate g (registerInlineGate g c)) = inlineGates c \<and>
    focusInlineGate (unregisterInlineGate g (registerInlineGate g c)) = focusInlineGate c \<and>
    effects (unregisterInlineGate g (registerInlineGate g c)) = effects c
      @ map CallListener (inlineGateListeners c) @ map CallListener (inlineGateListeners c)"
  using assms set_delete_add [OF assms]
  by (simp add: focusInlineGate_def registerInlineGate_def unregisterInlineGate_def call_all_def
      inlineGateVisible_def Let_def) (simp add: set_add_def)

lemma inline_gate_stack_witness:
  "focusInlineGate (registerInlineGate 4 (registerInlineGate 2 client_init)) = Some 4"
  using inline_gate_stack [of 4 "registerInlineGate 2 client_init"]
  by (simp add: registerInlineGate_def client_init_def set_add_def call_all_def Let_def)

end
