(* ===== verification/Device_Prefs.thy ===== *)
theory Device_Prefs
  imports Prelude
begin

text \<open>
  The per-device preferences kept in \<open>localStorage\<close>: the load/save pairs of
  \<open>Terminal.tsx\<close>, \<open>TerminalTabs.tsx\<close>, \<open>App.tsx\<close>, \<open>theme.ts\<close>, \<open>utils/webauthn.ts\<close>, \<open>Extensions.tsx\<close>,
  \<open>Fonts.tsx\<close>, \<open>Mise.tsx\<close>, \<open>FileEditorSheet.tsx\<close>, \<open>ClaudeCode.tsx\<close> and \<open>RouterAuthSetupBanner.tsx\<close>.

  The storage may refuse to be read or written (private browsing, quota): \<open>getItem\<close>, \<open>setItem\<close> and
  \<open>removeItem\<close> then throw, which is \<open>None\<close> here. The contract every pair keeps is the locale
  \<open>preference\<close>.
\<close>

section \<open>\<open>localStorage\<close>\<close>

record storage =
  st_readable :: bool
  st_writable :: bool
  st_items :: "ustring \<rightharpoonup> ustring"

definition getItem :: "ustring \<Rightarrow> storage \<Rightarrow> ustring option option" where
  "getItem k s = (if st_readable s then Some (st_items s k) else None)"

definition setItem :: "ustring \<Rightarrow> ustring \<Rightarrow> storage \<Rightarrow> storage option" where
  "setItem k v s = (if st_writable s then Some (s\<lparr>st_items := (st_items s)(k \<mapsto> v)\<rparr>) else None)"

definition removeItem :: "ustring \<Rightarrow> storage \<Rightarrow> storage option" where
  "removeItem k s = (if st_writable s then Some (s\<lparr>st_items := (st_items s)(k := None)\<rparr>) else None)"

text \<open>\<open>try { ... } catch {}\<close> around a write.\<close>

definition try_write :: "storage option \<Rightarrow> storage \<Rightarrow> storage" where
  "try_write r s = (case r of None \<Rightarrow> s | Some t \<Rightarrow> t)"

section \<open>The contract\<close>

locale preference =
  fixes load :: "storage \<Rightarrow> 'a" and save :: "'a \<Rightarrow> storage \<Rightarrow> storage"
    and key :: ustring and default :: 'a and valid :: "'a \<Rightarrow> bool"
  assumes load_save: "st_readable s \<Longrightarrow> st_writable s \<Longrightarrow> valid x \<Longrightarrow> load (save x s) = x"
    and load_unreadable: "\<not> st_readable s \<Longrightarrow> load s = default"
    and load_absent: "st_readable s \<Longrightarrow> st_items s key = None \<Longrightarrow> load s = default"
    and load_only_key: "st_readable s = st_readable t \<Longrightarrow> st_items s key = st_items t key \<Longrightarrow>
      load s = load t"
    and save_unwritable: "\<not> st_writable s \<Longrightarrow> save x s = s"
    and save_other: "k \<noteq> key \<Longrightarrow> st_items (save x s) k = st_items s k"
    and save_flags: "st_readable (save x s) = st_readable s" "st_writable (save x s) = st_writable s"
begin

lemma last_save_wins:
  "st_readable s \<Longrightarrow> st_writable s \<Longrightarrow> valid y \<Longrightarrow> load (save y (save x s)) = y"
  by (simp add: load_save save_flags)

lemma unaffected:
  assumes "st_items t key = st_items s key" "st_readable t = st_readable s"
  shows "load t = load s"
  using load_only_key [of t s] assms by simp

lemma unavailable_storage: "\<not> st_readable s \<Longrightarrow> load (save x s) = default"
  by (simp add: load_unreadable save_flags)

end

lemma preference_independent:
  assumes "preference load save k d valid" "preference load' save' k' d' valid'" "k \<noteq> k'"
  shows "load (save' y s) = load s"
  using preference.unaffected [OF assms(1), of "save' y s" s]
    preference.save_other [OF assms(2), of k y s] preference.save_flags(1) [OF assms(2), of y s]
    assms(3) by simp

section \<open>The shapes the code uses\<close>

named_theorems storage_ops "definitions of the storage operations and the shapes"

text \<open>On unless \<open>'0'\<close> is stored; on is saved by removing the item.\<close>

definition load_unless_zero :: "ustring \<Rightarrow> storage \<Rightarrow> bool" where
  "load_unless_zero k s = (case getItem k s of None \<Rightarrow> True | Some v \<Rightarrow> v \<noteq> Some (js ''0''))"

definition save_unless_zero :: "ustring \<Rightarrow> bool \<Rightarrow> storage \<Rightarrow> storage" where
  "save_unless_zero k enabled s =
     try_write (if enabled then removeItem k s else setItem k (js ''0'') s) s"

text \<open>Off unless \<open>'1'\<close> is stored; off is saved by removing the item.\<close>

definition load_if_one :: "ustring \<Rightarrow> storage \<Rightarrow> bool" where
  "load_if_one k s = (case getItem k s of None \<Rightarrow> False | Some v \<Rightarrow> v = Some (js ''1''))"

definition save_if_one :: "ustring \<Rightarrow> bool \<Rightarrow> storage \<Rightarrow> storage" where
  "save_if_one k enabled s =
     try_write (if enabled then setItem k (js ''1'') s else removeItem k s) s"

text \<open>\<open>'true'\<close> or \<open>'false'\<close>, on when nothing is stored.\<close>

definition load_true_false :: "ustring \<Rightarrow> storage \<Rightarrow> bool" where
  "load_true_false k s =
     (case getItem k s of None \<Rightarrow> True | Some None \<Rightarrow> True | Some (Some v) \<Rightarrow> v = js ''true'')"

definition save_true_false :: "ustring \<Rightarrow> bool \<Rightarrow> storage \<Rightarrow> storage" where
  "save_true_false k value s = try_write (setItem k (if value then js ''true'' else js ''false'') s) s"

text \<open>A string out of a fixed list, anything else being the default.\<close>

definition load_choice :: "ustring \<Rightarrow> (ustring \<times> 'a) list \<Rightarrow> 'a \<Rightarrow> storage \<Rightarrow> 'a" where
  "load_choice k names d s =
     (case getItem k s of
        Some (Some v) \<Rightarrow> (case map_of names v of Some x \<Rightarrow> x | None \<Rightarrow> d)
      | _ \<Rightarrow> d)"

text \<open>A string or nothing; the empty string counts as nothing when it is saved.\<close>

definition load_string :: "ustring \<Rightarrow> storage \<Rightarrow> ustring option" where
  "load_string k s = (case getItem k s of None \<Rightarrow> None | Some v \<Rightarrow> v)"

lemmas [storage_ops] = getItem_def setItem_def removeItem_def try_write_def load_unless_zero_def
  save_unless_zero_def load_if_one_def save_if_one_def load_true_false_def save_true_false_def
  load_choice_def load_string_def

lemma preference_unless_zero:
  "preference (load_unless_zero k) (save_unless_zero k) k True (\<lambda>_. True)"
  by unfold_locales (simp_all add: storage_ops)

lemma preference_if_one:
  "preference (load_if_one k) (save_if_one k) k False (\<lambda>_. True)"
  by unfold_locales (simp_all add: storage_ops)

lemma preference_true_false:
  "preference (load_true_false k) (save_true_false k) k True (\<lambda>_. True)"
  by unfold_locales (simp_all add: storage_ops)

lemma preference_choice:
  assumes "\<And>x. map_of names (name x) = Some x"
  shows "preference (load_choice k names d) (\<lambda>x s. try_write (setItem k (name x) s) s) k d (\<lambda>_. True)"
  using assms by unfold_locales (simp_all add: storage_ops)

section \<open>The preferences\<close>

subsection \<open>Flags\<close>

definition ALT_SCREEN_TOUCH_SCROLL_KEY :: ustring where
  "ALT_SCREEN_TOUCH_SCROLL_KEY = js ''webmanager.terminal.altScreenTouchScroll''"

definition loadAltScreenTouchScrollEnabled :: "storage \<Rightarrow> bool" where
  "loadAltScreenTouchScrollEnabled = load_unless_zero ALT_SCREEN_TOUCH_SCROLL_KEY"

definition saveAltScreenTouchScrollEnabled :: "bool \<Rightarrow> storage \<Rightarrow> storage" where
  "saveAltScreenTouchScrollEnabled = save_unless_zero ALT_SCREEN_TOUCH_SCROLL_KEY"

interpretation alt_screen_touch_scroll_pref: preference loadAltScreenTouchScrollEnabled saveAltScreenTouchScrollEnabled ALT_SCREEN_TOUCH_SCROLL_KEY True "\<lambda>_. True"
  unfolding loadAltScreenTouchScrollEnabled_def saveAltScreenTouchScrollEnabled_def by (rule preference_unless_zero)

definition ALT_SCREEN_WHEEL_SCROLL_KEY :: ustring where
  "ALT_SCREEN_WHEEL_SCROLL_KEY = js ''webmanager.terminal.altScreenWheelScroll''"

definition loadAltScreenWheelScrollEnabled :: "storage \<Rightarrow> bool" where
  "loadAltScreenWheelScrollEnabled = load_unless_zero ALT_SCREEN_WHEEL_SCROLL_KEY"

definition saveAltScreenWheelScrollEnabled :: "bool \<Rightarrow> storage \<Rightarrow> storage" where
  "saveAltScreenWheelScrollEnabled = save_unless_zero ALT_SCREEN_WHEEL_SCROLL_KEY"

interpretation alt_screen_wheel_scroll_pref: preference loadAltScreenWheelScrollEnabled saveAltScreenWheelScrollEnabled ALT_SCREEN_WHEEL_SCROLL_KEY True "\<lambda>_. True"
  unfolding loadAltScreenWheelScrollEnabled_def saveAltScreenWheelScrollEnabled_def by (rule preference_unless_zero)

definition TOUCH_MOMENTUM_KEY :: ustring where
  "TOUCH_MOMENTUM_KEY = js ''webmanager.terminal.touchMomentum''"

definition loadTouchMomentumEnabled :: "storage \<Rightarrow> bool" where
  "loadTouchMomentumEnabled = load_unless_zero TOUCH_MOMENTUM_KEY"

definition saveTouchMomentumEnabled :: "bool \<Rightarrow> storage \<Rightarrow> storage" where
  "saveTouchMomentumEnabled = save_unless_zero TOUCH_MOMENTUM_KEY"

interpretation touch_momentum_pref: preference loadTouchMomentumEnabled saveTouchMomentumEnabled TOUCH_MOMENTUM_KEY True "\<lambda>_. True"
  unfolding loadTouchMomentumEnabled_def saveTouchMomentumEnabled_def by (rule preference_unless_zero)

definition LIVE_COMPOSITION_KEY :: ustring where
  "LIVE_COMPOSITION_KEY = js ''webmanager.terminal.liveComposition''"

definition loadLiveCompositionEnabled :: "storage \<Rightarrow> bool" where
  "loadLiveCompositionEnabled = load_unless_zero LIVE_COMPOSITION_KEY"

definition saveLiveCompositionEnabled :: "bool \<Rightarrow> storage \<Rightarrow> storage" where
  "saveLiveCompositionEnabled = save_unless_zero LIVE_COMPOSITION_KEY"

interpretation live_composition_pref: preference loadLiveCompositionEnabled saveLiveCompositionEnabled LIVE_COMPOSITION_KEY True "\<lambda>_. True"
  unfolding loadLiveCompositionEnabled_def saveLiveCompositionEnabled_def by (rule preference_unless_zero)

definition REFOCUS_ON_WORD_KEY :: ustring where
  "REFOCUS_ON_WORD_KEY = js ''webmanager.terminal.refocusOnWord''"

definition loadRefocusOnWordEnabled :: "storage \<Rightarrow> bool" where
  "loadRefocusOnWordEnabled = load_unless_zero REFOCUS_ON_WORD_KEY"

definition saveRefocusOnWordEnabled :: "bool \<Rightarrow> storage \<Rightarrow> storage" where
  "saveRefocusOnWordEnabled = save_unless_zero REFOCUS_ON_WORD_KEY"

interpretation refocus_on_word_pref: preference loadRefocusOnWordEnabled saveRefocusOnWordEnabled REFOCUS_ON_WORD_KEY True "\<lambda>_. True"
  unfolding loadRefocusOnWordEnabled_def saveRefocusOnWordEnabled_def by (rule preference_unless_zero)

definition AUTO_RECONNECT_KEY :: ustring where
  "AUTO_RECONNECT_KEY = js ''webmanager.terminal.autoReconnect''"

definition loadAutoReconnectEnabled :: "storage \<Rightarrow> bool" where
  "loadAutoReconnectEnabled = load_unless_zero AUTO_RECONNECT_KEY"

definition saveAutoReconnectEnabled :: "bool \<Rightarrow> storage \<Rightarrow> storage" where
  "saveAutoReconnectEnabled = save_unless_zero AUTO_RECONNECT_KEY"

interpretation auto_reconnect_pref: preference loadAutoReconnectEnabled saveAutoReconnectEnabled AUTO_RECONNECT_KEY True "\<lambda>_. True"
  unfolding loadAutoReconnectEnabled_def saveAutoReconnectEnabled_def by (rule preference_unless_zero)

definition WRAP_KEY :: ustring where
  "WRAP_KEY = js ''webmanager.files.editorWrap''"

definition loadWrap :: "storage \<Rightarrow> bool" where
  "loadWrap = load_unless_zero WRAP_KEY"

definition saveWrap :: "bool \<Rightarrow> storage \<Rightarrow> storage" where
  "saveWrap = save_unless_zero WRAP_KEY"

interpretation wrap_pref: preference loadWrap saveWrap WRAP_KEY True "\<lambda>_. True"
  unfolding loadWrap_def saveWrap_def by (rule preference_unless_zero)

definition INPUT_DEBUG_KEY :: ustring where
  "INPUT_DEBUG_KEY = js ''webmanager.terminal.inputDebug''"

definition loadInputDebugEnabled :: "storage \<Rightarrow> bool" where
  "loadInputDebugEnabled = load_if_one INPUT_DEBUG_KEY"

definition saveInputDebugEnabled :: "bool \<Rightarrow> storage \<Rightarrow> storage" where
  "saveInputDebugEnabled = save_if_one INPUT_DEBUG_KEY"

interpretation input_debug_pref: preference loadInputDebugEnabled saveInputDebugEnabled INPUT_DEBUG_KEY False "\<lambda>_. True"
  unfolding loadInputDebugEnabled_def saveInputDebugEnabled_def by (rule preference_if_one)

definition SIDEBAR_COLLAPSED_KEY :: ustring where
  "SIDEBAR_COLLAPSED_KEY = js ''webmanager-sidebar-collapsed''"

definition loadSidebarCollapsed :: "storage \<Rightarrow> bool" where
  "loadSidebarCollapsed = load_if_one SIDEBAR_COLLAPSED_KEY"

definition saveSidebarCollapsed :: "bool \<Rightarrow> storage \<Rightarrow> storage" where
  "saveSidebarCollapsed = save_if_one SIDEBAR_COLLAPSED_KEY"

interpretation sidebar_collapsed_pref: preference loadSidebarCollapsed saveSidebarCollapsed SIDEBAR_COLLAPSED_KEY False "\<lambda>_. True"
  unfolding loadSidebarCollapsed_def saveSidebarCollapsed_def by (rule preference_if_one)

text \<open>The recommendation lists of the Extensions, Fonts and Mise tabs.\<close>

definition EXTENSIONS_SHOW_RECOMMENDATIONS_KEY :: ustring where
  "EXTENSIONS_SHOW_RECOMMENDATIONS_KEY = js ''webmanager.extensions.showRecommendations''"

definition loadShowRecommendations_extensions :: "storage \<Rightarrow> bool" where
  "loadShowRecommendations_extensions = load_true_false EXTENSIONS_SHOW_RECOMMENDATIONS_KEY"

definition saveShowRecommendations_extensions :: "bool \<Rightarrow> storage \<Rightarrow> storage" where
  "saveShowRecommendations_extensions = save_true_false EXTENSIONS_SHOW_RECOMMENDATIONS_KEY"

interpretation extensions_recommendations_pref: preference loadShowRecommendations_extensions saveShowRecommendations_extensions EXTENSIONS_SHOW_RECOMMENDATIONS_KEY True "\<lambda>_. True"
  unfolding loadShowRecommendations_extensions_def saveShowRecommendations_extensions_def by (rule preference_true_false)

definition FONTS_SHOW_RECOMMENDATIONS_KEY :: ustring where
  "FONTS_SHOW_RECOMMENDATIONS_KEY = js ''webmanager.fonts.showRecommendations''"

definition loadShowRecommendations_fonts :: "storage \<Rightarrow> bool" where
  "loadShowRecommendations_fonts = load_true_false FONTS_SHOW_RECOMMENDATIONS_KEY"

definition saveShowRecommendations_fonts :: "bool \<Rightarrow> storage \<Rightarrow> storage" where
  "saveShowRecommendations_fonts = save_true_false FONTS_SHOW_RECOMMENDATIONS_KEY"

interpretation fonts_recommendations_pref: preference loadShowRecommendations_fonts saveShowRecommendations_fonts FONTS_SHOW_RECOMMENDATIONS_KEY True "\<lambda>_. True"
  unfolding loadShowRecommendations_fonts_def saveShowRecommendations_fonts_def by (rule preference_true_false)

definition MISE_SHOW_RECOMMENDATIONS_KEY :: ustring where
  "MISE_SHOW_RECOMMENDATIONS_KEY = js ''webmanager.mise.showRecommendations''"

definition loadShowRecommendations_mise :: "storage \<Rightarrow> bool" where
  "loadShowRecommendations_mise = load_true_false MISE_SHOW_RECOMMENDATIONS_KEY"

definition saveShowRecommendations_mise :: "bool \<Rightarrow> storage \<Rightarrow> storage" where
  "saveShowRecommendations_mise = save_true_false MISE_SHOW_RECOMMENDATIONS_KEY"

interpretation mise_recommendations_pref: preference loadShowRecommendations_mise saveShowRecommendations_mise MISE_SHOW_RECOMMENDATIONS_KEY True "\<lambda>_. True"
  unfolding loadShowRecommendations_mise_def saveShowRecommendations_mise_def by (rule preference_true_false)

text \<open>The fingerprint flags of \<open>utils/webauthn.ts\<close>.\<close>

definition ENROLLED_KEY :: ustring where
  "ENROLLED_KEY = js ''webmanager-webauthn-enrolled''"

definition DECLINED_KEY :: ustring where
  "DECLINED_KEY = js ''webmanager-webauthn-offer-declined''"

definition readFlag :: "ustring \<Rightarrow> storage \<Rightarrow> bool" where
  "readFlag = load_if_one"

definition writeFlag :: "ustring \<Rightarrow> bool \<Rightarrow> storage \<Rightarrow> storage" where
  "writeFlag = save_if_one"

definition deviceEnrolled :: "storage \<Rightarrow> bool" where
  "deviceEnrolled = readFlag ENROLLED_KEY"

definition offerDeclined :: "storage \<Rightarrow> bool" where
  "offerDeclined = readFlag DECLINED_KEY"

definition declineOffer :: "storage \<Rightarrow> storage" where
  "declineOffer = writeFlag DECLINED_KEY True"

definition forgetDeviceEnrollment :: "storage \<Rightarrow> storage" where
  "forgetDeviceEnrollment = writeFlag ENROLLED_KEY False"

interpretation enrolled_pref: preference deviceEnrolled "writeFlag ENROLLED_KEY" ENROLLED_KEY False "\<lambda>_. True"
  unfolding deviceEnrolled_def readFlag_def writeFlag_def by (rule preference_if_one)

interpretation declined_pref: preference offerDeclined "writeFlag DECLINED_KEY" DECLINED_KEY False "\<lambda>_. True"
  unfolding offerDeclined_def readFlag_def writeFlag_def by (rule preference_if_one)

text \<open>The dismissed router banner, which is only ever set.\<close>

definition IGNORE_KEY :: ustring where
  "IGNORE_KEY = js ''router-auth-setup-ignored''"

definition isIgnored :: "storage \<Rightarrow> bool" where
  "isIgnored = load_if_one IGNORE_KEY"

definition setIgnored :: "storage \<Rightarrow> storage" where
  "setIgnored s = try_write (setItem IGNORE_KEY (js ''1'') s) s"

text \<open>The control bar, whose default is the kind of pointer (\<open>None\<close> without \<open>matchMedia\<close>).\<close>

definition CONTROL_BAR_KEY :: ustring where
  "CONTROL_BAR_KEY = js ''webmanager.terminal.controlBarEnabled''"

definition defaultControlBarEnabled :: "bool option \<Rightarrow> bool" where
  "defaultControlBarEnabled fine = (case fine of None \<Rightarrow> True | Some b \<Rightarrow> \<not> b)"

definition loadControlBarEnabled :: "bool option \<Rightarrow> storage \<Rightarrow> bool" where
  "loadControlBarEnabled fine =
     load_choice CONTROL_BAR_KEY [(js ''1'', True), (js ''0'', False)] (defaultControlBarEnabled fine)"

definition saveControlBarEnabled :: "bool \<Rightarrow> storage \<Rightarrow> storage" where
  "saveControlBarEnabled enabled s =
     try_write (setItem CONTROL_BAR_KEY (if enabled then js ''1'' else js ''0'') s) s"

interpretation control_bar_pref: preference "loadControlBarEnabled fine" saveControlBarEnabled
  CONTROL_BAR_KEY "defaultControlBarEnabled fine" "\<lambda>_. True"
  unfolding loadControlBarEnabled_def saveControlBarEnabled_def
  by (rule preference_choice) simp

subsection \<open>Choices\<close>

datatype input_mode = Native | Password | Diff
datatype touch_mode = ScrollMode | MouseMode | SelectMode
datatype theme_choice = Light | Dark | System

fun input_mode_name :: "input_mode \<Rightarrow> ustring" where
  "input_mode_name Native = js ''native''"
| "input_mode_name Password = js ''password''"
| "input_mode_name Diff = js ''diff''"

fun touch_mode_name :: "touch_mode \<Rightarrow> ustring" where
  "touch_mode_name ScrollMode = js ''scroll''"
| "touch_mode_name MouseMode = js ''mouse''"
| "touch_mode_name SelectMode = js ''select''"

fun theme_name :: "theme_choice \<Rightarrow> ustring" where
  "theme_name Light = js ''light''"
| "theme_name Dark = js ''dark''"
| "theme_name System = js ''system''"

definition INPUT_MODE_KEY :: ustring where
  "INPUT_MODE_KEY = js ''webmanager.terminal.inputMode''"

definition loadInputMode :: "storage \<Rightarrow> input_mode" where
  "loadInputMode = load_choice INPUT_MODE_KEY
     (map (\<lambda>m. (input_mode_name m, m)) [Native, Password, Diff]) Diff"

definition saveInputMode :: "input_mode \<Rightarrow> storage \<Rightarrow> storage" where
  "saveInputMode m s = try_write (setItem INPUT_MODE_KEY (input_mode_name m) s) s"

interpretation input_mode_pref: preference loadInputMode saveInputMode INPUT_MODE_KEY Diff "\<lambda>_. True"
  unfolding loadInputMode_def saveInputMode_def
proof (rule preference_choice)
  show "map_of (map (\<lambda>m. (input_mode_name m, m)) [Native, Password, Diff]) (input_mode_name x) = Some x"
    for x by (cases x) simp_all
qed

definition TOUCH_MODE_KEY :: ustring where
  "TOUCH_MODE_KEY = js ''webmanager.terminal.touchMode''"

definition loadTouchMode :: "storage \<Rightarrow> touch_mode" where
  "loadTouchMode = load_choice TOUCH_MODE_KEY
     (map (\<lambda>m. (touch_mode_name m, m)) [ScrollMode, MouseMode, SelectMode]) ScrollMode"

definition saveTouchMode :: "touch_mode \<Rightarrow> storage \<Rightarrow> storage" where
  "saveTouchMode m s = try_write (setItem TOUCH_MODE_KEY (touch_mode_name m) s) s"

interpretation touch_mode_pref: preference loadTouchMode saveTouchMode TOUCH_MODE_KEY ScrollMode "\<lambda>_. True"
  unfolding loadTouchMode_def saveTouchMode_def
proof (rule preference_choice)
  show "map_of (map (\<lambda>m. (touch_mode_name m, m)) [ScrollMode, MouseMode, SelectMode]) (touch_mode_name x)
    = Some x" for x by (cases x) simp_all
qed

definition THEME_STORAGE_KEY :: ustring where
  "THEME_STORAGE_KEY = js ''webmanager-theme''"

definition readStoredTheme :: "storage \<Rightarrow> theme_choice" where
  "readStoredTheme = load_choice THEME_STORAGE_KEY
     (map (\<lambda>m. (theme_name m, m)) [Light, Dark]) System"

definition storeTheme :: "theme_choice \<Rightarrow> storage \<Rightarrow> storage" where
  "storeTheme c s = try_write (if c = System then removeItem THEME_STORAGE_KEY s
     else setItem THEME_STORAGE_KEY (theme_name c) s) s"

interpretation theme_pref: preference readStoredTheme storeTheme THEME_STORAGE_KEY System "\<lambda>_. True"
proof unfold_locales
  show "readStoredTheme (storeTheme x s) = x" if "st_readable s" "st_writable s" for x s
    using that by (cases x) (simp_all add: readStoredTheme_def storeTheme_def storage_ops)
qed (simp_all add: readStoredTheme_def storeTheme_def storage_ops)

subsection \<open>Strings\<close>

definition CREDENTIAL_KEY :: ustring where
  "CREDENTIAL_KEY = js ''webmanager-webauthn-credential''"

definition rememberCredential :: "ustring option \<Rightarrow> storage \<Rightarrow> storage" where
  "rememberCredential i s =
     (case i of
        None \<Rightarrow> s
      | Some v \<Rightarrow> if v = [] then s else try_write (setItem CREDENTIAL_KEY v s) s)"

definition thisDeviceCredential :: "storage \<Rightarrow> ustring option" where
  "thisDeviceCredential = load_string CREDENTIAL_KEY"

interpretation credential_pref: preference thisDeviceCredential rememberCredential CREDENTIAL_KEY None
  "\<lambda>i. i \<noteq> None \<and> i \<noteq> Some []"
  by unfold_locales
    (auto simp: thisDeviceCredential_def rememberCredential_def storage_ops split: option.split)

definition CLAUDE_INSTALL_JOB_STORAGE_KEY :: ustring where
  "CLAUDE_INSTALL_JOB_STORAGE_KEY = js ''webmanager.claude.installJobId''"

definition loadPersistedInstallJobId :: "storage \<Rightarrow> ustring option" where
  "loadPersistedInstallJobId = load_string CLAUDE_INSTALL_JOB_STORAGE_KEY"

definition savePersistedInstallJobId :: "ustring option \<Rightarrow> storage \<Rightarrow> storage" where
  "savePersistedInstallJobId j s =
     try_write (case j of
        None \<Rightarrow> removeItem CLAUDE_INSTALL_JOB_STORAGE_KEY s
      | Some v \<Rightarrow> if v \<noteq> [] then setItem CLAUDE_INSTALL_JOB_STORAGE_KEY v s
                  else removeItem CLAUDE_INSTALL_JOB_STORAGE_KEY s) s"

interpretation install_job_pref: preference loadPersistedInstallJobId savePersistedInstallJobId
  CLAUDE_INSTALL_JOB_STORAGE_KEY None "\<lambda>j. j \<noteq> Some []"
  by unfold_locales
    (auto simp: loadPersistedInstallJobId_def savePersistedInstallJobId_def storage_ops split: option.split)

text \<open>The tab order is stored as JSON; \<open>JSON.parse\<close> and \<open>JSON.stringify\<close> are arguments.\<close>

definition TAB_ORDER_KEY :: ustring where
  "TAB_ORDER_KEY = js ''webmanager.terminal.tabOrder''"

fun json_strings :: "json list \<Rightarrow> ustring list" where
  "json_strings [] = []"
| "json_strings (JString v # vs) = v # json_strings vs"
| "json_strings (j # vs) = json_strings vs"

definition loadTabOrder :: "(ustring \<Rightarrow> json option) \<Rightarrow> storage \<Rightarrow> ustring list" where
  "loadTabOrder parse s =
     (case getItem TAB_ORDER_KEY s of
        Some (Some raw) \<Rightarrow>
          if raw = [] then []
          else (case parse raw of Some (JArray vs) \<Rightarrow> json_strings vs | _ \<Rightarrow> [])
      | _ \<Rightarrow> [])"

definition saveTabOrder :: "(json \<Rightarrow> ustring) \<Rightarrow> ustring list \<Rightarrow> storage \<Rightarrow> storage" where
  "saveTabOrder stringify order s =
     try_write (setItem TAB_ORDER_KEY (stringify (JArray (map JString order))) s) s"

lemma json_strings_map [simp]: "json_strings (map JString xs) = xs"
  by (induction xs) simp_all

end
