(* ===== verification/Device_Settings.thy ===== *)
theory Device_Settings
  imports Device_Prefs
begin

text \<open>
  What the preference functions promise together: an abstract record of settings that the storage
  refines, the font size with \<open>Number\<close> and the zoom steps of \<open>Terminal.tsx\<close>, and the saved tab order.
\<close>

section \<open>The settings the storage stands for\<close>

record device_settings =
  ds_altTouch :: bool
  ds_altWheel :: bool
  ds_momentum :: bool
  ds_live :: bool
  ds_refocus :: bool
  ds_reconnect :: bool
  ds_wrap :: bool
  ds_debug :: bool
  ds_collapsed :: bool
  ds_ext :: bool
  ds_fonts :: bool
  ds_mise :: bool
  ds_enrolled :: bool
  ds_declined :: bool
  ds_controlBar :: bool
  ds_input :: input_mode
  ds_touch :: touch_mode
  ds_theme :: theme_choice
  ds_credential :: "ustring option"
  ds_job :: "ustring option"

definition settings_of :: "bool option \<Rightarrow> storage \<Rightarrow> device_settings" where
  "settings_of fine s =
     \<lparr>ds_altTouch = loadAltScreenTouchScrollEnabled s, ds_altWheel = loadAltScreenWheelScrollEnabled s,
      ds_momentum = loadTouchMomentumEnabled s, ds_live = loadLiveCompositionEnabled s,
      ds_refocus = loadRefocusOnWordEnabled s, ds_reconnect = loadAutoReconnectEnabled s,
      ds_wrap = loadWrap s, ds_debug = loadInputDebugEnabled s, ds_collapsed = loadSidebarCollapsed s,
      ds_ext = loadShowRecommendations_extensions s, ds_fonts = loadShowRecommendations_fonts s,
      ds_mise = loadShowRecommendations_mise s, ds_enrolled = deviceEnrolled s,
      ds_declined = offerDeclined s, ds_controlBar = loadControlBarEnabled fine s,
      ds_input = loadInputMode s, ds_touch = loadTouchMode s, ds_theme = readStoredTheme s,
      ds_credential = thisDeviceCredential s, ds_job = loadPersistedInstallJobId s\<rparr>"

datatype setting_write =
    SetAltTouch bool | SetAltWheel bool | SetMomentum bool | SetLive bool | SetRefocus bool
  | SetReconnect bool | SetWrap bool | SetDebug bool | SetCollapsed bool | SetExt bool
  | SetFonts bool | SetMise bool | SetEnrolled bool | SetDeclined bool | SetControlBar bool
  | SetInput input_mode | SetTouch touch_mode | SetTheme theme_choice
  | SetCredential "ustring option" | SetJob "ustring option"

fun write_setting :: "setting_write \<Rightarrow> storage \<Rightarrow> storage" where
  "write_setting (SetAltTouch b) = saveAltScreenTouchScrollEnabled b"
| "write_setting (SetAltWheel b) = saveAltScreenWheelScrollEnabled b"
| "write_setting (SetMomentum b) = saveTouchMomentumEnabled b"
| "write_setting (SetLive b) = saveLiveCompositionEnabled b"
| "write_setting (SetRefocus b) = saveRefocusOnWordEnabled b"
| "write_setting (SetReconnect b) = saveAutoReconnectEnabled b"
| "write_setting (SetWrap b) = saveWrap b"
| "write_setting (SetDebug b) = saveInputDebugEnabled b"
| "write_setting (SetCollapsed b) = saveSidebarCollapsed b"
| "write_setting (SetExt b) = saveShowRecommendations_extensions b"
| "write_setting (SetFonts b) = saveShowRecommendations_fonts b"
| "write_setting (SetMise b) = saveShowRecommendations_mise b"
| "write_setting (SetEnrolled b) = writeFlag ENROLLED_KEY b"
| "write_setting (SetDeclined b) = writeFlag DECLINED_KEY b"
| "write_setting (SetControlBar b) = saveControlBarEnabled b"
| "write_setting (SetInput m) = saveInputMode m"
| "write_setting (SetTouch m) = saveTouchMode m"
| "write_setting (SetTheme c) = storeTheme c"
| "write_setting (SetCredential c) = rememberCredential c"
| "write_setting (SetJob j) = savePersistedInstallJobId j"

text \<open>The abstract effect: one field changes. An empty credential is not remembered, an empty job
  id forgets the job.\<close>

fun set_setting :: "setting_write \<Rightarrow> device_settings \<Rightarrow> device_settings" where
  "set_setting (SetAltTouch b) d = d\<lparr>ds_altTouch := b\<rparr>"
| "set_setting (SetAltWheel b) d = d\<lparr>ds_altWheel := b\<rparr>"
| "set_setting (SetMomentum b) d = d\<lparr>ds_momentum := b\<rparr>"
| "set_setting (SetLive b) d = d\<lparr>ds_live := b\<rparr>"
| "set_setting (SetRefocus b) d = d\<lparr>ds_refocus := b\<rparr>"
| "set_setting (SetReconnect b) d = d\<lparr>ds_reconnect := b\<rparr>"
| "set_setting (SetWrap b) d = d\<lparr>ds_wrap := b\<rparr>"
| "set_setting (SetDebug b) d = d\<lparr>ds_debug := b\<rparr>"
| "set_setting (SetCollapsed b) d = d\<lparr>ds_collapsed := b\<rparr>"
| "set_setting (SetExt b) d = d\<lparr>ds_ext := b\<rparr>"
| "set_setting (SetFonts b) d = d\<lparr>ds_fonts := b\<rparr>"
| "set_setting (SetMise b) d = d\<lparr>ds_mise := b\<rparr>"
| "set_setting (SetEnrolled b) d = d\<lparr>ds_enrolled := b\<rparr>"
| "set_setting (SetDeclined b) d = d\<lparr>ds_declined := b\<rparr>"
| "set_setting (SetControlBar b) d = d\<lparr>ds_controlBar := b\<rparr>"
| "set_setting (SetInput m) d = d\<lparr>ds_input := m\<rparr>"
| "set_setting (SetTouch m) d = d\<lparr>ds_touch := m\<rparr>"
| "set_setting (SetTheme c) d = d\<lparr>ds_theme := c\<rparr>"
| "set_setting (SetCredential c) d = (if c = None \<or> c = Some [] then d else d\<lparr>ds_credential := c\<rparr>)"
| "set_setting (SetJob j) d = d\<lparr>ds_job := if j = Some [] then None else j\<rparr>"

lemmas storage_keys = ALT_SCREEN_TOUCH_SCROLL_KEY_def ALT_SCREEN_WHEEL_SCROLL_KEY_def
  TOUCH_MOMENTUM_KEY_def LIVE_COMPOSITION_KEY_def REFOCUS_ON_WORD_KEY_def AUTO_RECONNECT_KEY_def
  WRAP_KEY_def INPUT_DEBUG_KEY_def SIDEBAR_COLLAPSED_KEY_def EXTENSIONS_SHOW_RECOMMENDATIONS_KEY_def
  FONTS_SHOW_RECOMMENDATIONS_KEY_def MISE_SHOW_RECOMMENDATIONS_KEY_def ENROLLED_KEY_def
  DECLINED_KEY_def CONTROL_BAR_KEY_def INPUT_MODE_KEY_def TOUCH_MODE_KEY_def THEME_STORAGE_KEY_def
  CREDENTIAL_KEY_def CLAUDE_INSTALL_JOB_STORAGE_KEY_def

text \<open>Each write touches one item; the loads of the others do not see it.\<close>

definition setting_key :: "setting_write \<Rightarrow> ustring" where
  "setting_key w = (case w of
      SetAltTouch _ \<Rightarrow> ALT_SCREEN_TOUCH_SCROLL_KEY | SetAltWheel _ \<Rightarrow> ALT_SCREEN_WHEEL_SCROLL_KEY
    | SetMomentum _ \<Rightarrow> TOUCH_MOMENTUM_KEY | SetLive _ \<Rightarrow> LIVE_COMPOSITION_KEY
    | SetRefocus _ \<Rightarrow> REFOCUS_ON_WORD_KEY | SetReconnect _ \<Rightarrow> AUTO_RECONNECT_KEY
    | SetWrap _ \<Rightarrow> WRAP_KEY | SetDebug _ \<Rightarrow> INPUT_DEBUG_KEY | SetCollapsed _ \<Rightarrow> SIDEBAR_COLLAPSED_KEY
    | SetExt _ \<Rightarrow> EXTENSIONS_SHOW_RECOMMENDATIONS_KEY | SetFonts _ \<Rightarrow> FONTS_SHOW_RECOMMENDATIONS_KEY
    | SetMise _ \<Rightarrow> MISE_SHOW_RECOMMENDATIONS_KEY | SetEnrolled _ \<Rightarrow> ENROLLED_KEY
    | SetDeclined _ \<Rightarrow> DECLINED_KEY | SetControlBar _ \<Rightarrow> CONTROL_BAR_KEY | SetInput _ \<Rightarrow> INPUT_MODE_KEY
    | SetTouch _ \<Rightarrow> TOUCH_MODE_KEY | SetTheme _ \<Rightarrow> THEME_STORAGE_KEY
    | SetCredential _ \<Rightarrow> CREDENTIAL_KEY | SetJob _ \<Rightarrow> CLAUDE_INSTALL_JOB_STORAGE_KEY)"

lemmas setting_save_other = alt_screen_touch_scroll_pref.save_other
  alt_screen_wheel_scroll_pref.save_other touch_momentum_pref.save_other live_composition_pref.save_other
  refocus_on_word_pref.save_other auto_reconnect_pref.save_other wrap_pref.save_other
  input_debug_pref.save_other sidebar_collapsed_pref.save_other extensions_recommendations_pref.save_other
  fonts_recommendations_pref.save_other mise_recommendations_pref.save_other enrolled_pref.save_other
  declined_pref.save_other control_bar_pref.save_other input_mode_pref.save_other
  touch_mode_pref.save_other theme_pref.save_other credential_pref.save_other install_job_pref.save_other

lemmas setting_save_flags = alt_screen_touch_scroll_pref.save_flags
  alt_screen_wheel_scroll_pref.save_flags touch_momentum_pref.save_flags live_composition_pref.save_flags
  refocus_on_word_pref.save_flags auto_reconnect_pref.save_flags wrap_pref.save_flags
  input_debug_pref.save_flags sidebar_collapsed_pref.save_flags extensions_recommendations_pref.save_flags
  fonts_recommendations_pref.save_flags mise_recommendations_pref.save_flags enrolled_pref.save_flags
  declined_pref.save_flags control_bar_pref.save_flags input_mode_pref.save_flags
  touch_mode_pref.save_flags theme_pref.save_flags credential_pref.save_flags install_job_pref.save_flags

lemma write_setting_other:
  "k \<noteq> setting_key w \<Longrightarrow> st_items (write_setting w s) k = st_items s k"
  by (cases w) (simp_all add: setting_key_def setting_save_other)

lemma write_setting_flags:
  "st_readable (write_setting w s) = st_readable s" "st_writable (write_setting w s) = st_writable s"
  by (cases w; simp add: setting_save_flags)+

text \<open>A load whose key is not the one written gives what it gave before.\<close>

lemma load_frame:
  assumes "preference load save k d valid" "k \<noteq> setting_key w"
  shows "load (write_setting w s) = load s"
  by (rule preference.unaffected [OF assms(1)])
    (simp_all add: write_setting_other assms(2) write_setting_flags)

lemmas setting_frames =
  load_frame [OF alt_screen_touch_scroll_pref.preference_axioms]
  load_frame [OF alt_screen_wheel_scroll_pref.preference_axioms]
  load_frame [OF touch_momentum_pref.preference_axioms]
  load_frame [OF live_composition_pref.preference_axioms]
  load_frame [OF refocus_on_word_pref.preference_axioms]
  load_frame [OF auto_reconnect_pref.preference_axioms]
  load_frame [OF wrap_pref.preference_axioms]
  load_frame [OF input_debug_pref.preference_axioms]
  load_frame [OF sidebar_collapsed_pref.preference_axioms]
  load_frame [OF extensions_recommendations_pref.preference_axioms]
  load_frame [OF fonts_recommendations_pref.preference_axioms]
  load_frame [OF mise_recommendations_pref.preference_axioms]
  load_frame [OF enrolled_pref.preference_axioms]
  load_frame [OF declined_pref.preference_axioms]
  load_frame [OF control_bar_pref.preference_axioms]
  load_frame [OF input_mode_pref.preference_axioms]
  load_frame [OF touch_mode_pref.preference_axioms]
  load_frame [OF theme_pref.preference_axioms]
  load_frame [OF credential_pref.preference_axioms]
  load_frame [OF install_job_pref.preference_axioms]

lemmas setting_load_save = alt_screen_touch_scroll_pref.load_save
  alt_screen_wheel_scroll_pref.load_save touch_momentum_pref.load_save live_composition_pref.load_save
  refocus_on_word_pref.load_save auto_reconnect_pref.load_save wrap_pref.load_save
  input_debug_pref.load_save sidebar_collapsed_pref.load_save extensions_recommendations_pref.load_save
  fonts_recommendations_pref.load_save mise_recommendations_pref.load_save enrolled_pref.load_save
  declined_pref.load_save control_bar_pref.load_save input_mode_pref.load_save
  touch_mode_pref.load_save theme_pref.load_save

lemma credential_write:
  assumes "st_readable s" "st_writable s"
  shows "thisDeviceCredential (rememberCredential c s) =
    (if c = None \<or> c = Some [] then thisDeviceCredential s else c)"
  using credential_pref.load_save [OF assms, of c]
  by (auto simp: rememberCredential_def split: option.split)

lemma job_write:
  assumes "st_readable s" "st_writable s"
  shows "loadPersistedInstallJobId (savePersistedInstallJobId j s) = (if j = Some [] then None else j)"
  using install_job_pref.load_save [OF assms, of j] assms
  by (auto simp: savePersistedInstallJobId_def loadPersistedInstallJobId_def storage_ops)


lemma own_loads:
  assumes "st_readable s" "st_writable s"
  shows
    "loadAltScreenTouchScrollEnabled (write_setting (SetAltTouch x0) s) = x0"
    "loadAltScreenWheelScrollEnabled (write_setting (SetAltWheel x1) s) = x1"
    "loadTouchMomentumEnabled (write_setting (SetMomentum x2) s) = x2"
    "loadLiveCompositionEnabled (write_setting (SetLive x3) s) = x3"
    "loadRefocusOnWordEnabled (write_setting (SetRefocus x4) s) = x4"
    "loadAutoReconnectEnabled (write_setting (SetReconnect x5) s) = x5"
    "loadWrap (write_setting (SetWrap x6) s) = x6"
    "loadInputDebugEnabled (write_setting (SetDebug x7) s) = x7"
    "loadSidebarCollapsed (write_setting (SetCollapsed x8) s) = x8"
    "loadShowRecommendations_extensions (write_setting (SetExt x9) s) = x9"
    "loadShowRecommendations_fonts (write_setting (SetFonts x10) s) = x10"
    "loadShowRecommendations_mise (write_setting (SetMise x11) s) = x11"
    "deviceEnrolled (write_setting (SetEnrolled x12) s) = x12"
    "offerDeclined (write_setting (SetDeclined x13) s) = x13"
    "loadControlBarEnabled fine (write_setting (SetControlBar x14) s) = x14"
    "loadInputMode (write_setting (SetInput x15) s) = x15"
    "loadTouchMode (write_setting (SetTouch x16) s) = x16"
    "readStoredTheme (write_setting (SetTheme x17) s) = x17"
    "thisDeviceCredential (write_setting (SetCredential c) s) =
       (if c = None \<or> c = Some [] then thisDeviceCredential s else c)"
    "loadPersistedInstallJobId (write_setting (SetJob j) s) = (if j = Some [] then None else j)"
  by (simp_all add: setting_load_save [OF assms] credential_write [OF assms] job_write [OF assms])

lemma write_refines:
  assumes "st_readable s" "st_writable s"
  shows "settings_of fine (write_setting w s) = set_setting w (settings_of fine s)"
  by (cases w)
    (simp_all add: settings_of_def setting_frames own_loads [OF assms] setting_key_def storage_keys
      del: write_setting.simps)

text \<open>C37: With a working storage, any sequence of preference changes in any of the components gives,
  after a reload, exactly the settings the sequence sets one by one: every preference is read
  back as it was last written and none of the twenty disturbs another.\<close>
theorem settings_refine_storage:
  assumes "st_readable s" "st_writable s"
  shows "settings_of fine (fold write_setting ws s) = fold set_setting ws (settings_of fine s)"
  using assms
proof (induction ws arbitrary: s)
  case (Cons w ws)
  then show ?case by (simp add: write_refines write_setting_flags del: write_setting.simps)
qed simp

theorem settings_refine_storage_witness:
  "let s = \<lparr>st_readable = True, st_writable = True, st_items = Map.empty\<rparr>
   in ds_input (settings_of None (fold write_setting [SetInput Native, SetTouch SelectMode] s)) = Native"
  using settings_refine_storage [of "\<lparr>st_readable = True, st_writable = True, st_items = Map.empty\<rparr>" None
      "[SetInput Native, SetTouch SelectMode]"]
  by (simp add: Let_def del: write_setting.simps)

lemmas setting_unreadable = alt_screen_touch_scroll_pref.load_unreadable alt_screen_wheel_scroll_pref.load_unreadable
  touch_momentum_pref.load_unreadable live_composition_pref.load_unreadable
  refocus_on_word_pref.load_unreadable auto_reconnect_pref.load_unreadable
  wrap_pref.load_unreadable input_debug_pref.load_unreadable
  sidebar_collapsed_pref.load_unreadable extensions_recommendations_pref.load_unreadable
  fonts_recommendations_pref.load_unreadable mise_recommendations_pref.load_unreadable
  enrolled_pref.load_unreadable declined_pref.load_unreadable
  control_bar_pref.load_unreadable input_mode_pref.load_unreadable
  touch_mode_pref.load_unreadable theme_pref.load_unreadable
  credential_pref.load_unreadable install_job_pref.load_unreadable

lemmas setting_unwritable = alt_screen_touch_scroll_pref.save_unwritable alt_screen_wheel_scroll_pref.save_unwritable
  touch_momentum_pref.save_unwritable live_composition_pref.save_unwritable
  refocus_on_word_pref.save_unwritable auto_reconnect_pref.save_unwritable
  wrap_pref.save_unwritable input_debug_pref.save_unwritable
  sidebar_collapsed_pref.save_unwritable extensions_recommendations_pref.save_unwritable
  fonts_recommendations_pref.save_unwritable mise_recommendations_pref.save_unwritable
  enrolled_pref.save_unwritable declined_pref.save_unwritable
  control_bar_pref.save_unwritable input_mode_pref.save_unwritable
  touch_mode_pref.save_unwritable theme_pref.save_unwritable
  credential_pref.save_unwritable install_job_pref.save_unwritable

text \<open>When the storage cannot be read every setting has its documented default, whatever was
  written; when it cannot be written, nothing changes.\<close>
lemma unavailable_storage_defaults:
  "(\<not> st_readable s \<longrightarrow> settings_of fine (fold write_setting ws s) =
      \<lparr>ds_altTouch = True, ds_altWheel = True, ds_momentum = True, ds_live = True, ds_refocus = True,
       ds_reconnect = True, ds_wrap = True, ds_debug = False, ds_collapsed = False, ds_ext = True,
       ds_fonts = True, ds_mise = True, ds_enrolled = False, ds_declined = False,
       ds_controlBar = defaultControlBarEnabled fine, ds_input = Diff, ds_touch = ScrollMode,
       ds_theme = System, ds_credential = None, ds_job = None\<rparr>) \<and>
   (\<not> st_writable s \<longrightarrow> fold write_setting ws s = s)"
proof -
  have r: "st_readable (fold write_setting ws s) = st_readable s"
    by (induction ws arbitrary: s) (simp_all add: write_setting_flags del: write_setting.simps)
  have w1: "write_setting w s = s" if "\<not> st_writable s" for w
    using that by (cases w) (simp_all add: setting_unwritable)
  have "fold write_setting ws s = s" if "\<not> st_writable s"
    using that by (induction ws) (simp_all add: w1 del: write_setting.simps)
  with r show ?thesis by (simp add: settings_of_def setting_unreadable)
qed

lemma unavailable_storage_defaults_witness:
  "let s = \<lparr>st_readable = False, st_writable = True, st_items = Map.empty\<rparr>
   in ds_input (settings_of None (fold write_setting [SetInput Native] s)) = Diff"
  using unavailable_storage_defaults [of "\<lparr>st_readable = False, st_writable = True, st_items = Map.empty\<rparr>"
      None "[SetInput Native]"]
  by (simp add: Let_def del: write_setting.simps)

section \<open>The saved tab order\<close>

text \<open>An order of session names saved by the tab bar is read back unchanged, and loading never
  fails: a value that is missing, damaged, no array or not made of strings counts as no order
  (strings in a mixed array are kept).\<close>
lemma tab_order_roundtrip:
  assumes "parse (stringify (JArray (map JString order))) = Some (JArray (map JString order))"
    and "stringify (JArray (map JString order)) \<noteq> []"
    and "st_readable s" "st_writable s"
  shows "loadTabOrder parse (saveTabOrder stringify order s) = order"
  using assms by (simp add: loadTabOrder_def saveTabOrder_def storage_ops)

lemma tab_order_roundtrip_witness:
  "let s = \<lparr>st_readable = True, st_writable = True, st_items = Map.empty\<rparr>;
       stringify = (\<lambda>_. js ''[\"b\",\"a\"]'');
       parse = (\<lambda>t. if t = js ''[\"b\",\"a\"]'' then Some (JArray [JString (js ''b''), JString (js ''a'')])
                     else None)
   in loadTabOrder parse (saveTabOrder stringify [js ''b'', js ''a''] s) = [js ''b'', js ''a'']"
  unfolding Let_def
  by (rule tab_order_roundtrip) simp_all

end
