(* ===== verification/Js_Number.thy ===== *)
theory Js_Number
  imports Prelude
begin

text \<open>
  \<open>Number(s)\<close> of a string, by ECMAScript's StringToNumber grammar: white space, an optional sign,
  decimal digits with a fraction and an exponent, \<open>Infinity\<close>, and the \<open>0x\<close>, \<open>0o\<close>, \<open>0b\<close> literals.
  The value is exact; rounding to a double is not modelled.
\<close>

datatype js_number = Finite rat | PosInfinity | NegInfinity | NaN

definition digits_value :: "nat \<Rightarrow> nat list \<Rightarrow> nat" where
  "digits_value b ds = foldl (\<lambda>acc d. acc * b + d) 0 ds"

definition digit_of :: "codeunit \<Rightarrow> nat option" where
  "digit_of u =
     (if 0x30 \<le> u \<and> u \<le> 0x39 then Some (u - 0x30)
      else if 0x61 \<le> u \<and> u \<le> 0x66 then Some (u - 0x61 + 10)
      else if 0x41 \<le> u \<and> u \<le> 0x46 then Some (u - 0x41 + 10) else None)"

definition radix_literal :: "nat \<Rightarrow> ustring \<Rightarrow> js_number" where
  "radix_literal b s =
     (if s \<noteq> [] \<and> list_all (\<lambda>u. case digit_of u of None \<Rightarrow> False | Some d \<Rightarrow> d < b) s
      then Finite (of_nat (digits_value b (map (the \<circ> digit_of) s))) else NaN)"

text \<open>The exponent part; \<open>None\<close> when what is left is none.\<close>

definition exponent_part :: "ustring \<Rightarrow> int option" where
  "exponent_part s =
     (case s of
        [] \<Rightarrow> Some 0
      | u # r \<Rightarrow>
          if u \<noteq> 0x65 \<and> u \<noteq> 0x45 then None
          else
            let (sign, ds) = (case r of
                 v # r' \<Rightarrow> if v = 0x2d then (- 1, r') else if v = 0x2b then (1, r') else (1, r)
               | [] \<Rightarrow> (1, []))
            in if ds \<noteq> [] \<and> list_all is_digit ds then Some (sign * int (read_digits ds)) else None)"

definition scale10 :: "int \<Rightarrow> rat \<Rightarrow> rat" where
  "scale10 e x = (if e \<ge> 0 then x * 10 ^ nat e else x / 10 ^ nat (- e))"

definition unsigned_decimal :: "ustring \<Rightarrow> js_number" where
  "unsigned_decimal s =
     (if s = js ''Infinity'' then PosInfinity
      else
        let ip = takeWhile is_digit s; r = dropWhile is_digit s;
            (fp, r') = (case r of
                u # t \<Rightarrow> if u = 0x2e then (takeWhile is_digit t, dropWhile is_digit t) else ([], r)
              | [] \<Rightarrow> ([], r))
        in if ip = [] \<and> fp = [] then NaN
           else (case exponent_part r' of
                   None \<Rightarrow> NaN
                 | Some e \<Rightarrow> Finite (scale10 (e - int (length fp)) (of_nat (read_digits (ip @ fp))))))"

fun negate :: "js_number \<Rightarrow> js_number" where
  "negate (Finite x) = Finite (- x)"
| "negate PosInfinity = NegInfinity"
| "negate NegInfinity = PosInfinity"
| "negate NaN = NaN"

fun number_text :: "ustring \<Rightarrow> js_number" where
  "number_text [] = Finite 0"
| "number_text (u # s) =
     (if u = 0x2d then negate (unsigned_decimal s)
      else if u = 0x2b then unsigned_decimal s
      else (case s of
              v # t \<Rightarrow>
                if u = 0x30 \<and> v \<in> {0x78, 0x58} then radix_literal 16 t
                else if u = 0x30 \<and> v \<in> {0x6f, 0x4f} then radix_literal 8 t
                else if u = 0x30 \<and> v \<in> {0x62, 0x42} then radix_literal 2 t
                else unsigned_decimal (u # s)
            | [] \<Rightarrow> unsigned_decimal (u # s)))"

definition js_Number :: "ustring \<Rightarrow> js_number" where
  "js_Number s = number_text (trim s)"

lemma trim_digits: "list_all is_digit s \<Longrightarrow> trim s = s"
proof -
  assume d: "list_all is_digit s"
  have "\<not> js_space u" if "is_digit u" for u
    using that by (auto simp: is_digit_def js_space_def)
  then have stop: "dropWhile js_space t = t" if "list_all is_digit t" for t
    using that by (cases t) auto
  show ?thesis using d stop [of s] stop [of "rev s"] by (simp add: trim_def)
qed

lemma js_Number_show_nat: "js_Number (show_nat n) = Finite (of_nat n)"
proof -
  have d: "list_all is_digit (show_nat n)" by (simp add: list_all_iff show_nat_digits)
  obtain u s where us: "show_nat n = u # s" by (cases "show_nat n") simp_all
  have u: "is_digit u" and s: "list_all is_digit s" using d us by simp_all
  have tw: "takeWhile is_digit (u # s) = u # s" "dropWhile is_digit (u # s) = []"
    using d us by (simp_all add: takeWhile_eq_all_conv list_all_iff)
  have inf: "u # s \<noteq> js ''Infinity''" using u by (auto simp: js_defs is_digit_def)
  have "number_text (u # s) = unsigned_decimal (u # s)"
    using u s by (cases s) (auto simp: is_digit_def)
  also have "\<dots> = Finite (of_nat (read_digits (u # s)))"
    using inf tw by (simp add: unsigned_decimal_def exponent_part_def scale10_def Let_def)
  finally show ?thesis
    using trim_digits [OF d] us read_show_nat [of n] by (simp add: js_Number_def)
qed

end
