(* ===== verification/Terminal_Zoom.thy ===== *)
theory Terminal_Zoom
  imports Device_Prefs Js_Number
begin

text \<open>
  The terminal's font size in \<open>Terminal.tsx\<close>: its preference, the zoom steps and the Ctrl+wheel
  accumulator. Sizes and wheel deltas are rationals. \<open>String(value)\<close> of a number is an argument;
  the results need only what it prints for natural numbers.
\<close>

section \<open>The font size preference\<close>

definition FONT_SIZE_STORAGE_KEY :: ustring where
  "FONT_SIZE_STORAGE_KEY = js ''webmanager.terminal.fontSize''"

definition FONT_SIZE_DEFAULT :: rat where "FONT_SIZE_DEFAULT = 15"
definition FONT_SIZE_MIN :: rat where "FONT_SIZE_MIN = 8"
definition FONT_SIZE_MAX :: rat where "FONT_SIZE_MAX = 32"
definition FONT_SIZE_STEP :: rat where "FONT_SIZE_STEP = 1"

lemmas font_size_consts = FONT_SIZE_DEFAULT_def FONT_SIZE_MIN_def FONT_SIZE_MAX_def FONT_SIZE_STEP_def

text \<open>\<open>Number(null)\<close> is 0.\<close>

definition loadFontSize :: "storage \<Rightarrow> rat" where
  "loadFontSize s =
     (case getItem FONT_SIZE_STORAGE_KEY s of
        None \<Rightarrow> FONT_SIZE_DEFAULT
      | Some item \<Rightarrow>
          (case (case item of None \<Rightarrow> Finite 0 | Some t \<Rightarrow> js_Number t) of
             Finite stored \<Rightarrow>
               if stored \<ge> FONT_SIZE_MIN \<and> stored \<le> FONT_SIZE_MAX then stored else FONT_SIZE_DEFAULT
           | _ \<Rightarrow> FONT_SIZE_DEFAULT))"

definition saveFontSize :: "(rat \<Rightarrow> ustring) \<Rightarrow> rat \<Rightarrow> storage \<Rightarrow> storage" where
  "saveFontSize print value s = try_write (setItem FONT_SIZE_STORAGE_KEY (print value) s) s"

section \<open>Zoom\<close>

datatype zoom_direction = ZoomIn | ZoomOut

definition zoom_next :: "zoom_direction \<Rightarrow> rat \<Rightarrow> rat" where
  "zoom_next d prev =
     min FONT_SIZE_MAX (max FONT_SIZE_MIN
       (prev + (case d of ZoomIn \<Rightarrow> FONT_SIZE_STEP | ZoomOut \<Rightarrow> - FONT_SIZE_STEP)))"

definition zoom :: "(rat \<Rightarrow> ustring) \<Rightarrow> zoom_direction \<Rightarrow> rat \<times> storage \<Rightarrow> rat \<times> storage" where
  "zoom print d st = (let next = zoom_next d (fst st) in (next, saveFontSize print next (snd st)))"

definition zoom_run :: "(rat \<Rightarrow> ustring) \<Rightarrow> zoom_direction list \<Rightarrow> rat \<times> storage \<Rightarrow> rat \<times> storage" where
  "zoom_run print ds st = fold (zoom print) ds st"

lemma loadFontSize_bounds: "FONT_SIZE_MIN \<le> loadFontSize s \<and> loadFontSize s \<le> FONT_SIZE_MAX"
  by (auto simp: loadFontSize_def font_size_consts split: option.splits js_number.splits)

lemma zoom_next_bounds: "FONT_SIZE_MIN \<le> zoom_next d x \<and> zoom_next d x \<le> FONT_SIZE_MAX"
  by (simp add: zoom_next_def font_size_consts)

lemma zoom_next_nat:
  assumes "8 \<le> n" "n \<le> 32"
  shows "zoom_next d (of_nat n) = of_nat (case d of ZoomIn \<Rightarrow> min 32 (n + 1) | ZoomOut \<Rightarrow> max 8 (n - 1))"
proof (cases d)
  case ZoomIn
  have "min 32 (max 8 (of_nat n + 1 :: rat)) = of_nat (min 32 (max 8 (n + 1)))"
    by (simp add: of_nat_min of_nat_max)
  then show ?thesis using ZoomIn assms by (simp add: zoom_next_def font_size_consts)
next
  case ZoomOut
  have "(of_nat n - 1 :: rat) = of_nat (n - 1)" using assms by simp
  moreover have "min 32 (max 8 (of_nat (n - 1) :: rat)) = of_nat (min 32 (max 8 (n - 1)))"
    by (simp add: of_nat_min of_nat_max del: of_nat_diff)
  ultimately show ?thesis using ZoomOut assms by (simp add: zoom_next_def font_size_consts del: of_nat_diff)
qed

lemma load_save_nat:
  assumes "print (of_nat n) = show_nat n" "8 \<le> n" "n \<le> 32" "st_readable s" "st_writable s"
  shows "loadFontSize (saveFontSize print (of_nat n) s) = of_nat n"
  using assms by (simp add: loadFontSize_def saveFontSize_def storage_ops js_Number_show_nat font_size_consts)

lemma saveFontSize_flags [simp]:
  "st_readable (saveFontSize print v s) = st_readable s" "st_writable (saveFontSize print v s) = st_writable s"
  by (simp_all add: saveFontSize_def storage_ops)

lemma zoom_run_nat:
  assumes "\<And>n. print (of_nat n) = show_nat n" "8 \<le> n" "n \<le> 32" "st_readable s" "st_writable s"
    "loadFontSize s = of_nat n"
  shows "\<exists>m. 8 \<le> m \<and> m \<le> 32 \<and> fst (zoom_run print ds (of_nat n, s)) = of_nat m
    \<and> loadFontSize (snd (zoom_run print ds (of_nat n, s))) = of_nat m"
  using assms(2-6)
proof (induction ds arbitrary: n s)
  case Nil
  then show ?case by (auto simp: zoom_run_def)
next
  case (Cons d ds)
  let ?m = "case d of ZoomIn \<Rightarrow> min 32 (n + 1) | ZoomOut \<Rightarrow> max 8 (n - 1)"
  have m: "8 \<le> ?m" "?m \<le> 32" using Cons.prems by (auto split: zoom_direction.split)
  have "zoom print d (of_nat n, s) = (of_nat ?m, saveFontSize print (of_nat ?m) s)"
    using zoom_next_nat [of n d] Cons.prems by (simp add: zoom_def Let_def)
  then show ?case
    using Cons.IH [OF m] Cons.prems m load_save_nat [where print = print and n = ?m, OF assms(1) m]
    by (simp add: zoom_run_def)
qed

text \<open>From the stored size, any sequence of zoom steps stays between 8 and 32 and is what the
  next page load starts from, never the fallback; a stored value that is damaged or out of range
  is replaced by a size inside the range.\<close>
lemma zoom_stays_in_range_and_persists:
  assumes "\<And>n. print (of_nat n) = show_nat n" "st_readable s" "st_writable s"
    and "loadFontSize s = of_nat n"
  shows "let (size, s') = zoom_run print ds (loadFontSize s, s) in
    8 \<le> size \<and> size \<le> 32 \<and> loadFontSize s' = size"
proof -
  have "8 \<le> n" "n \<le> 32"
    using loadFontSize_bounds [of s] assms(4) by (simp_all add: font_size_consts)
  from zoom_run_nat [OF assms(1) this assms(2,3,4), of ds] show ?thesis
    using assms(4) by (auto simp: split_def Let_def)
qed

lemma zoom_stays_in_range_and_persists_witness:
  "let s = \<lparr>st_readable = True, st_writable = True, st_items = [FONT_SIZE_STORAGE_KEY \<mapsto> js ''zoom'']\<rparr>;
       st = zoom_run (\<lambda>r. show_nat (nat \<lfloor>r\<rfloor>)) [ZoomIn, ZoomIn, ZoomOut] (loadFontSize s, s)
   in loadFontSize s = 15 \<and> loadFontSize (snd st) = fst st"
proof -
  let ?s = "\<lparr>st_readable = True, st_writable = True, st_items = [FONT_SIZE_STORAGE_KEY \<mapsto> js ''zoom'']\<rparr>"
  have l: "loadFontSize ?s = of_nat 15"
    by (simp add: loadFontSize_def storage_ops js_Number_def trim_def js_space_def js_defs
        unsigned_decimal_def is_digit_def font_size_consts)
  show ?thesis
    using zoom_stays_in_range_and_persists [of "\<lambda>r. show_nat (nat \<lfloor>r\<rfloor>)" ?s 15 "[ZoomIn, ZoomIn, ZoomOut]"] l
    by (simp add: Let_def split_def)
qed

section \<open>Ctrl+wheel\<close>

record wheel_event =
  we_ctrlKey :: bool
  we_pixels :: bool               \<comment> \<open>\<open>deltaMode === DOM_DELTA_PIXEL\<close>\<close>
  we_deltaY :: rat

definition PIXELS_PER_STEP :: rat where
  "PIXELS_PER_STEP = 50"

text \<open>Whether the event is taken, the new remainder, and the zoom step.\<close>

definition zoom_onWheel :: "wheel_event \<Rightarrow> rat \<Rightarrow> bool \<times> rat \<times> zoom_direction option" where
  "zoom_onWheel e remainder =
     (if \<not> we_ctrlKey e \<or> we_deltaY e = 0 then (False, remainder, None)
      else
        let pixels = (if we_pixels e then we_deltaY e else sgn (we_deltaY e) * PIXELS_PER_STEP);
            r0 = (if sgn pixels \<noteq> sgn remainder then 0 else remainder);
            r1 = r0 + pixels
        in if \<bar>r1\<bar> < PIXELS_PER_STEP then (True, r1, None)
           else (True, 0, Some (if pixels < 0 then ZoomIn else ZoomOut)))"

fun wheel_run :: "wheel_event list \<Rightarrow> rat \<Rightarrow> rat \<times> zoom_direction list" where
  "wheel_run [] r = (r, [])"
| "wheel_run (e # es) r =
     (let (t, r1, z) = zoom_onWheel e r; (r2, zs) = wheel_run es r1
      in (r2, (case z of None \<Rightarrow> zs | Some d \<Rightarrow> d # zs)))"

text \<open>The wheel accumulator always stays below one step; a mouse notch is exactly one step
  whatever its size, in the direction of the wheel, even right after a pinch the other way; a
  pinch in one direction never takes more steps than its total travel divided by 50 pixels.\<close>
lemma ctrl_wheel_steps:
  assumes "\<bar>r\<bar> < PIXELS_PER_STEP"
  shows "\<bar>fst (snd (zoom_onWheel e r))\<bar> < PIXELS_PER_STEP \<and>
    (we_ctrlKey e \<and> \<not> we_pixels e \<and> we_deltaY e \<noteq> 0 \<longrightarrow>
       zoom_onWheel e r = (True, 0, Some (if we_deltaY e < 0 then ZoomIn else ZoomOut))) \<and>
    (r = 0 \<and> list_all (\<lambda>e. we_ctrlKey e \<and> we_pixels e \<and> we_deltaY e > 0) es \<longrightarrow>
       PIXELS_PER_STEP * of_nat (length (snd (wheel_run es r))) \<le> sum_list (map we_deltaY es))"
proof -
  have notch: "zoom_onWheel e r = (True, 0, Some (if we_deltaY e < 0 then ZoomIn else ZoomOut))"
    if "we_ctrlKey e" "\<not> we_pixels e" "we_deltaY e \<noteq> 0"
    using that by (auto simp: zoom_onWheel_def Let_def PIXELS_PER_STEP_def sgn_if)
  have pinch: "q + sum_list (map we_deltaY es) \<ge> PIXELS_PER_STEP * of_nat (length (snd (wheel_run es q)))"
    if "q \<ge> 0" "list_all (\<lambda>e. we_ctrlKey e \<and> we_pixels e \<and> we_deltaY e > 0) es" for q es
    using that
  proof (induction es arbitrary: q)
    case (Cons e es)
    define q' where "q' = q + we_deltaY e"
    have d: "we_deltaY e > 0" using Cons.prems by simp
    then have q': "q' \<ge> 0" using Cons.prems by (simp add: q'_def)
    have r0: "(if sgn (we_deltaY e) \<noteq> sgn q then 0 else q) = q"
      using d Cons.prems(1) by (simp add: sgn_if)
    have step: "zoom_onWheel e q = (if q' < PIXELS_PER_STEP then (True, q', None) else (True, 0, Some ZoomOut))"
      using Cons.prems d q' r0 by (simp add: zoom_onWheel_def Let_def q'_def)
    show ?case
      using Cons.IH [of q'] Cons.IH [of 0] Cons.prems(2) q' step
      by (simp add: split_def Let_def q'_def algebra_simps split: if_splits)
  qed simp
  have "\<bar>fst (snd (zoom_onWheel e r))\<bar> < PIXELS_PER_STEP"
    using assms by (simp add: zoom_onWheel_def Let_def PIXELS_PER_STEP_def)
  with notch pinch [of 0 es] show ?thesis by auto
qed

lemma ctrl_wheel_steps_witness:
  "zoom_onWheel \<lparr>we_ctrlKey = True, we_pixels = False, we_deltaY = 3\<rparr> (- 20) = (True, 0, Some ZoomOut)"
  using ctrl_wheel_steps [of "- 20" "\<lparr>we_ctrlKey = True, we_pixels = False, we_deltaY = 3\<rparr>"]
  by (simp add: PIXELS_PER_STEP_def)

end
