(* ===== verification/Terminal_Connection.thy ===== *)
theory Terminal_Connection
  imports Session_Names
begin

text \<open>
  The terminal's connection life cycle in \<open>components/Terminal/Terminal.tsx\<close>: the WebSocket effect,
  automatic reconnection with its backoff, the password gate, the session list and the
  operations on sessions.

  The component's state and refs are one record. A ref that mirrors a state (\<open>activeSessionRef\<close>,
  \<open>stateRef\<close>, \<open>lockedOutRef\<close>, ...) is the same field, and a state change re-runs the effect that
  depends on it in the same step. Every promise and timer is a pending entry that a later event
  answers, so answers arrive in any order. The font and embed checks that delay the first
  connection are taken to be done.
\<close>

section \<open>State\<close>

datatype connection_state = Connecting | Connected | Disconnected

datatype socket_status = Opening | Open | Closed

record socket =
  sk_session :: ustring
  sk_status :: socket_status

record create_options =
  co_cwd :: "ustring option"
  co_command :: "ustring option"

text \<open>The query of the connection URL, less the size.\<close>

record connect_params =
  cp_session :: ustring
  cp_cwd :: "ustring option"
  cp_cmd :: "ustring option"
  cp_pin :: bool

datatype host_message =
    SessionEnded ustring
  | OpenSession ustring
  | NewSession "ustring option" "ustring option"

text \<open>Promises that are still to be answered, with what their continuation closes over.\<close>

datatype awaiting =
    GateAfterClose ustring nat            \<comment> \<open>the effect's \<open>activeSession\<close>, \<open>event.code\<close>\<close>
  | SessionsAfterClose ustring nat
  | GateAfterAuthChange
  | UnlockPrompt
  | DeleteAnswer ustring ustring "terminal_session_info list"
  | RenameAnswer ustring ustring ustring

record connection =
  tc_active :: ustring
  tc_state :: connection_state
  tc_sockets :: "socket list"              \<comment> \<open>every socket ever created; the id is the position\<close>
  tc_ws :: "nat option"                    \<comment> \<open>\<open>wsRef.current\<close>\<close>
  tc_timer :: "nat option"                 \<comment> \<open>the scheduled reconnect and its delay\<close>
  tc_attempt :: nat
  tc_pending :: "(nat \<times> nat) option"       \<comment> \<open>\<open>pendingReconnect\<close>: attempt, retryAt\<close>
  tc_lockedOut :: bool
  tc_sessionEnded :: bool
  tc_sessions :: "terminal_session_info list"
  tc_create :: "ustring \<rightharpoonup> create_options"
  tc_awaiting :: "awaiting list"
  tc_autoReconnect :: bool
  tc_embedded :: bool
  tc_embedCwd :: "ustring option"
  tc_embedUnpinned :: "ustring option"
  tc_lastForeground :: nat
  tc_opened :: "connect_params list"
  tc_host :: "host_message list"
  tc_error :: "nat option"                 \<comment> \<open>the status behind \<open>sessionActionError\<close>\<close>

definition truthy :: "ustring option \<Rightarrow> bool" where
  "truthy x = (case x of None \<Rightarrow> False | Some s \<Rightarrow> s \<noteq> [])"

definition has_session :: "ustring \<Rightarrow> terminal_session_info list \<Rightarrow> bool" where
  "has_session n ss = list_ex (\<lambda>s. ts_name s = n) ss"

section \<open>The WebSocket effect\<close>

definition clearScheduledReconnect :: "connection \<Rightarrow> connection" where
  "clearScheduledReconnect c = c\<lparr>tc_timer := None, tc_pending := None\<rparr>"

definition close_socket :: "nat \<Rightarrow> connection \<Rightarrow> connection" where
  "close_socket i c = c\<lparr>tc_sockets := (tc_sockets c)[i := (tc_sockets c ! i)\<lparr>sk_status := Closed\<rparr>]\<rparr>"

text \<open>The cleanup the effect returned, if its last run connected.\<close>

definition effect_cleanup :: "connection \<Rightarrow> connection" where
  "effect_cleanup c =
     (case tc_ws c of
        None \<Rightarrow> c
      | Some i \<Rightarrow> clearScheduledReconnect ((close_socket i c)\<lparr>tc_ws := None\<rparr>))"

definition params_for :: "connection \<Rightarrow> connect_params" where
  "params_for c =
     (let pending = tc_create c (tc_active c);
          cwd = (case pending of
                   Some p \<Rightarrow> (case co_cwd p of Some d \<Rightarrow> Some d
                             | None \<Rightarrow> if tc_embedded c then tc_embedCwd c else None)
                 | None \<Rightarrow> if tc_embedded c then tc_embedCwd c else None);
          cmd = (case pending of Some p \<Rightarrow> co_command p | None \<Rightarrow> None)
      in \<lparr>cp_session = tc_active c, cp_cwd = (if truthy cwd then cwd else None),
          cp_cmd = (if truthy cmd then cmd else None),
          cp_pin = (tc_embedded c \<and> tc_embedUnpinned c \<noteq> Some (tc_active c))\<rparr>)"

definition effect_run :: "connection \<Rightarrow> connection" where
  "effect_run c =
     (if tc_active c = HOME_TAB_ID then c
      else c\<lparr>tc_state := Connecting, tc_opened := tc_opened c @ [params_for c],
             tc_create := (tc_create c)(tc_active c := None),
             tc_sockets := tc_sockets c @ [\<lparr>sk_session = tc_active c, sk_status = Opening\<rparr>],
             tc_ws := Some (length (tc_sockets c))\<rparr>)"

text \<open>The effect runs again because \<open>reconnectNonce\<close> or \<open>activeSession\<close> changed.\<close>

definition rerun_effect :: "connection \<Rightarrow> connection" where
  "rerun_effect c = effect_run (effect_cleanup c)"

definition setActiveSession :: "ustring \<Rightarrow> connection \<Rightarrow> connection" where
  "setActiveSession n c =
     (if n = tc_active c then c
      else effect_run ((effect_cleanup c)\<lparr>tc_active := n, tc_lastForeground := 0\<rparr>))"

section \<open>Reconnection\<close>

definition RECONNECT_BASE_DELAY_MS :: nat where "RECONNECT_BASE_DELAY_MS = 1000"
definition RECONNECT_MAX_DELAY_MS :: nat where "RECONNECT_MAX_DELAY_MS = 30000"

definition reconnect_delay :: "nat \<Rightarrow> nat" where
  "reconnect_delay attempt =
     min (RECONNECT_BASE_DELAY_MS * 2 ^ (attempt - 1)) RECONNECT_MAX_DELAY_MS"

definition scheduleReconnect :: "nat \<Rightarrow> connection \<Rightarrow> connection" where
  "scheduleReconnect now c =
     (if tc_active c = HOME_TAB_ID then c
      else if tc_lockedOut c then c
      else if tc_timer c \<noteq> None then c
      else
        let attempt = tc_attempt c + 1; delay = reconnect_delay attempt
        in c\<lparr>tc_attempt := attempt, tc_pending := Some (attempt, now + delay),
             tc_timer := Some delay\<rparr>)"

definition reconnect_timer :: "connection \<Rightarrow> connection" where
  "reconnect_timer c =
     (if tc_timer c = None then c else rerun_effect (c\<lparr>tc_timer := None\<rparr>))"

definition reconnect :: "connection \<Rightarrow> connection" where
  "reconnect c =
     rerun_effect ((clearScheduledReconnect c)\<lparr>tc_lockedOut := False, tc_attempt := 0\<rparr>)"

definition restart_ended :: "connection \<Rightarrow> connection" where
  "restart_ended c = reconnect (c\<lparr>tc_sessionEnded := False\<rparr>)"

text \<open>\<open>gateLocked\<close>: the answer of \<open>/auth/status\<close>, \<open>None\<close> when the request failed.\<close>

definition gate_is_locked :: "auth_status option \<Rightarrow> bool" where
  "gate_is_locked r = (case r of None \<Rightarrow> False | Some s \<Rightarrow> as_required s \<and> \<not> as_unlocked s)"

definition await :: "awaiting \<Rightarrow> connection \<Rightarrow> connection" where
  "await a c = c\<lparr>tc_awaiting := tc_awaiting c @ [a]\<rparr>"

definition auth_changed :: "connection \<Rightarrow> connection" where
  "auth_changed c = (if \<not> tc_lockedOut c then c else await GateAfterAuthChange c)"

definition auth_gate_answer :: "auth_status option \<Rightarrow> connection \<Rightarrow> connection" where
  "auth_gate_answer r c = (if \<not> gate_is_locked r then reconnect c else c)"

definition unlock_answer :: "bool \<Rightarrow> connection \<Rightarrow> connection" where
  "unlock_answer unlocked c = (if unlocked then reconnect c else c)"

text \<open>\<open>onForeground\<close>, registered unless Home is shown.\<close>

definition onForeground :: "nat \<Rightarrow> connection \<Rightarrow> connection" where
  "onForeground now c =
     (if tc_active c = HOME_TAB_ID then c
      else if int now - int (tc_lastForeground c) < 500 then c
      else
        let c1 = c\<lparr>tc_lastForeground := now\<rparr> in
        if tc_state c1 = Disconnected \<and> tc_autoReconnect c1 \<and> \<not> tc_sessionEnded c1
        then reconnect c1 else c1)"

section \<open>The session list\<close>

definition find_session :: "(terminal_session_info \<Rightarrow> bool) \<Rightarrow> terminal_session_info list \<Rightarrow>
    terminal_session_info option" where
  "find_session p ss = List.find p ss"

text \<open>The name under which the active session goes on, when another client renamed it.\<close>

definition renamed_to :: "terminal_session_info list \<Rightarrow> connection \<Rightarrow> ustring option" where
  "renamed_to fresh c =
     (if tc_active c \<noteq> HOME_TAB_ID \<and> \<not> has_session (tc_active c) fresh then
        (case find_session (\<lambda>s. ts_name s = tc_active c) (tc_sessions c) of
           None \<Rightarrow> None
         | Some old \<Rightarrow>
             if ts_pid old = 0 then None
             else map_option ts_name (find_session (\<lambda>s. ts_pid s = ts_pid old) fresh))
      else None)"

definition refreshSessions :: "terminal_session_info list option \<Rightarrow> connection \<Rightarrow> connection" where
  "refreshSessions answer c =
     (case answer of
        None \<Rightarrow> c
      | Some fresh \<Rightarrow>
          let c1 = (case renamed_to fresh c of None \<Rightarrow> c | Some n \<Rightarrow> setActiveSession n c)
          in c1\<lparr>tc_sessions := fresh\<rparr>)"

section \<open>Socket events\<close>

definition ws_onopen :: "nat \<Rightarrow> connection \<Rightarrow> connection" where
  "ws_onopen i c =
     c\<lparr>tc_sockets := (tc_sockets c)[i := (tc_sockets c ! i)\<lparr>sk_status := Open\<rparr>],
       tc_state := Connected, tc_attempt := 0, tc_pending := None\<rparr>"

definition ws_onclose :: "nat \<Rightarrow> nat \<Rightarrow> connection \<Rightarrow> connection" where
  "ws_onclose i code c =
     (let c0 = close_socket i c in
      if tc_ws c0 \<noteq> Some i then c0
      else await (GateAfterClose (sk_session (tc_sockets c0 ! i)) code) (c0\<lparr>tc_state := Disconnected\<rparr>))"

definition ws_onerror :: "nat \<Rightarrow> connection \<Rightarrow> connection" where
  "ws_onerror i c = (if tc_ws c \<noteq> Some i then c else c\<lparr>tc_state := Disconnected\<rparr>)"

definition gate_after_close :: "ustring \<Rightarrow> nat \<Rightarrow> auth_status option \<Rightarrow> connection \<Rightarrow> connection" where
  "gate_after_close session code r c =
     (if gate_is_locked r then
        if tc_active c \<noteq> session then c
        else (clearScheduledReconnect c)\<lparr>tc_lockedOut := True\<rparr>
      else await (SessionsAfterClose session code) c)"

definition sessions_after_close ::
  "ustring \<Rightarrow> nat \<Rightarrow> terminal_session_info list option \<Rightarrow> nat \<Rightarrow> connection \<Rightarrow> connection" where
  "sessions_after_close session code answer now c0 =
     (let c = refreshSessions answer c0;
          gone = (case answer of None \<Rightarrow> False | Some d \<Rightarrow> \<not> has_session session d)
      in if tc_embedded c then
           let ended = (code = 1000 \<and> (answer = None \<or> gone)) \<or> code = 1008
           in if ended \<and> tc_active c = session
              then c\<lparr>tc_sessionEnded := True, tc_host := tc_host c @ [SessionEnded session]\<rparr>
              else if tc_autoReconnect c \<and> tc_active c = session then scheduleReconnect now c else c
         else if tc_active c = session \<and> gone then setActiveSession HOME_TAB_ID c
         else if tc_autoReconnect c \<and> tc_active c = session then scheduleReconnect now c
         else c)"

section \<open>Operations on sessions\<close>

definition selectSession :: "ustring \<Rightarrow> connection \<Rightarrow> connection" where
  "selectSession n c = setActiveSession n c"

definition selectFromHome :: "ustring \<Rightarrow> connection \<Rightarrow> connection" where
  "selectFromHome n c =
     (if tc_embedded c then c\<lparr>tc_host := tc_host c @ [OpenSession n]\<rparr> else selectSession n c)"

record session_create =
  sc_label :: "ustring option"
  sc_cwd :: "ustring option"
  sc_command :: "ustring option"

definition addSession :: "session_create option \<Rightarrow> connection \<Rightarrow> connection" where
  "addSession opts c =
     (let label = Option.bind opts sc_label; ocwd = Option.bind opts sc_cwd;
          cmd = Option.bind opts sc_command
      in if tc_embedded c \<and> \<not> truthy ocwd
         then c\<lparr>tc_host := tc_host c @ [NewSession label cmd]\<rparr>
         else
           let alsoTaken = (if tc_active c = HOME_TAB_ID then [] else tc_active c);
               name = nextSessionName (tc_sessions c) alsoTaken label;
               cwd = (case ocwd of Some d \<Rightarrow> Some d
                      | None \<Rightarrow> if tc_embedded c then tc_embedCwd c else None);
               c1 = (if truthy cwd \<or> truthy cmd
                     then c\<lparr>tc_create := (tc_create c)(name \<mapsto> \<lparr>co_cwd = cwd, co_command = cmd\<rparr>)\<rparr>
                     else c)
           in setActiveSession name c1)"

definition openProfile :: "terminal_profile \<Rightarrow> connection \<Rightarrow> connection" where
  "openProfile p =
     addSession (Some \<lparr>sc_label = Some (tp_label p), sc_cwd = tp_cwd p, sc_command = tp_command p\<rparr>)"

text \<open>\<open>?session=\<close> of the URL, once the list it is checked against has arrived.\<close>

definition restore_session :: "ustring \<Rightarrow> terminal_session_info list option \<Rightarrow> connection \<Rightarrow> connection" where
  "restore_session n answer c =
     (let c1 = refreshSessions answer c in
      case answer of
        None \<Rightarrow> c1
      | Some d \<Rightarrow> if has_session n d then setActiveSession n c1 else c1)"

definition closeSession :: "ustring \<Rightarrow> connection \<Rightarrow> connection" where
  "closeSession n c = await (DeleteAnswer n (tc_active c) (tc_sessions c)) c"

text \<open>\<open>status\<close> is \<open>None\<close> for a successful DELETE.\<close>

definition delete_answer ::
  "ustring \<Rightarrow> ustring \<Rightarrow> terminal_session_info list \<Rightarrow> nat option \<Rightarrow> connection \<Rightarrow> connection" where
  "delete_answer n activeSession sessions status c =
     (if status \<noteq> None \<and> status \<noteq> Some 404 then c\<lparr>tc_error := status\<rparr>
      else if n = activeSession then
        (case filter (\<lambda>s. ts_name s \<noteq> n) sessions of
           [] \<Rightarrow> setActiveSession HOME_TAB_ID c
         | s # _ \<Rightarrow> setActiveSession (ts_name s) c)
      else c)"

definition renameSession :: "ustring \<Rightarrow> ustring \<Rightarrow> connection \<Rightarrow> connection" where
  "renameSession old new c =
     (let trimmed = trim new in
      if trimmed = [] \<or> trimmed = old then c else await (RenameAnswer old trimmed (tc_active c)) c)"

definition rename_answer :: "ustring \<Rightarrow> ustring \<Rightarrow> ustring \<Rightarrow> nat option \<Rightarrow> connection \<Rightarrow> connection" where
  "rename_answer old trimmed activeSession status c =
     (if status \<noteq> None then c\<lparr>tc_error := status\<rparr>
      else if old = activeSession then setActiveSession trimmed c
      else c)"


section \<open>Runs\<close>

definition connection_init :: "bool \<Rightarrow> ustring option \<Rightarrow> create_options \<Rightarrow> bool \<Rightarrow> bool \<Rightarrow> connection" where
  "connection_init embedded embedSession opts auto unpinned =
     (let active = (if truthy embedSession then the embedSession else HOME_TAB_ID) in
      effect_run
       \<lparr>tc_active = active, tc_state = Connecting, tc_sockets = [], tc_ws = None, tc_timer = None,
        tc_attempt = 0, tc_pending = None, tc_lockedOut = False, tc_sessionEnded = False,
        tc_sessions = [], tc_create = (if truthy embedSession then [active \<mapsto> opts] else Map.empty),
        tc_awaiting = [], tc_autoReconnect = auto, tc_embedded = embedded, tc_embedCwd = co_cwd opts,
        tc_embedUnpinned = (if unpinned then embedSession else None), tc_lastForeground = 0,
        tc_opened = [], tc_host = [], tc_error = None\<rparr>)"

definition answered :: "nat \<Rightarrow> connection \<Rightarrow> connection" where
  "answered k c = c\<lparr>tc_awaiting := take k (tc_awaiting c) @ drop (Suc k) (tc_awaiting c)\<rparr>"

definition awaits :: "nat \<Rightarrow> awaiting \<Rightarrow> connection \<Rightarrow> bool" where
  "awaits k a c \<longleftrightarrow> k < length (tc_awaiting c) \<and> tc_awaiting c ! k = a"

text \<open>
  A socket opens at most once, unless it was closed before; it reports a close once. The overlay
  offers its buttons only while disconnected.
\<close>

inductive conn_step :: "connection \<Rightarrow> connection \<Rightarrow> bool" where
  opened: "i < length (tc_sockets c) \<Longrightarrow> sk_status (tc_sockets c ! i) = Opening \<Longrightarrow>
    conn_step c (ws_onopen i c)"
| closed: "i < length (tc_sockets c) \<Longrightarrow> sk_status (tc_sockets c ! i) \<noteq> Closed \<or> tc_ws c \<noteq> Some i \<Longrightarrow>
    conn_step c (ws_onclose i code c)"
| failed: "i < length (tc_sockets c) \<Longrightarrow> conn_step c (ws_onerror i c)"
| timer: "conn_step c (reconnect_timer c)"
| gate: "awaits k (GateAfterClose session code) c \<Longrightarrow>
    conn_step c (gate_after_close session code r (answered k c))"
| list: "awaits k (SessionsAfterClose session code) c \<Longrightarrow>
    conn_step c (sessions_after_close session code answer now (answered k c))"
| auth: "conn_step c (auth_changed c)"
| auth_gate: "awaits k GateAfterAuthChange c \<Longrightarrow> conn_step c (auth_gate_answer r (answered k c))"
| unlock: "tc_lockedOut c \<Longrightarrow> conn_step c (await UnlockPrompt c)"
| unlocked: "awaits k UnlockPrompt c \<Longrightarrow> conn_step c (unlock_answer u (answered k c))"
| foreground: "conn_step c (onForeground now c)"
| button: "tc_state c = Disconnected \<Longrightarrow> tc_active c \<noteq> HOME_TAB_ID \<Longrightarrow> conn_step c (reconnect c)"
| restart: "tc_sessionEnded c \<Longrightarrow> conn_step c (restart_ended c)"
| refresh: "conn_step c (refreshSessions answer c)"
| select: "conn_step c (selectSession n c)"
| home_select: "conn_step c (selectFromHome n c)"
| add: "conn_step c (addSession opts c)"
| restore: "conn_step c (restore_session n answer c)"
| close: "conn_step c (closeSession n c)"
| deleted: "awaits k (DeleteAnswer n a ss) c \<Longrightarrow> conn_step c (delete_answer n a ss status (answered k c))"
| rename: "conn_step c (renameSession old new c)"
| renamed: "awaits k (RenameAnswer old t a) c \<Longrightarrow> conn_step c (rename_answer old t a status (answered k c))"
| toggle: "conn_step c (c\<lparr>tc_autoReconnect := b\<rparr>)"

definition conn_reachable :: "connection \<Rightarrow> connection \<Rightarrow> bool" where
  "conn_reachable = conn_step\<^sup>*\<^sup>*"

section \<open>The invariant\<close>

definition sockets_ok :: "connection \<Rightarrow> bool" where
  "sockets_ok c \<longleftrightarrow>
     (\<forall>i < length (tc_sockets c). tc_ws c \<noteq> Some i \<longrightarrow> sk_status (tc_sockets c ! i) = Closed) \<and>
     (\<forall>i. tc_ws c = Some i \<longrightarrow> i < length (tc_sockets c) \<and> sk_session (tc_sockets c ! i) = tc_active c
        \<and> (tc_state c = Connected \<longrightarrow> sk_status (tc_sockets c ! i) = Open)) \<and>
     (tc_ws c = None \<longleftrightarrow> tc_active c = HOME_TAB_ID)"

definition timer_ok :: "connection \<Rightarrow> bool" where
  "timer_ok c \<longleftrightarrow>
     (\<forall>d. tc_timer c = Some d \<longrightarrow> tc_active c \<noteq> HOME_TAB_ID \<and> \<not> tc_lockedOut c \<and>
        RECONNECT_BASE_DELAY_MS \<le> d \<and> d \<le> RECONNECT_MAX_DELAY_MS) \<and>
     (tc_pending c \<noteq> None \<longrightarrow> tc_timer c \<noteq> None)"

definition conn_ok :: "connection \<Rightarrow> bool" where
  "conn_ok c \<longleftrightarrow> sockets_ok c \<and> timer_ok c"

named_theorems conn_keeps "each operation keeps the invariant"

lemma reconnect_delay_bounds:
  "RECONNECT_BASE_DELAY_MS \<le> reconnect_delay n \<and> reconnect_delay n \<le> RECONNECT_MAX_DELAY_MS"
  by (simp add: reconnect_delay_def RECONNECT_BASE_DELAY_MS_def RECONNECT_MAX_DELAY_MS_def)

text \<open>Updates of fields the invariant does not read.\<close>

lemma conn_ok_cong:
  assumes "conn_ok c" "tc_active d = tc_active c" "tc_state d = tc_state c" "tc_sockets d = tc_sockets c"
    "tc_ws d = tc_ws c" "tc_timer d = tc_timer c" "tc_pending d = tc_pending c"
    "tc_lockedOut d = tc_lockedOut c"
  shows "conn_ok d"
  using assms by (simp add: conn_ok_def sockets_ok_def timer_ok_def)

lemma status_at [simp]:
  "j < length ks \<Longrightarrow> sk_status (ks[i := (ks ! i)\<lparr>sk_status := st\<rparr>] ! j) =
     (if i = j then st else sk_status (ks ! j))"
  "j < length ks \<Longrightarrow> sk_session (ks[i := (ks ! i)\<lparr>sk_status := st\<rparr>] ! j) = sk_session (ks ! j)"
  by (cases "i = j"; simp)+

text \<open>Between cleanup and run: no socket, no timer.\<close>

definition idle :: "connection \<Rightarrow> bool" where
  "idle c \<longleftrightarrow> tc_ws c = None \<and> tc_timer c = None \<and> tc_pending c = None \<and>
     (\<forall>i < length (tc_sockets c). sk_status (tc_sockets c ! i) = Closed)"

lemma effect_cleanup_idle:
  assumes "conn_ok c"
  shows "idle (effect_cleanup c)"
proof (cases "tc_ws c")
  case None
  then show ?thesis
    using assms by (cases "tc_pending c") (auto simp: idle_def conn_ok_def sockets_ok_def timer_ok_def effect_cleanup_def)
next
  case (Some i)
  then show ?thesis
    using assms by (auto simp: idle_def conn_ok_def sockets_ok_def effect_cleanup_def close_socket_def
        clearScheduledReconnect_def)
qed

lemma effect_run_ok: "idle c \<Longrightarrow> conn_ok (effect_run c)"
  by (auto simp: idle_def conn_ok_def sockets_ok_def timer_ok_def effect_run_def nth_append)

lemma rerun_ok [conn_keeps]: "conn_ok c \<Longrightarrow> conn_ok (rerun_effect c)"
  by (simp add: rerun_effect_def effect_run_ok effect_cleanup_idle)

lemma setActive_ok [conn_keeps]: "conn_ok c \<Longrightarrow> conn_ok (setActiveSession n c)"
  using effect_cleanup_idle [of c]
  by (auto simp: setActiveSession_def intro!: effect_run_ok) (simp add: idle_def)

lemma clear_ok: "conn_ok c \<Longrightarrow> conn_ok ((clearScheduledReconnect c)\<lparr>tc_lockedOut := b, tc_attempt := n\<rparr>)"
  by (simp add: conn_ok_def sockets_ok_def timer_ok_def clearScheduledReconnect_def)

lemma reconnect_ok [conn_keeps]: "conn_ok c \<Longrightarrow> conn_ok (reconnect c)"
  by (simp add: reconnect_def rerun_ok clear_ok)

lemma timer_fires_ok [conn_keeps]:
  assumes "conn_ok c"
  shows "conn_ok (reconnect_timer c)"
proof (cases "tc_timer c")
  case None
  then show ?thesis using assms by (simp add: reconnect_timer_def)
next
  case (Some d)
  have "idle (effect_cleanup (c\<lparr>tc_timer := None\<rparr>))"
  proof -
    obtain i where i: "tc_ws c = Some i"
      using assms Some by (cases "tc_ws c") (auto simp: conn_ok_def sockets_ok_def timer_ok_def)
    then show ?thesis
      using assms by (auto simp: idle_def conn_ok_def sockets_ok_def effect_cleanup_def close_socket_def
          clearScheduledReconnect_def)
  qed
  then show ?thesis using Some by (simp add: reconnect_timer_def rerun_effect_def effect_run_ok)
qed

lemma schedule_ok [conn_keeps]: "conn_ok c \<Longrightarrow> conn_ok (scheduleReconnect now c)"
  using reconnect_delay_bounds [of "tc_attempt c + 1"]
  by (auto simp: conn_ok_def sockets_ok_def timer_ok_def scheduleReconnect_def Let_def)

lemma fields_ok [conn_keeps]:
  assumes "conn_ok c"
  shows "conn_ok (await a c)" "conn_ok (answered k c)" "conn_ok (c\<lparr>tc_sessions := ss\<rparr>)"
    "conn_ok (c\<lparr>tc_autoReconnect := b\<rparr>)" "conn_ok (c\<lparr>tc_error := e\<rparr>)" "conn_ok (c\<lparr>tc_host := h\<rparr>)"
    "conn_ok (c\<lparr>tc_create := m\<rparr>)" "conn_ok (c\<lparr>tc_sessionEnded := b\<rparr>)"
    "conn_ok (c\<lparr>tc_sessionEnded := b, tc_host := h\<rparr>)" "conn_ok (c\<lparr>tc_lastForeground := n\<rparr>)"
  by (rule conn_ok_cong [OF assms], simp_all add: await_def answered_def)+

lemma onopen_ok:
  assumes "conn_ok c" "i < length (tc_sockets c)" "sk_status (tc_sockets c ! i) = Opening"
  shows "conn_ok ((ws_onopen i c)\<lparr>tc_pending := tc_pending c\<rparr>)" "conn_ok (ws_onopen i c)"
  using assms
  by (auto simp: conn_ok_def sockets_ok_def timer_ok_def ws_onopen_def)

lemma onclose_ok [conn_keeps]:
  assumes "conn_ok c"
  shows "conn_ok (ws_onclose i code c)"
proof -
  have "conn_ok (c0\<lparr>tc_state := Disconnected\<rparr>)" if "c0 = close_socket i c" for c0
    using assms that by (auto simp: conn_ok_def sockets_ok_def timer_ok_def close_socket_def)
  moreover have "conn_ok (close_socket i c)" if "tc_ws c \<noteq> Some i"
    using assms that by (auto simp: conn_ok_def sockets_ok_def timer_ok_def close_socket_def)
  ultimately show ?thesis
    by (auto simp: ws_onclose_def Let_def close_socket_def intro: fields_ok)
qed

lemma onerror_ok [conn_keeps]: "conn_ok c \<Longrightarrow> conn_ok (ws_onerror i c)"
  by (auto simp: ws_onerror_def conn_ok_def sockets_ok_def timer_ok_def)

lemma refresh_ok [conn_keeps]: "conn_ok c \<Longrightarrow> conn_ok (refreshSessions a c)"
  by (auto simp: refreshSessions_def Let_def split: option.split intro!: conn_keeps)

lemma gate_ok [conn_keeps]: "conn_ok c \<Longrightarrow> conn_ok (gate_after_close s code r c)"
  using clear_ok [of c "tc_attempt c" True]
  by (auto simp: gate_after_close_def clearScheduledReconnect_def intro!: conn_keeps)

lemma sessions_ok [conn_keeps]: "conn_ok c \<Longrightarrow> conn_ok (sessions_after_close s code a now c)"
  by (auto simp: sessions_after_close_def Let_def intro!: conn_keeps)

lemma session_ops_ok [conn_keeps]:
  assumes "conn_ok c"
  shows "conn_ok (selectSession n c)" "conn_ok (selectFromHome n c)" "conn_ok (addSession opts c)"
    "conn_ok (restore_session n a c)" "conn_ok (closeSession n c)"
    "conn_ok (delete_answer n act ss st c)" "conn_ok (renameSession n m c)"
    "conn_ok (rename_answer n m act st c)"
  using assms
  by (auto simp: selectSession_def selectFromHome_def addSession_def restore_session_def Let_def
      closeSession_def delete_answer_def renameSession_def rename_answer_def
      split: option.split list.split intro!: conn_keeps)

lemma conn_step_ok: "conn_step c d \<Longrightarrow> conn_ok c \<Longrightarrow> conn_ok d"
  by (induction rule: conn_step.induct)
    (auto simp: auth_changed_def auth_gate_answer_def unlock_answer_def onForeground_def Let_def
      restart_ended_def intro!: conn_keeps intro: onopen_ok)

lemma conn_reachable_ok: "conn_reachable c d \<Longrightarrow> conn_ok c \<Longrightarrow> conn_ok d"
  unfolding conn_reachable_def by (induction rule: rtranclp_induct) (auto intro: conn_step_ok)

lemma init_ok: "conn_ok (connection_init e s opts auto u)"
  by (simp add: connection_init_def Let_def effect_run_ok idle_def)

section \<open>Properties\<close>

text \<open>C3: Whatever the order of socket events, timers, answers and user actions, at most one socket
  is ever alive: it is the current one and belongs to the session on screen; Home has none, and
  the terminal says connected on a session only while that session's socket is open.\<close>
theorem one_live_socket:
  assumes "conn_reachable (connection_init e s opts auto u) c"
  shows "(\<forall>i < length (tc_sockets c). sk_status (tc_sockets c ! i) \<noteq> Closed \<longrightarrow>
      tc_ws c = Some i \<and> sk_session (tc_sockets c ! i) = tc_active c) \<and>
    (tc_ws c = None \<longleftrightarrow> tc_active c = HOME_TAB_ID) \<and>
    (tc_state c = Connected \<and> tc_active c \<noteq> HOME_TAB_ID \<longrightarrow>
      (\<exists>i. tc_ws c = Some i \<and> sk_status (tc_sockets c ! i) = Open))"
  using conn_reachable_ok [OF assms init_ok]
  by (cases "tc_ws c") (auto simp: conn_ok_def sockets_ok_def)

theorem one_live_socket_witness:
  "\<exists>c. conn_reachable (connection_init False None \<lparr>co_cwd = None, co_command = None\<rparr> True False) c \<and>
     tc_active c = js ''a'' \<and> tc_ws c = Some 0"
proof -
  let ?i = "connection_init False None \<lparr>co_cwd = None, co_command = None\<rparr> True False"
  have r: "conn_reachable ?i (selectSession (js ''a'') ?i)"
    unfolding conn_reachable_def by (rule r_into_rtranclp) (rule conn_step.select)
  have a: "tc_active (selectSession (js ''a'') ?i) = js ''a''" "length (tc_sockets (selectSession (js ''a'') ?i)) = 1"
    by (simp_all add: selectSession_def setActiveSession_def connection_init_def truthy_def effect_run_def
        effect_cleanup_def HOME_TAB_ID_def)
  then have "tc_active (selectSession (js ''a'') ?i) \<noteq> HOME_TAB_ID" by (simp add: HOME_TAB_ID_def)
  then obtain i where "tc_ws (selectSession (js ''a'') ?i) = Some i"
    using one_live_socket [OF r] by blast
  moreover have "i < 1"
    using conn_reachable_ok [OF r init_ok] a(2) calculation by (auto simp: conn_ok_def sockets_ok_def)
  ultimately show ?thesis using r a(1) by auto
qed

text \<open>C31: A retry is only ever pending for a session on screen whose gate is not known to be locked,
  its delay is between one and thirty seconds and doubles from attempt to attempt, and asking for
  a retry while one is pending, on Home or while locked out changes nothing.\<close>
theorem reconnect_backoff:
  assumes "conn_reachable (connection_init e s opts auto u) c"
  shows "(\<forall>d. tc_timer c = Some d \<longrightarrow> tc_active c \<noteq> HOME_TAB_ID \<and> \<not> tc_lockedOut c \<and> 1000 \<le> d \<and> d \<le> 30000) \<and>
    (tc_timer c \<noteq> None \<or> tc_active c = HOME_TAB_ID \<or> tc_lockedOut c \<longrightarrow> scheduleReconnect now c = c) \<and>
    (tc_timer c = None \<and> tc_active c \<noteq> HOME_TAB_ID \<and> \<not> tc_lockedOut c \<longrightarrow>
       tc_timer (scheduleReconnect now c) = Some (min (1000 * 2 ^ tc_attempt c) 30000)) \<and>
    reconnect_delay (Suc (Suc n)) = min (2 * reconnect_delay (Suc n)) 30000"
  using conn_reachable_ok [OF assms init_ok]
  by (auto simp: conn_ok_def timer_ok_def scheduleReconnect_def Let_def reconnect_delay_def
      RECONNECT_BASE_DELAY_MS_def RECONNECT_MAX_DELAY_MS_def)

theorem reconnect_backoff_witness:
  "scheduleReconnect 0 (connection_init False None \<lparr>co_cwd = None, co_command = None\<rparr> True False) =
     connection_init False None \<lparr>co_cwd = None, co_command = None\<rparr> True False"
proof -
  have "conn_reachable (connection_init False None \<lparr>co_cwd = None, co_command = None\<rparr> True False)
      (connection_init False None \<lparr>co_cwd = None, co_command = None\<rparr> True False)"
    by (simp add: conn_reachable_def)
  from reconnect_backoff [OF this] show ?thesis
    by (simp add: connection_init_def truthy_def effect_run_def)
qed

text \<open>After an unexpected close of a session's socket in the standalone page: a locked gate stops
  all retries, a session the server no longer lists sends the page to Home without a socket or a
  retry, and any other answer, a failed one included, leaves exactly one retry pending.\<close>
lemma close_decision:
  assumes "conn_reachable (connection_init False s opts auto u) c" "tc_active c = session"
    and "session \<noteq> HOME_TAB_ID" "\<not> tc_lockedOut c" "tc_autoReconnect c" "\<not> tc_embedded c"
  shows "(gate_is_locked g \<longrightarrow> (let d = gate_after_close session code g c in
       tc_lockedOut d \<and> tc_timer d = None \<and> scheduleReconnect now d = d)) \<and>
    (renamed_to fresh c = None \<and> \<not> has_session session fresh \<longrightarrow>
       (let d = sessions_after_close session code (Some fresh) now c in
        tc_active d = HOME_TAB_ID \<and> tc_ws d = None \<and> tc_timer d = None)) \<and>
    (a = None \<or> a = Some fresh \<and> has_session session fresh \<longrightarrow>
       (let d = sessions_after_close session code a now c in
        tc_active d = session \<and> tc_timer d \<noteq> None \<and> tc_ws d = tc_ws c))"
proof -
  have ok: "conn_ok c" by (rule conn_reachable_ok [OF assms(1) init_ok])
  have A: "tc_lockedOut d \<and> tc_timer d = None \<and> scheduleReconnect now d = d"
    if "gate_is_locked g" "d = gate_after_close session code g c" for d
    using that assms(2) by (simp add: gate_after_close_def clearScheduledReconnect_def scheduleReconnect_def)
  have B: "tc_active d = HOME_TAB_ID \<and> tc_ws d = None \<and> tc_timer d = None"
    if h: "renamed_to fresh c = None" "\<not> has_session session fresh"
      "d = sessions_after_close session code (Some fresh) now c" for d
  proof -
    have d: "d = setActiveSession HOME_TAB_ID (c\<lparr>tc_sessions := fresh\<rparr>)"
      using h assms(2,6) by (simp add: sessions_after_close_def refreshSessions_def Let_def)
    have "conn_ok d" using ok unfolding d by (intro conn_keeps)
    moreover have "tc_active d = HOME_TAB_ID"
      by (simp add: d setActiveSession_def effect_run_def)
    ultimately show ?thesis by (cases "tc_timer d") (auto simp: conn_ok_def sockets_ok_def timer_ok_def)
  qed
  have C: "tc_active d = session \<and> tc_timer d \<noteq> None \<and> tc_ws d = tc_ws c"
    if h: "a = None \<or> a = Some fresh \<and> has_session session fresh"
      "d = sessions_after_close session code a now c" for d
  proof -
    have "refreshSessions a c = (case a of None \<Rightarrow> c | Some f \<Rightarrow> c\<lparr>tc_sessions := f\<rparr>)"
      using h(1) assms(2) by (auto simp: refreshSessions_def renamed_to_def Let_def)
    then show ?thesis
      using h assms(2-6)
      by (auto simp: sessions_after_close_def Let_def scheduleReconnect_def split: option.split)
  qed
  show ?thesis
    unfolding Let_def using A [OF _ refl] B [OF _ _ refl] C [OF _ refl] by blast
qed

lemma close_decision_witness:
  "let c = selectSession (js ''a'') (connection_init False None \<lparr>co_cwd = None, co_command = None\<rparr> True False)
   in tc_timer (sessions_after_close (js ''a'') 1006 None 0 c) \<noteq> None"
proof -
  let ?i = "connection_init False None \<lparr>co_cwd = None, co_command = None\<rparr> True False"
  let ?c = "selectSession (js ''a'') ?i"
  have "conn_reachable ?i ?c"
    unfolding conn_reachable_def by (rule r_into_rtranclp) (rule conn_step.select)
  moreover have "tc_active ?c = js ''a''" "\<not> tc_lockedOut ?c" "tc_autoReconnect ?c" "\<not> tc_embedded ?c"
    by (simp_all add: selectSession_def setActiveSession_def connection_init_def truthy_def
        effect_run_def effect_cleanup_def HOME_TAB_ID_def)
  moreover have "js ''a'' \<noteq> HOME_TAB_ID" by (simp add: HOME_TAB_ID_def)
  ultimately show ?thesis
    using close_decision [of None "\<lparr>co_cwd = None, co_command = None\<rparr>" True False ?c "js ''a''" None 1006 0 "[]" None]
    by (simp add: Let_def)
qed

lemma find_unique:
  assumes "x \<in> set ss" "p x" "\<And>y. y \<in> set ss \<Longrightarrow> p y \<Longrightarrow> y = x"
  shows "List.find p ss = Some x"
proof (cases "List.find p ss")
  case None
  then show ?thesis using assms(1,2) by (simp add: find_None_iff)
next
  case (Some y)
  then have "y \<in> set ss" "p y" by (auto simp: find_Some_iff)
  then show ?thesis using Some assms(3) by simp
qed

lemma distinct_map_unique:
  "distinct (map f ss) \<Longrightarrow> x \<in> set ss \<Longrightarrow> y \<in> set ss \<Longrightarrow> f y = f x \<Longrightarrow> y = x"
  by (auto simp: distinct_map dest: inj_onD)

text \<open>When another client renames the session on screen, the next list moves the terminal to the
  new name (recognised by the shell's pid), so the tab bar shows no ghost of the old one; a list
  that still has the active name only replaces the list and leaves the connection alone.\<close>
lemma rename_is_followed:
  assumes "tc_active c \<noteq> HOME_TAB_ID" "old \<in> set (tc_sessions c)" "ts_name old = tc_active c"
    and "distinct (map ts_name (tc_sessions c))" "ts_pid old \<noteq> 0"
    and "new \<in> set fresh" "ts_pid new = ts_pid old" "distinct (map ts_pid fresh)"
  shows "(let d = refreshSessions (Some fresh) c in
      if has_session (tc_active c) fresh then d = c\<lparr>tc_sessions := fresh\<rparr>
      else tc_active d = ts_name new \<and> tc_sessions d = fresh \<and>
        ensureActiveIncluded (tc_sessions d) (tc_active d) = tc_sessions d)"
proof (cases "has_session (tc_active c) fresh")
  case True
  then show ?thesis by (simp add: refreshSessions_def renamed_to_def Let_def)
next
  case False
  have f1: "find_session (\<lambda>s. ts_name s = tc_active c) (tc_sessions c) = Some old"
    unfolding find_session_def
    by (rule find_unique [OF assms(2)]) (simp_all add: assms(3) distinct_map_unique [OF assms(4,2)])
  have f2: "find_session (\<lambda>s. ts_pid s = ts_pid old) fresh = Some new"
    unfolding find_session_def
    by (rule find_unique [OF assms(6)]) (simp_all add: assms(7) distinct_map_unique [OF assms(8,6)])
  have "renamed_to fresh c = Some (ts_name new)"
    using False f1 f2 assms(1,5) by (simp add: renamed_to_def)
  moreover have "tc_active (setActiveSession n c) = n" for n
    by (simp add: setActiveSession_def effect_run_def)
  moreover have "list_ex (\<lambda>s. ts_name s = ts_name new) fresh"
    using assms(6) by (auto simp: list_ex_iff)
  ultimately show ?thesis
    using False by (simp add: refreshSessions_def Let_def ensureActiveIncluded_def)
qed

definition demo_session :: "ustring \<Rightarrow> terminal_session_info" where
  "demo_session n = \<lparr>ts_name = n, ts_pinned = False, ts_createdAt = [], ts_lastAttachedAt = [],
     ts_attached = True, ts_pid = 42, ts_cwd = None\<rparr>"

lemma rename_is_followed_witness:
  "let c = (selectSession (js ''a'') (connection_init False None \<lparr>co_cwd = None, co_command = None\<rparr>
              True False))\<lparr>tc_sessions := [demo_session (js ''a'')]\<rparr>
   in tc_active (refreshSessions (Some [demo_session (js ''b'')]) c) = js ''b''"
proof -
  let ?c = "(selectSession (js ''a'') (connection_init False None \<lparr>co_cwd = None, co_command = None\<rparr>
              True False))\<lparr>tc_sessions := [demo_session (js ''a'')]\<rparr>"
  have "tc_active ?c = js ''a''"
    by (simp add: selectSession_def setActiveSession_def connection_init_def truthy_def
        effect_run_def effect_cleanup_def HOME_TAB_ID_def)
  then show ?thesis
    using rename_is_followed [of ?c "demo_session (js ''a'')" "demo_session (js ''b'')" "[demo_session (js ''b'')]"]
    by (simp add: Let_def HOME_TAB_ID_def demo_session_def has_session_def)
qed

text \<open>C36: A manual reconnection while the previous close is still being looked into leaves a retry
  pending behind the new connection: the terminal is connected, shows no retry, and when the
  timer fires it closes the open socket and connects again.\<close>
theorem stale_retry_drops_live_connection:
  "\<exists>c. conn_reachable (connection_init False None \<lparr>co_cwd = None, co_command = None\<rparr> True False) c \<and>
     tc_state c = Connected \<and> tc_pending c = None \<and> tc_timer c = Some 1000 \<and> tc_ws c = Some 1 \<and>
     sk_status (tc_sockets c ! 1) = Open \<and>
     sk_status (tc_sockets (reconnect_timer c) ! 1) = Closed \<and> tc_ws (reconnect_timer c) = Some 2"
proof -
  define c0 where "c0 = connection_init False None \<lparr>co_cwd = None, co_command = None\<rparr> True False"
  define c1 where "c1 = selectSession (js ''a'') c0"
  define c2 where "c2 = ws_onopen 0 c1"
  define c3 where "c3 = ws_onclose 0 1006 c2"
  define c4 where "c4 = gate_after_close (js ''a'') 1006 None (answered 0 c3)"
  define c5 where "c5 = reconnect c4"
  define c6 where "c6 = sessions_after_close (js ''a'') 1006 None 0 (answered 0 c5)"
  define c7 where "c7 = ws_onopen 1 c6"
  note ev = connection_init_def truthy_def effect_run_def effect_cleanup_def rerun_effect_def
    clearScheduledReconnect_def close_socket_def params_for_def Let_def HOME_TAB_ID_def
  have e1: "tc_active c1 = js ''a''" "tc_sockets c1 = [\<lparr>sk_session = js ''a'', sk_status = Opening\<rparr>]"
    "tc_ws c1 = Some 0" "tc_awaiting c1 = []" "tc_timer c1 = None" "tc_lockedOut c1 = False"
    "tc_embedded c1 = False" "tc_autoReconnect c1 = True"
    by (simp_all add: c1_def c0_def selectSession_def setActiveSession_def ev)
  have e3: "tc_active c3 = js ''a''" "tc_sockets c3 = [\<lparr>sk_session = js ''a'', sk_status = Closed\<rparr>]"
    "tc_ws c3 = Some 0" "tc_awaiting c3 = [GateAfterClose (js ''a'') 1006]" "tc_timer c3 = None"
    "tc_state c3 = Disconnected" "tc_lockedOut c3 = False" "tc_embedded c3 = False" "tc_autoReconnect c3 = True"
    by (simp_all add: c3_def c2_def ws_onclose_def ws_onopen_def close_socket_def await_def e1)
  have e4: "tc_active c4 = js ''a''" "tc_sockets c4 = tc_sockets c3" "tc_ws c4 = Some 0"
    "tc_awaiting c4 = [SessionsAfterClose (js ''a'') 1006]" "tc_timer c4 = None" "tc_state c4 = Disconnected"
    "tc_lockedOut c4 = False" "tc_embedded c4 = False" "tc_autoReconnect c4 = True"
    by (simp_all add: c4_def gate_after_close_def gate_is_locked_def answered_def await_def e3)
  have e5: "tc_active c5 = js ''a''" "tc_sockets c5 = [\<lparr>sk_session = js ''a'', sk_status = Closed\<rparr>,
      \<lparr>sk_session = js ''a'', sk_status = Opening\<rparr>]" "tc_ws c5 = Some 1"
    "tc_awaiting c5 = [SessionsAfterClose (js ''a'') 1006]" "tc_timer c5 = None" "tc_attempt c5 = 0"
    "tc_lockedOut c5 = False" "tc_embedded c5 = False" "tc_autoReconnect c5 = True"
    by (simp_all add: c5_def reconnect_def ev e4 e3(2))
  have e6: "tc_timer c6 = Some 1000" "tc_sockets c6 = tc_sockets c5" "tc_ws c6 = Some 1" "tc_active c6 = js ''a''"
    by (simp_all add: c6_def sessions_after_close_def refreshSessions_def scheduleReconnect_def answered_def
        Let_def e5 HOME_TAB_ID_def reconnect_delay_def RECONNECT_BASE_DELAY_MS_def RECONNECT_MAX_DELAY_MS_def)
  have e7: "tc_state c7 = Connected" "tc_pending c7 = None" "tc_timer c7 = Some 1000" "tc_ws c7 = Some 1"
    "tc_active c7 = js ''a''" "tc_sockets c7 = [\<lparr>sk_session = js ''a'', sk_status = Closed\<rparr>,
      \<lparr>sk_session = js ''a'', sk_status = Open\<rparr>]"
    by (simp_all add: c7_def ws_onopen_def e6 e5)
  have "conn_step c0 c1" unfolding c1_def by (rule conn_step.select)
  moreover have "conn_step c1 c2" unfolding c2_def by (rule conn_step.opened) (simp_all add: e1)
  moreover have "conn_step c2 c3" unfolding c3_def
    by (rule conn_step.closed) (simp_all add: c2_def ws_onopen_def e1)
  moreover have "conn_step c3 c4" unfolding c4_def by (rule conn_step.gate) (simp add: awaits_def e3)
  moreover have "conn_step c4 c5" unfolding c5_def
    by (rule conn_step.button) (simp_all add: e4 HOME_TAB_ID_def)
  moreover have "conn_step c5 c6" unfolding c6_def by (rule conn_step.list) (simp add: awaits_def e5)
  moreover have "conn_step c6 c7" unfolding c7_def by (rule conn_step.opened) (simp_all add: e6 e5)
  ultimately have "conn_reachable c0 c7"
    unfolding conn_reachable_def by (meson converse_rtranclp_into_rtranclp rtranclp.rtrancl_refl)
  moreover have "sk_status (tc_sockets (reconnect_timer c7) ! 1) = Closed \<and> tc_ws (reconnect_timer c7) = Some 2"
    by (simp add: reconnect_timer_def ev e7)
  ultimately show ?thesis using e7 unfolding c0_def by (intro exI [of _ c7]) simp
qed

end
