(* ===== verification/Process_Tree.thy ===== *)
theory Process_Tree
  imports Api_Types
begin

text \<open>
  The process tree: \<open>utils/processTree.ts\<close>, its flattening in \<open>Processes/ProcessTree.tsx\<close> and
  \<open>collectSubtree\<close> of \<open>Supervisor/ProcessTable.tsx\<close>. \<open>buildNode\<close> recurses along \<open>ppid\<close> links of a
  list it does not control, so it takes fuel and \<open>None\<close> is a recursion that has not returned.
\<close>

section \<open>Definitions\<close>

datatype process_tree_node = Node (node_process: process_info) (node_children: "process_tree_node list")

text \<open>\<open>childrenByPpid.get(pid) ?? []\<close>, in the order of the list.\<close>

definition children_by_ppid :: "process_info list \<Rightarrow> int \<Rightarrow> process_info list" where
  "children_by_ppid ps pid = filter (\<lambda>p. pi_pid p \<noteq> pi_ppid p \<and> pi_ppid p = pid) ps"

fun buildNode :: "nat \<Rightarrow> process_info list \<Rightarrow> process_info \<Rightarrow> process_tree_node option" where
  "buildNode 0 ps p = None"
| "buildNode (Suc n) ps p =
     map_option (Node p) (those (map (buildNode n ps) (sort_key pi_pid (children_by_ppid ps (pi_pid p)))))"

text \<open>\<open>byPid.get(pid)\<close>: the last process of that pid.\<close>

definition by_pid :: "process_info list \<Rightarrow> int \<Rightarrow> process_info option" where
  "by_pid ps pid = List.find (\<lambda>p. pi_pid p = pid) (rev ps)"

definition tree_roots :: "process_info list \<Rightarrow> process_info list" where
  "tree_roots ps = filter (\<lambda>p. pi_pid p \<noteq> pi_ppid p \<and> by_pid ps (pi_ppid p) = None) ps"

definition buildProcessTree ::
  "nat \<Rightarrow> process_info list \<Rightarrow> int option \<Rightarrow> process_tree_node list option" where
  "buildProcessTree n ps rootPid =
     (case rootPid of
        Some pid \<Rightarrow>
          (case by_pid ps pid of None \<Rightarrow> Some [] | Some r \<Rightarrow> map_option (\<lambda>t. [t]) (buildNode n ps r))
      | None \<Rightarrow> those (map (buildNode n ps) (sort_key pi_pid (tree_roots ps))))"

fun walk :: "process_tree_node \<Rightarrow> process_info list" where
  "walk (Node p cs) = p # concat (map walk cs)"

definition collectSubtree :: "process_tree_node list \<Rightarrow> process_info list" where
  "collectSubtree nodes = concat (map walk nodes)"

text \<open>The rows of the expandable table: the nodes with their depth, less what is collapsed.\<close>

fun flatten_node :: "nat \<Rightarrow> int set \<Rightarrow> process_tree_node \<Rightarrow> (process_tree_node \<times> nat) list" where
  "flatten_node depth collapsed (Node p cs) =
     (Node p cs, depth) #
     (if cs \<noteq> [] \<and> pi_pid p \<notin> collapsed
      then concat (map (flatten_node (depth + 1) collapsed) cs) else [])"

definition flatten_nodes :: "process_tree_node list \<Rightarrow> nat \<Rightarrow> int set \<Rightarrow> (process_tree_node \<times> nat) list" where
  "flatten_nodes nodes depth collapsed = concat (map (flatten_node depth collapsed) nodes)"

definition toggle_collapsed :: "int \<Rightarrow> int set \<Rightarrow> int set" where
  "toggle_collapsed pid collapsed = (if pid \<in> collapsed then collapsed - {pid} else insert pid collapsed)"

section \<open>Lookup\<close>

lemma by_pid_None: "by_pid ps k = None \<longleftrightarrow> k \<notin> pi_pid ` set ps"
  by (auto simp: by_pid_def find_None_iff)

lemma by_pid_Some: "by_pid ps k = Some p \<Longrightarrow> p \<in> set ps \<and> pi_pid p = k"
  by (auto simp: by_pid_def find_Some_iff) (metis length_rev nth_mem set_rev)

lemma set_children: "set (children_by_ppid ps k) = {p \<in> set ps. pi_pid p \<noteq> pi_ppid p \<and> pi_ppid p = k}"
  by (auto simp: children_by_ppid_def)

lemma those_Some: "those xs = Some ys \<longleftrightarrow> xs = map Some ys"
  by (induction xs arbitrary: ys) (auto split: option.splits)

lemma those_None: "those xs = None \<longleftrightarrow> None \<in> set xs"
  by (induction xs) (auto split: option.splits)

section \<open>Descents\<close>

text \<open>A descent is a path of parent links from a root of the forest.\<close>

inductive descent :: "process_info list \<Rightarrow> process_info list \<Rightarrow> bool" for ps where
  root: "p \<in> set (tree_roots ps) \<Longrightarrow> descent ps [p]"
| step: "descent ps path \<Longrightarrow> c \<in> set (children_by_ppid ps (pi_pid (last path))) \<Longrightarrow>
    descent ps (path @ [c])"

inductive_cases descent_snoc: "descent ps (path @ [c])"

lemma descent_nonempty: "descent ps path \<Longrightarrow> path \<noteq> []"
  by (induction rule: descent.induct) simp_all

lemma descent_set: "descent ps path \<Longrightarrow> set path \<subseteq> set ps"
  by (induction rule: descent.induct) (auto simp: tree_roots_def set_children)

lemma descent_last: "descent ps path \<Longrightarrow> last path \<in> set ps"
  using descent_set descent_nonempty by (metis last_in_set subsetD)

text \<open>Looking up from its end, a descent is determined by its last process.\<close>

lemma descent_unique:
  assumes "distinct (map pi_pid ps)" "descent ps a" "descent ps b" "last a = last b"
  shows "a = b"
  using assms(2-4)
proof (induction a arbitrary: b rule: descent.induct)
  case (root p)
  from root.prems(1) show ?case
  proof (cases rule: descent.cases)
    case (step path c)
    then have "pi_ppid p \<in> pi_pid ` set ps"
      using root.prems(2) descent_last [OF step(2)] by (auto simp: set_children)
    then show ?thesis using root.hyps by (auto simp: tree_roots_def by_pid_None)
  qed (use root.prems in simp)
next
  case (step path c)
  from step.prems(1) show ?case
  proof (cases rule: descent.cases)
    case (root p)
    then have "pi_ppid p \<in> pi_pid ` set ps"
      using step descent_last [OF step.hyps(1)] by (auto simp: set_children)
    then show ?thesis using root by (auto simp: tree_roots_def by_pid_None)
  next
    case (step path' c')
    then have "pi_pid (last path) = pi_pid (last path')"
      using step.prems(2) step.hyps(2) by (auto simp: set_children)
    then have "last path = last path'"
      using assms(1) descent_last [OF step.hyps(1)] descent_last [OF step(2)]
      by (auto simp: distinct_map dest: inj_onD)
    then show ?thesis using step step.IH step.prems(2) by auto
  qed
qed

lemma descent_prefix:
  "descent ps path \<Longrightarrow> a \<noteq> [] \<Longrightarrow> prefix a path \<Longrightarrow> descent ps a"
proof (induction rule: descent.induct)
  case (root p)
  then show ?case using descent.root by (cases a) auto
next
  case (step path c)
  then show ?case using descent.step by auto
qed

lemma descent_distinct:
  assumes "distinct (map pi_pid ps)" "descent ps path"
  shows "distinct path"
proof (rule ccontr)
  assume "\<not> distinct path"
  then obtain xs ys zs x where p: "path = xs @ [x] @ ys @ [x] @ zs" using not_distinct_decomp by blast
  have "descent ps (xs @ [x])" "descent ps (xs @ [x] @ ys @ [x])"
    using descent_prefix [OF assms(2), of "xs @ [x]"] descent_prefix [OF assms(2), of "xs @ [x] @ ys @ [x]"] p
    by (auto simp: prefix_def)
  from descent_unique [OF assms(1) this] show False by simp
qed

section \<open>The recursion ends\<close>

lemma descent_length:
  assumes "distinct (map pi_pid ps)" "descent ps path"
  shows "length path \<le> length ps"
proof -
  have "card (set path) \<le> card (set ps)" using descent_set [OF assms(2)] by (simp add: card_mono)
  then show ?thesis
    using descent_distinct [OF assms] card_length [of ps] by (simp add: distinct_card)
qed

lemma buildNode_returns:
  assumes "distinct (map pi_pid ps)" "descent ps path" "length ps < n + length path"
  shows "\<exists>t. buildNode n ps (last path) = Some t"
  using assms(2,3)
proof (induction n arbitrary: path)
  case 0
  then show ?case using descent_length [OF assms(1) 0(1)] by simp
next
  case (Suc n)
  let ?cs = "sort_key pi_pid (children_by_ppid ps (pi_pid (last path)))"
  have "\<exists>t. buildNode n ps c = Some t" if "c \<in> set ?cs" for c
    using Suc.IH [OF descent.step [OF Suc.prems(1)], of c] Suc.prems(2) that by simp
  then have "None \<notin> set (map (buildNode n ps) ?cs)" by force
  then have "those (map (buildNode n ps) ?cs) \<noteq> None" by (simp only: those_None not_False_eq_True)
  then show ?case by auto
qed

section \<open>What the tree contains\<close>

fun tree_paths :: "process_info list \<Rightarrow> process_tree_node \<Rightarrow> process_info list list" where
  "tree_paths pre (Node p cs) = (pre @ [p]) # concat (map (tree_paths (pre @ [p])) cs)"

lemma map_last_tree_paths: "map last (tree_paths pre t) = walk t"
  by (induction pre t rule: tree_paths.induct) (auto simp: map_concat comp_def intro!: arg_cong [of _ _ concat])

lemma tree_paths_prefix: "path \<in> set (tree_paths pre t) \<Longrightarrow> prefix (pre @ [node_process t]) path"
proof (induction pre t rule: tree_paths.induct)
  case (1 pre p cs)
  then show ?case by (fastforce simp: prefix_def)
qed

lemma buildNode_SucD:
  "buildNode (Suc n) ps p = Some t \<Longrightarrow> \<exists>cs. t = Node p cs \<and>
     map (buildNode n ps) (sort_key pi_pid (children_by_ppid ps (pi_pid p))) = map Some cs"
  by (auto simp: those_Some)

lemma buildNode_process: "buildNode n ps p = Some t \<Longrightarrow> node_process t = p"
  by (cases n) auto

lemma built_nodes:
  "map (buildNode m ps) xs = map Some cs \<Longrightarrow>
     map node_process cs = xs \<and>
     (\<forall>t \<in> set cs. node_process t \<in> set xs \<and> buildNode m ps (node_process t) = Some t) \<and>
     (\<forall>x \<in> set xs. \<exists>t \<in> set cs. buildNode m ps x = Some t)"
proof (induction xs arbitrary: cs)
  case (Cons x xs)
  then obtain t cs' where cs: "cs = t # cs'" "buildNode m ps x = Some t" "map (buildNode m ps) xs = map Some cs'"
    by (cases cs) auto
  then show ?case using Cons.IH [OF cs(3)] buildNode_process [OF cs(2)] by auto
qed simp

lemma built_node:
  assumes "map (buildNode m ps) xs = map Some cs"
  shows "map node_process cs = xs"
    "\<And>t. t \<in> set cs \<Longrightarrow> node_process t \<in> set xs \<and> buildNode m ps (node_process t) = Some t"
    "\<And>x. x \<in> set xs \<Longrightarrow> \<exists>t \<in> set cs. buildNode m ps x = Some t"
  using built_nodes [OF assms] by blast+

lemma tree_paths_sound:
  "buildNode n ps p = Some t \<Longrightarrow> descent ps (pre @ [p]) \<Longrightarrow> path \<in> set (tree_paths pre t) \<Longrightarrow> descent ps path"
proof (induction n arbitrary: pre p t)
  case (Suc n)
  obtain cs where t: "t = Node p cs"
    and cs: "map (buildNode n ps) (sort_key pi_pid (children_by_ppid ps (pi_pid p))) = map Some cs"
    using buildNode_SucD [OF Suc.prems(1)] by blast
  show ?case
  proof (cases "path = pre @ [p]")
    case False
    then obtain c where c: "c \<in> set cs" "path \<in> set (tree_paths (pre @ [p]) c)"
      using Suc.prems(3) t by auto
    then have "node_process c \<in> set (children_by_ppid ps (pi_pid p))" "buildNode n ps (node_process c) = Some c"
      using built_node(2) [OF cs] by auto
    then show ?thesis
      using Suc.IH [of "node_process c" c "pre @ [p]"] c(2) descent.step [OF Suc.prems(2), of "node_process c"]
      by simp
  qed (use Suc.prems in simp)
qed simp

lemma tree_paths_complete:
  "buildNode n ps p = Some t \<Longrightarrow> descent ps path \<Longrightarrow> prefix (pre @ [p]) path \<Longrightarrow> path \<in> set (tree_paths pre t)"
proof (induction n arbitrary: pre p t)
  case (Suc n)
  obtain cs where t: "t = Node p cs"
    and cs: "map (buildNode n ps) (sort_key pi_pid (children_by_ppid ps (pi_pid p))) = map Some cs"
    using buildNode_SucD [OF Suc.prems(1)] by blast
  obtain rest where rest: "path = (pre @ [p]) @ rest" using Suc.prems(3) by (auto simp: prefix_def)
  show ?case
  proof (cases rest)
    case Nil
    then show ?thesis using rest t by simp
  next
    case (Cons c more)
    then have pre: "prefix ((pre @ [p]) @ [c]) path" using rest by (auto simp: prefix_def)
    then have "descent ps ((pre @ [p]) @ [c])" using descent_prefix [OF Suc.prems(2)] by blast
    then have "c \<in> set (children_by_ppid ps (pi_pid p))" by (rule descent_snoc) auto
    then obtain u where "u \<in> set cs" "buildNode n ps c = Some u" using built_node(3) [OF cs] by auto
    then show ?thesis using Suc.IH [OF _ Suc.prems(2) pre] t by auto
  qed
qed simp

lemma concat_map_distinct:
  assumes "\<And>x. x \<in> set xs \<Longrightarrow> distinct (f x)" "distinct (map g xs)"
    and "\<And>x y. x \<in> set xs \<Longrightarrow> y \<in> set (f x) \<Longrightarrow> h y = g x"
  shows "distinct (concat (map f xs))"
  using assms
proof (induction xs)
  case (Cons x xs)
  have "set (f x) \<inter> \<Union> (set ` f ` set xs) = {}"
  proof (rule ccontr)
    assume "set (f x) \<inter> \<Union> (set ` f ` set xs) \<noteq> {}"
    then obtain y z where "y \<in> set (f x)" "z \<in> set xs" "y \<in> set (f z)" by auto
    then have "g x = g z" using Cons.prems(3) [of x y] Cons.prems(3) [of z y] by simp
    then show False using Cons.prems(2) \<open>z \<in> set xs\<close> by auto
  qed
  moreover have "distinct (concat (map f xs))"
    by (rule Cons.IH) (use Cons.prems in auto)
  ultimately show ?case using Cons.prems(1) by simp
qed simp

lemma tree_paths_at: "path \<in> set (tree_paths pre t) \<Longrightarrow> path ! length pre = node_process t \<and> length pre < length path"
  using tree_paths_prefix [of path pre t] by (auto simp: prefix_def)

lemma tree_paths_distinct:
  "buildNode n ps p = Some t \<Longrightarrow> distinct ps \<Longrightarrow> distinct (tree_paths pre t)"
proof (induction n arbitrary: pre p t)
  case (Suc n)
  obtain cs where t: "t = Node p cs"
    and cs: "map (buildNode n ps) (sort_key pi_pid (children_by_ppid ps (pi_pid p))) = map Some cs"
    using buildNode_SucD [OF Suc.prems(1)] by blast
  have "distinct (map node_process cs)"
    using built_node(1) [OF cs] Suc.prems(2) by (simp add: children_by_ppid_def)
  then have "distinct (concat (map (tree_paths (pre @ [p])) cs))"
    using built_node(2) [OF cs] Suc.IH [OF _ Suc.prems(2)] tree_paths_at
    by (intro concat_map_distinct [where g = node_process and h = "\<lambda>path. path ! length (pre @ [p])"]) blast+
  moreover have "pre @ [p] \<notin> set (concat (map (tree_paths (pre @ [p])) cs))"
    using tree_paths_at by fastforce
  ultimately show ?case using t by simp
qed simp

section \<open>The forest of a process list\<close>

lemma forest_exists:
  assumes "distinct (map pi_pid ps)" "length ps < n"
  obtains forest where "buildProcessTree n ps None = Some forest"
    "map (buildNode n ps) (sort_key pi_pid (tree_roots ps)) = map Some forest"
proof -
  have "\<exists>t. buildNode n ps p = Some t" if "p \<in> set (tree_roots ps)" for p
    using buildNode_returns [OF assms(1) descent.root [OF that], of n] assms(2) by simp
  then have "None \<notin> set (map (buildNode n ps) (sort_key pi_pid (tree_roots ps)))" by force
  then obtain forest where "those (map (buildNode n ps) (sort_key pi_pid (tree_roots ps))) = Some forest"
    by (metis those_None not_None_eq)
  then show thesis using that by (simp add: buildProcessTree_def those_Some)
qed

lemma forest_paths:
  assumes d: "distinct (map pi_pid ps)"
    and f: "map (buildNode n ps) (sort_key pi_pid (tree_roots ps)) = map Some forest"
  defines "P \<equiv> concat (map (tree_paths []) forest)"
  shows "map last P = collectSubtree forest" "set P = {path. descent ps path}" "distinct P"
proof -
  have dps: "distinct ps" using d by (simp add: distinct_map)
  show "map last P = collectSubtree forest"
    by (simp add: P_def collectSubtree_def map_concat comp_def map_last_tree_paths)
  have "\<exists>t \<in> set forest. path \<in> set (tree_paths [] t)" if dp: "descent ps path" for path
  proof -
    obtain r rest where path: "path = r # rest" using descent_nonempty [OF dp] by (cases path) auto
    then have "descent ps [r]" using descent_prefix [OF dp, of "[r]"] by (simp add: prefix_def)
    then have "r \<in> set (tree_roots ps)"
      by (cases rule: descent.cases) (auto dest: descent_nonempty)
    then obtain t where "t \<in> set forest" "buildNode n ps r = Some t" using built_node(3) [OF f] by auto
    then show ?thesis using tree_paths_complete [of n ps r t path "[]"] dp path by auto
  qed
  moreover have "descent ps path" if "t \<in> set forest" "path \<in> set (tree_paths [] t)" for t path
    using built_node(2) [OF f that(1)] that(2) tree_paths_sound [of n ps "node_process t" t "[]" path]
      descent.root [of "node_process t" ps] by auto
  ultimately show "set P = {path. descent ps path}" by (auto simp: P_def)
  show "distinct P"
    unfolding P_def
  proof (rule concat_map_distinct [where g = node_process and h = "\<lambda>path. path ! 0"])
    show "distinct (map node_process forest)" using built_node(1) [OF f] dps by (simp add: tree_roots_def)
    show "distinct (tree_paths [] t)" if "t \<in> set forest" for t
      using built_node(2) [OF f that] tree_paths_distinct dps by blast
    show "path ! 0 = node_process t" if "path \<in> set (tree_paths [] t)" for t path
      using tree_paths_at [OF that] by simp
  qed
qed

lemma descends_when_ordered:
  assumes "\<forall>p \<in> set ps. pi_pid p \<noteq> pi_ppid p \<and> (by_pid ps (pi_ppid p) \<noteq> None \<longrightarrow> 0 \<le> pi_ppid p \<and> pi_ppid p < pi_pid p)"
    and "p \<in> set ps"
  shows "\<exists>path. descent ps path \<and> last path = p"
  using assms(2)
proof (induction "nat (pi_pid p)" arbitrary: p rule: less_induct)
  case less
  show ?case
  proof (cases "by_pid ps (pi_ppid p)")
    case None
    then have "descent ps [p]" using less.prems assms(1) by (intro descent.root) (simp add: tree_roots_def)
    then show ?thesis by (intro exI [of _ "[p]"]) simp
  next
    case (Some q)
    then have q: "q \<in> set ps" "pi_pid q = pi_ppid p" using by_pid_Some by auto
    then have "nat (pi_pid q) < nat (pi_pid p)" using assms(1) less.prems Some by auto
    from less.hyps [OF this q(1)] obtain path where "descent ps path" "last path = q" by blast
    then have "descent ps (path @ [p])"
      using less.prems q assms(1) by (intro descent.step) (auto simp: set_children)
    then show ?thesis by (intro exI [of _ "path @ [p]"]) simp
  qed
qed

text \<open>C39: On a list without repeated pids the tree is built in at most as many nested calls as there
  are processes, shows no process twice, and shows exactly the processes whose chain of parents
  ends at one without a listed parent; when every parent has a smaller pid than its child, that
  is the whole list.\<close>
theorem process_tree_complete:
  assumes "distinct (map pi_pid ps)" "length ps < n"
  shows "\<exists>forest. buildProcessTree n ps None = Some forest \<and>
    distinct (map pi_pid (collectSubtree forest)) \<and>
    set (collectSubtree forest) = {p. \<exists>path. descent ps path \<and> last path = p} \<and>
    ((\<forall>p \<in> set ps. pi_pid p \<noteq> pi_ppid p \<and>
        (by_pid ps (pi_ppid p) \<noteq> None \<longrightarrow> 0 \<le> pi_ppid p \<and> pi_ppid p < pi_pid p)) \<longrightarrow>
      set (collectSubtree forest) = set ps)"
proof -
  obtain forest where b: "buildProcessTree n ps None = Some forest"
    and f: "map (buildNode n ps) (sort_key pi_pid (tree_roots ps)) = map Some forest"
    using forest_exists [OF assms] by blast
  note P = forest_paths [OF assms(1) f]
  have s: "set (collectSubtree forest) = {p. \<exists>path. descent ps path \<and> last path = p}"
    unfolding P(1) [symmetric] set_map P(2) by blast
  have "inj_on last {path. descent ps path}"
    using descent_unique [OF assms(1)] by (auto simp: inj_on_def)
  then have "distinct (collectSubtree forest)"
    unfolding P(1) [symmetric] distinct_map P(2) using P(3) by blast
  moreover have sub: "set (collectSubtree forest) \<subseteq> set ps" using s descent_last by auto
  ultimately have "distinct (map pi_pid (collectSubtree forest))"
    using assms(1) by (auto simp: distinct_map intro: inj_on_subset)
  then show ?thesis using b s sub descends_when_ordered [of ps] by (intro exI [of _ forest]) auto
qed

definition demo_process :: "int \<Rightarrow> int \<Rightarrow> process_info" where
  "demo_process pid ppid = \<lparr>pi_pid = pid, pi_ppid = ppid, pi_name = [], pi_username = [], pi_status = [],
     pi_cpuPercent = 0, pi_memPercent = 0, pi_rssBytes = 0, pi_cmdline = []\<rparr>"

theorem process_tree_complete_witness:
  "\<exists>forest. buildProcessTree 4 [demo_process 7 1, demo_process 1 0, demo_process 3 1] None = Some forest \<and>
     set (collectSubtree forest) = {demo_process 7 1, demo_process 1 0, demo_process 3 1}"
  using process_tree_complete [of "[demo_process 7 1, demo_process 1 0, demo_process 3 1]" 4]
  by (auto simp: demo_process_def)

text \<open>When two processes name each other as parents, asking for the subtree of one of them
  recurses without end, whatever the rest of the list; without a root pid the two are merely not
  shown.\<close>
lemma cyclic_parents_never_return:
  assumes "a \<in> set ps" "b \<in> set ps" "pi_ppid a = pi_pid b" "pi_ppid b = pi_pid a" "pi_pid a \<noteq> pi_pid b"
    and "distinct (map pi_pid ps)"
  shows "buildProcessTree n ps (Some (pi_pid a)) = None \<and>
    (\<forall>path. descent ps path \<longrightarrow> last path \<noteq> a \<and> last path \<noteq> b)"
proof -
  have c: "b \<in> set (children_by_ppid ps (pi_pid a))" "a \<in> set (children_by_ppid ps (pi_pid b))"
    using assms by (auto simp: set_children)
  have "buildNode n ps a = None \<and> buildNode n ps b = None"
  proof (induction n)
    case (Suc n)
    have "None \<in> set (map (buildNode n ps) (sort_key pi_pid (children_by_ppid ps (pi_pid a))))"
      "None \<in> set (map (buildNode n ps) (sort_key pi_pid (children_by_ppid ps (pi_pid b))))"
      using c Suc by force+
    then show ?case by (simp only: buildNode.simps those_None option.map_disc_iff conj_absorb)
  qed simp
  moreover have "by_pid ps (pi_pid a) = Some a"
  proof (cases "by_pid ps (pi_pid a)")
    case None
    then show ?thesis using assms(1) by (auto simp: by_pid_None)
  next
    case (Some x)
    then have "x \<in> set ps" "pi_pid x = pi_pid a" using by_pid_Some by auto
    then show ?thesis using Some assms(1,6) by (auto simp: distinct_map dest: inj_onD)
  qed
  moreover have "last path \<noteq> a \<and> last path \<noteq> b" if "descent ps path" for path
    using that
  proof (induction rule: descent.induct)
    case (root p)
    then show ?case using assms(1-4) by (auto simp: tree_roots_def by_pid_None)
  next
    case (step path x)
    then show ?case using assms descent_last [OF step.hyps(1)]
      by (auto simp: set_children distinct_map dest: inj_onD)
  qed
  ultimately show ?thesis by (simp add: buildProcessTree_def)
qed

lemma cyclic_parents_never_return_witness:
  "\<forall>n. buildProcessTree n [demo_process 5 6, demo_process 6 5] (Some 5) = None"
  using cyclic_parents_never_return [of "demo_process 5 6" "[demo_process 5 6, demo_process 6 5]" "demo_process 6 5"]
  by (simp add: demo_process_def)

end
