(* ===== verification/Fuzzy_Match.thy ===== *)
theory Fuzzy_Match
  imports Prelude
begin

text \<open>
  The fuzzy filter \<open>utils/fuzzyMatch.ts\<close> and the highlighting of its matches.
  \<open>String.prototype.toLowerCase\<close> over all of Unicode is an argument \<open>lower\<close>; it may change the
  length of a string. The score is an exact rational, \<open>None\<close> standing for \<open>Infinity\<close>.
\<close>

section \<open>Matching\<close>

record fuzzy_match_result =
  fm_matched :: bool
  fm_score :: "rat option"
  fm_indices :: "nat list"

text \<open>The inner loop: the first index from \<open>i\<close> on that holds the character.\<close>

function find_char :: "ustring \<Rightarrow> codeunit \<Rightarrow> nat \<Rightarrow> nat option" where
  "find_char t ch i =
     (if i < length t then (if t ! i = ch then Some i else find_char t ch (i + 1)) else None)"
  by pat_completeness auto
termination by (relation "measure (\<lambda>(t, ch, i). length t - i)") auto

declare find_char.simps [simp del]

fun match_loop :: "ustring \<Rightarrow> ustring \<Rightarrow> nat \<Rightarrow> nat list \<Rightarrow> nat list option" where
  "match_loop [] t from acc = Some acc"
| "match_loop (ch # q) t from acc =
     (case find_char t ch from of
        None \<Rightarrow> None
      | Some i \<Rightarrow> match_loop q t (i + 1) (acc @ [i]))"

definition fuzzyMatch :: "(ustring \<Rightarrow> ustring) \<Rightarrow> ustring \<Rightarrow> ustring \<Rightarrow> fuzzy_match_result" where
  "fuzzyMatch lower query t =
     (if query = [] then \<lparr>fm_matched = True, fm_score = Some 0, fm_indices = []\<rparr>
      else
        case match_loop (lower query) (lower t) 0 [] of
          None \<Rightarrow> \<lparr>fm_matched = False, fm_score = None, fm_indices = []\<rparr>
        | Some is \<Rightarrow>
            (let span = of_nat (last is) - of_nat (hd is) + 1;
                 score = span + of_nat (hd is) * (1 / 10)
             in \<lparr>fm_matched = True, fm_score = Some score, fm_indices = is\<rparr>))"

lemma find_char_Some:
  "find_char t ch i = Some k \<Longrightarrow> i \<le> k \<and> k < length t \<and> t ! k = ch \<and> (\<forall>j. i \<le> j \<longrightarrow> j < k \<longrightarrow> t ! j \<noteq> ch)"
proof (induction t ch i rule: find_char.induct)
  case (1 t ch i)
  show ?case
  proof (cases "i < length t \<and> t ! i \<noteq> ch")
    case True
    then have "find_char t ch (i + 1) = Some k" using 1(2) by (simp add: find_char.simps [of t ch i])
    with True 1(1) show ?thesis by (auto simp: less_Suc_eq Suc_le_eq) (metis le_neq_implies_less)
  next
    case False
    then show ?thesis using 1(2) by (auto simp: find_char.simps [of t ch i] split: if_splits)
  qed
qed

lemma find_char_None: "find_char t ch i = None \<Longrightarrow> ch \<notin> set (drop i t)"
proof (induction t ch i rule: find_char.induct)
  case (1 t ch i)
  show ?case
  proof (cases "i < length t")
    case True
    then have "t ! i \<noteq> ch" "find_char t ch (i + 1) = None"
      using 1(2) by (auto simp: find_char.simps [of t ch i] split: if_splits)
    then show ?thesis using 1(1) True by (simp add: Cons_nth_drop_Suc [symmetric, of i t])
  qed simp
qed

text \<open>What the accumulated indices mean.\<close>

definition picks :: "ustring \<Rightarrow> ustring \<Rightarrow> nat list \<Rightarrow> bool" where
  "picks q t is \<longleftrightarrow> sorted_wrt (<) is \<and> (\<forall>i \<in> set is. i < length t) \<and> map (nth t) is = q"

lemma match_loop_sound:
  "match_loop q t from acc = Some is \<Longrightarrow>
     \<exists>new. is = acc @ new \<and> length new = length q \<and> map (nth t) new = q \<and> sorted_wrt (<) new \<and>
       (\<forall>i \<in> set new. from \<le> i \<and> i < length t)"
proof (induction q t "from" acc rule: match_loop.induct)
  case (2 ch q t "from" acc)
  then obtain i where i: "find_char t ch from = Some i" "match_loop q t (i + 1) (acc @ [i]) = Some is"
    by (auto split: option.splits)
  from 2(1) [OF i] obtain new where "is = acc @ i # new" "length new = length q" "map (nth t) new = q"
    "sorted_wrt (<) new" "\<forall>j \<in> set new. i + 1 \<le> j \<and> j < length t" by auto
  then show ?case using find_char_Some [OF i(1)] by (intro exI [of _ "i # new"]) auto
qed simp

lemma subseq_after_first: "ch \<notin> set xs \<Longrightarrow> subseq (ch # q) (xs @ ch # ys) \<Longrightarrow> subseq q ys"
  by (induction xs) (auto simp: subseq_Cons2_neq)

lemma match_loop_complete:
  "subseq q (drop from t) \<Longrightarrow> match_loop q t from acc \<noteq> None"
proof (induction q t "from" acc rule: match_loop.induct)
  case (2 ch q t "from" acc)
  have "find_char t ch from \<noteq> None"
  proof
    assume "find_char t ch from = None"
    then have "ch \<notin> set (drop from t)" by (rule find_char_None)
    moreover have "subseq [ch] (drop from t)"
      using 2(2) subseq_order.trans [of "[ch]" "ch # q"] by auto
    then have "ch \<in> set (drop from t)" by (simp only: subseq_singleton_left)
    ultimately show False by simp
  qed
  then obtain i where i: "find_char t ch from = Some i" by auto
  have "drop from t ! (i - from) = ch" "i - from < length (drop from t)"
    using find_char_Some [OF i] by auto
  then have "drop from t = take (i - from) (drop from t) @ ch # drop (i + 1) t"
    using id_take_nth_drop [of "i - from" "drop from t"] find_char_Some [OF i] by simp
  moreover have "ch \<notin> set (take (i - from) (drop from t))"
    using find_char_Some [OF i] by (auto simp: in_set_conv_nth)
  ultimately obtain xs where "drop from t = xs @ ch # drop (i + 1) t" "ch \<notin> set xs" by metis
  then have "subseq q (drop (i + 1) t)" using 2(2) subseq_after_first [of ch xs q] by simp
  then show ?case using 2(1) [OF i] i by simp
qed simp

lemma match_loop_subseq:
  "match_loop q t from acc = Some is \<Longrightarrow> subseq q (drop from t)"
proof (induction q t "from" acc rule: match_loop.induct)
  case (2 ch q t "from" acc)
  then obtain i where i: "find_char t ch from = Some i" "match_loop q t (i + 1) (acc @ [i]) = Some is"
    by (auto split: option.splits)
  note f = find_char_Some [OF i(1)]
  have "subseq (ch # q) (drop i t)"
    using 2(1) [OF i] f by (auto simp: Cons_nth_drop_Suc [symmetric, of i t])
  moreover have "suffix (drop i t) (drop from t)"
    using f by (metis drop_drop le_add_diff_inverse2 suffix_drop)
  ultimately show ?case using subseq_order.trans by blast
qed simp

text \<open>The filter keeps a text exactly when the lower-cased query is a subsequence of the
  lower-cased text; the indices it returns are strictly ascending positions of the lower-cased
  text that spell the query.\<close>
lemma fuzzyMatch_is_subsequence:
  "(fm_matched (fuzzyMatch lower query t) \<longleftrightarrow> query = [] \<or> subseq (lower query) (lower t)) \<and>
   picks (if query \<noteq> [] \<and> fm_matched (fuzzyMatch lower query t) then lower query else []) (lower t)
     (fm_indices (fuzzyMatch lower query t))"
proof (cases "query = []")
  case True
  then show ?thesis by (simp add: fuzzyMatch_def picks_def)
next
  case False
  show ?thesis
  proof (cases "match_loop (lower query) (lower t) 0 []")
    case None
    then have "\<not> subseq (lower query) (lower t)" using match_loop_complete [of "lower query" 0 "lower t" "[]"] by simp blast
    then show ?thesis using None False by (simp add: fuzzyMatch_def picks_def)
  next
    case (Some "is")
    then show ?thesis
      using False match_loop_sound [OF Some] match_loop_subseq [OF Some]
      by (auto simp: fuzzyMatch_def picks_def Let_def)
  qed
qed

section \<open>Highlighting\<close>

record highlight_segment =
  hs_text :: ustring
  hs_matched :: bool

fun segment_loop :: "nat list \<Rightarrow> nat \<Rightarrow> ustring \<Rightarrow> ustring \<Rightarrow> bool \<Rightarrow> highlight_segment list \<Rightarrow>
    highlight_segment list" where
  "segment_loop indices i [] current currentMatched segments =
     (if current \<noteq> [] then segments @ [\<lparr>hs_text = current, hs_matched = currentMatched\<rparr>] else segments)"
| "segment_loop indices i (u # rest) current currentMatched segments =
     (let isMatched = i \<in> set indices in
      if isMatched \<noteq> currentMatched \<and> current \<noteq> []
      then segment_loop indices (i + 1) rest [u] isMatched
             (segments @ [\<lparr>hs_text = current, hs_matched = currentMatched\<rparr>])
      else segment_loop indices (i + 1) rest (current @ [u]) isMatched segments)"

definition buildHighlightSegments :: "ustring \<Rightarrow> nat list \<Rightarrow> highlight_segment list" where
  "buildHighlightSegments t indices =
     (if indices = [] then [\<lparr>hs_text = t, hs_matched = False\<rparr>]
      else segment_loop indices 0 t [] (0 \<in> set indices) [])"

text \<open>Every character with its marking.\<close>

definition marked :: "highlight_segment list \<Rightarrow> (codeunit \<times> bool) list" where
  "marked segs = concat (map (\<lambda>s. map (\<lambda>u. (u, hs_matched s)) (hs_text s)) segs)"

definition marking :: "nat list \<Rightarrow> nat \<Rightarrow> ustring \<Rightarrow> (codeunit \<times> bool) list" where
  "marking indices i t = zip t (map (\<lambda>j. j \<in> set indices) [i..<i + length t])"

lemma marked_append [simp]: "marked (xs @ ys) = marked xs @ marked ys"
  by (simp add: marked_def)

lemma marking_Cons: "marking indices i (u # t) = (u, i \<in> set indices) # marking indices (i + 1) t"
  using upt_conv_Cons [of i "i + Suc (length t)"] by (simp add: marking_def del: upt_Suc)

lemma segment_loop_marked:
  "marked (segment_loop indices i rest current cm segs) =
     marked segs @ map (\<lambda>u. (u, if current = [] then i \<in> set indices else cm)) current @ marking indices i rest"
proof (induction indices i rest current cm segs rule: segment_loop.induct)
  case (1 indices i current cm segs)
  then show ?case by (simp add: marked_def marking_def)
next
  case (2 indices i u rest current cm segs)
  then show ?case
    by (cases "current = []") (auto simp: Let_def marking_Cons, auto simp: marked_def)
qed

lemma segment_loop_alternates:
  "\<lbrakk>successively (\<lambda>a b. hs_matched a \<noteq> hs_matched b) segs; \<forall>s \<in> set segs. hs_text s \<noteq> [];
    current = [] \<longrightarrow> segs = []; segs \<noteq> [] \<longrightarrow> hs_matched (last segs) \<noteq> cm\<rbrakk> \<Longrightarrow>
   successively (\<lambda>a b. hs_matched a \<noteq> hs_matched b) (segment_loop indices i rest current cm segs) \<and>
   (\<forall>s \<in> set (segment_loop indices i rest current cm segs). hs_text s \<noteq> [])"
proof (induction indices i rest current cm segs rule: segment_loop.induct)
  case (1 indices i current cm segs)
  then show ?case by (auto simp: successively_append_iff)
next
  case (2 indices i u rest current cm segs)
  then show ?case by (auto simp: Let_def successively_append_iff)
qed

text \<open>The highlight segments read together are the text, each character is marked exactly when its
  index is in the list, neighbouring segments differ in their marking and none is empty.\<close>
lemma highlight_segments_cover:
  assumes "t \<noteq> []"
  shows "concat (map hs_text (buildHighlightSegments t indices)) = t \<and>
    marked (buildHighlightSegments t indices) = zip t (map (\<lambda>j. j \<in> set indices) [0..<length t]) \<and>
    successively (\<lambda>a b. hs_matched a \<noteq> hs_matched b) (buildHighlightSegments t indices) \<and>
    (\<forall>s \<in> set (buildHighlightSegments t indices). hs_text s \<noteq> [])"
proof -
  have m: "marked (buildHighlightSegments t indices) = marking indices 0 t"
  proof (cases "indices = []")
    case True
    have "map (\<lambda>u. (u, False)) t = zip t (map (\<lambda>j. False) [0..<length t])"
      by (rule nth_equalityI) simp_all
    then show ?thesis using True by (simp add: buildHighlightSegments_def marked_def marking_def)
  next
    case False
    then show ?thesis by (simp add: buildHighlightSegments_def segment_loop_marked) (simp add: marked_def)
  qed
  have "map fst (marked segs) = concat (map hs_text segs)" for segs
    by (simp add: marked_def map_concat comp_def)
  then have "concat (map hs_text (buildHighlightSegments t indices)) = t"
    using m by (metis marking_def length_map length_upt diff_add_inverse map_fst_zip)
  moreover have "successively (\<lambda>a b. hs_matched a \<noteq> hs_matched b) (buildHighlightSegments t indices) \<and>
    (\<forall>s \<in> set (buildHighlightSegments t indices). hs_text s \<noteq> [])"
    using assms segment_loop_alternates [of "[]" "[]"] by (simp add: buildHighlightSegments_def)
  ultimately show ?thesis using m by (simp add: marking_def)
qed

lemma highlight_segments_cover_witness:
  "concat (map hs_text (buildHighlightSegments (js ''psql'') [0, 2, 3])) = js ''psql''"
  using highlight_segments_cover [of "js ''psql''" "[0, 2, 3]"] by simp

text \<open>The indices are positions of the lower-cased text. Where lower-casing changes a length
  (U+0130 becomes two characters) they are not positions of the displayed text: here the only
  index lies outside it, and nothing is highlighted although the text matches.\<close>
lemma indices_may_miss_the_text:
  assumes "lower [0x130, 0x62] = [0x69, 0x307, 0x62]" "lower [0x62] = [0x62]"
  shows "(let r = fuzzyMatch lower [0x62] [0x130, 0x62] in
    fm_matched r \<and> fm_indices r = [2] \<and> length [0x130, 0x62 :: codeunit] \<le> 2 \<and>
    (\<forall>s \<in> set (buildHighlightSegments [0x130, 0x62] (fm_indices r)). \<not> hs_matched s))"
proof -
  have "find_char [0x69, 0x307, 0x62] 0x62 0 = Some 2"
    by (simp add: find_char.simps [of _ _ 0] find_char.simps [of _ _ 1] find_char.simps [of _ _ 2]
        find_char.simps [of _ _ "Suc 0"] find_char.simps [of _ _ "Suc (Suc 0)"] numeral_2_eq_2)
  then show ?thesis
    using assms by (simp add: fuzzyMatch_def Let_def buildHighlightSegments_def)
qed

lemma indices_may_miss_the_text_witness:
  "fm_indices (fuzzyMatch (\<lambda>s. concat (map (\<lambda>u. if u = 0x130 then [0x69, 0x307] else [u]) s))
     [0x62] [0x130, 0x62]) = [2]"
  using indices_may_miss_the_text [of "\<lambda>s. concat (map (\<lambda>u. if u = 0x130 then [0x69, 0x307] else [u]) s)"]
  by (simp add: Let_def)

end
