(* ===== verification/Process_Table.thy ===== *)
theory Process_Table
  imports Api_Types Fuzzy_Match "HOL-Library.Multiset"
begin

text \<open>
  The rows of the task manager, \<open>components/Processes/ProcessTable.tsx\<close>: status filter, fuzzy
  filter, sorting, paging, and the DOM order with its ranks. \<open>Array.prototype.sort\<close> is stable;
  \<open>localeCompare\<close> and \<open>toLowerCase\<close> are arguments.
\<close>

section \<open>Stable sorting with a comparator\<close>

fun sort_insert :: "('a \<Rightarrow> 'a \<Rightarrow> rat) \<Rightarrow> 'a \<Rightarrow> 'a list \<Rightarrow> 'a list" where
  "sort_insert cmp x [] = [x]"
| "sort_insert cmp x (y # ys) = (if cmp x y \<le> 0 then x # y # ys else y # sort_insert cmp x ys)"

fun js_sort :: "('a \<Rightarrow> 'a \<Rightarrow> rat) \<Rightarrow> 'a list \<Rightarrow> 'a list" where
  "js_sort cmp [] = []"
| "js_sort cmp (x # xs) = sort_insert cmp x (js_sort cmp xs)"

lemma mset_sort_insert [simp]: "mset (sort_insert cmp x xs) = add_mset x (mset xs)"
  by (induction xs) auto

lemma mset_js_sort [simp]: "mset (js_sort cmp xs) = mset xs"
  by (induction xs) auto

lemma set_js_sort [simp]: "set (js_sort cmp xs) = set xs"
  by (metis mset_js_sort set_mset_mset)

lemma length_js_sort [simp]: "length (js_sort cmp xs) = length xs"
  by (metis mset_js_sort size_mset)

lemma distinct_js_sort [simp]: "distinct (map f (js_sort cmp xs)) \<longleftrightarrow> distinct (map f xs)"
  by (metis mset_js_sort mset_map mset_eq_imp_distinct_iff)

text \<open>A consistent comparator, as \<open>sort\<close> requires one.\<close>

locale consistent_compare =
  fixes cmp :: "'a \<Rightarrow> 'a \<Rightarrow> rat"
  assumes antisym: "cmp x y \<le> 0 \<longleftrightarrow> 0 \<le> cmp y x"
    and trans: "cmp x y \<le> 0 \<Longrightarrow> cmp y z \<le> 0 \<Longrightarrow> cmp x z \<le> 0"
begin

lemma total: "cmp x y \<le> 0 \<or> cmp y x \<le> 0"
  using antisym [of x y] by linarith

lemma sorted_insert:
  "sorted_wrt (\<lambda>x y. cmp x y \<le> 0) xs \<Longrightarrow> sorted_wrt (\<lambda>x y. cmp x y \<le> 0) (sort_insert cmp x xs)"
proof (induction xs)
  case (Cons y ys)
  show ?case
  proof (cases "cmp x y \<le> 0")
    case True
    then show ?thesis using Cons.prems trans [of x y] by auto
  next
    case False
    have "set (sort_insert cmp x ys) = insert x (set ys)"
      by (metis mset_sort_insert set_mset_add_mset_insert set_mset_mset)
    then show ?thesis using False total [of x y] Cons by auto
  qed
qed simp

lemma sorted_js_sort: "sorted_wrt (\<lambda>x y. cmp x y \<le> 0) (js_sort cmp xs)"
  by (induction xs) (simp_all add: sorted_insert)

text \<open>Elements that compare equal keep their order.\<close>

lemma filter_insert:
  assumes "cmp x y = 0 \<Longrightarrow> cmp y x = 0"
  shows "filter (\<lambda>u. cmp z u = 0 \<and> cmp u z = 0) (sort_insert cmp x xs) =
    filter (\<lambda>u. cmp z u = 0 \<and> cmp u z = 0) (x # xs)"
proof (induction xs)
  case (Cons y ys)
  have "cmp x y \<le> 0" if "cmp z x = 0" "cmp x z = 0" "cmp z y = 0" "cmp y z = 0"
    using trans [of x z y] that by simp
  then show ?case using Cons by auto
qed simp

end

text \<open>Differences of a numeric key are consistent.\<close>

lemma consistent_difference: "consistent_compare (\<lambda>a b. key a - key b :: rat)"
  by unfold_locales auto

interpretation pid_compare: consistent_compare "\<lambda>a b. of_int (pi_pid a) - of_int (pi_pid b)"
  by (rule consistent_difference)

section \<open>Filters\<close>

datatype column_sort = Pid | Name | Username | Status | CpuPercent | MemPercent | RssBytes
datatype sort_dir = Asc | Desc

definition DESC_DEFAULT_KEYS :: "column_sort list" where
  "DESC_DEFAULT_KEYS = [CpuPercent, MemPercent, RssBytes]"

text \<open>\<open>None\<close> is \<open>ALL_STATUS\<close>.\<close>

definition status_filtered :: "ustring option \<Rightarrow> process_info list \<Rightarrow> process_info list" where
  "status_filtered status ps =
     (case status of None \<Rightarrow> ps | Some s \<Rightarrow> filter (\<lambda>p. pi_status p = s) ps)"

record process_match =
  pm_name :: "fuzzy_match_result option"
  pm_cmd :: "fuzzy_match_result option"

definition when_matched :: "fuzzy_match_result \<Rightarrow> fuzzy_match_result option" where
  "when_matched r = (if fm_matched r then Some r else None)"

fun search_loop :: "(ustring \<Rightarrow> ustring) \<Rightarrow> ustring \<Rightarrow> process_info list \<Rightarrow>
    process_info list \<times> (int \<rightharpoonup> process_match) \<Rightarrow> process_info list \<times> (int \<rightharpoonup> process_match)" where
  "search_loop lower query [] r = r"
| "search_loop lower query (p # ps) (result, matches) =
     (let n = fuzzyMatch lower query (pi_name p); c = fuzzyMatch lower query (pi_cmdline p) in
      if \<not> fm_matched n \<and> \<not> fm_matched c then search_loop lower query ps (result, matches)
      else search_loop lower query ps
             (result @ [p],
              matches(pi_pid p \<mapsto> \<lparr>pm_name = when_matched n, pm_cmd = when_matched c\<rparr>)))"

definition search_filtered :: "(ustring \<Rightarrow> ustring) \<Rightarrow> ustring \<Rightarrow> process_info list \<Rightarrow>
    process_info list \<times> (int \<rightharpoonup> process_match) option" where
  "search_filtered lower searchQuery ps =
     (let query = trim searchQuery in
      if query = [] then (ps, None)
      else (let (result, matches) = search_loop lower query ps ([], Map.empty) in (result, Some matches)))"

section \<open>Sorting and paging\<close>

definition toggleSort :: "column_sort \<Rightarrow> column_sort \<times> sort_dir \<Rightarrow> column_sort \<times> sort_dir" where
  "toggleSort key st =
     (if key = fst st then (key, case snd st of Asc \<Rightarrow> Desc | Desc \<Rightarrow> Asc)
      else (key, if List.member DESC_DEFAULT_KEYS key then Desc else Asc))"

definition compare_rows :: "(ustring \<Rightarrow> ustring \<Rightarrow> rat) \<Rightarrow> column_sort \<Rightarrow> process_info \<Rightarrow> process_info \<Rightarrow> rat" where
  "compare_rows locale_compare k a b =
     (case k of
        Pid \<Rightarrow> of_int (pi_pid a) - of_int (pi_pid b)
      | Name \<Rightarrow> locale_compare (pi_name a) (pi_name b)
      | Username \<Rightarrow> locale_compare (pi_username a) (pi_username b)
      | Status \<Rightarrow> locale_compare (pi_status a) (pi_status b)
      | CpuPercent \<Rightarrow> pi_cpuPercent a - pi_cpuPercent b
      | MemPercent \<Rightarrow> pi_memPercent a - pi_memPercent b
      | RssBytes \<Rightarrow> of_nat (pi_rssBytes a) - of_nat (pi_rssBytes b))"

definition sorted_rows :: "(ustring \<Rightarrow> ustring \<Rightarrow> rat) \<Rightarrow> column_sort \<times> sort_dir \<Rightarrow> process_info list \<Rightarrow>
    process_info list" where
  "sorted_rows locale_compare st ps =
     js_sort (\<lambda>a b. case snd st of Asc \<Rightarrow> compare_rows locale_compare (fst st) a b
                     | Desc \<Rightarrow> - compare_rows locale_compare (fst st) a b) ps"

text \<open>\<open>None\<close> is \<open>ALL_PAGE_SIZE\<close>.\<close>

definition page_size_num :: "nat option \<Rightarrow> 'a list \<Rightarrow> nat" where
  "page_size_num psize rows = (case psize of None \<Rightarrow> length rows | Some n \<Rightarrow> n)"

definition total_pages :: "nat option \<Rightarrow> 'a list \<Rightarrow> nat" where
  "total_pages psize rows =
     (let n = page_size_num psize rows in
      if n > 0 then max 1 ((length rows + n - 1) div n) else 1)"

definition clamped_page :: "nat option \<Rightarrow> nat \<Rightarrow> 'a list \<Rightarrow> nat" where
  "clamped_page psize page rows = min page (total_pages psize rows)"

definition paginated :: "nat option \<Rightarrow> nat \<Rightarrow> 'a list \<Rightarrow> 'a list" where
  "paginated psize page rows =
     (case psize of
        None \<Rightarrow> rows
      | Some n \<Rightarrow> let p = clamped_page psize page rows in take (p * n - (p - 1) * n) (drop ((p - 1) * n) rows))"

definition dom_ordered :: "process_info list \<Rightarrow> process_info list" where
  "dom_ordered rows = js_sort (\<lambda>a b. of_int (pi_pid a) - of_int (pi_pid b)) rows"

definition rank_by_pid :: "process_info list \<Rightarrow> int \<rightharpoonup> nat" where
  "rank_by_pid rows = map_of (rev (zip (map pi_pid rows) [0..<length rows]))"

section \<open>Properties\<close>

lemma search_loop_result:
  "fst (search_loop lower query ps (result, matches)) =
     result @ filter (\<lambda>p. fm_matched (fuzzyMatch lower query (pi_name p))
        \<or> fm_matched (fuzzyMatch lower query (pi_cmdline p))) ps"
  by (induction ps arbitrary: result matches) (simp_all add: Let_def)

lemma search_loop_dom:
  "dom (snd (search_loop lower query ps (result, matches))) = dom matches \<union>
     pi_pid ` {p \<in> set ps. fm_matched (fuzzyMatch lower query (pi_name p))
        \<or> fm_matched (fuzzyMatch lower query (pi_cmdline p))}"
  by (induction ps arbitrary: result matches) (auto simp: Let_def)

lemma consistent_rows:
  assumes "consistent_compare locale_compare"
  shows "consistent_compare (compare_rows locale_compare k)"
  using consistent_compare.antisym [OF assms] consistent_compare.trans [OF assms]
  by (cases k) (unfold_locales; force simp: compare_rows_def)+

lemma consistent_flip:
  assumes "consistent_compare cmp"
  shows "consistent_compare (\<lambda>a b. - cmp a b)"
proof unfold_locales
  show "- cmp x y \<le> 0 \<longleftrightarrow> 0 \<le> - cmp y x" for x y
    using consistent_compare.antisym [OF assms, of y x] by simp
  show "- cmp x z \<le> 0" if "- cmp x y \<le> 0" "- cmp y z \<le> 0" for x y z
    using consistent_compare.antisym [OF assms] consistent_compare.trans [OF assms, of z y x] that by simp
qed

text \<open>A search shows exactly the processes whose name or command line matches, in list order, and
  records a match for exactly those pids; sorting by any column in either direction only permutes
  the rows and leaves them in the order of that column.\<close>
lemma process_search_and_sort:
  assumes "consistent_compare locale_compare" "trim q \<noteq> []"
  shows "fst (search_filtered lower q ps) = filter (\<lambda>p. fm_matched (fuzzyMatch lower (trim q) (pi_name p))
        \<or> fm_matched (fuzzyMatch lower (trim q) (pi_cmdline p))) ps \<and>
    map_option dom (snd (search_filtered lower q ps)) = Some (pi_pid ` set (fst (search_filtered lower q ps))) \<and>
    mset (sorted_rows locale_compare (k, dir) ps) = mset ps \<and>
    sorted_wrt (\<lambda>a b. case dir of Asc \<Rightarrow> compare_rows locale_compare k a b \<le> 0
                     | Desc \<Rightarrow> compare_rows locale_compare k b a \<le> 0) (sorted_rows locale_compare (k, dir) ps)"
proof -
  let ?c = "compare_rows locale_compare k"
  have c: "consistent_compare ?c" by (rule consistent_rows [OF assms(1)])
  have "sorted_wrt (\<lambda>a b. case dir of Asc \<Rightarrow> ?c a b \<le> 0 | Desc \<Rightarrow> ?c b a \<le> 0)
      (sorted_rows locale_compare (k, dir) ps)"
  proof (cases dir)
    case Asc
    then show ?thesis using consistent_compare.sorted_js_sort [OF c, of ps] by (simp add: sorted_rows_def)
  next
    case Desc
    then show ?thesis
      using consistent_compare.sorted_js_sort [OF consistent_flip [OF c], of ps] consistent_compare.antisym [OF c]
      by (simp add: sorted_rows_def)
  qed
  moreover have "mset (sorted_rows locale_compare (k, dir) ps) = mset ps" by (simp add: sorted_rows_def)
  moreover have "search_filtered lower q ps =
      (let r = search_loop lower (trim q) ps ([], Map.empty) in (fst r, Some (snd r)))"
    using assms(2) by (simp add: search_filtered_def Let_def split_def)
  ultimately show ?thesis
    by (simp add: Let_def search_loop_result search_loop_dom)
qed

definition demo_row :: "int \<Rightarrow> rat \<Rightarrow> process_info" where
  "demo_row pid cpu = \<lparr>pi_pid = pid, pi_ppid = 1, pi_name = [], pi_username = [], pi_status = [],
     pi_cpuPercent = cpu, pi_memPercent = 0, pi_rssBytes = 0, pi_cmdline = []\<rparr>"

lemma trivial_compare: "consistent_compare (\<lambda>a b :: ustring. 0)"
  by unfold_locales simp_all

lemma process_search_and_sort_witness:
  "mset (sorted_rows (\<lambda>a b. 0) (CpuPercent, Desc) [demo_row 3 1, demo_row 4 2]) =
     mset [demo_row 3 1, demo_row 4 2]"
  using process_search_and_sort [OF trivial_compare, of "js ''a''"] by (simp add: trim_def js_space_def js_defs)

lemma page_Some: "page \<ge> 1 \<Longrightarrow> page \<le> total_pages (Some n) rows \<Longrightarrow>
    paginated (Some n) page rows = take n (drop ((page - 1) * n) rows)"
  by (cases page) (simp_all add: paginated_def clamped_page_def Let_def min_def)

lemma pages_prefix:
  "k \<le> total_pages (Some n) rows \<Longrightarrow>
     concat (map (\<lambda>p. paginated (Some n) p rows) [1..<k + 1]) = take (k * n) rows"
proof (induction k)
  case (Suc k)
  then show ?case using page_Some [of "Suc k" n rows]
    by (simp add: take_add [symmetric] add.commute)
qed simp

text \<open>The pages of the table, one after the other, are the sorted rows: no row is lost between
  pages or shown on two; a page beyond the last shows the last page; and the rows, though kept in
  pid order in the document, are ranked so that they appear in the sorted order.\<close>
lemma pages_show_every_row:
  assumes "n > 0" "distinct (map pi_pid rows)"
  shows "concat (map (\<lambda>p. paginated (Some n) p rows) [1..<total_pages (Some n) rows + 1]) = rows \<and>
    (page \<ge> total_pages (Some n) rows \<longrightarrow>
       paginated (Some n) page rows = paginated (Some n) (total_pages (Some n) rows) rows) \<and>
    mset (dom_ordered rows) = mset rows \<and>
    (\<forall>i < length rows. rank_by_pid rows (pi_pid (rows ! i)) = Some i)"
proof -
  have "length rows \<le> total_pages (Some n) rows * n"
  proof -
    have "length rows \<le> ((length rows + n - 1) div n) * n"
      using assms(1) div_mult_mod_eq [of "length rows + n - 1" n]
        mod_less_divisor [of n "length rows + n - 1"] by linarith
    also have "\<dots> \<le> total_pages (Some n) rows * n"
      using assms(1) by (simp add: total_pages_def page_size_num_def Let_def)
    finally show ?thesis .
  qed
  moreover have "rank_by_pid rows (pi_pid (rows ! i)) = Some i" if "i < length rows" for i
  proof -
    have "distinct (map fst (rev (zip (map pi_pid rows) [0..<length rows])))"
      using assms(2) by (simp flip: rev_map)
    moreover have "(pi_pid (rows ! i), i) \<in> set (rev (zip (map pi_pid rows) [0..<length rows]))"
      using that by (auto simp: set_zip intro!: exI [of _ i])
    ultimately show ?thesis unfolding rank_by_pid_def by (rule map_of_is_SomeI)
  qed
  ultimately show ?thesis
    using pages_prefix [of "total_pages (Some n) rows" n rows]
    by (auto simp: dom_ordered_def paginated_def clamped_page_def)
qed


lemma pages_show_every_row_witness:
  "let rows = [demo_row 3 1, demo_row 9 2, demo_row 4 0]
   in concat (map (\<lambda>p. paginated (Some 2) p rows) [1..<total_pages (Some 2) rows + 1]) = rows"
proof -
  have "distinct (map pi_pid [demo_row 3 1, demo_row 9 2, demo_row 4 0])" by (simp add: demo_row_def)
  from pages_show_every_row [OF _ this, of 2] show ?thesis unfolding Let_def by simp
qed

end
