(* ===== verification/Theme.thy ===== *)
theory Theme
  imports Device_Prefs
begin

text \<open>
  The light/dark choice of the page: the module state of \<open>theme.ts\<close>, the subscription of
  \<open>useTheme.ts\<close>, and the theme part of \<open>main.tsx\<close>. The stored preference itself is
  \<open>Device_Prefs.readStoredTheme\<close> and \<open>Device_Prefs.storeTheme\<close>.

  A light/dark value is a \<open>theme_choice\<close> other than \<open>System\<close>. The \<open>data-theme\<close> attribute of the
  document is an option (\<open>None\<close> after \<open>delete\<close>), and every call of a listener is recorded.
\<close>

record theme_module =
  currentTheme :: theme_choice
  embedTheme :: "theme_choice option"
  themeListeners :: "nat list"
  themeAttribute :: "theme_choice option"
  themeCalls :: "(nat \<times> theme_choice) list"

definition applyTheme :: "theme_choice \<Rightarrow> theme_module \<Rightarrow> theme_module" where
  "applyTheme choice t = t\<lparr>themeAttribute := (if choice = System then None else Some choice)\<rparr>"

text \<open>Evaluating the module, before anything else runs.\<close>

definition theme_load :: "storage \<Rightarrow> theme_module" where
  "theme_load s = \<lparr>currentTheme = readStoredTheme s, embedTheme = None, themeListeners = [],
     themeAttribute = None, themeCalls = []\<rparr>"

definition initTheme :: "theme_module \<Rightarrow> theme_choice \<times> theme_module" where
  "initTheme t = (currentTheme t, applyTheme (currentTheme t) t)"

definition subscribeTheme :: "nat \<Rightarrow> theme_module \<Rightarrow> theme_module" where
  "subscribeTheme l t = t\<lparr>themeListeners := List.insert l (themeListeners t)\<rparr>"

definition unsubscribeTheme :: "nat \<Rightarrow> theme_module \<Rightarrow> theme_module" where
  "unsubscribeTheme l t = t\<lparr>themeListeners := removeAll l (themeListeners t)\<rparr>"

definition callListeners :: "theme_choice \<Rightarrow> theme_module \<Rightarrow> theme_module" where
  "callListeners choice t =
     t\<lparr>themeCalls := themeCalls t @ map (\<lambda>l. (l, choice)) (themeListeners t)\<rparr>"

definition setEmbedTheme :: "theme_choice \<Rightarrow> theme_module \<Rightarrow> theme_module" where
  "setEmbedTheme theme t = callListeners theme (applyTheme theme (t\<lparr>embedTheme := Some theme\<rparr>))"

definition getTheme :: "theme_module \<Rightarrow> theme_choice" where
  "getTheme t = (case embedTheme t of Some e \<Rightarrow> e | None \<Rightarrow> currentTheme t)"

definition persistTheme :: "theme_choice \<Rightarrow> storage \<times> theme_module \<Rightarrow> storage \<times> theme_module" where
  "persistTheme choice p =
     (storeTheme choice (fst p),
      callListeners choice ((applyTheme choice (snd p))\<lparr>currentTheme := choice\<rparr>))"

text \<open>The first lines of \<open>main.tsx\<close>; \<open>param\<close> is the theme the frame was opened with.\<close>

definition theme_boot :: "bool \<Rightarrow> theme_choice option \<Rightarrow> storage \<Rightarrow> storage \<times> theme_module" where
  "theme_boot embedded param s =
     (let t = snd (initTheme (theme_load s))
      in (s, case param of Some th \<Rightarrow> if embedded then setEmbedTheme th t else t | None \<Rightarrow> t))"

lemmas theme_defs = applyTheme_def theme_load_def initTheme_def subscribeTheme_def
  unsubscribeTheme_def callListeners_def setEmbedTheme_def getTheme_def persistTheme_def theme_boot_def Let_def

section \<open>What can happen to it\<close>

datatype theme_event =
    Choose theme_choice          \<comment> \<open>\<open>setTheme\<close> of \<open>useTheme\<close>\<close>
  | Host_Theme theme_choice      \<comment> \<open>a \<open>theme\<close> message of the host, light or dark\<close>
  | Subscribe nat
  | Unsubscribe nat

fun theme_step :: "storage \<times> theme_module \<Rightarrow> theme_event \<Rightarrow> storage \<times> theme_module" where
  "theme_step p (Choose c) = persistTheme c p"
| "theme_step p (Host_Theme th) = (fst p, setEmbedTheme th (snd p))"
| "theme_step p (Subscribe l) = (fst p, subscribeTheme l (snd p))"
| "theme_step p (Unsubscribe l) = (fst p, unsubscribeTheme l (snd p))"

definition theme_run :: "storage \<times> theme_module \<Rightarrow> theme_event list \<Rightarrow> storage \<times> theme_module" where
  "theme_run p es = foldl theme_step p es"

lemma theme_run_simps [simp]:
  "theme_run p [] = p" "theme_run p (e # es) = theme_run (theme_step p e) es"
  "theme_run p (es @ [e]) = theme_step (theme_run p es) e"
  by (simp_all add: theme_run_def)

definition from_host :: "theme_event \<Rightarrow> bool" where
  "from_host e \<longleftrightarrow> (case e of Host_Theme _ \<Rightarrow> True | _ \<Rightarrow> False)"

definition chosen :: "theme_event \<Rightarrow> bool" where
  "chosen e \<longleftrightarrow> (case e of Choose _ \<Rightarrow> True | _ \<Rightarrow> False)"

definition attribute_of :: "theme_choice \<Rightarrow> theme_choice option" where
  "attribute_of c = (if c = System then None else Some c)"

text \<open>A page of its own: what is shown, what is read and what is stored agree.\<close>

definition own_page :: "storage \<times> theme_module \<Rightarrow> bool" where
  "own_page p \<longleftrightarrow> embedTheme (snd p) = None
     \<and> themeAttribute (snd p) = attribute_of (getTheme (snd p))
     \<and> (st_readable (fst p) \<and> st_writable (fst p) \<longrightarrow> readStoredTheme (fst p) = getTheme (snd p))"

lemma storeTheme_flags [simp]:
  "st_readable (storeTheme c s) = st_readable s" "st_writable (storeTheme c s) = st_writable s"
  by (simp_all add: theme_pref.save_flags)

lemma own_page_step:
  assumes "own_page p" "\<not> from_host e" shows "own_page (theme_step p e)"
  using assms
  by (cases e) (auto simp: own_page_def theme_defs attribute_of_def from_host_def
      theme_pref.load_save)

lemma own_page_boot: "own_page (theme_boot False param s)"
  by (auto simp: own_page_def theme_defs attribute_of_def split: option.split)

lemma own_page_run: "own_page p \<Longrightarrow> list_all (\<lambda>e. \<not> from_host e) es \<Longrightarrow> own_page (theme_run p es)"
proof (induction es arbitrary: p)
  case (Cons e es)
  have "own_page (theme_step p e)" using Cons.prems by (intro own_page_step) simp_all
  then show ?case using Cons by simp
qed simp

text \<open>Inside the editor: only the host's theme counts and the storage is left alone.\<close>

fun last_host :: "theme_choice option \<Rightarrow> theme_event list \<Rightarrow> theme_choice option" where
  "last_host th [] = th"
| "last_host th (e # es) = last_host (case e of Host_Theme t \<Rightarrow> Some t | _ \<Rightarrow> th) es"

definition followed :: "theme_choice option \<Rightarrow> theme_module \<Rightarrow> bool" where
  "followed th t \<longleftrightarrow> embedTheme t = th \<and>
     (case th of None \<Rightarrow> themeAttribute t = attribute_of (currentTheme t)
        | Some h \<Rightarrow> themeAttribute t = attribute_of h)"

lemma followed_step:
  assumes "followed th (snd p)" "\<not> chosen e"
  shows "followed (case e of Host_Theme t \<Rightarrow> Some t | _ \<Rightarrow> th) (snd (theme_step p e))"
    and "fst (theme_step p e) = fst p"
    and "currentTheme (snd (theme_step p e)) = currentTheme (snd p)"
  using assms
  by (cases e; auto simp: followed_def theme_defs attribute_of_def chosen_def split: option.split)+

lemma followed_run:
  assumes "followed th (snd p)" "list_all (\<lambda>e. \<not> chosen e) es"
  shows "followed (last_host th es) (snd (theme_run p es)) \<and> fst (theme_run p es) = fst p
     \<and> currentTheme (snd (theme_run p es)) = currentTheme (snd p)"
  using assms
proof (induction es arbitrary: p th)
  case (Cons e es)
  have a: "\<not> chosen e" "list_all (\<lambda>e. \<not> chosen e) es" using Cons.prems(2) by simp_all
  note st = followed_step [OF Cons.prems(1) a(1)]
  show ?case using Cons.IH [OF st(1) a(2)] st(2,3) by simp
qed simp

lemma followed_boot:
  "followed (if embedded then param else None) (snd (theme_boot embedded param s))"
  "fst (theme_boot embedded param s) = s"
  "currentTheme (snd (theme_boot embedded param s)) = readStoredTheme s"
  by (auto simp: followed_def theme_defs attribute_of_def split: option.split)

section \<open>Properties\<close>

text \<open>Outside the editor any sequence of theme choices and subscriptions keeps the page's
  attribute, the value every component reads and the stored preference in agreement, so a reload
  shows the same theme; inside the editor the page shows the last theme the host sent, whatever is
  stored, and never writes the preference the standalone page uses.\<close>
lemma theme_shown_and_stored_agree:
  assumes "list_all (\<lambda>e. \<not> from_host e) own" and "list_all (\<lambda>e. \<not> chosen e) hosted"
  shows "(let p = theme_run (theme_boot False param s) own
      in themeAttribute (snd p) = attribute_of (getTheme (snd p))
         \<and> (st_readable (fst p) \<and> st_writable (fst p) \<longrightarrow>
              getTheme (snd (theme_boot False None (fst p))) = getTheme (snd p)))
    \<and> (let p = theme_run (theme_boot True param s) hosted
      in fst p = s
         \<and> getTheme (snd p) = (case last_host param hosted of Some th \<Rightarrow> th | None \<Rightarrow> readStoredTheme s)
         \<and> themeAttribute (snd p) = attribute_of (getTheme (snd p)))"
proof -
  have own: "own_page (theme_run (theme_boot False param s) own)"
    using own_page_run [OF own_page_boot assms(1)] .
  have "followed (last_host param hosted) (snd (theme_run (theme_boot True param s) hosted))
      \<and> fst (theme_run (theme_boot True param s) hosted) = s
      \<and> currentTheme (snd (theme_run (theme_boot True param s) hosted)) = readStoredTheme s"
    using followed_run [OF followed_boot(1) [of True param s, simplified] assms(2)] followed_boot
    by simp
  with own show ?thesis
    by (auto simp: own_page_def followed_def Let_def theme_defs attribute_of_def split: option.splits)
qed

lemma theme_shown_and_stored_agree_witness:
  "let s = \<lparr>st_readable = True, st_writable = True, st_items = Map.empty\<rparr>;
       p = theme_run (theme_boot False None s) [Subscribe 1, Choose Dark, Choose Light]
   in getTheme (snd (theme_boot False None (fst p))) = Light \<and> themeAttribute (snd p) = Some Light
      \<and> themeCalls (snd p) = [(1, Dark), (1, Light)]"
  using theme_shown_and_stored_agree [of "[Subscribe 1, Choose Dark, Choose Light]" "[Host_Theme Dark]"
      None "\<lparr>st_readable = True, st_writable = True, st_items = Map.empty\<rparr>"]
  by (simp add: from_host_def chosen_def Let_def theme_defs attribute_of_def List.insert_def
      theme_pref.load_save)

end
