(* ===== verification/Embed_Bridge.thy ===== *)
theory Embed_Bridge
  imports Prelude
begin

text \<open>
  \<open>embed.ts\<close> and \<open>utils/embedEscape.ts\<close>: the page shown inside the editor. Its module state (the
  last visibility the host sent, the listeners, the reported state), the messages it posts to the
  extension and the ones it accepts from it, and the links it hands over.

  Outside: \<open>URLSearchParams.toString\<close> (the argument \<open>ser\<close>), \<open>JSON.stringify\<close> of a report
  (\<open>stringify\<close>) and the \<open>URL\<close> constructor (\<open>parse_url\<close>).
\<close>

definition EMBED_SOURCE :: ustring where
  "EMBED_SOURCE = js ''cd-webmanager-embed''"

text \<open>The parts of \<open>window.location\<close> the code reads; the search part as its parameters.\<close>

record location =
  loc_origin :: ustring
  loc_pathname :: ustring
  loc_search :: query

definition embed_mode :: "query \<Rightarrow> bool \<Rightarrow> bool" where
  "embed_mode params framed \<longleftrightarrow> params_get params (js ''embed'') = Some (js ''vscode'') \<and> framed"

text \<open>\<open>x || undefined\<close> for a string.\<close>

definition or_undefined :: "ustring option \<Rightarrow> ustring option" where
  "or_undefined x = (case x of Some s \<Rightarrow> if s = [] then None else Some s | None \<Rightarrow> None)"

datatype host_theme = HostLight | HostDark

record embed_params =
  ep_session :: "ustring option"
  ep_cwd :: "ustring option"
  ep_command :: "ustring option"
  ep_created :: "ustring option"
  ep_unpinned :: bool
  ep_theme :: "host_theme option"

definition embedParams :: "query \<Rightarrow> embed_params" where
  "embedParams params = \<lparr>
     ep_session = params_get params (js ''session''),
     ep_cwd = or_undefined (params_get params (js ''cwd'')),
     ep_command = or_undefined (params_get params (js ''cmd'')),
     ep_created = or_undefined (params_get params (js ''created'')),
     ep_unpinned = (params_get params (js ''unpinned'') = Some (js ''1'')),
     ep_theme = (if params_get params (js ''theme'') = Some (js ''light'') then Some HostLight
       else if params_get params (js ''theme'') = Some (js ''dark'') then Some HostDark else None)\<rparr>"

section \<open>Messages\<close>

text \<open>The properties of a partial object: missing, present but \<open>undefined\<close>, or a value.\<close>

datatype 'a prop_of = Absent | Undefined | Value 'a

fun prop_value :: "'a prop_of \<Rightarrow> 'a option" where
  "prop_value (Value x) = Some x"
| "prop_value _ = None"

text \<open>One property of \<open>{ ...a, ...b }\<close>.\<close>

definition spread_prop :: "'a prop_of \<Rightarrow> 'a prop_of \<Rightarrow> 'a prop_of" where
  "spread_prop a b = (if b = Absent then a else b)"

text \<open>\<open>session\<close> may be \<open>null\<close>, which is the value \<open>None\<close>.\<close>

record embed_state =
  es_session :: "ustring option prop_of"
  es_cwd :: "ustring prop_of"
  es_pinned :: "bool prop_of"
  es_created :: "ustring prop_of"

text \<open>The \<open>state\<close> message; an undefined property is left out, as in its JSON.\<close>

record state_msg =
  sm_section :: ustring
  sm_query :: ustring
  sm_path :: ustring
  sm_session :: "ustring option"
  sm_cwd :: "ustring option"
  sm_pinned :: "bool option"
  sm_created :: "ustring option"

datatype view_msg =
    State_Msg state_msg
  | Ready ustring
  | Open_Folder ustring
  | Open_External ustring
  | Open_Terminal "ustring" "ustring option" "ustring option"   \<comment> \<open>cwd, label, command\<close>
  | Open_Terminal_Session ustring
  | Open_Vnc ustring
  | Open_Vnc_Window ustring ustring
  | Vnc_Targets "json list"

text \<open>What the parent window receives: \<open>{ source, v: 1, ...msg }\<close> and the target origin.\<close>

record envelope =
  ev_source :: ustring
  ev_version :: nat
  ev_body :: view_msg
  ev_target :: ustring

section \<open>Module state\<close>

record bridge =
  br_hostListeners :: "nat list"
  br_hostVisible :: bool
  br_visibleListeners :: "nat list"
  br_extra :: embed_state
  br_lastSent :: ustring
  br_posted :: "envelope list"
  br_delivered :: "(nat \<times> json) list"     \<comment> \<open>calls of host listeners\<close>
  br_visibleCalls :: "nat list"              \<comment> \<open>calls of visibility listeners\<close>

definition empty_state :: embed_state where
  "empty_state = \<lparr>es_session = Absent, es_cwd = Absent, es_pinned = Absent, es_created = Absent\<rparr>"

definition bridge_init :: bridge where
  "bridge_init = \<lparr>br_hostListeners = [], br_hostVisible = True, br_visibleListeners = [],
     br_extra = empty_state, br_lastSent = [], br_posted = [], br_delivered = [], br_visibleCalls = []\<rparr>"

definition postToHost :: "bool \<Rightarrow> location \<Rightarrow> view_msg \<Rightarrow> bridge \<Rightarrow> bridge" where
  "postToHost EMBED loc msg b =
     (if \<not> EMBED then b
      else b\<lparr>br_posted := br_posted b @ [\<lparr>ev_source = EMBED_SOURCE, ev_version = 1, ev_body = msg,
              ev_target = loc_origin loc\<rparr>]\<rparr>)"

definition subscribeHostVisible :: "nat \<Rightarrow> bridge \<Rightarrow> bridge" where
  "subscribeHostVisible l b = b\<lparr>br_visibleListeners := List.insert l (br_visibleListeners b)\<rparr>"

definition unsubscribeHostVisible :: "nat \<Rightarrow> bridge \<Rightarrow> bridge" where
  "unsubscribeHostVisible l b = b\<lparr>br_visibleListeners := removeAll l (br_visibleListeners b)\<rparr>"

definition onHostMessage :: "nat \<Rightarrow> bridge \<Rightarrow> bridge" where
  "onHostMessage l b = b\<lparr>br_hostListeners := List.insert l (br_hostListeners b)\<rparr>"

definition offHostMessage :: "nat \<Rightarrow> bridge \<Rightarrow> bridge" where
  "offHostMessage l b = b\<lparr>br_hostListeners := removeAll l (br_hostListeners b)\<rparr>"

section \<open>Reporting the view\<close>

definition EMBED_ONLY_KEYS :: "ustring list" where
  "EMBED_ONLY_KEYS = [js ''embed'', js ''theme'', js ''cwd'', js ''cmd'', js ''created'', js ''unpinned'']"

definition merge_state :: "embed_state \<Rightarrow> embed_state \<Rightarrow> embed_state" where
  "merge_state old extra =
     (if prop_value (es_session extra) \<noteq> prop_value (es_session old) then extra
      else \<lparr>es_session = spread_prop (es_session old) (es_session extra),
            es_cwd = spread_prop (es_cwd old) (es_cwd extra),
            es_pinned = spread_prop (es_pinned old) (es_pinned extra),
            es_created = spread_prop (es_created old) (es_created extra)\<rparr>)"

definition last_segment :: "ustring \<Rightarrow> ustring" where
  "last_segment pathname =
     (let l = last (split_on U_SLASH pathname) in if l = [] then js ''supervisor'' else l)"

definition strip_embed_keys :: "query \<Rightarrow> query" where
  "strip_embed_keys q = fold params_delete EMBED_ONLY_KEYS q"

definition state_message :: "(query \<Rightarrow> ustring) \<Rightarrow> location \<Rightarrow> embed_state \<Rightarrow> state_msg" where
  "state_message ser loc st =
     (let section = last_segment (loc_pathname loc);
          qs = ser (strip_embed_keys (loc_search loc))
      in \<lparr>sm_section = section, sm_query = qs,
          sm_path = section @ (if qs = [] then [] else js ''?'' @ qs),
          sm_session = (case prop_value (es_session st) of Some s \<Rightarrow> s | None \<Rightarrow> None),
          sm_cwd = prop_value (es_cwd st),
          sm_pinned = prop_value (es_pinned st),
          sm_created = or_undefined (prop_value (es_created st))\<rparr>)"

definition reportEmbedState ::
  "(query \<Rightarrow> ustring) \<Rightarrow> (state_msg \<Rightarrow> ustring) \<Rightarrow> bool \<Rightarrow> location \<Rightarrow> embed_state option \<Rightarrow> bridge \<Rightarrow> bridge" where
  "reportEmbedState ser stringify EMBED loc extra b =
     (if \<not> EMBED then b
      else let b1 = (case extra of None \<Rightarrow> b
                     | Some e \<Rightarrow> b\<lparr>br_extra := merge_state (br_extra b) e\<rparr>);
               msg = state_message ser loc (br_extra b1);
               key = stringify msg
           in if key = br_lastSent b1 then b1
              else postToHost EMBED loc (State_Msg msg) (b1\<lparr>br_lastSent := key\<rparr>))"

section \<open>Messages from the host\<close>

record message_event =
  me_from_parent :: bool
  me_origin :: ustring
  me_data :: json

fun json_field :: "json \<Rightarrow> ustring \<Rightarrow> json option" where
  "json_field (JObject fs) k = map_of fs k"
| "json_field _ k = None"

text \<open>\<open>typeof data === 'object'\<close> of something truthy, carrying our tag.\<close>

definition is_ours :: "location \<Rightarrow> message_event \<Rightarrow> bool" where
  "is_ours loc e \<longleftrightarrow> me_from_parent e \<and> me_origin e = loc_origin loc
     \<and> json_field (me_data e) (js ''source'') = Some (JString EMBED_SOURCE)"

definition on_message :: "location \<Rightarrow> message_event \<Rightarrow> bridge \<Rightarrow> bridge" where
  "on_message loc e b =
     (if \<not> is_ours loc e then b
      else let data = me_data e;
               b1 = (case (json_field data (js ''type''), json_field data (js ''visible'')) of
                      (Some (JString t), Some (JBool v)) \<Rightarrow>
                         if t = js ''visibility'' \<and> v \<noteq> br_hostVisible b
                         then b\<lparr>br_hostVisible := v,
                                br_visibleCalls := br_visibleCalls b @ br_visibleListeners b\<rparr>
                         else b
                    | _ \<Rightarrow> b)
           in b1\<lparr>br_delivered := br_delivered b1 @ map (\<lambda>l. (l, data)) (br_hostListeners b1)\<rparr>)"

section \<open>Links and windows\<close>

record url =
  u_origin :: ustring
  u_pathname :: ustring
  u_search :: query
  u_href :: ustring

record anchor =
  a_href :: ustring
  a_target :: ustring
  a_download :: bool

text \<open>\<open>target.closest('a[href]')\<close> is the first component of a click.\<close>

record click =
  ck_anchor :: "anchor option"
  ck_button :: nat
  ck_ctrl :: bool
  ck_meta :: bool
  ck_shift :: bool

definition new_context :: "anchor \<Rightarrow> click \<Rightarrow> bool" where
  "new_context a e \<longleftrightarrow> a_target a = js ''_blank'' \<or> ck_button e = 1 \<or> ck_ctrl e \<or> ck_meta e \<or> ck_shift e"

definition leaves_frame :: "anchor \<Rightarrow> bool" where
  "leaves_frame a \<longleftrightarrow> a_target a = js ''_top'' \<or> a_target a = js ''_parent''"

text \<open>Whether the click is taken from the browser, and the bridge after it.\<close>

definition onLinkClick ::
  "(ustring \<Rightarrow> url option) \<Rightarrow> bool \<Rightarrow> location \<Rightarrow> click \<Rightarrow> bridge \<Rightarrow> bool \<times> bridge" where
  "onLinkClick parse_url EMBED loc e b =
     (case ck_anchor e of
        None \<Rightarrow> (False, b)
      | Some a \<Rightarrow>
          if a_download a then (False, b)
          else if \<not> new_context a e \<and> \<not> leaves_frame a then (False, b)
          else (case parse_url (a_href a) of
              None \<Rightarrow> (False, b)
            | Some u \<Rightarrow>
                let folder = (if u_origin u = loc_origin loc \<and> u_pathname u = js ''/''
                              then params_get (u_search u) (js ''folder'') else None)
                in (True, case or_undefined folder of
                      Some path \<Rightarrow> postToHost EMBED loc (Open_Folder path) b
                    | None \<Rightarrow> postToHost EMBED loc (Open_External (u_href u)) b)))"

definition window_open ::
  "(ustring \<Rightarrow> url option) \<Rightarrow> bool \<Rightarrow> location \<Rightarrow> ustring option \<Rightarrow> bridge \<Rightarrow> bridge" where
  "window_open parse_url EMBED loc target b =
     (case or_undefined target of
        None \<Rightarrow> b
      | Some t \<Rightarrow> (case parse_url t of None \<Rightarrow> b
                   | Some u \<Rightarrow> postToHost EMBED loc (Open_External (u_href u)) b))"

definition installEmbedBridges :: "bool \<Rightarrow> location \<Rightarrow> bridge \<Rightarrow> bridge" where
  "installEmbedBridges EMBED loc b =
     (if \<not> EMBED then b else postToHost EMBED loc (Ready (last_segment (loc_pathname loc))) b)"

section \<open>Escape in the overlay\<close>

record escape_event =
  ke_key :: ustring
  ke_prevented :: bool
  ke_in_terminal :: bool       \<comment> \<open>\<open>target.closest('.xterm')\<close>\<close>

text \<open>Whether the page asks its parent to close the overlay.\<close>

definition embed_escape_closes :: "bool \<Rightarrow> bool \<Rightarrow> bool \<Rightarrow> escape_event \<Rightarrow> bool" where
  "embed_escape_closes framed EMBED dialog_open e \<longleftrightarrow>
     \<not> (\<not> framed \<or> EMBED) \<and> ke_key e = js ''Escape'' \<and> \<not> ke_prevented e \<and> \<not> ke_in_terminal e
     \<and> \<not> dialog_open"

lemmas bridge_defs = postToHost_def subscribeHostVisible_def unsubscribeHostVisible_def
  onHostMessage_def offHostMessage_def

end
