(* ===== verification/Embed_View.thy ===== *)
theory Embed_View
  imports Embed_Bridge
begin

text \<open>
  What the editor's extension sees of an embedded page: the reports it receives are the sequence
  of views with adjacent repetitions dropped, visibility follows the last message of the parent,
  and a click is taken over exactly when it would leave the frame.
\<close>

section \<open>Reports\<close>

type_synonym report = "location \<times> embed_state option"

definition report_run ::
  "(query \<Rightarrow> ustring) \<Rightarrow> (state_msg \<Rightarrow> ustring) \<Rightarrow> bridge \<Rightarrow> report list \<Rightarrow> bridge" where
  "report_run ser stringify b rs =
     foldl (\<lambda>b (loc, extra). reportEmbedState ser stringify True loc extra b) b rs"

definition merge_report :: "embed_state \<Rightarrow> embed_state option \<Rightarrow> embed_state" where
  "merge_report st extra = (case extra of None \<Rightarrow> st | Some e \<Rightarrow> merge_state st e)"

text \<open>The view each report describes.\<close>

fun report_views :: "(query \<Rightarrow> ustring) \<Rightarrow> embed_state \<Rightarrow> report list \<Rightarrow> state_msg list" where
  "report_views ser st [] = []"
| "report_views ser st ((loc, extra) # rs) =
     state_message ser loc (merge_report st extra) # report_views ser (merge_report st extra) rs"

definition posted_bodies :: "bridge \<Rightarrow> view_msg list" where
  "posted_bodies b = map ev_body (br_posted b)"

lemma reportEmbedState_embedded:
  "reportEmbedState ser stringify True loc extra b =
     (let st = merge_report (br_extra b) extra; m = state_message ser loc st; k = stringify m
      in if k = br_lastSent b then b\<lparr>br_extra := st\<rparr>
         else postToHost True loc (State_Msg m) (b\<lparr>br_extra := st, br_lastSent := k\<rparr>))"
  by (cases extra) (simp_all add: reportEmbedState_def merge_report_def Let_def)

lemma map_remdups_adj_head: "f m # map f (tl (remdups_adj (m # xs))) = map f (remdups_adj (m # xs))"
  by (simp add: remdups_adj_Cons split: list.split)

text \<open>The reports after the first: \<open>m\<close> is the last message sent.\<close>

lemma report_run_sent:
  assumes "inj stringify" "br_lastSent b = stringify m"
  shows "posted_bodies (report_run ser stringify b rs) =
     posted_bodies b @ map State_Msg (tl (remdups_adj (m # report_views ser (br_extra b) rs)))"
  using assms(2)
proof (induction rs arbitrary: b m)
  case (Cons r rs)
  obtain loc extra where r: "r = (loc, extra)" by (cases r)
  define st where "st = merge_report (br_extra b) extra"
  define m' where "m' = state_message ser loc st"
  define b' where "b' = reportEmbedState ser stringify True loc extra b"
  have run: "report_run ser stringify b (r # rs) = report_run ser stringify b' rs"
    by (simp add: report_run_def r b'_def)
  have views: "report_views ser (br_extra b) (r # rs) = m' # report_views ser st rs"
    by (simp add: r st_def m'_def)
  have eq: "stringify m' = br_lastSent b \<longleftrightarrow> m' = m"
    using Cons.prems assms(1) by (auto dest: injD)
  have b': "b' = (if m' = m then b\<lparr>br_extra := st\<rparr>
      else postToHost True loc (State_Msg m') (b\<lparr>br_extra := st, br_lastSent := stringify m'\<rparr>))"
    using eq by (simp add: b'_def reportEmbedState_embedded st_def m'_def Let_def)
  have "br_lastSent b' = stringify m'" "br_extra b' = st"
    using Cons.prems by (auto simp: b' postToHost_def)
  moreover have "posted_bodies b' = posted_bodies b @ (if m' = m then [] else [State_Msg m'])"
    by (simp add: b' posted_bodies_def postToHost_def)
  moreover have "posted_bodies (report_run ser stringify b' rs) =
      posted_bodies b' @ map State_Msg (tl (remdups_adj (m' # report_views ser st rs)))"
    using Cons.IH [of b' m'] calculation(1,2) by simp
  ultimately show ?case
    by (simp add: run views map_remdups_adj_head)
qed (simp add: report_run_def)

lemma report_run_posted:
  assumes "inj stringify" "\<And>m. stringify m \<noteq> []"
  shows "posted_bodies (report_run ser stringify bridge_init rs) =
     map State_Msg (remdups_adj (report_views ser empty_state rs))"
proof (cases rs)
  case (Cons r rs')
  obtain loc extra where r: "r = (loc, extra)" by (cases r)
  define st where "st = merge_report empty_state extra"
  define m where "m = state_message ser loc st"
  define b where "b = reportEmbedState ser stringify True loc extra bridge_init"
  have b: "b = postToHost True loc (State_Msg m) (bridge_init\<lparr>br_extra := st, br_lastSent := stringify m\<rparr>)"
    using assms(2) [of m] by (simp add: b_def reportEmbedState_embedded st_def m_def bridge_init_def Let_def)
  have "posted_bodies (report_run ser stringify b rs') =
      State_Msg m # map State_Msg (tl (remdups_adj (m # report_views ser st rs')))"
    using report_run_sent [OF assms(1), of b m ser rs']
    by (simp add: b postToHost_def posted_bodies_def bridge_init_def)
  also have "\<dots> = map State_Msg (remdups_adj (m # report_views ser st rs'))"
    by (rule map_remdups_adj_head)
  finally show ?thesis
    by (simp add: Cons r report_run_def b_def st_def m_def)
qed (simp add: report_run_def posted_bodies_def bridge_init_def)

lemma params_get_fold_delete:
  "params_get (fold params_delete ks q) k = (if k \<in> set ks then None else params_get q k)"
  by (induction ks arbitrary: q) auto

lemma params_get_strip:
  "params_get (strip_embed_keys q) k = (if k \<in> set EMBED_ONLY_KEYS then None else params_get q k)"
  by (simp add: strip_embed_keys_def params_get_fold_delete)

text \<open>A report about another session starts from nothing.\<close>

lemma merge_other_session:
  "prop_value (es_session e) \<noteq> prop_value (es_session st) \<Longrightarrow> merge_state st e = e"
  by (simp add: merge_state_def)

lemma merge_same_session:
  assumes "prop_value (es_session e) = prop_value (es_session st)" "es_created e = Absent"
  shows "es_created (merge_state st e) = es_created st"
  using assms by (simp add: merge_state_def spread_prop_def)

section \<open>Messages of the parent\<close>

lemma on_message_foreign: "\<not> is_ours loc e \<Longrightarrow> on_message loc e b = b"
  by (simp add: on_message_def)

lemma on_message_delivers:
  "is_ours loc e \<Longrightarrow>
     br_delivered (on_message loc e b) = br_delivered b @ map (\<lambda>l. (l, me_data e)) (br_hostListeners b)"
  by (auto simp: on_message_def Let_def split: option.split json.split)

lemma on_message_keeps [simp]:
  "br_hostListeners (on_message loc e b) = br_hostListeners b"
  "br_visibleListeners (on_message loc e b) = br_visibleListeners b"
  by (auto simp: on_message_def Let_def split: option.split json.split)

definition visibility_of :: "location \<Rightarrow> message_event \<Rightarrow> bool option" where
  "visibility_of loc e =
     (if \<not> is_ours loc e then None
      else case (json_field (me_data e) (js ''type''), json_field (me_data e) (js ''visible'')) of
             (Some (JString t), Some (JBool v)) \<Rightarrow> if t = js ''visibility'' then Some v else None
           | _ \<Rightarrow> None)"

lemma on_message_visibility:
  "br_hostVisible (on_message loc e b) =
     (case visibility_of loc e of Some v \<Rightarrow> v | None \<Rightarrow> br_hostVisible b)"
  "br_visibleCalls (on_message loc e b) =
     br_visibleCalls b @ (if br_hostVisible (on_message loc e b) = br_hostVisible b then []
                          else br_visibleListeners b)"
  by (auto simp: on_message_def visibility_of_def Let_def split: option.split json.split)

section \<open>Properties\<close>

text \<open>C34: In an embedded page any sequence of reports, under any changes of the location, posts
  exactly the sequence of views with adjacent repetitions dropped: every new view is posted once and
  the last message always describes the current view. The reported query never holds a key that
  only means something to the embed, a report about another session inherits nothing from the one
  before, and leaving \<open>created\<close> out keeps the one already known.\<close>
theorem embed_reports_follow_the_view:
  assumes "inj stringify" and "\<And>m. stringify m \<noteq> []"
  shows "posted_bodies (report_run ser stringify bridge_init rs) =
       map State_Msg (remdups_adj (report_views ser empty_state rs))
    \<and> params_get (strip_embed_keys q) k = (if k \<in> set EMBED_ONLY_KEYS then None else params_get q k)
    \<and> merge_state st e = (if prop_value (es_session e) \<noteq> prop_value (es_session st) then e
         else (merge_state st e)\<lparr>es_created := if es_created e = Absent then es_created st else es_created e\<rparr>)"
  using report_run_posted [OF assms, of ser rs] params_get_strip [of q k]
  by (auto simp: merge_state_def spread_prop_def)

text \<open>A printer that keeps the fields apart, to apply the property.\<close>

definition field_text :: "ustring \<Rightarrow> ustring" where
  "field_text s = length s # s"

definition option_text :: "ustring option \<Rightarrow> ustring" where
  "option_text x = (case x of None \<Rightarrow> [0] | Some s \<Rightarrow> 1 # field_text s)"

definition bool_text :: "bool option \<Rightarrow> ustring" where
  "bool_text x = [case x of None \<Rightarrow> 0 | Some b \<Rightarrow> if b then 1 else 2]"

definition message_text :: "state_msg \<Rightarrow> ustring" where
  "message_text m = field_text (sm_section m) @ field_text (sm_query m) @ field_text (sm_path m)
     @ option_text (sm_session m) @ option_text (sm_cwd m) @ bool_text (sm_pinned m)
     @ option_text (sm_created m)"

lemma field_text_inject: "field_text a @ x = field_text b @ y \<longleftrightarrow> a = b \<and> x = y"
  by (auto simp: field_text_def)

lemma option_text_inject: "option_text a @ x = option_text b @ y \<longleftrightarrow> a = b \<and> x = y"
  by (auto simp: option_text_def field_text_inject split: option.splits)

lemma bool_text_inject: "bool_text a @ x = bool_text b @ y \<longleftrightarrow> a = b \<and> x = y"
  by (auto simp: bool_text_def split: option.splits if_splits)

lemma message_text_inj: "inj message_text"
proof (rule injI)
  fix m n assume "message_text m = message_text n"
  then show "m = n"
    using option_text_inject [of "sm_created m" "[]" "sm_created n" "[]"]
    by (cases m; cases n)
      (simp add: message_text_def field_text_inject option_text_inject bool_text_inject)
qed

lemma message_text_nonempty: "message_text m \<noteq> []"
  by (simp add: message_text_def field_text_def)

definition first_value :: "query \<Rightarrow> ustring" where
  "first_value q = (case q of [] \<Rightarrow> [] | (k, v) # _ \<Rightarrow> v)"

theorem embed_reports_follow_the_view_witness:
  "let loc = \<lparr>loc_origin = js ''https://h'', loc_pathname = js ''/manager/files'',
        loc_search = [(js ''embed'', js ''vscode''), (js ''path'', js ''/w'')]\<rparr>;
       there = loc\<lparr>loc_search := [(js ''path'', js ''/x'')]\<rparr>;
       views = report_views first_value empty_state [(loc, None), (loc, None), (there, None)]
   in posted_bodies (report_run first_value message_text bridge_init
        [(loc, None), (loc, None), (there, None)]) = map State_Msg (remdups_adj views)"
  using embed_reports_follow_the_view [OF message_text_inj message_text_nonempty] by (simp add: Let_def)

text \<open>Messages that do not come from the parent window, from this origin and with the
  extension's tag change nothing; every other one reaches each host listener once, in order. After
  any messages the page takes itself for hidden or shown as the last visibility message said, and
  the visibility listeners are called exactly when that changes.\<close>
lemma host_messages_are_filtered:
  "(is_ours loc m \<or> on_message loc m c = c)
   \<and> br_delivered (foldl (\<lambda>b e. on_message loc e b) b es) =
       br_delivered b @ concat (map (\<lambda>e. map (\<lambda>l. (l, me_data e)) (br_hostListeners b))
                                (filter (is_ours loc) es))
   \<and> br_hostVisible (foldl (\<lambda>b e. on_message loc e b) b es) =
       foldl (\<lambda>v e. case visibility_of loc e of Some w \<Rightarrow> w | None \<Rightarrow> v) (br_hostVisible b) es
   \<and> br_visibleCalls (foldl (\<lambda>b e. on_message loc e b) b (es @ [e])) =
       br_visibleCalls (foldl (\<lambda>b e. on_message loc e b) b es) @
         (if br_hostVisible (foldl (\<lambda>b e. on_message loc e b) b (es @ [e]))
               = br_hostVisible (foldl (\<lambda>b e. on_message loc e b) b es)
          then [] else br_visibleListeners b)"
proof -
  have lst: "br_hostListeners (foldl (\<lambda>b e. on_message loc e b) b es) = br_hostListeners b"
    "br_visibleListeners (foldl (\<lambda>b e. on_message loc e b) b es) = br_visibleListeners b" for b es
    by (induction es arbitrary: b) simp_all
  have del: "br_delivered (foldl (\<lambda>b e. on_message loc e b) b es) =
       br_delivered b @ concat (map (\<lambda>e. map (\<lambda>l. (l, me_data e)) (br_hostListeners b))
                                (filter (is_ours loc) es))"
    by (induction es arbitrary: b) (simp_all add: on_message_delivers on_message_foreign)
  have vis: "br_hostVisible (foldl (\<lambda>b e. on_message loc e b) b es) =
       foldl (\<lambda>v e. case visibility_of loc e of Some w \<Rightarrow> w | None \<Rightarrow> v) (br_hostVisible b) es"
    by (induction es arbitrary: b) (simp_all add: on_message_visibility(1))
  have calls: "br_visibleCalls (foldl (\<lambda>b e. on_message loc e b) b (es @ [e])) =
       br_visibleCalls (foldl (\<lambda>b e. on_message loc e b) b es) @
         (if br_hostVisible (foldl (\<lambda>b e. on_message loc e b) b (es @ [e]))
               = br_hostVisible (foldl (\<lambda>b e. on_message loc e b) b es)
          then [] else br_visibleListeners b)"
    by (simp only: foldl_append foldl.simps on_message_visibility(2) lst)
  have foreign: "is_ours loc m \<or> on_message loc m c = c" using on_message_foreign by blast
  show ?thesis by (intro conjI foreign del vis calls)
qed

text \<open>A click on a link of an embedded page is taken from the browser exactly when the link is
  not a download, would open a new browsing context or leave the frame, and has a parsable target;
  then exactly one message goes out, naming the folder for the editor's own folder link of this
  origin and the absolute address otherwise. A page outside the editor posts nothing, and
  \<open>window.open\<close> posts the address it was given.\<close>
lemma links_leave_through_the_host:
  "(let (taken, b') = onLinkClick parse_url True loc e b
    in (taken \<longleftrightarrow> (\<exists>a u. ck_anchor e = Some a \<and> \<not> a_download a \<and> (new_context a e \<or> leaves_frame a)
                       \<and> parse_url (a_href a) = Some u))
       \<and> (if taken then (\<exists>a u. ck_anchor e = Some a \<and> parse_url (a_href a) = Some u \<and>
              posted_bodies b' = posted_bodies b @
                [case params_get (u_search u) (js ''folder'') of
                   Some f \<Rightarrow> if u_origin u = loc_origin loc \<and> u_pathname u = js ''/'' \<and> f \<noteq> []
                              then Open_Folder f else Open_External (u_href u)
                 | None \<Rightarrow> Open_External (u_href u)])
          else b' = b))
   \<and> snd (onLinkClick parse_url False loc e b) = b
   \<and> posted_bodies (window_open parse_url True loc target b) = posted_bodies b @
       (case target of None \<Rightarrow> []
        | Some t \<Rightarrow> if t = [] then [] else
            (case parse_url t of None \<Rightarrow> [] | Some u \<Rightarrow> [Open_External (u_href u)]))"
  by (auto simp: onLinkClick_def window_open_def postToHost_def posted_bodies_def or_undefined_def
      Let_def split: option.split if_splits)

text \<open>Escape asks the page that embeds this one to close only from the overlay: never in a view of
  the editor or a page of its own, and never when the key was already handled, went to the terminal
  or belongs to an open dialog; in embed mode the page announces itself with one ready message
  naming its section.\<close>
lemma embed_start_and_escape:
  "embed_escape_closes framed EMBED dialog e \<Longrightarrow> framed \<and> \<not> EMBED \<and> \<not> dialog \<and> \<not> ke_prevented e \<and> \<not> ke_in_terminal e"
  "posted_bodies (installEmbedBridges True loc b) = posted_bodies b @ [Ready (last_segment (loc_pathname loc))]"
  "installEmbedBridges False loc b = b"
  by (simp_all add: embed_escape_closes_def installEmbedBridges_def postToHost_def posted_bodies_def)

end
