(* ===== verification/Navigation.thy ===== *)
theory Navigation
  imports Embed_View
begin

text \<open>
  \<open>App.tsx\<close> and \<open>components/Layout/sections.ts\<close>: the sections, the path and query that name what is
  shown, the history entries behind the Back button, the one-shot requests handed from one tab to
  another, and the messages of the VNC frame. \<open>utils/viewTransition.ts\<close> decides whether an update
  runs at once or when the browser calls back.

  The browser's session history is the list of this page's entries and the position in it; a
  traversal asked for with \<open>history.back()\<close> lands later. Outside: printing of the query and of a
  report (the fields of \<open>platform\<close>).
\<close>

section \<open>Sections\<close>

record section_meta =
  sec_id :: ustring
  sec_label :: ustring
  sec_implemented :: bool

definition sec :: "string \<Rightarrow> ustring \<Rightarrow> section_meta" where
  "sec i l = \<lparr>sec_id = js i, sec_label = l, sec_implemented = True\<rparr>"

definition SECTIONS :: "section_meta list" where
  "SECTIONS = [
     sec ''supervisor'' (js ''Supervisor''),
     sec ''ssh-keys'' (js ''SSH Keys''),
     sec ''git-config'' (js ''Git Config''),
     sec ''dev-proxy'' (js ''Dev Proxy''),
     sec ''app-routes'' (js ''App Routes''),
     sec ''vnc'' (js ''VNC''),
     sec ''tailscale'' (js ''Tailscale''),
     sec ''dns'' (js ''DNS''),
     sec ''net'' (js ''Net '' @ [0xad00, 0xb9ac]),
     sec ''tinyauth'' (js ''tinyauth''),
     sec ''router-settings'' (js ''Router '' @ [0xc124, 0xc815]),
     sec ''logs'' (js ''Logs''),
     sec ''processes'' (js ''Task Manager''),
     sec ''projects'' (js ''Projects''),
     sec ''mise'' (js ''mise''),
     sec ''dind'' (js ''Docker (dind)''),
     sec ''terminal'' (js ''Terminal''),
     sec ''fonts'' [0xd3f0, 0xd2b8],
     sec ''claude'' (js ''Claude Code''),
     sec ''extensions'' (js ''Code Extensions''),
     sec ''files'' (js ''Files''),
     sec ''file-share'' (js ''File share''),
     sec ''sessions'' (js ''Sessions'')]"

definition PROVIDER_PREFIX :: ustring where
  "PROVIDER_PREFIX = js ''provider-''"

definition providerSectionId :: "ustring \<Rightarrow> ustring" where
  "providerSectionId providerId = PROVIDER_PREFIX @ providerId"

definition providerIdOf :: "ustring \<Rightarrow> ustring option" where
  "providerIdOf i = (if starts_with i PROVIDER_PREFIX then Some (drop (length PROVIDER_PREFIX) i) else None)"

definition isSectionId :: "ustring option \<Rightarrow> bool" where
  "isSectionId v = list_ex (\<lambda>s. Some (sec_id s) = v) SECTIONS"

definition isActiveId :: "ustring option \<Rightarrow> bool" where
  "isActiveId v = (isSectionId v \<or>
     (case v of None \<Rightarrow> False
      | Some s \<Rightarrow> length s > length PROVIDER_PREFIX \<and> starts_with s PROVIDER_PREFIX))"

definition IFRAME_SECTIONS :: "ustring list" where
  "IFRAME_SECTIONS = [js ''dev-proxy'', js ''app-routes'', js ''vnc'', js ''tailscale'', js ''dns'',
     js ''net'', js ''tinyauth'', js ''router-settings'']"

definition isIframeSection :: "ustring \<Rightarrow> bool" where
  "isIframeSection i = (i \<in> set IFRAME_SECTIONS \<or> providerIdOf i \<noteq> None)"

definition HOME :: ustring where
  "HOME = js ''supervisor''"

text \<open>\<open>{ root, section }\<close>.\<close>

definition splitPath :: "ustring \<Rightarrow> ustring \<times> ustring option" where
  "splitPath pathname =
     (let segments = split_on U_SLASH pathname;
          l = last segments;
          lst = (if l = [] then None else Some l)
      in if isActiveId lst then (join_with U_SLASH (butlast segments) @ [U_SLASH], lst)
         else (if ends_with pathname [U_SLASH] then pathname else pathname @ [U_SLASH], None))"

text \<open>\<open>splitPath(pathname).section ?? HOME\<close>\<close>

definition section_of_path :: "ustring \<Rightarrow> ustring" where
  "section_of_path pathname = (case snd (splitPath pathname) of Some i \<Rightarrow> i | None \<Rightarrow> HOME)"

section \<open>State\<close>

record platform =
  pf_serialize :: "query \<Rightarrow> ustring"
  pf_stringify :: "state_msg \<Rightarrow> ustring"

text \<open>An entry of the session history; its state is the \<open>homeBelow\<close> marker or \<open>null\<close>.\<close>

record entry =
  he_path :: ustring
  he_query :: query
  he_homeBelow :: bool

record terminal_open =
  to_cwd :: "ustring option"
  to_label :: "ustring option"
  to_command :: "ustring option"
  to_session :: "ustring option"

record app =
  ap_embed :: bool
  ap_origin :: ustring
  ap_root :: ustring                      \<comment> \<open>\<open>rootPath\<close>\<close>
  ap_active :: ustring
  ap_entries :: "entry list"
  ap_pos :: nat
  ap_backs :: nat                         \<comment> \<open>\<open>history.back()\<close> calls that have not landed\<close>
  ap_left :: bool                         \<comment> \<open>traversed below this page's first entry\<close>
  ap_deferred :: "ustring list"           \<comment> \<open>tab changes waiting for the browser's callback\<close>
  ap_vncVisited :: bool
  ap_vncActive :: "ustring option"
  ap_pendingTerminal :: "terminal_open option"
  ap_pendingFiles :: "ustring option"
  ap_pendingProject :: "ustring option"
  ap_restoreSession :: "ustring option"
  ap_filesDialog :: "ustring option"
  ap_projectInfo :: "ustring option"
  ap_projectCommit :: "ustring option"
  ap_bridge :: bridge

definition current_entry :: "app \<Rightarrow> entry" where
  "current_entry s = ap_entries s ! ap_pos s"

definition app_location :: "app \<Rightarrow> location" where
  "app_location s = \<lparr>loc_origin = ap_origin s, loc_pathname = he_path (current_entry s),
     loc_search = he_query (current_entry s)\<rparr>"

definition hasHomeBelow :: "app \<Rightarrow> bool" where
  "hasHomeBelow s = he_homeBelow (current_entry s)"

definition pushState :: "entry \<Rightarrow> app \<Rightarrow> app" where
  "pushState e s = s\<lparr>ap_entries := take (Suc (ap_pos s)) (ap_entries s) @ [e], ap_pos := Suc (ap_pos s)\<rparr>"

definition replaceState :: "entry \<Rightarrow> app \<Rightarrow> app" where
  "replaceState e s = s\<lparr>ap_entries := (ap_entries s)[ap_pos s := e]\<rparr>"

definition history_back :: "app \<Rightarrow> app" where
  "history_back s = s\<lparr>ap_backs := Suc (ap_backs s)\<rparr>"

definition post :: "view_msg \<Rightarrow> app \<Rightarrow> app" where
  "post msg s = s\<lparr>ap_bridge := postToHost (ap_embed s) (app_location s) msg (ap_bridge s)\<rparr>"

definition report :: "platform \<Rightarrow> embed_state option \<Rightarrow> app \<Rightarrow> app" where
  "report pf extra s = s\<lparr>ap_bridge :=
     reportEmbedState (pf_serialize pf) (pf_stringify pf) (ap_embed s) (app_location s) extra (ap_bridge s)\<rparr>"

definition writeQuery :: "platform \<Rightarrow> ustring \<Rightarrow> ustring option \<Rightarrow> app \<Rightarrow> app" where
  "writeQuery pf key val s =
     (let e = current_entry s;
          q = (case or_undefined val of Some v \<Rightarrow> params_set key v (he_query e)
                                      | None \<Rightarrow> params_delete key (he_query e))
      in report pf None (replaceState (e\<lparr>he_query := q\<rparr>) s))"

section \<open>Changing the tab\<close>

definition setActive :: "ustring \<Rightarrow> app \<Rightarrow> app" where
  "setActive i s =
     (let s1 = s\<lparr>ap_active := i\<rparr>;
          current = section_of_path (he_path (current_entry s));
          there = \<lparr>he_path = ap_root s @ i, he_query = [], he_homeBelow = False\<rparr>
      in if i = current then s1
         else if i = HOME then
           (if hasHomeBelow s1 then history_back s1 else replaceState there s1)
         else if current = HOME then pushState (there\<lparr>he_homeBelow := True\<rparr>) s1
         else replaceState (there\<lparr>he_homeBelow := hasHomeBelow s1\<rparr>) s1)"

text \<open>
  What a render with another active section brings: the VNC frame stays mounted from then on, its
  target returns to the query, and the view is reported.
\<close>

definition active_effects :: "platform \<Rightarrow> app \<Rightarrow> app" where
  "active_effects pf s =
     (let s1 = s\<lparr>ap_vncVisited := (ap_vncVisited s \<or> ap_active s = js ''vnc'')\<rparr>;
          s2 = (if ap_active s1 = js ''vnc'' then writeQuery pf (js ''target'') (ap_vncActive s1) s1 else s1)
      in report pf None s2)"

definition commit :: "platform \<Rightarrow> app \<Rightarrow> app \<Rightarrow> app" where
  "commit pf old s = (if ap_active s = ap_active old then s else active_effects pf s)"

definition select_tab :: "platform \<Rightarrow> ustring \<Rightarrow> app \<Rightarrow> app" where
  "select_tab pf i s = commit pf s (setActive i s)"

text \<open>\<open>withViewTransition\<close>: at once without the API, on a hidden document or next to a frame.\<close>

definition withViewTransition :: "platform \<Rightarrow> bool \<Rightarrow> ustring \<Rightarrow> app \<Rightarrow> app" where
  "withViewTransition pf can_animate i s =
     (if \<not> can_animate then select_tab pf i s else s\<lparr>ap_deferred := ap_deferred s @ [i]\<rparr>)"

definition transition_callback :: "platform \<Rightarrow> app \<Rightarrow> app" where
  "transition_callback pf s =
     (case ap_deferred s of [] \<Rightarrow> s | i # rest \<Rightarrow> select_tab pf i (s\<lparr>ap_deferred := rest\<rparr>))"

text \<open>The sidebar: no transition into a section that is a frame.\<close>

definition sidebar_select :: "platform \<Rightarrow> bool \<Rightarrow> ustring \<Rightarrow> app \<Rightarrow> app" where
  "sidebar_select pf can_animate i s =
     (if isIframeSection i then select_tab pf i s else withViewTransition pf can_animate i s)"

definition onPopState :: "platform \<Rightarrow> app \<Rightarrow> app" where
  "onPopState pf s = commit pf s (s\<lparr>ap_active := section_of_path (he_path (current_entry s))\<rparr>)"

text \<open>The browser's side of a traversal by one entry.\<close>

definition go_back :: "platform \<Rightarrow> app \<Rightarrow> app" where
  "go_back pf s = (if ap_pos s = 0 then s\<lparr>ap_left := True\<rparr>
     else onPopState pf (s\<lparr>ap_pos := ap_pos s - 1\<rparr>))"

definition go_forward :: "platform \<Rightarrow> app \<Rightarrow> app" where
  "go_forward pf s = (if Suc (ap_pos s) < length (ap_entries s)
     then onPopState pf (s\<lparr>ap_pos := Suc (ap_pos s)\<rparr>) else s)"

section \<open>Mounting\<close>

text \<open>The first render, from the entries the browser has for this tab.\<close>

definition app_init :: "bool \<Rightarrow> ustring \<Rightarrow> entry list \<Rightarrow> nat \<Rightarrow> bridge \<Rightarrow> app" where
  "app_init EMBED origin entries pos b =
     (let e = entries ! pos; (root_path, section) = splitPath (he_path e);
          active = (case section of Some i \<Rightarrow> i | None \<Rightarrow> HOME);
          from_query = (\<lambda>i k. if section = Some (js i) then params_get (he_query e) (js k) else None)
      in \<lparr>ap_embed = EMBED, ap_origin = origin, ap_root = root_path, ap_active = active,
          ap_entries = entries, ap_pos = pos, ap_backs = 0, ap_left = False, ap_deferred = [],
          ap_vncVisited = (active = js ''vnc''),
          ap_vncActive = from_query ''vnc'' ''target'',
          ap_pendingTerminal = None,
          ap_pendingFiles = from_query ''files'' ''path'',
          ap_pendingProject = from_query ''projects'' ''project'',
          ap_restoreSession = (if EMBED then None else from_query ''terminal'' ''session''),
          ap_filesDialog = None, ap_projectInfo = None, ap_projectCommit = None,
          ap_bridge = b\<rparr>)"

text \<open>The effect that puts a home entry underneath a page opened straight onto a tab.\<close>

definition slip_in_home :: "app \<Rightarrow> app" where
  "slip_in_home s =
     (let here = current_entry s; section = snd (splitPath (he_path here))
      in if ap_embed s \<or> section = None \<or> section = Some HOME \<or> hasHomeBelow s then s
         else pushState (here\<lparr>he_homeBelow := True\<rparr>)
                (replaceState \<lparr>he_path = ap_root s @ HOME, he_query = [], he_homeBelow = False\<rparr> s))"

definition app_mount :: "platform \<Rightarrow> bool \<Rightarrow> ustring \<Rightarrow> entry list \<Rightarrow> nat \<Rightarrow> bridge \<Rightarrow> app" where
  "app_mount pf EMBED origin entries pos b =
     active_effects pf (slip_in_home (app_init EMBED origin entries pos b))"

definition vncInitialParams :: "app \<Rightarrow> query" where
  "vncInitialParams s =
     (case or_undefined (ap_vncActive s) of None \<Rightarrow> [] | Some t \<Rightarrow> [(js ''target'', t)])
     @ (if ap_embed s then [(js ''mode'', js ''host'')] else [])"

section \<open>Requests between tabs\<close>

definition openInTerminal ::
  "platform \<Rightarrow> bool \<Rightarrow> ustring \<Rightarrow> ustring option \<Rightarrow> ustring option \<Rightarrow> app \<Rightarrow> app" where
  "openInTerminal pf can_animate cwd label command s =
     (let s1 = s\<lparr>ap_projectInfo := None\<rparr>
      in if ap_embed s then post (Open_Terminal cwd label command) s1
         else withViewTransition pf can_animate (js ''terminal'')
                (s1\<lparr>ap_pendingTerminal := Some \<lparr>to_cwd = Some cwd, to_label = label,
                                                to_command = command, to_session = None\<rparr>\<rparr>))"

definition openTerminalSession :: "platform \<Rightarrow> bool \<Rightarrow> ustring \<Rightarrow> app \<Rightarrow> app" where
  "openTerminalSession pf can_animate name s =
     (let s1 = s\<lparr>ap_projectInfo := None\<rparr>
      in if ap_embed s then post (Open_Terminal_Session name) s1
         else withViewTransition pf can_animate (js ''terminal'')
                (s1\<lparr>ap_pendingTerminal := Some \<lparr>to_cwd = None, to_label = None,
                                                to_command = None, to_session = Some name\<rparr>\<rparr>))"

definition openInFileManager :: "platform \<Rightarrow> bool \<Rightarrow> ustring \<Rightarrow> app \<Rightarrow> app" where
  "openInFileManager pf can_animate path s =
     withViewTransition pf can_animate (js ''files'') (s\<lparr>ap_pendingFiles := Some path\<rparr>)"

definition openFileManagerOverlay :: "ustring \<Rightarrow> app \<Rightarrow> app" where
  "openFileManagerOverlay path s = s\<lparr>ap_filesDialog := Some path\<rparr>"

definition openProject :: "platform \<Rightarrow> bool \<Rightarrow> ustring \<Rightarrow> app \<Rightarrow> app" where
  "openProject pf can_animate path s =
     withViewTransition pf can_animate (js ''projects'')
       (s\<lparr>ap_projectInfo := None, ap_pendingProject := Some path\<rparr>)"

text \<open>\<open>unlocked\<close>: the answer of \<open>ensureUnlocked\<close>.\<close>

definition openProjectInfo :: "bool \<Rightarrow> ustring \<Rightarrow> ustring option \<Rightarrow> app \<Rightarrow> app" where
  "openProjectInfo unlocked path git_commit s =
     (if \<not> unlocked then s else s\<lparr>ap_projectCommit := git_commit, ap_projectInfo := Some path\<rparr>)"

definition handleActiveSessionChange :: "platform \<Rightarrow> ustring option \<Rightarrow> app \<Rightarrow> app" where
  "handleActiveSessionChange pf name s = writeQuery pf (js ''session'') name s"

definition handleFilesPathChange :: "platform \<Rightarrow> ustring option \<Rightarrow> app \<Rightarrow> app" where
  "handleFilesPathChange pf path s = writeQuery pf (js ''path'') path s"

definition handleSelectedProjectChange :: "platform \<Rightarrow> ustring option \<Rightarrow> app \<Rightarrow> app" where
  "handleSelectedProjectChange pf path s = writeQuery pf (js ''project'') path s"

text \<open>The mounted tab takes its request: \<open>onInitialOpenConsumed\<close> and its two siblings.\<close>

definition consume_terminal :: "app \<Rightarrow> terminal_open option \<times> app" where
  "consume_terminal s = (ap_pendingTerminal s, s\<lparr>ap_pendingTerminal := None\<rparr>)"

definition consume_files :: "app \<Rightarrow> ustring option \<times> app" where
  "consume_files s = (ap_pendingFiles s, s\<lparr>ap_pendingFiles := None\<rparr>)"

definition consume_project :: "app \<Rightarrow> ustring option \<times> app" where
  "consume_project s = (ap_pendingProject s, s\<lparr>ap_pendingProject := None\<rparr>)"

text \<open>Messages of the VNC frame.\<close>

definition json_string :: "json option \<Rightarrow> ustring option" where
  "json_string v = (case v of Some (JString t) \<Rightarrow> Some t | _ \<Rightarrow> None)"

definition handleVncMessage :: "platform \<Rightarrow> json \<Rightarrow> app \<Rightarrow> app" where
  "handleVncMessage pf data s =
     (let field = (\<lambda>k. json_field data (js k)); str = (\<lambda>k. json_string (field k)) in
      if str ''type'' = Some (js ''vnc-state'') then
        (let s1 = s\<lparr>ap_vncActive := str ''active''\<rparr>
         in if ap_active s = js ''vnc'' then writeQuery pf (js ''target'') (ap_vncActive s1) s1 else s1)
      else if str ''type'' = Some (js ''vnc-open-request'') \<and> str ''name'' \<noteq> None then
        post (Open_Vnc (the (str ''name''))) s
      else if str ''type'' = Some (js ''vnc-open-window'') \<and> str ''name'' \<noteq> None \<and> str ''url'' \<noteq> None then
        post (Open_Vnc_Window (the (str ''name'')) (the (str ''url''))) s
      else (case (str ''type'', field ''targets'') of
              (Some t, Some (JArray xs)) \<Rightarrow> if t = js ''vnc-targets'' then post (Vnc_Targets xs) s else s
            | _ \<Rightarrow> s))"

end
