(* ===== verification/Back_Navigation.thy ===== *)
theory Back_Navigation
  imports Navigation
begin

text \<open>
  The Back button of the page: every interleaving of tab changes, deferred updates, deep-link
  writes, requests between tabs and browser traversals keeps the history to a home entry and the
  current tab.
\<close>

section \<open>Paths\<close>

text \<open>What a tab can be called: a section or a provider page, without a slash.\<close>

definition tab_name :: "ustring \<Rightarrow> bool" where
  "tab_name i \<longleftrightarrow> isActiveId (Some i) \<and> U_SLASH \<notin> set i"

definition root_path :: "ustring \<Rightarrow> bool" where
  "root_path r \<longleftrightarrow> ends_with r [U_SLASH]"

lemma isActiveId_nonempty: "\<not> isActiveId (Some [])"
  by (simp add: isActiveId_def isSectionId_def SECTIONS_def sec_def PROVIDER_PREFIX_def)

lemma HOME_tab [simp]: "tab_name HOME"
  by (simp add: tab_name_def isActiveId_def isSectionId_def SECTIONS_def sec_def HOME_def js_def)

lemma splitPath_tab:
  assumes "root_path r" "tab_name i" shows "splitPath (r @ i) = (r, Some i)"
proof -
  obtain w where r: "r = w @ [U_SLASH]"
    using assms(1) by (auto simp: root_path_def ends_with_def suffix_def)
  have i: "i \<noteq> []" "U_SLASH \<notin> set i" using assms(2) isActiveId_nonempty by (auto simp: tab_name_def)
  have "split_on U_SLASH (r @ i) = split_on U_SLASH w @ [i]"
    using split_on_snoc [OF i(2), of w] by (simp add: r)
  then show ?thesis using assms(2) i(1) by (simp add: splitPath_def Let_def tab_name_def r)
qed

lemma section_of_tab [simp]:
  "root_path r \<Longrightarrow> tab_name i \<Longrightarrow> section_of_path (r @ i) = i"
  by (simp add: section_of_path_def splitPath_tab)

lemma splitPath_root: "root_path (fst (splitPath p))"
  by (auto simp: splitPath_def Let_def root_path_def ends_with_def)

section \<open>The navigation part of the state\<close>

text \<open>Everything but the queries and the reports, which never decide where Back leads.\<close>

definition sect :: "entry \<Rightarrow> ustring" where
  "sect e = section_of_path (he_path e)"

definition trail :: "app \<Rightarrow> (ustring \<times> bool) list" where
  "trail s = map (\<lambda>e. (he_path e, he_homeBelow e)) (ap_entries s)"

definition nav_part where
  "nav_part s = (trail s, ap_pos s, ap_root s, ap_active s, ap_embed s, ap_backs s, ap_left s, ap_deferred s)"

lemma nav_part_report [simp]: "nav_part (report pf x s) = nav_part s"
  by (simp add: nav_part_def trail_def report_def)

lemma nav_part_post [simp]: "nav_part (post m s) = nav_part s"
  by (simp add: nav_part_def trail_def post_def)

lemma map_update_same:
  "f y = f (xs ! i) \<Longrightarrow> map f (xs[i := y]) = map f xs"
  by (cases "i < length xs") (simp_all add: map_update list_update_same_conv list_update_beyond)

lemma nav_part_writeQuery [simp]: "nav_part (writeQuery pf k v s) = nav_part s"
proof -
  have "trail (replaceState (current_entry s\<lparr>he_query := q\<rparr>) s) = trail s" for q
    by (simp add: trail_def replaceState_def current_entry_def map_update_same)
  then have "nav_part (replaceState (current_entry s\<lparr>he_query := q\<rparr>) s) = nav_part s" for q
    by (simp add: nav_part_def) (simp add: replaceState_def)
  then show ?thesis by (simp add: writeQuery_def Let_def split: option.split)
qed

lemma nav_part_vnc [simp]:
  "nav_part (s\<lparr>ap_vncVisited := a\<rparr>) = nav_part s" "nav_part (s\<lparr>ap_vncActive := b\<rparr>) = nav_part s"
  by (simp_all add: nav_part_def trail_def)

lemma nav_part_effects [simp]: "nav_part (active_effects pf s) = nav_part s"
  by (simp add: active_effects_def Let_def)

lemma nav_part_commit [simp]: "nav_part (commit pf old s) = nav_part s"
  by (simp add: commit_def)

section \<open>The invariant\<close>

text \<open>
  One entry, which is home outside the editor, or home with a marked tab on top. The section shown is
  the one in the address, or home while a traversal is under way.
\<close>

definition trail_ok :: "bool \<Rightarrow> (ustring \<times> bool) list \<Rightarrow> bool" where
  "trail_ok EMBED t \<longleftrightarrow>
     (case t of
        [(p, below)] \<Rightarrow> \<not> below \<and> (EMBED \<or> section_of_path p = HOME)
      | [(h, hb), (p, below)] \<Rightarrow> section_of_path h = HOME \<and> \<not> hb \<and> below \<and> section_of_path p \<noteq> HOME
      | _ \<Rightarrow> False)"

definition nav_ok :: "app \<Rightarrow> bool" where
  "nav_ok s \<longleftrightarrow> root_path (ap_root s) \<and> trail_ok (ap_embed s) (trail s) \<and> ap_pos s < length (ap_entries s)
     \<and> (ap_active s = sect (current_entry s) \<or> 0 < ap_backs s \<and> ap_active s = HOME)
     \<and> (\<forall>i \<in> set (ap_deferred s). tab_name i)"

lemma sect_current: "ap_pos s < length (ap_entries s) \<Longrightarrow> sect (current_entry s) = section_of_path (fst (trail s ! ap_pos s))"
  by (simp add: sect_def current_entry_def trail_def)

lemma nav_ok_part: "nav_part s = nav_part t \<Longrightarrow> nav_ok s = nav_ok t"
proof -
  assume eq: "nav_part s = nav_part t"
  then have "trail s = trail t" "length (ap_entries s) = length (ap_entries t)"
    by (auto simp: nav_part_def trail_def dest: map_eq_imp_length_eq)
  with eq show ?thesis
    by (auto simp: nav_ok_def nav_part_def sect_current)
qed

lemma nav_ok_commit [simp]: "nav_ok (commit pf old s) = nav_ok s"
  by (rule nav_ok_part) simp

lemma nav_ok_effects [simp]: "nav_ok (active_effects pf s) = nav_ok s"
  by (rule nav_ok_part) simp

text \<open>The three shapes of the history.\<close>

lemma trail_cases:
  assumes "trail_ok EMBED (trail s)" "ap_pos s < length (ap_entries s)"
  obtains (only) e where "ap_entries s = [e]" "ap_pos s = 0" "\<not> he_homeBelow e" "EMBED \<or> sect e = HOME"
  | (home) h e where "ap_entries s = [h, e]" "ap_pos s = 0" "sect h = HOME" "\<not> he_homeBelow h"
      "he_homeBelow e" "sect e \<noteq> HOME"
  | (above) h e where "ap_entries s = [h, e]" "ap_pos s = 1" "sect h = HOME" "\<not> he_homeBelow h"
      "he_homeBelow e" "sect e \<noteq> HOME"
proof -
  have "(\<exists>e. ap_entries s = [e] \<and> ap_pos s = 0 \<and> \<not> he_homeBelow e \<and> (EMBED \<or> sect e = HOME)) \<or>
    (\<exists>h e. ap_entries s = [h, e] \<and> (ap_pos s = 0 \<or> ap_pos s = 1) \<and> sect h = HOME \<and> \<not> he_homeBelow h
       \<and> he_homeBelow e \<and> sect e \<noteq> HOME)"
    using assms unfolding trail_ok_def trail_def sect_def
    by (cases "ap_entries s" rule: remdups_adj.cases)
      (auto split: list.splits prod.splits simp: less_Suc_eq)
  then show ?thesis using that by blast
qed

lemma setActive_nav_ok:
  assumes "nav_ok s" "tab_name i" shows "nav_ok (setActive i s)"
proof -
  have r: "root_path (ap_root s)" and d: "\<forall>i \<in> set (ap_deferred s). tab_name i"
    and t: "trail_ok (ap_embed s) (trail s)" and p: "ap_pos s < length (ap_entries s)"
    using assms(1) by (auto simp: nav_ok_def)
  note defs = setActive_def Let_def nav_ok_def current_entry_def sect_def trail_def trail_ok_def
    hasHomeBelow_def history_back_def replaceState_def pushState_def
  from t p show ?thesis
  proof (cases rule: trail_cases)
    case (only e)
    then show ?thesis using r d assms(2) by (auto simp: defs)
  next
    case (home h e)
    then show ?thesis using r d assms(2) by (auto simp: defs)
  next
    case (above h e)
    then show ?thesis using r d assms(2) by (auto simp: defs)
  qed
qed

lemma select_tab_nav_ok: "nav_ok s \<Longrightarrow> tab_name i \<Longrightarrow> nav_ok (select_tab pf i s)"
  by (simp add: select_tab_def setActive_nav_ok)

lemma nav_ok_deferred:
  "nav_ok s \<Longrightarrow> \<forall>i \<in> set d. tab_name i \<Longrightarrow> nav_ok (s\<lparr>ap_deferred := d\<rparr>)"
  by (auto simp: nav_ok_def trail_def current_entry_def)

lemma transition_nav_ok: "nav_ok s \<Longrightarrow> tab_name i \<Longrightarrow> nav_ok (withViewTransition pf a i s)"
proof (cases a)
  case True
  assume "nav_ok s" "tab_name i"
  then have "nav_ok (s\<lparr>ap_deferred := ap_deferred s @ [i]\<rparr>)"
    by (intro nav_ok_deferred) (auto simp: nav_ok_def)
  then show ?thesis using True by (simp add: withViewTransition_def)
qed (simp add: withViewTransition_def select_tab_nav_ok)

lemma callback_nav_ok:
  assumes "nav_ok s" shows "nav_ok (transition_callback pf s)"
proof (cases "ap_deferred s")
  case (Cons i rest)
  then have "tab_name i" "\<forall>j \<in> set rest. tab_name j" using assms by (auto simp: nav_ok_def)
  then show ?thesis using assms Cons
    by (simp add: transition_callback_def select_tab_nav_ok nav_ok_deferred)
qed (simp add: transition_callback_def assms)

lemma nav_ok_moved:
  assumes "nav_ok s" "p < length (ap_entries s)"
  shows "nav_ok (onPopState pf (s\<lparr>ap_pos := p\<rparr>))"
  using assms unfolding onPopState_def nav_ok_commit
  by (simp add: nav_ok_def sect_def current_entry_def trail_def)

lemma go_back_nav_ok: "nav_ok s \<Longrightarrow> \<not> ap_left (go_back pf s) \<Longrightarrow> nav_ok (go_back pf s)"
  by (auto simp: go_back_def nav_ok_def [of s] intro!: nav_ok_moved split: if_splits)

lemma go_forward_nav_ok: "nav_ok s \<Longrightarrow> nav_ok (go_forward pf s)"
  by (auto simp: go_forward_def intro!: nav_ok_moved)


section \<open>Everything that can happen\<close>

inductive nav_step :: "platform \<Rightarrow> app \<Rightarrow> app \<Rightarrow> bool" for pf :: platform where
  pick: "tab_name i \<Longrightarrow> nav_step pf s (sidebar_select pf a i s)"
| callback: "nav_step pf s (transition_callback pf s)"
| landed: "ap_backs s = Suc n \<Longrightarrow> nav_step pf s (go_back pf (s\<lparr>ap_backs := n\<rparr>))"
| user_back: "nav_step pf s (go_back pf s)"
| user_forward: "nav_step pf s (go_forward pf s)"
| terminal: "nav_step pf s (openInTerminal pf a cwd label command s)"
| session: "nav_step pf s (openTerminalSession pf a name s)"
| files: "nav_step pf s (openInFileManager pf a path s)"
| overlay: "nav_step pf s (openFileManagerOverlay path s)"
| project: "nav_step pf s (openProject pf a path s)"
| project_info: "nav_step pf s (openProjectInfo unlocked path git_commit s)"
| session_query: "nav_step pf s (handleActiveSessionChange pf v s)"
| path_query: "nav_step pf s (handleFilesPathChange pf v s)"
| project_query: "nav_step pf s (handleSelectedProjectChange pf v s)"
| vnc: "nav_step pf s (handleVncMessage pf data s)"
| took_terminal: "nav_step pf s (snd (consume_terminal s))"
| took_files: "nav_step pf s (snd (consume_files s))"
| took_project: "nav_step pf s (snd (consume_project s))"

inductive nav_reach :: "platform \<Rightarrow> app \<Rightarrow> app \<Rightarrow> bool" for pf :: platform and s0 :: app where
  start: "nav_reach pf s0 s0"
| step: "nav_reach pf s0 s \<Longrightarrow> \<not> ap_left s \<Longrightarrow> nav_step pf s t \<Longrightarrow> nav_reach pf s0 t"

lemma nav_part_requests [simp]:
  "nav_part (s\<lparr>ap_projectInfo := x1\<rparr>) = nav_part s" "nav_part (s\<lparr>ap_pendingTerminal := x2\<rparr>) = nav_part s"
  "nav_part (s\<lparr>ap_pendingFiles := x3\<rparr>) = nav_part s" "nav_part (s\<lparr>ap_pendingProject := x4\<rparr>) = nav_part s"
  "nav_part (s\<lparr>ap_filesDialog := x5\<rparr>) = nav_part s" "nav_part (s\<lparr>ap_projectCommit := x6\<rparr>) = nav_part s"
  by (simp_all add: nav_part_def trail_def)

lemma nav_part_left: "nav_part s = nav_part t \<Longrightarrow> ap_left s = ap_left t"
  by (simp add: nav_part_def)

lemma nav_ok_requests [simp]:
  "nav_ok (s\<lparr>ap_projectInfo := x1\<rparr>) = nav_ok s" "nav_ok (s\<lparr>ap_pendingTerminal := x2\<rparr>) = nav_ok s"
  "nav_ok (s\<lparr>ap_pendingFiles := x3\<rparr>) = nav_ok s" "nav_ok (s\<lparr>ap_pendingProject := x4\<rparr>) = nav_ok s"
  "nav_ok (s\<lparr>ap_filesDialog := x5\<rparr>) = nav_ok s" "nav_ok (s\<lparr>ap_projectCommit := x6\<rparr>) = nav_ok s"
  by (rule nav_ok_part, simp)+

lemma nav_ok_writes [simp]:
  "nav_ok (writeQuery pf k v s) = nav_ok s" "nav_ok (post m s) = nav_ok s" "nav_ok (s\<lparr>ap_vncActive := w\<rparr>) = nav_ok s"
  by (rule nav_ok_part, simp)+

lemma section_tabs [simp]: "tab_name (js ''terminal'')" "tab_name (js ''files'')" "tab_name (js ''projects'')"
  by (simp_all add: tab_name_def isActiveId_def isSectionId_def SECTIONS_def sec_def js_def)

lemma nav_ok_vnc: "nav_ok (handleVncMessage pf data s) = nav_ok s"
  by (simp add: handleVncMessage_def Let_def split: option.split json.split)

lemma nav_ok_landed: "nav_ok s \<Longrightarrow> ap_pos s \<noteq> 0 \<Longrightarrow> nav_ok (go_back pf (s\<lparr>ap_backs := n\<rparr>))"
  using nav_ok_moved [of s "ap_pos s - 1" pf]
  by (simp add: go_back_def onPopState_def) (auto simp: nav_ok_def sect_def current_entry_def trail_def)

lemma go_back_left: "ap_left (go_back pf s) \<longleftrightarrow> ap_left s \<or> ap_pos s = 0"
proof -
  have "ap_left (commit pf t u) = ap_left u" for t u by (rule nav_part_left) simp
  then show ?thesis by (simp add: go_back_def onPopState_def)
qed

lemma nav_step_ok:
  assumes "nav_step pf s t" "nav_ok s" "\<not> ap_left t" shows "nav_ok t"
  using assms(1)
proof cases
  case (landed n)
  then have "ap_pos s \<noteq> 0" using assms(3) by (auto simp: go_back_left)
  then show ?thesis using landed assms(2) by (simp add: nav_ok_landed)
next
  case user_back
  then show ?thesis using assms(2,3) go_back_nav_ok by simp
qed (simp_all add: assms(2) sidebar_select_def select_tab_nav_ok transition_nav_ok callback_nav_ok
    go_forward_nav_ok openInTerminal_def openTerminalSession_def openInFileManager_def
    openFileManagerOverlay_def openProject_def openProjectInfo_def handleActiveSessionChange_def
    handleFilesPathChange_def handleSelectedProjectChange_def nav_ok_vnc consume_terminal_def
    consume_files_def consume_project_def Let_def)

lemma nav_reach_ok:
  assumes "nav_reach pf s0 s" "nav_ok s0" "\<not> ap_left s" shows "nav_ok s"
  using assms by (induction) (auto intro: nav_step_ok)

text \<open>
  How a page starts: alone on its entry, or (a reload, a return to the page) with the entries an
  earlier load of it left behind.
\<close>

definition opened :: "bool \<Rightarrow> entry list \<Rightarrow> nat \<Rightarrow> bool" where
  "opened EMBED entries pos \<longleftrightarrow> pos < length entries
     \<and> ((\<exists>e. entries = [e] \<and> \<not> he_homeBelow e)
        \<or> (\<exists>h e. entries = [h, e] \<and> sect h = HOME \<and> \<not> he_homeBelow h \<and> he_homeBelow e \<and> sect e \<noteq> HOME))"

lemma slip_in_ok:
  assumes "opened EMBED entries pos"
  shows "nav_ok (slip_in_home (app_init EMBED origin entries pos b))"
    and "ap_active (slip_in_home (app_init EMBED origin entries pos b)) = sect (entries ! pos)"
    and "\<not> ap_left (slip_in_home (app_init EMBED origin entries pos b))"
proof -
  let ?s = "app_init EMBED origin entries pos b"
  have root: "root_path (ap_root ?s)"
    by (auto simp: app_init_def Let_def split: prod.split) (metis splitPath_root fst_conv)
  have act: "ap_active ?s = sect (entries ! pos)"
    by (auto simp: app_init_def Let_def sect_def section_of_path_def split: prod.split)
  have init: "ap_entries ?s = entries" "ap_pos ?s = pos" "ap_embed ?s = EMBED" "ap_backs ?s = 0"
    "ap_deferred ?s = []" "\<not> ap_left ?s"
    by (simp_all add: app_init_def Let_def split: prod.split)
  have none: "snd (splitPath p) = None \<or> snd (splitPath p) = Some HOME \<longleftrightarrow> section_of_path p = HOME" for p
    by (auto simp: section_of_path_def split: option.split)
  note defs = slip_in_home_def Let_def nav_ok_def sect_def current_entry_def trail_def
    hasHomeBelow_def pushState_def replaceState_def trail_ok_def
  show "ap_active (slip_in_home ?s) = sect (entries ! pos)" "\<not> ap_left (slip_in_home ?s)"
    using act init(6) by (auto simp: slip_in_home_def Let_def pushState_def replaceState_def)
  show "nav_ok (slip_in_home ?s)"
    using assms root act init none [of "he_path (entries ! pos)"]
    unfolding opened_def
    by (elim conjE disjE exE) (auto simp: defs less_Suc_eq)
qed

lemma mount_ok:
  assumes "opened EMBED entries pos"
  shows "nav_ok (app_mount pf EMBED origin entries pos b)"
    and "ap_active (app_mount pf EMBED origin entries pos b) = sect (entries ! pos)"
    and "\<not> ap_left (app_mount pf EMBED origin entries pos b)"
proof -
  let ?s = "slip_in_home (app_init EMBED origin entries pos b)"
  have part: "nav_part (active_effects pf ?s) = nav_part ?s" by simp
  then have eqs: "ap_active (active_effects pf ?s) = ap_active ?s"
    "ap_left (active_effects pf ?s) = ap_left ?s" by (simp_all only: nav_part_def prod.inject)
  show "nav_ok (app_mount pf EMBED origin entries pos b)"
    "ap_active (app_mount pf EMBED origin entries pos b) = sect (entries ! pos)"
    "\<not> ap_left (app_mount pf EMBED origin entries pos b)"
    using slip_in_ok [OF assms, of origin b] eqs by (simp_all add: app_mount_def)
qed


text \<open>The frame mode and the root never change.\<close>

definition fixed_part where
  "fixed_part s = (ap_embed s, ap_root s)"

lemma fixed_part_nav: "nav_part s = nav_part t \<Longrightarrow> fixed_part s = fixed_part t"
  by (simp add: nav_part_def fixed_part_def)

lemma fixed_part_keeps [simp]:
  "fixed_part (commit pf old s) = fixed_part s" "fixed_part (writeQuery pf k v s) = fixed_part s"
  "fixed_part (post m s) = fixed_part s"
  by (rule fixed_part_nav, simp)+

lemma fixed_part_setActive [simp]: "fixed_part (setActive i s) = fixed_part s"
  by (simp add: setActive_def Let_def fixed_part_def history_back_def replaceState_def pushState_def)

lemma fixed_part_update [simp]:
  "fixed_part (s\<lparr>ap_pos := y1\<rparr>) = fixed_part s" "fixed_part (s\<lparr>ap_active := y2\<rparr>) = fixed_part s"
  "fixed_part (s\<lparr>ap_backs := y3\<rparr>) = fixed_part s" "fixed_part (s\<lparr>ap_left := y4\<rparr>) = fixed_part s"
  "fixed_part (s\<lparr>ap_deferred := y5\<rparr>) = fixed_part s" "fixed_part (s\<lparr>ap_vncActive := y6\<rparr>) = fixed_part s"
  "fixed_part (s\<lparr>ap_projectInfo := x1\<rparr>) = fixed_part s" "fixed_part (s\<lparr>ap_pendingTerminal := x2\<rparr>) = fixed_part s"
  "fixed_part (s\<lparr>ap_pendingFiles := x3\<rparr>) = fixed_part s" "fixed_part (s\<lparr>ap_pendingProject := x4\<rparr>) = fixed_part s"
  "fixed_part (s\<lparr>ap_filesDialog := x5\<rparr>) = fixed_part s" "fixed_part (s\<lparr>ap_projectCommit := x6\<rparr>) = fixed_part s"
  by (simp_all add: fixed_part_def)

lemma fixed_part_step: "nav_step pf s t \<Longrightarrow> fixed_part t = fixed_part s"
  by (cases rule: nav_step.cases)
    (auto simp: sidebar_select_def withViewTransition_def select_tab_def transition_callback_def
      go_back_def go_forward_def onPopState_def openInTerminal_def openTerminalSession_def
      openInFileManager_def openFileManagerOverlay_def openProject_def openProjectInfo_def
      handleActiveSessionChange_def handleFilesPathChange_def handleSelectedProjectChange_def
      handleVncMessage_def consume_terminal_def consume_files_def consume_project_def Let_def
      split: list.split option.split json.split)

lemma fixed_part_reach: "nav_reach pf s0 s \<Longrightarrow> fixed_part s = fixed_part s0"
  by (induction rule: nav_reach.induct) (simp_all add: fixed_part_step)

lemma embed_reach:
  assumes "nav_reach pf (app_mount pf EMBED origin entries pos b) s"
  shows "ap_embed s = EMBED"
proof -
  let ?s = "slip_in_home (app_init EMBED origin entries pos b)"
  have "fixed_part (active_effects pf ?s) = fixed_part ?s" by (rule fixed_part_nav) simp
  moreover have "ap_embed ?s = EMBED"
    by (simp add: slip_in_home_def app_init_def Let_def pushState_def replaceState_def split: prod.split)
  ultimately show ?thesis
    using fixed_part_reach [OF assms] by (simp add: app_mount_def fixed_part_def)
qed

lemma nav_ok_opened: "nav_ok s \<Longrightarrow> opened EMBED (ap_entries s) (ap_pos s)"
  unfolding nav_ok_def by (elim conjE, erule (1) trail_cases) (auto simp: opened_def)

lemma go_back_active: "ap_pos s \<noteq> 0 \<Longrightarrow> ap_active (go_back pf s) = sect (ap_entries s ! (ap_pos s - 1))"
proof -
  have "ap_active (commit pf t u) = ap_active u" for t u
    using nav_part_commit [of pf t u] by (simp add: nav_part_def)
  then show "ap_pos s \<noteq> 0 \<Longrightarrow> ?thesis" by (simp add: go_back_def onPopState_def sect_def current_entry_def)
qed

section \<open>Properties\<close>

text \<open>C30: However tab changes, deferred transitions, deep-link writes, requests between tabs and
  traversals interleave, the page never holds more than two history entries. Once no traversal is
  under way the tab shown is the one in the address and a reload shows it again. Outside the editor
  one Back from any other tab shows home, and a Back at home leaves the page.\<close>
theorem back_goes_home_then_leaves:
  assumes "opened EMBED entries pos"
    and "nav_reach pf (app_mount pf EMBED origin entries pos b) s" and "\<not> ap_left s"
  shows "length (ap_entries s) \<le> 2
    \<and> (ap_backs s = 0 \<longrightarrow> ap_active s = sect (current_entry s)
         \<and> ap_active (app_mount pf EMBED origin (ap_entries s) (ap_pos s) b') = ap_active s)
    \<and> (\<not> EMBED \<and> sect (current_entry s) \<noteq> HOME \<longrightarrow>
         \<not> ap_left (go_back pf s) \<and> ap_active (go_back pf s) = HOME)
    \<and> (sect (current_entry s) = HOME \<longrightarrow> ap_left (go_back pf s))"
proof -
  have ok: "nav_ok s" using nav_reach_ok [OF assms(2) mount_ok(1) [OF assms(1)] assms(3)] .
  have emb: "ap_embed s = EMBED" using embed_reach [OF assms(2)] .
  have t: "trail_ok EMBED (trail s)" and p: "ap_pos s < length (ap_entries s)"
    using ok emb by (auto simp: nav_ok_def)
  have act: "ap_backs s = 0 \<Longrightarrow> ap_active s = sect (current_entry s)" using ok by (auto simp: nav_ok_def)
  have reload: "ap_active (app_mount pf EMBED origin (ap_entries s) (ap_pos s) b') = sect (current_entry s)"
    using mount_ok(2) [OF nav_ok_opened [OF ok]] by (simp add: current_entry_def)
  from t p have "length (ap_entries s) \<le> 2
      \<and> (sect (current_entry s) = HOME \<longrightarrow> ap_left (go_back pf s))
      \<and> (\<not> EMBED \<and> sect (current_entry s) \<noteq> HOME \<longrightarrow>
           \<not> ap_left (go_back pf s) \<and> ap_active (go_back pf s) = HOME)"
    by (cases rule: trail_cases) (auto simp: go_back_left go_back_active assms(3) current_entry_def)
  with act reload show ?thesis by simp
qed

definition example_platform :: platform where
  "example_platform = \<lparr>pf_serialize = first_value, pf_stringify = message_text\<rparr>"

definition example_entry :: entry where
  "example_entry = \<lparr>he_path = js ''/manager/files'', he_query = [], he_homeBelow = False\<rparr>"

lemma splitPath_example: "splitPath (js ''/manager/files'') = (js ''/manager/'', Some (js ''files''))"
  by (simp add: splitPath_def js_def isActiveId_def isSectionId_def SECTIONS_def sec_def)

theorem back_goes_home_then_leaves_witness:
  "let s = app_mount example_platform False (js ''https://h'') [example_entry] 0 bridge_init
   in ap_active s = js ''files'' \<and> length (ap_entries s) \<le> 2
      \<and> ap_active (go_back example_platform s) = HOME \<and> \<not> ap_left (go_back example_platform s)"
proof -
  let ?s = "app_mount example_platform False (js ''https://h'') [example_entry] 0 bridge_init"
  have o: "opened False [example_entry] 0" by (simp add: opened_def example_entry_def)
  note m = mount_ok [OF o, of example_platform "js ''https://h''" bridge_init]
  have start: "ap_backs ?s = 0"
  proof -
    have "nav_part (active_effects pf t) = nav_part t" for pf t by simp
    then have "ap_backs (active_effects pf t) = ap_backs t" for pf t by (simp only: nav_part_def prod.inject)
    then show ?thesis
      by (simp add: app_mount_def slip_in_home_def app_init_def Let_def pushState_def replaceState_def
          split: prod.split)
  qed
  have files: "ap_active ?s = js ''files''"
    using m(2) by (simp add: sect_def section_of_path_def example_entry_def splitPath_example)
  have "HOME \<noteq> js ''files''" by (simp add: HOME_def)
  then show ?thesis
    using back_goes_home_then_leaves [OF o nav_reach.start [of example_platform ?s] m(3), of bridge_init]
      start files by (simp add: Let_def)
qed

text \<open>The query carries one piece of state per tab through a reload: writing a key leaves the
  path, the number of entries, the marker and every other key alone, and loading the page again from
  that history hands the value to the tab it belongs to (a session is not taken from the address
  inside the editor). Selecting another tab drops the query.\<close>
lemma deep_link_survives_reload:
  assumes "ap_pos s < length (ap_entries s)"
  shows "(let t = writeQuery pf (js k) v s; e = current_entry t;
              u = app_init EMBED origin (ap_entries t) (ap_pos t) b
      in he_path e = he_path (current_entry s) \<and> he_homeBelow e = he_homeBelow (current_entry s)
         \<and> length (ap_entries t) = length (ap_entries s) \<and> ap_active t = ap_active s
         \<and> params_get (he_query e) k' = (if k' = js k then or_undefined v
                                          else params_get (he_query (current_entry s)) k')
         \<and> ap_active u = sect (current_entry s)
         \<and> (snd (splitPath (he_path e)) = Some (js ''files'') \<longrightarrow>
              ap_pendingFiles u = params_get (he_query e) (js ''path''))
         \<and> (snd (splitPath (he_path e)) = Some (js ''projects'') \<longrightarrow>
              ap_pendingProject u = params_get (he_query e) (js ''project''))
         \<and> (snd (splitPath (he_path e)) = Some (js ''terminal'') \<longrightarrow>
              ap_restoreSession u = (if EMBED then None else params_get (he_query e) (js ''session'')))
         \<and> (snd (splitPath (he_path e)) = Some (js ''vnc'') \<longrightarrow>
              ap_vncActive u = params_get (he_query e) (js ''target'')))
    \<and> (i = sect (current_entry s) \<or> i = HOME \<or> i = js ''vnc'' \<or>
         he_query (current_entry (select_tab pf i s)) = [])"
proof -
  have e: "current_entry (writeQuery pf (js k) v s) =
      current_entry s\<lparr>he_query := (case or_undefined v of Some w \<Rightarrow> params_set (js k) w (he_query (current_entry s))
                                    | None \<Rightarrow> params_delete (js k) (he_query (current_entry s)))\<rparr>"
    using assms
    by (simp add: writeQuery_def report_def replaceState_def current_entry_def Let_def split: option.split)
  have keep: "ap_active (writeQuery pf (js k) v s) = ap_active s"
    "length (ap_entries (writeQuery pf (js k) v s)) = length (ap_entries s)"
    by (simp_all add: writeQuery_def report_def replaceState_def Let_def)
  have u: "ap_active (app_init EMBED origin es n b) = sect (es ! n)" for es n
    by (auto simp: app_init_def Let_def sect_def section_of_path_def split: prod.split)
  have sel: "he_query (current_entry (select_tab pf i s)) = []"
    if "i \<noteq> sect (current_entry s)" "i \<noteq> HOME" "i \<noteq> js ''vnc''"
  proof -
    have "he_query (current_entry (setActive i s)) = []" "ap_active (setActive i s) = i"
      using assms that
      by (auto simp: setActive_def Let_def sect_def replaceState_def pushState_def current_entry_def
          hasHomeBelow_def nth_append)
    then show ?thesis using that
      by (auto simp: select_tab_def commit_def active_effects_def report_def Let_def current_entry_def)
  qed
  show ?thesis
    apply (rule conjI)
     prefer 2
    using sel apply blast
    by (auto simp: Let_def e keep u sect_def section_of_path_def current_entry_def [symmetric] params_get_def [symmetric]
        app_init_def split: prod.split option.split)
qed


lemma deep_link_survives_reload_witness:
  "let s = app_init False (js ''https://h'') [example_entry] 0 bridge_init;
       t = writeQuery example_platform (js ''path'') (Some (js ''/w'')) s
   in ap_pendingFiles (app_init False (js ''https://h'') (ap_entries t) (ap_pos t) bridge_init) = Some (js ''/w'')"
proof -
  let ?s = "app_init False (js ''https://h'') [example_entry] 0 bridge_init"
  have s: "ap_entries ?s = [example_entry]" "ap_pos ?s = 0"
    by (simp_all add: app_init_def Let_def split: prod.split)
  have p: "ap_pos ?s < length (ap_entries ?s)" by (simp add: s)
  note w = deep_link_survives_reload [OF p, of example_platform "''path''" "Some (js ''/w'')" False
      "js ''https://h''" bridge_init "js ''path''" "js ''logs''", unfolded Let_def, THEN conjunct1]
  have e: "he_path (current_entry ?s) = js ''/manager/files''"
    unfolding current_entry_def s by (simp add: example_entry_def)
  have q: "params_get (he_query (current_entry (writeQuery example_platform (js ''path'') (Some (js ''/w'')) ?s)))
      (js ''path'') = Some (js ''/w'')"
    using w by (simp add: or_undefined_def)
  show ?thesis using w e q by (simp add: splitPath_example Let_def)
qed


lemma request_kept [simp]:
  "ap_pendingTerminal (commit pf old s) = ap_pendingTerminal s"
  "ap_active (commit pf old s) = ap_active s"
  by (simp_all add: commit_def active_effects_def writeQuery_def report_def replaceState_def Let_def
      split: option.split)

lemma setActive_keeps [simp]:
  "ap_pendingTerminal (setActive i s) = ap_pendingTerminal s" "ap_active (setActive i s) = i"
  by (simp_all add: setActive_def Let_def history_back_def replaceState_def pushState_def)

lemma request_transition:
  "ap_pendingTerminal (withViewTransition pf a i s) = ap_pendingTerminal s"
  "ap_active (withViewTransition pf False i s) = i"
  by (simp_all add: withViewTransition_def select_tab_def)

text \<open>A request to open a terminal is handed over exactly once: outside the editor the terminal tab
  is selected, the first consumer gets the request and the next one nothing, and no message is
  posted; inside the editor the tab stays, nothing is left pending and exactly one message asks the
  extension. A project's details open only once unlocked, and a provider's name survives its tab.\<close>
lemma tab_requests_are_one_shot:
  "(let t = openInTerminal pf False cwd label command s;
        req = \<lparr>to_cwd = Some cwd, to_label = label, to_command = command, to_session = None\<rparr>
    in if ap_embed s
       then posted_bodies (ap_bridge t) = posted_bodies (ap_bridge s) @ [Open_Terminal cwd label command]
            \<and> ap_active t = ap_active s \<and> ap_pendingTerminal t = ap_pendingTerminal s
       else ap_active t = js ''terminal'' \<and> fst (consume_terminal t) = Some req
            \<and> fst (consume_terminal (snd (consume_terminal t))) = None)
   \<and> (let t = openTerminalSession pf a name s
      in if ap_embed s then posted_bodies (ap_bridge t) = posted_bodies (ap_bridge s) @ [Open_Terminal_Session name]
         else fst (consume_terminal t) = Some \<lparr>to_cwd = None, to_label = None, to_command = None, to_session = Some name\<rparr>)
   \<and> openProjectInfo False path git_commit s = s
   \<and> providerIdOf (providerSectionId p) = Some p"
  by (simp add: openInTerminal_def openTerminalSession_def consume_terminal_def request_transition
      openProjectInfo_def providerIdOf_def providerSectionId_def starts_with_def post_def
      postToHost_def posted_bodies_def Let_def)

end
