(* ===== verification/View_State.thy ===== *)
theory View_State
  imports Embed_Bridge Session_Names
begin

text \<open>
  What the editor extension knows of a view (\<open>webmanager/vscode-extension\<close>): the state a view is
  identified by and its normalisation, VNC targets, titles, the path it loads (\<open>src/html.js\<close>), the
  sections (\<open>src/sections.js\<close>) and the names of new sessions (\<open>src/sessions.js\<close>).

  Outside: \<open>URLSearchParams\<close> parsing and printing (\<open>parse\<close>, \<open>ser\<close>) and the Unicode classes
  \<open>\p{L}\<close> and \<open>\p{N}\<close> (\<open>alnum\<close>).
\<close>

section \<open>\<open>src/sections.js\<close>\<close>

record ext_section =
  xs_id :: ustring
  xs_label :: ustring
  xs_icon :: ustring

definition section_row :: "string \<Rightarrow> ustring \<Rightarrow> string \<Rightarrow> ext_section" where
  "section_row i l icon = \<lparr>xs_id = js i, xs_label = l, xs_icon = js icon\<rparr>"

definition EXT_SECTIONS :: "ext_section list" where
  "EXT_SECTIONS = [
     section_row ''terminal'' (js ''Terminal'') ''terminal'',
     section_row ''files'' (js ''Files'') ''files'',
     section_row ''projects'' (js ''Projects'') ''repo'',
     section_row ''vnc'' (js ''VNC'') ''vm'',
     section_row ''logs'' (js ''Logs'') ''output'',
     section_row ''processes'' (js ''Task Manager'') ''pulse'',
     section_row ''supervisor'' (js ''Supervisor'') ''server-process'',
     section_row ''claude'' (js ''Claude Code'') ''sparkle'',
     section_row ''sessions'' (js ''Sessions'') ''history'',
     section_row ''dind'' (js ''Docker (dind)'') ''package'',
     section_row ''mise'' (js ''mise'') ''tools'',
     section_row ''extensions'' (js ''Code Extensions'') ''extensions'',
     section_row ''ssh-keys'' (js ''SSH Keys'') ''key'',
     section_row ''git-config'' (js ''Git Config'') ''git-branch'',
     section_row ''fonts'' [0xd3f0, 0xd2b8] ''text-size'',
     section_row ''file-share'' (js ''File share'') ''cloud'',
     section_row ''dev-proxy'' (js ''Dev Proxy'') ''globe'',
     section_row ''app-routes'' (js ''App Routes'') ''link'',
     section_row ''tailscale'' (js ''Tailscale'') ''remote'',
     section_row ''dns'' (js ''DNS'') ''symbol-namespace'',
     section_row ''net'' (js ''Net '' @ [0xad00, 0xb9ac]) ''radio-tower'',
     section_row ''tinyauth'' (js ''tinyauth'') ''shield'',
     section_row ''router-settings'' (js ''Router '' @ [0xc124, 0xc815]) ''settings-gear'']"

definition sectionLabel :: "ustring \<Rightarrow> ustring" where
  "sectionLabel i = (case List.find (\<lambda>x. xs_id x = i) EXT_SECTIONS of Some s \<Rightarrow> xs_label s | None \<Rightarrow> i)"

section \<open>The state of a view\<close>

record view_state =
  vs_section :: ustring
  vs_session :: "ustring option"
  vs_cwd :: "ustring option"
  vs_command :: "ustring option"
  vs_query :: "ustring option"
  vs_created :: "ustring option"
  vs_pinned :: "bool option"

text \<open>The properties of a JavaScript object; \<open>{ ...a, ...b }\<close> is \<open>a ++ b\<close>.\<close>

type_synonym fields = "ustring \<rightharpoonup> json"

definition nonempty_field :: "fields \<Rightarrow> string \<Rightarrow> ustring option" where
  "nonempty_field f k =
     (case f (js k) of Some (JString v) \<Rightarrow> (if v = [] then None else Some v) | _ \<Rightarrow> None)"

definition normalizeState :: "fields \<Rightarrow> view_state" where
  "normalizeState f = \<lparr>
     vs_section = (case f (js ''section'') of Some (JString v) \<Rightarrow> v | _ \<Rightarrow> js ''terminal''),
     vs_session = nonempty_field f ''session'',
     vs_cwd = nonempty_field f ''cwd'',
     vs_command = nonempty_field f ''command'',
     vs_query = nonempty_field f ''query'',
     vs_created = nonempty_field f ''created'',
     vs_pinned = (case f (js ''pinned'') of Some (JBool b) \<Rightarrow> Some b | _ \<Rightarrow> None)\<rparr>"

definition string_field :: "string \<Rightarrow> ustring option \<Rightarrow> fields" where
  "string_field k v = (case v of None \<Rightarrow> Map.empty | Some t \<Rightarrow> [js k \<mapsto> JString t])"

definition fields_of :: "view_state \<Rightarrow> fields" where
  "fields_of s = [js ''section'' \<mapsto> JString (vs_section s)]
     ++ string_field ''session'' (vs_session s) ++ string_field ''cwd'' (vs_cwd s)
     ++ string_field ''command'' (vs_command s) ++ string_field ''query'' (vs_query s)
     ++ string_field ''created'' (vs_created s)
     ++ (case vs_pinned s of None \<Rightarrow> Map.empty | Some b \<Rightarrow> [js ''pinned'' \<mapsto> JBool b])"

text \<open>\<open>normalizeState\<close> of a state: what is left of one that was put together in the code.\<close>

definition normalized :: "view_state \<Rightarrow> view_state" where
  "normalized s = normalizeState (fields_of s)"

definition blank_state :: "ustring \<Rightarrow> view_state" where
  "blank_state section = \<lparr>vs_section = section, vs_session = None, vs_cwd = None, vs_command = None,
     vs_query = None, vs_created = None, vs_pinned = None\<rparr>"

definition terminal_state :: "ustring \<Rightarrow> view_state" where
  "terminal_state name = (blank_state (js ''terminal''))\<lparr>vs_session := Some name\<rparr>"

section \<open>VNC\<close>

definition vncTarget :: "(ustring \<Rightarrow> query) \<Rightarrow> view_state \<Rightarrow> ustring option" where
  "vncTarget parse s =
     (if vs_section s \<noteq> js ''vnc'' then None
      else case vs_query s of
             None \<Rightarrow> None
           | Some q \<Rightarrow> (if q = [] then None else params_get (parse q) (js ''target'')))"

definition vncState :: "(query \<Rightarrow> ustring) \<Rightarrow> ustring \<Rightarrow> view_state" where
  "vncState ser name = (blank_state (js ''vnc''))\<lparr>vs_query := Some (ser [(js ''target'', name)])\<rparr>"

text \<open>A target as a view reports it: name and label.\<close>

type_synonym vnc_target = "ustring \<times> ustring"

definition vncLabel :: "vnc_target list \<Rightarrow> ustring \<Rightarrow> ustring" where
  "vncLabel targets name =
     (case map_of targets name of Some l \<Rightarrow> (if l = [] then name else l) | None \<Rightarrow> name)"

definition clean_target :: "json \<Rightarrow> vnc_target option" where
  "clean_target t =
     (case json_field t (js ''name'') of
        Some (JString n) \<Rightarrow>
          (if n = [] then None
           else Some (n, case json_field t (js ''label'') of Some (JString l) \<Rightarrow> l | _ \<Rightarrow> []))
      | _ \<Rightarrow> None)"

definition titleOf :: "(ustring \<Rightarrow> query) \<Rightarrow> vnc_target list \<Rightarrow> view_state \<Rightarrow> ustring" where
  "titleOf parse targets s =
     (if vs_section s = js ''terminal''
      then (case or_undefined (vs_session s) of Some n \<Rightarrow> n | None \<Rightarrow> js ''Terminal'')
      else (case or_undefined (vncTarget parse s) of
              Some target \<Rightarrow> vncLabel targets target
            | None \<Rightarrow> sectionLabel (vs_section s)))"

text \<open>What makes two views the same thing.\<close>

datatype identity = Session_Id ustring | Vnc_Id ustring

definition identityOf :: "(ustring \<Rightarrow> query) \<Rightarrow> view_state \<Rightarrow> identity option" where
  "identityOf parse s =
     (case (if vs_section s = js ''terminal'' then or_undefined (vs_session s) else None) of
        Some n \<Rightarrow> Some (Session_Id n)
      | None \<Rightarrow> (case or_undefined (vncTarget parse s) of Some t \<Rightarrow> Some (Vnc_Id t) | None \<Rightarrow> None))"

datatype record_id = Known identity | Page ustring

definition recordId :: "(ustring \<Rightarrow> query) \<Rightarrow> view_state \<Rightarrow> record_id" where
  "recordId parse s = (case identityOf parse s of Some i \<Rightarrow> Known i | None \<Rightarrow> Page (vs_section s))"

section \<open>\<open>src/html.js\<close>\<close>

definition set_if :: "string \<Rightarrow> ustring option \<Rightarrow> query \<Rightarrow> query" where
  "set_if k v q = (case or_undefined v of None \<Rightarrow> q | Some t \<Rightarrow> params_set (js k) t q)"

definition buildPath :: "(ustring \<Rightarrow> query) \<Rightarrow> (query \<Rightarrow> ustring) \<Rightarrow> view_state \<Rightarrow> ustring" where
  "buildPath parse ser s =
     (let section = (if vs_section s = [] then js ''terminal'' else vs_section s);
          params = (if section = js ''terminal'' then
              (let p = set_if ''cmd'' (vs_command s) (set_if ''created'' (vs_created s)
                        (set_if ''cwd'' (vs_cwd s) (set_if ''session'' (vs_session s) [])))
               in if vs_pinned s = Some False then params_set (js ''unpinned'') (js ''1'') p else p)
            else (case or_undefined (vs_query s) of
                    None \<Rightarrow> []
                  | Some q \<Rightarrow> fold (\<lambda>(k, v). params_set k v) (parse q) []));
          qs = ser params
      in section @ (if qs = [] then [] else js ''?'' @ qs))"

definition MODIFIER_ORDER :: "ustring list" where
  "MODIFIER_ORDER = [js ''ctrl'', js ''shift'', js ''alt'', js ''meta'']"

definition canonicalChord :: "(ustring \<Rightarrow> ustring) \<Rightarrow> ustring \<Rightarrow> ustring" where
  "canonicalChord lower chord =
     (let parts = filter (\<lambda>p. p \<noteq> []) (split_on 0x2b (lower chord));
          mods = filter (\<lambda>m. m \<in> set parts) MODIFIER_ORDER;
          keys = filter (\<lambda>p. p \<notin> set MODIFIER_ORDER) parts
      in join_with 0x2b (mods @ keys))"

definition chord_key :: "json \<Rightarrow> ustring option" where
  "chord_key e = (case json_field e (js ''key'') of Some (JString k) \<Rightarrow> Some k | _ \<Rightarrow> None)"

definition passthroughChords :: "(ustring \<Rightarrow> ustring) \<Rightarrow> json list \<Rightarrow> ustring list" where
  "passthroughChords lower entries = map (canonicalChord lower) (List.map_filter chord_key entries)"

section \<open>\<open>src/sessions.js\<close>\<close>

text \<open>\<open>[\p{L}\p{N} _.-]\<close> on one code point.\<close>

definition name_char :: "(nat \<Rightarrow> bool) \<Rightarrow> ustring \<Rightarrow> bool" where
  "name_char alnum ch \<longleftrightarrow> alnum (code_point_at0 ch) \<or> ch \<in> {[U_SPACE], js ''_'', js ''.'', js ''-''}"

definition NAME_RE :: "(nat \<Rightarrow> bool) \<Rightarrow> ustring \<Rightarrow> bool" where
  "NAME_RE alnum s \<longleftrightarrow> 1 \<le> length (code_points s) \<and> length (code_points s) \<le> 64
     \<and> list_all (name_char alnum) (code_points s)"

definition clean_name :: "(nat \<Rightarrow> bool) \<Rightarrow> ustring \<Rightarrow> ustring" where
  "clean_name alnum base =
     (let c = take 60 (trim (concat (map (\<lambda>ch. if name_char alnum ch then ch else js ''-'') (code_points base))))
      in if c = [] then DEFAULT_BASE else c)"

definition uniqueName :: "(nat \<Rightarrow> bool) \<Rightarrow> ustring \<Rightarrow> ustring list \<Rightarrow> ustring" where
  "uniqueName alnum base taken =
     (let clean = clean_name alnum base
      in if clean \<notin> set taken then clean else numbered clean (first_free taken clean 2))"

datatype name_problem = Not_Allowed | Already_There

definition validateName :: "(nat \<Rightarrow> bool) \<Rightarrow> ustring \<Rightarrow> ustring list \<Rightarrow> name_problem option" where
  "validateName alnum name taken =
     (if \<not> NAME_RE alnum name then Some Not_Allowed
      else if name \<in> set taken then Some Already_There else None)"

text \<open>
  An address in the editor: its scheme and path. \<open>remember\<close> keeps the last text editor on disk;
  \<open>folder_of\<close> is \<open>getWorkspaceFolder\<close>.
\<close>

type_synonym uri = "ustring \<times> ustring"

definition remember :: "uri option \<Rightarrow> uri option \<Rightarrow> uri option" where
  "remember editor last_uri =
     (case editor of Some u \<Rightarrow> (if fst u = js ''file'' then Some u else last_uri) | None \<Rightarrow> last_uri)"

definition activeFolder :: "(uri \<Rightarrow> uri option) \<Rightarrow> uri option \<Rightarrow> uri option \<Rightarrow> ustring option" where
  "activeFolder folder_of editor last_uri =
     (case (case editor of Some u \<Rightarrow> Some u | None \<Rightarrow> last_uri) of
        None \<Rightarrow> None
      | Some u \<Rightarrow> (case folder_of u of
                    Some f \<Rightarrow> (if fst f = js ''file'' then Some (snd f) else None)
                  | None \<Rightarrow> None))"

text \<open>\<open>all\<close> are the on-disk workspace folders, \<open>active\<close> the result of \<open>activeFolder\<close>.\<close>

definition fileFolders :: "ustring option \<Rightarrow> ustring list \<Rightarrow> ustring list" where
  "fileFolders active all = (case active of None \<Rightarrow> all | Some a \<Rightarrow> a # filter (\<lambda>p. p \<noteq> a) all)"

definition defaultCwd :: "ustring option \<Rightarrow> ustring list \<Rightarrow> ustring option" where
  "defaultCwd active all = (case fileFolders active all of [] \<Rightarrow> None | f # _ \<Rightarrow> Some f)"

text \<open>\<open>path.basename\<close> of an absolute path: trailing slashes dropped, then the last segment.\<close>

definition basename :: "ustring \<Rightarrow> ustring" where
  "basename p = last (split_on U_SLASH (rev (dropWhile (\<lambda>u. u = U_SLASH) (rev p))))"

definition folderBase :: "ustring option \<Rightarrow> ustring" where
  "folderBase cwd = (case or_undefined cwd of None \<Rightarrow> [] | Some c \<Rightarrow> basename c)"

text \<open>\<open>internalBaseUrl\<close>: \<open>configured\<close> is the setting, \<open>addr\<close> the environment variable.\<close>

definition internalBaseUrl :: "ustring option \<Rightarrow> ustring option \<Rightarrow> ustring" where
  "internalBaseUrl configured addr =
     (case or_undefined configured of
        Some c \<Rightarrow> rev (dropWhile (\<lambda>u. u = U_SLASH) (rev c))
      | None \<Rightarrow> js ''http://'' @ (case or_undefined addr of Some a \<Rightarrow> a | None \<Rightarrow> js ''127.0.0.1:81''))"

text \<open>The answer of \<open>getJson\<close>: \<open>None\<close> is a rejection.\<close>

definition fetchSessionNames :: "json option \<Rightarrow> ustring list option" where
  "fetchSessionNames answer =
     (case answer of
        None \<Rightarrow> None
      | Some (JArray items) \<Rightarrow> Some (List.map_filter (\<lambda>n. case n of JString s \<Rightarrow> Some s | _ \<Rightarrow> None) items)
      | Some _ \<Rightarrow> Some [])"

section \<open>Lemmas\<close>

lemma string_field_apply:
  "string_field k v (js k') = (if k' = k then map_option JString v else None)"
  by (auto simp: string_field_def split: option.split)

lemma fields_of_apply:
  "fields_of s (js ''section'') = Some (JString (vs_section s))"
  "fields_of s (js ''session'') = map_option JString (vs_session s)"
  "fields_of s (js ''cwd'') = map_option JString (vs_cwd s)"
  "fields_of s (js ''command'') = map_option JString (vs_command s)"
  "fields_of s (js ''query'') = map_option JString (vs_query s)"
  "fields_of s (js ''created'') = map_option JString (vs_created s)"
  "fields_of s (js ''pinned'') = map_option JBool (vs_pinned s)"
  by (auto simp: fields_of_def map_add_def string_field_apply split: option.split)

lemma nonempty_fields_of:
  "f (js k) = map_option JString v \<Longrightarrow> nonempty_field f k = or_undefined v"
  by (cases v) (simp_all add: nonempty_field_def or_undefined_def)

lemma or_undefined_idem [simp]: "or_undefined (or_undefined v) = or_undefined v"
  by (auto simp: or_undefined_def split: option.split)

text \<open>Normalising a state only drops empty strings.\<close>

lemma normalized_eq:
  "normalized s = \<lparr>vs_section = vs_section s, vs_session = or_undefined (vs_session s),
     vs_cwd = or_undefined (vs_cwd s), vs_command = or_undefined (vs_command s),
     vs_query = or_undefined (vs_query s), vs_created = or_undefined (vs_created s),
     vs_pinned = vs_pinned s\<rparr>"
  by (simp add: normalized_def normalizeState_def fields_of_apply nonempty_fields_of
      split: option.split)

lemma normalized_idem [simp]: "normalized (normalized s) = normalized s"
  by (simp add: normalized_eq)

lemma nonempty_field_or [simp]: "or_undefined (nonempty_field f k) = nonempty_field f k"
  by (auto simp: nonempty_field_def or_undefined_def split: option.split json.split)

lemma normalized_normalizeState [simp]: "normalized (normalizeState f) = normalizeState f"
  by (simp add: normalized_eq normalizeState_def)

lemma identityOf_normalized [simp]: "identityOf parse (normalized s) = identityOf parse s"
  by (auto simp: identityOf_def vncTarget_def normalized_eq or_undefined_def split: option.split)

lemma identityOf_terminal [simp]:
  "identityOf parse (terminal_state n) = (if n = [] then None else Some (Session_Id n))"
  by (simp add: identityOf_def terminal_state_def blank_state_def or_undefined_def vncTarget_def)

lemma identityOf_vnc:
  "parse (ser [(js ''target'', n)]) = [(js ''target'', n)] \<Longrightarrow> ser [(js ''target'', n)] \<noteq> [] \<Longrightarrow> n \<noteq> [] \<Longrightarrow>
     identityOf parse (vncState ser n) = Some (Vnc_Id n)"
  by (simp add: identityOf_def vncState_def blank_state_def or_undefined_def vncTarget_def params_get_def)

lemma uniqueName_free: "uniqueName alnum base taken \<notin> set taken"
  by (simp add: uniqueName_def Let_def first_free_free)

lemma params_get_set_if:
  "params_get (set_if k v q) (js k') = (if k' = k \<and> or_undefined v \<noteq> None then or_undefined v else params_get q (js k'))"
  by (auto simp: set_if_def split: option.split)

end
