(* ===== verification/View_Host.thy ===== *)
theory View_Host
  imports View_State "HOL-Library.AList"
begin

text \<open>
  \<open>webmanager/vscode-extension/extension.js\<close>: the views (editor panels and panel slots), the slot
  bindings, the record of panel titles, and every operation that opens, moves, navigates or closes
  one, with the messages it exchanges with the pages.

  A handler runs as one step. Where it waits for the user (a picker, an input box) it is split: the
  answer is an argument of the second part. What it asks of VS Code (a command, a message to a page, an
  address to open) is recorded in order as an \<open>ext_effect\<close>.
\<close>

record env =
  en_parse :: "ustring \<Rightarrow> query"            \<comment> \<open>\<open>new URLSearchParams(s)\<close>\<close>
  en_ser :: "query \<Rightarrow> ustring"              \<comment> \<open>\<open>toString\<close>\<close>
  en_defaultCwd :: "ustring option"         \<comment> \<open>\<open>S.defaultCwd()\<close>\<close>

section \<open>State\<close>

datatype host_kind = Panel | Slot ustring

record title_record =
  tr_id :: record_id
  tr_title :: ustring

record host =
  h_id :: nat
  h_kind :: host_kind
  h_state :: view_state
  h_record :: "title_record option"
  h_closedState :: "view_state option"
  h_href :: "ustring option"
  h_visible :: bool
  h_retained :: bool
  h_title :: ustring                  \<comment> \<open>shown title, of the panel or the slot's view\<close>
  h_description :: "ustring option"   \<comment> \<open>of a slot's view\<close>
  h_bound :: nat                      \<comment> \<open>the binding its document was rendered with\<close>

text \<open>An editor tab of our view type: a resolved panel's, or one restored and never shown since.\<close>

record tab =
  tb_id :: nat
  tb_label :: ustring
  tb_column :: nat

datatype column = Active_Column | Beside | Column nat

datatype to_view =
    Navigate ustring view_state
  | Visibility bool
  | Pin bool
  | Rename ustring
  | Select_Session ustring
  | Theme_Pref ustring
  | Keys "ustring list"
  | Open_Webauthn
  | Lock
  | Foreground

datatype ext_effect =
    Send nat to_view
  | Set_Context ustring bool
  | Set_Session_Slots "ustring list"
  | Reveal nat
  | Create_Panel nat column
  | Focus_Slot ustring
  | Dispose nat
  | Close_Tabs "nat list"
  | Rerender nat nat
  | External ustring
  | Folder_Window ustring
  | Quick_Open ustring
  | Reveal_In_Explorer ustring
  | Show_Document ustring "(nat \<times> nat) option"
  | Run_Command ustring "json option"
  | Warn_Insecure
  | Inform

record ext =
  x_hosts :: "host list"
  x_slotHosts :: "(ustring \<times> nat) list"
  x_activePanel :: "nat option"
  x_bindings :: "ustring \<rightharpoonup> view_state"
  x_titles :: "title_record list"
  x_vncTargets :: "vnc_target list"
  x_restored :: "tab list"              \<comment> \<open>unresolved tabs\<close>
  x_lastContexts :: "(bool \<times> bool \<times> ustring list) option"
  x_lastSlotContexts :: "(ustring \<times> bool) list option"
  x_warnedInsecure :: bool
  x_next :: nat                         \<comment> \<open>fresh names for hosts and bindings\<close>
  x_effects :: "ext_effect list"

definition ext_init :: "(ustring \<rightharpoonup> view_state) \<Rightarrow> title_record list \<Rightarrow> vnc_target list \<Rightarrow> tab list \<Rightarrow> ext" where
  "ext_init bindings titles targets restored = \<lparr>x_hosts = [], x_slotHosts = [], x_activePanel = None,
     x_bindings = bindings, x_titles = titles, x_vncTargets = targets, x_restored = restored,
     x_lastContexts = None, x_lastSlotContexts = None, x_warnedInsecure = False, x_next = 0,
     x_effects = []\<rparr>"

definition SLOT_IDS :: "ustring list" where
  "SLOT_IDS = [js ''term1'', js ''term2'', js ''term3'', js ''term4'', js ''page1'', js ''page2'']"

definition isTerminalSlot :: "ustring \<Rightarrow> bool" where
  "isTerminalSlot i = starts_with i (js ''term'')"

text \<open>The setting \<open>retainContextWhenHidden\<close>: what it says of terminals, VNC and the rest.\<close>

record retain_setting =
  rs_terminal :: "bool option"
  rs_vnc :: "bool option"
  rs_other :: "bool option"

definition retainFor :: "retain_setting \<Rightarrow> ustring \<Rightarrow> bool" where
  "retainFor r kind =
     (if kind = js ''terminal'' then rs_terminal r \<noteq> Some False
      else if kind = js ''vnc'' then rs_vnc r \<noteq> Some False
      else if kind = js ''page-slot'' then rs_other r = Some True \<or> rs_vnc r \<noteq> Some False
      else rs_other r = Some True)"

definition retainKind :: "ustring \<Rightarrow> ustring" where
  "retainKind section =
     (if section = js ''terminal'' then js ''terminal''
      else if section = js ''vnc'' then js ''vnc'' else js ''other'')"

definition run :: "ext_effect \<Rightarrow> ext \<Rightarrow> ext" where
  "run e x = x\<lparr>x_effects := x_effects x @ [e]\<rparr>"

definition find_host :: "nat \<Rightarrow> ext \<Rightarrow> host option" where
  "find_host i x = List.find (\<lambda>h. h_id h = i) (x_hosts x)"

definition update_host :: "nat \<Rightarrow> (host \<Rightarrow> host) \<Rightarrow> ext \<Rightarrow> ext" where
  "update_host i f x = x\<lparr>x_hosts := map (\<lambda>h. if h_id h = i then f h else h) (x_hosts x)\<rparr>"

definition slot_host :: "ustring \<Rightarrow> ext \<Rightarrow> nat option" where
  "slot_host i x = map_of (x_slotHosts x) i"

section \<open>Contexts and titles\<close>

definition title_of :: "env \<Rightarrow> ext \<Rightarrow> view_state \<Rightarrow> ustring" where
  "title_of en x s = titleOf (en_parse en) (x_vncTargets x) s"

definition ident :: "env \<Rightarrow> view_state \<Rightarrow> identity option" where
  "ident en s = identityOf (en_parse en) s"

definition shows_session :: "view_state \<Rightarrow> bool" where
  "shows_session s \<longleftrightarrow> vs_section s = js ''terminal'' \<and> or_undefined (vs_session s) \<noteq> None"

definition refreshContexts :: "ext \<Rightarrow> ext" where
  "refreshContexts x =
     (let p = (case x_activePanel x of None \<Rightarrow> None | Some i \<Rightarrow> map_option h_state (find_host i x));
          sessionSlots = map (\<lambda>(i, _). js ''webmanager.'' @ i)
            (filter (\<lambda>(_, n). case find_host n x of Some h \<Rightarrow> shows_session (h_state h) | None \<Rightarrow> False)
               (x_slotHosts x));
          next = (case p of None \<Rightarrow> (False, False, sessionSlots)
                  | Some s \<Rightarrow> (vs_section s = js ''terminal'', shows_session s, sessionSlots))
      in if x_lastContexts x = Some next then x
         else run (Set_Session_Slots sessionSlots)
                (run (Set_Context (js ''webmanager.activePanelSession'') (fst (snd next)))
                  (run (Set_Context (js ''webmanager.activePanelTerminal'') (fst next))
                    (x\<lparr>x_lastContexts := Some next\<rparr>))))"

definition setActivePanel :: "nat option \<Rightarrow> ext \<Rightarrow> ext" where
  "setActivePanel i x = refreshContexts (x\<lparr>x_activePanel := i\<rparr>)"

definition recordTitle :: "title_record \<Rightarrow> ext \<Rightarrow> ext" where
  "recordTitle r x = (if r \<in> set (x_titles x) then x else x\<lparr>x_titles := x_titles x @ [r]\<rparr>)"

definition forgetTitle :: "nat \<Rightarrow> title_record \<Rightarrow> ext \<Rightarrow> ext" where
  "forgetTitle i r x =
     (if list_ex (\<lambda>h. h_id h \<noteq> i \<and> h_kind h = Panel \<and> h_record h = Some r) (x_hosts x) then x
      else x\<lparr>x_titles := filter (\<lambda>e. e \<noteq> r) (x_titles x)\<rparr>)"

definition PIN_MARK :: ustring where
  "PIN_MARK = [0xd83d, 0xdccc, U_SPACE]"

definition updateTitle :: "env \<Rightarrow> nat \<Rightarrow> ext \<Rightarrow> ext" where
  "updateTitle en i x =
     (let x1 = refreshContexts x
      in case find_host i x1 of
           None \<Rightarrow> x1
         | Some h \<Rightarrow>
             let title = title_of en x1 (h_state h)
             in (case h_kind h of
                   Panel \<Rightarrow>
                     let shown = (if vs_pinned (h_state h) = Some True then PIN_MARK @ title else title);
                         r = \<lparr>tr_id = recordId (en_parse en) (h_state h), tr_title = shown\<rparr>;
                         x2 = (case h_record h of
                                 Some old \<Rightarrow> (if old \<noteq> r then forgetTitle i old x1 else x1)
                               | None \<Rightarrow> x1)
                     in recordTitle r (update_host i (\<lambda>h. h\<lparr>h_title := shown, h_record := Some r\<rparr>) x2)
                 | Slot _ \<Rightarrow> update_host i (\<lambda>h. h\<lparr>h_title := title,
                     h_description := (if vs_section (h_state h) = js ''terminal''
                       then Some (folderBase (vs_cwd (h_state h))) else None)\<rparr>) x1))"

section \<open>Lifecycle of a view\<close>

text \<open>\<open>attach\<close>: the state is normalised and the document rendered under a fresh binding.\<close>

definition attach :: "env \<Rightarrow> nat \<Rightarrow> view_state \<Rightarrow> ext \<Rightarrow> ext" where
  "attach en i s x =
     updateTitle en i
       (update_host i (\<lambda>h. h\<lparr>h_state := normalized s, h_bound := x_next x\<rparr>) (x\<lparr>x_next := Suc (x_next x)\<rparr>))"

text \<open>The 10 second timer of a view that never reported ready.\<close>

definition ready_timeout :: "ext \<Rightarrow> ext" where
  "ready_timeout x =
     (if x_warnedInsecure x then x else run Warn_Insecure (x\<lparr>x_warnedInsecure := True\<rparr>))"

definition detach :: "nat \<Rightarrow> ext \<Rightarrow> ext" where
  "detach i x = x\<lparr>x_hosts := filter (\<lambda>h. h_id h \<noteq> i) (x_hosts x)\<rparr>"

definition retained :: "(ustring \<Rightarrow> bool) \<Rightarrow> host \<Rightarrow> bool" where
  "retained slotRetain h = (case h_kind h of Panel \<Rightarrow> h_retained h | Slot i \<Rightarrow> slotRetain i)"

definition tellViews :: "(ustring \<Rightarrow> bool) \<Rightarrow> to_view list \<Rightarrow> ext \<Rightarrow> ext" where
  "tellViews slotRetain messages x =
     x\<lparr>x_effects := x_effects x @ concat (map (\<lambda>h.
        if h_visible h \<or> retained slotRetain h then map (Send (h_id h)) messages
        else [Rerender (h_id h) (h_bound h)]) (x_hosts x))\<rparr>"

definition tellVisibility :: "nat \<Rightarrow> ext \<Rightarrow> ext" where
  "tellVisibility i x =
     (case find_host i x of None \<Rightarrow> x | Some h \<Rightarrow> run (Send i (Visibility (h_visible h))) x)"

definition navigateHost :: "env \<Rightarrow> nat \<Rightarrow> view_state \<Rightarrow> ext \<Rightarrow> ext" where
  "navigateHost en i s x =
     (let st = normalized s
      in updateTitle en i
           (run (Send i (Navigate (buildPath (en_parse en) (en_ser en) st) st))
             (update_host i (\<lambda>h. h\<lparr>h_state := st\<rparr>) x)))"

section \<open>Where something is shown\<close>

datatype place = At_Host nat | At_Slot ustring

definition findHostFor :: "env \<Rightarrow> view_state \<Rightarrow> nat option \<Rightarrow> ext \<Rightarrow> place option" where
  "findHostFor en s except x =
     (case ident en s of
        None \<Rightarrow> None
      | Some i \<Rightarrow>
          (case List.find (\<lambda>h. Some (h_id h) \<noteq> except \<and> ident en (h_state h) = Some i) (x_hosts x) of
             Some h \<Rightarrow> Some (At_Host (h_id h))
           | None \<Rightarrow>
               let except_slot = (case except of None \<Rightarrow> None
                      | Some n \<Rightarrow> (case find_host n x of
                          Some h \<Rightarrow> (case h_kind h of Slot t \<Rightarrow> Some t | Panel \<Rightarrow> None)
                        | None \<Rightarrow> None))
               in map_option At_Slot
                    (List.find (\<lambda>slot. slot_host slot x = None \<and> Some slot \<noteq> except_slot
                        \<and> (case x_bindings x slot of Some b \<Rightarrow> ident en b = Some i | None \<Rightarrow> False)) SLOT_IDS)))"

definition unresolvedTabsFor :: "env \<Rightarrow> view_state \<Rightarrow> ext \<Rightarrow> tab list" where
  "unresolvedTabsFor en s0 x =
     (let s = normalized s0; title = title_of en x s; titles = [title, PIN_MARK @ title];
          ids = remdups (map tr_id (filter (\<lambda>e. tr_title e \<in> set titles) (x_titles x)))
      in if list_ex (\<lambda>h. h_kind h = Panel \<and> (case h_record h of Some r \<Rightarrow> tr_title r \<in> set titles | None \<Rightarrow> False))
              (x_hosts x) then []
         else if ids \<noteq> [recordId (en_parse en) s] then []
         else filter (\<lambda>t. tb_label t \<in> set titles) (x_restored x))"

definition revealHost :: "place \<Rightarrow> ext \<Rightarrow> ext" where
  "revealHost p x =
     (case p of
        At_Slot i \<Rightarrow> run (Focus_Slot i) x
      | At_Host n \<Rightarrow>
          (case find_host n x of
             None \<Rightarrow> x
           | Some h \<Rightarrow> (case h_kind h of Panel \<Rightarrow> run (Reveal n) x | Slot i \<Rightarrow> run (Focus_Slot i) x)))"

definition close_tabs :: "tab list \<Rightarrow> ext \<Rightarrow> ext" where
  "close_tabs ts x = run (Close_Tabs (map tb_id ts))
     (x\<lparr>x_restored := filter (\<lambda>t. t \<notin> set ts) (x_restored x)\<rparr>)"

section \<open>Editor panels\<close>

text \<open>\<open>setupPanel\<close>; \<open>active\<close> says whether VS Code already shows the panel in front.\<close>

definition setupPanel :: "env \<Rightarrow> bool \<Rightarrow> bool \<Rightarrow> view_state \<Rightarrow> ext \<Rightarrow> ext" where
  "setupPanel en active retain s x =
     (let i = x_next x;
          h = \<lparr>h_id = i, h_kind = Panel, h_state = normalized s, h_record = None, h_closedState = None,
               h_href = None, h_visible = active, h_retained = retain, h_title = [], h_description = None, h_bound = i\<rparr>;
          x1 = attach en i s (x\<lparr>x_hosts := x_hosts x @ [h], x_next := Suc i\<rparr>)
      in if active then setActivePanel (Some i) x1 else x1)"

definition createPanel :: "env \<Rightarrow> retain_setting \<Rightarrow> column \<Rightarrow> view_state \<Rightarrow> ext \<Rightarrow> ext" where
  "createPanel en r col s x =
     setupPanel en True (retainFor r (retainKind (vs_section s))) s (run (Create_Panel (x_next x) col) x)"

definition panel_view_state :: "nat \<Rightarrow> bool \<Rightarrow> bool \<Rightarrow> ext \<Rightarrow> ext" where
  "panel_view_state i active visible x =
     (let x1 = update_host i (\<lambda>h. h\<lparr>h_visible := visible\<rparr>) x;
          x2 = (if active then setActivePanel (Some i) x1
                else if x_activePanel x1 = Some i then setActivePanel None x1 else x1)
      in tellVisibility i x2)"

text \<open>\<open>panel.dispose()\<close> with what \<open>onDidDispose\<close> does.\<close>

definition dispose_panel :: "nat \<Rightarrow> ext \<Rightarrow> ext" where
  "dispose_panel i x =
     (case find_host i x of
        None \<Rightarrow> x
      | Some h \<Rightarrow>
          let x1 = detach i (run (Dispose i) x);
              x2 = (case h_record h of Some r \<Rightarrow> forgetTitle i r x1 | None \<Rightarrow> x1)
          in if x_activePanel x2 = Some i then setActivePanel None x2 else x2)"

section \<open>Panel slots\<close>

definition slot_contexts :: "(ustring \<rightharpoonup> view_state) \<Rightarrow> (ustring \<times> bool) list" where
  "slot_contexts bindings =
     map (\<lambda>i. (js ''webmanager.slot.'' @ i, bindings i \<noteq> None)) SLOT_IDS
     @ [(js ''webmanager.panelInUse'', list_ex (\<lambda>i. i \<noteq> js ''term1'' \<and> bindings i \<noteq> None) SLOT_IDS)]"

text \<open>Whether setting a context shows a view; those go first.\<close>

definition context_shows :: "ustring \<times> bool \<Rightarrow> bool" where
  "context_shows kv = (if fst kv = js ''webmanager.panelInUse'' then \<not> snd kv else snd kv)"

definition syncSlotContexts :: "ext \<Rightarrow> ext" where
  "syncSlotContexts x =
     (let next = slot_contexts (x_bindings x)
      in if x_lastSlotContexts x = Some next then x
         else x\<lparr>x_lastSlotContexts := Some next,
                x_effects := x_effects x @ map (\<lambda>(k, v). Set_Context k v)
                  (filter context_shows next @ filter (\<lambda>kv. \<not> context_shows kv) next)\<rparr>)"

definition saveBinding :: "ustring \<Rightarrow> view_state option \<Rightarrow> ext \<Rightarrow> ext" where
  "saveBinding i s x = syncSlotContexts (x\<lparr>x_bindings := (x_bindings x)(i := s)\<rparr>)"

definition defaultSlotState :: "env \<Rightarrow> ustring \<Rightarrow> view_state" where
  "defaultSlotState en i =
     (if isTerminalSlot i then (blank_state (js ''terminal''))\<lparr>vs_cwd := en_defaultCwd en\<rparr>
      else blank_state (js ''supervisor''))"

definition resolveWebviewView :: "env \<Rightarrow> ustring \<Rightarrow> bool \<Rightarrow> ext \<Rightarrow> ext" where
  "resolveWebviewView en slot visible x =
     (let i = x_next x;
          s = (case x_bindings x slot of Some b \<Rightarrow> b | None \<Rightarrow> defaultSlotState en slot);
          h = \<lparr>h_id = i, h_kind = Slot slot, h_state = normalized s, h_record = None, h_closedState = None,
               h_href = None, h_visible = visible, h_retained = False, h_title = [], h_description = None, h_bound = i\<rparr>
      in attach en i s (x\<lparr>x_hosts := x_hosts x @ [h], x_next := Suc i,
           x_slotHosts := AList.update slot i (x_slotHosts x)\<rparr>))"

definition slot_visibility :: "nat \<Rightarrow> bool \<Rightarrow> ext \<Rightarrow> ext" where
  "slot_visibility i visible x = tellVisibility i (update_host i (\<lambda>h. h\<lparr>h_visible := visible\<rparr>) x)"

definition dispose_slot_view :: "nat \<Rightarrow> ustring \<Rightarrow> ext \<Rightarrow> ext" where
  "dispose_slot_view i slot x =
     (let x1 = detach i x
      in refreshContexts (if slot_host slot x1 = Some i
           then x1\<lparr>x_slotHosts := AList.delete slot (x_slotHosts x1)\<rparr> else x1))"

definition bindSlot :: "env \<Rightarrow> ustring \<Rightarrow> view_state \<Rightarrow> ext \<Rightarrow> ext" where
  "bindSlot en slot s0 x =
     (let s = normalized s0; x1 = saveBinding slot (Some s) x;
          x2 = (case slot_host slot x1 of
                  Some i \<Rightarrow> navigateHost en i s (update_host i (\<lambda>h. h\<lparr>h_closedState := None\<rparr>) x1)
                | None \<Rightarrow> x1)
      in run (Focus_Slot slot) x2)"

definition closeSlot :: "env \<Rightarrow> ustring \<Rightarrow> ext \<Rightarrow> ext" where
  "closeSlot en slot x =
     (let x1 = (case slot_host slot x of
                  Some i \<Rightarrow> update_host i (\<lambda>h. h\<lparr>h_closedState := Some (h_state h)\<rparr>) x
                | None \<Rightarrow> x);
          x2 = saveBinding slot None x1
      in case slot_host slot x2 of
           Some i \<Rightarrow> (if slot = js ''term1'' then navigateHost en i (defaultSlotState en slot) x2 else x2)
         | None \<Rightarrow> x2)"

text \<open>The first free slot of a kind; with none free the user picks one of \<open>slot_choices\<close>.\<close>

definition slot_choices :: "view_state \<Rightarrow> ustring list" where
  "slot_choices s =
     (let kind = (if vs_section s = js ''terminal'' then js ''term'' else js ''page'')
      in filter (\<lambda>i. starts_with i kind) SLOT_IDS)"

definition pickSlot :: "view_state \<Rightarrow> ustring option \<Rightarrow> ext \<Rightarrow> ustring option" where
  "pickSlot s picked x =
     (case List.find (\<lambda>i. x_bindings x i = None) (slot_choices s) of
        Some free \<Rightarrow> Some free
      | None \<Rightarrow> (case picked of Some p \<Rightarrow> (if p \<in> set (slot_choices s) then Some p else None) | None \<Rightarrow> None))"

definition openInPanel :: "env \<Rightarrow> view_state \<Rightarrow> ustring option \<Rightarrow> ext \<Rightarrow> ext" where
  "openInPanel en s0 picked x =
     (let s = normalized s0
      in case pickSlot s picked x of Some i \<Rightarrow> bindSlot en i s x | None \<Rightarrow> x)"

section \<open>Opening\<close>

definition openState :: "env \<Rightarrow> retain_setting \<Rightarrow> column \<Rightarrow> view_state \<Rightarrow> ext \<Rightarrow> ext" where
  "openState en r col s x =
     (case findHostFor en s None x of
        Some p \<Rightarrow> revealHost p x
      | None \<Rightarrow>
          let stale = (if ident en s \<noteq> None then unresolvedTabsFor en s x else [])
          in (case stale of
                [] \<Rightarrow> createPanel en r col s x
              | t # _ \<Rightarrow> createPanel en r (Column (tb_column t)) s (close_tabs stale x)))"

definition openStateInPanel :: "env \<Rightarrow> view_state \<Rightarrow> ustring option \<Rightarrow> ext \<Rightarrow> ext" where
  "openStateInPanel en s picked x =
     (case findHostFor en s None x of
        Some p \<Rightarrow> revealHost p x
      | None \<Rightarrow> openInPanel en s picked x)"

text \<open>A new session's state; \<open>names\<close> is \<open>None\<close> when they could not be fetched.\<close>

definition newSessionAt ::
  "(nat \<Rightarrow> bool) \<Rightarrow> ustring option \<Rightarrow> ustring option \<Rightarrow> ustring option \<Rightarrow> ustring list option \<Rightarrow> ustring list \<Rightarrow> view_state" where
  "newSessionAt alnum cwd label command names alsoTaken =
     (let base = (case or_undefined label of Some l \<Rightarrow> l
                  | None \<Rightarrow> (if folderBase cwd \<noteq> [] then folderBase cwd else DEFAULT_BASE));
          known = (case names of Some ns \<Rightarrow> ns | None \<Rightarrow> [])
      in (terminal_state (uniqueName alnum base (known @ alsoTaken)))
           \<lparr>vs_cwd := cwd, vs_command := command\<rparr>)"

definition openTerminalFromEmbed ::
  "env \<Rightarrow> retain_setting \<Rightarrow> (nat \<Rightarrow> bool) \<Rightarrow> ustring list option \<Rightarrow> fields \<Rightarrow> ext \<Rightarrow> ext" where
  "openTerminalFromEmbed en r alnum names m x =
     (case nonempty_field m ''session'' of
        Some s \<Rightarrow> openState en r Beside (terminal_state s) x
      | None \<Rightarrow>
          let cwd = (case nonempty_field m ''cwd'' of
                       Some c \<Rightarrow> (if starts_with c [U_SLASH] then Some c else None) | None \<Rightarrow> None);
              command = (case m (js ''command'') of Some (JString c) \<Rightarrow> Some c | _ \<Rightarrow> None)
          in openState en r Beside (newSessionAt alnum cwd (nonempty_field m ''label'') command names []) x)"

text \<open>
  The Explorer's selection: every item on disk stands for its folder, a file for the one it is in.
  An item is its scheme, its path and what \<open>stat\<close> says: \<open>None\<close> when it throws, else whether it is a
  directory.
\<close>

definition dirname :: "ustring \<Rightarrow> ustring" where
  "dirname p = (let d = join_with U_SLASH (butlast (split_on U_SLASH p)) in if d = [] then [U_SLASH] else d)"

definition explorer_dirs :: "(ustring \<times> ustring \<times> bool option) list \<Rightarrow> ustring list" where
  "explorer_dirs uris = List.map_filter (\<lambda>(scheme, p, stat).
     if scheme \<noteq> js ''file'' then None
     else case stat of None \<Rightarrow> None | Some isDir \<Rightarrow> Some (if isDir then p else dirname p)) uris"

definition explorer_uris :: "'u option \<Rightarrow> 'u list option \<Rightarrow> 'u list" where
  "explorer_uris uri selected =
     (case selected of Some (u # us) \<Rightarrow> u # us | _ \<Rightarrow> (case uri of Some u \<Rightarrow> [u] | None \<Rightarrow> []))"

text \<open>One session per folder; \<open>names\<close> and \<open>picked\<close> are what that turn fetched and was answered.\<close>

definition open_folder_session ::
  "env \<Rightarrow> retain_setting \<Rightarrow> (nat \<Rightarrow> bool) \<Rightarrow> bool \<Rightarrow> ustring \<times> ustring list option \<times> ustring option \<Rightarrow>
     ustring list \<times> ext \<Rightarrow> ustring list \<times> ext" where
  "open_folder_session en r alnum inPanel turn p =
     (let (dir, names, picked) = turn; (taken, x) = p;
          s = newSessionAt alnum (Some dir) None None names taken;
          taken' = taken @ (case vs_session s of Some n \<Rightarrow> [n] | None \<Rightarrow> [])
      in (taken', if inPanel then openInPanel en s picked x else openState en r Active_Column s x))"

definition openFromExplorer ::
  "env \<Rightarrow> retain_setting \<Rightarrow> (nat \<Rightarrow> bool) \<Rightarrow> bool \<Rightarrow>
     (ustring \<times> ustring list option \<times> ustring option) list \<Rightarrow> ext \<Rightarrow> ext" where
  "openFromExplorer en r alnum inPanel turns x =
     snd (fold (open_folder_session en r alnum inPanel) turns ([], x))"

text \<open>The folder of a new session: \<open>folders\<close> in order, and the pick when there are several.\<close>

definition newSessionState ::
  "(nat \<Rightarrow> bool) \<Rightarrow> ustring list \<Rightarrow> ustring option \<Rightarrow> ustring option \<Rightarrow> ustring option \<Rightarrow>
     ustring list option \<Rightarrow> view_state option" where
  "newSessionState alnum folders picked label command names =
     (case folders of
        [] \<Rightarrow> Some (newSessionAt alnum None label command names [])
      | [f] \<Rightarrow> Some (newSessionAt alnum (Some f) label command names [])
      | _ \<Rightarrow> (case picked of None \<Rightarrow> None
              | Some f \<Rightarrow> Some (newSessionAt alnum (Some f) label command names [])))"

definition newSessionInView :: "env \<Rightarrow> nat \<Rightarrow> view_state option \<Rightarrow> ext \<Rightarrow> ext" where
  "newSessionInView en i s x = (case s of Some st \<Rightarrow> navigateHost en i st x | None \<Rightarrow> x)"

definition openSessionInView :: "env \<Rightarrow> nat \<Rightarrow> ustring \<Rightarrow> ext \<Rightarrow> ext" where
  "openSessionInView en i name x =
     (let s = terminal_state name
      in case findHostFor en s (Some i) x of
           Some p \<Rightarrow> revealHost p x
         | None \<Rightarrow>
             let stale = unresolvedTabsFor en s x;
                 x1 = (if stale \<noteq> [] then close_tabs stale x else x)
             in run (Send i (Select_Session name)) x1)"

text \<open>The view a palette command acts on.\<close>

definition target_host :: "ext \<Rightarrow> nat option" where
  "target_host x =
     (case x_activePanel x of
        Some i \<Rightarrow> Some i
      | None \<Rightarrow>
          (case List.find (\<lambda>(_, n). case find_host n x of Some h \<Rightarrow> h_visible h | None \<Rightarrow> False) (x_slotHosts x) of
             Some (_, n) \<Rightarrow> Some n
           | None \<Rightarrow> (case x_hosts x of h # _ \<Rightarrow> Some (h_id h) | [] \<Rightarrow> None)))"

definition withTargetHost :: "to_view \<Rightarrow> ext \<Rightarrow> ext" where
  "withTargetHost m x =
     (case target_host x of
        None \<Rightarrow> run Inform x
      | Some i \<Rightarrow> run (Send i m) (revealHost (At_Host i) x))"

end
