(* ===== verification/View_Messages.thy ===== *)
theory View_Messages
  imports View_Host
begin

text \<open>
  The rest of \<open>extension.js\<close>: the messages a view sends, the actions of its title bar and of the
  command palette, and activation.
\<close>

section \<open>What a view may ask\<close>

text \<open>\<open>protocol_of\<close>: the protocol of a parsable URL.\<close>

definition isHttpUrl :: "(ustring \<Rightarrow> ustring option) \<Rightarrow> ustring \<Rightarrow> bool" where
  "isHttpUrl protocol_of u \<longleftrightarrow> protocol_of u \<in> {Some (js ''http:''), Some (js ''https:'')}"

definition string_of :: "fields \<Rightarrow> string \<Rightarrow> ustring option" where
  "string_of m k = (case m (js k) of Some (JString v) \<Rightarrow> Some v | _ \<Rightarrow> None)"

text \<open>\<open>Number.isInteger\<close>; a field that is one.\<close>

definition int_of :: "fields \<Rightarrow> string \<Rightarrow> int option" where
  "int_of m k = (case m (js k) of
     Some (JNumber n) \<Rightarrow> (if n = of_int \<lfloor>n\<rfloor> then Some \<lfloor>n\<rfloor> else None) | _ \<Rightarrow> None)"

text \<open>\<open>s.replace(/^(\.{1,2}\/)+/, '')\<close>\<close>

fun strip_dots :: "ustring \<Rightarrow> ustring" where
  "strip_dots (u # v # s) =
     (if u = 0x2e \<and> v = U_SLASH then strip_dots s
      else if u = 0x2e \<and> v = 0x2e
      then (case s of w # r \<Rightarrow> (if w = U_SLASH then strip_dots r else u # v # s) | [] \<Rightarrow> u # v # s)
      else u # v # s)"
| "strip_dots s = s"

datatype file_stat = No_File | A_Directory | A_File

text \<open>
  The path a request means: \<open>~/\<close> from the home directory, a relative one from the session's
  directory; \<open>join\<close> is \<open>path.posix.join\<close>.
\<close>

definition file_target :: "(ustring \<Rightarrow> ustring \<Rightarrow> ustring) \<Rightarrow> ustring \<Rightarrow> ustring \<Rightarrow> ustring option \<Rightarrow> ustring" where
  "file_target join home p cwd =
     (if starts_with p (js ''~/'') then join home (drop 2 p)
      else case cwd of
             Some c \<Rightarrow> (if \<not> starts_with p [U_SLASH] \<and> starts_with c [U_SLASH] then join c p else p)
           | None \<Rightarrow> p)"

definition show_int :: "int \<Rightarrow> ustring" where
  "show_int n = (if n < 0 then js ''-'' @ show_nat (nat (- n)) else show_nat (nat n))"

definition openFileFromEmbed ::
  "(ustring \<Rightarrow> ustring \<Rightarrow> ustring) \<Rightarrow> ustring \<Rightarrow> (ustring \<Rightarrow> file_stat) \<Rightarrow> fields \<Rightarrow> ext \<Rightarrow> ext" where
  "openFileFromEmbed join home stat m x =
     (case nonempty_field m ''path'' of
        None \<Rightarrow> x
      | Some mp \<Rightarrow>
          let p = file_target join home mp (string_of m ''cwd'');
              found = (if starts_with p [U_SLASH] then stat p else No_File)
          in case found of
               No_File \<Rightarrow> run (Quick_Open (strip_dots mp @
                   (case int_of m ''line'' of Some l \<Rightarrow> js '':'' @ show_int l | None \<Rightarrow> []))) x
             | A_Directory \<Rightarrow> run (Reveal_In_Explorer p) x
             | A_File \<Rightarrow>
                 let line = (case int_of m ''line'' of Some l \<Rightarrow> if l > 0 then Some (nat (l - 1)) else None
                             | None \<Rightarrow> None);
                     col = (case int_of m ''col'' of Some c \<Rightarrow> if c > 0 then nat (c - 1) else 0 | None \<Rightarrow> 0)
                 in run (Show_Document p (map_option (\<lambda>l. (l, col)) line)) x)"

text \<open>The VNC targets a view reported; the titles of the VNC views follow.\<close>

definition rememberVncTargets :: "env \<Rightarrow> json option \<Rightarrow> ext \<Rightarrow> ext" where
  "rememberVncTargets en targets x =
     (case targets of
        Some (JArray ts) \<Rightarrow>
          (let x1 = x\<lparr>x_vncTargets := List.map_filter clean_target ts\<rparr>
           in fold (updateTitle en)
                (map h_id (filter (\<lambda>h. vs_section (h_state h) = js ''vnc'') (x_hosts x1))) x1)
      | _ \<Rightarrow> x)"

text \<open>Before and after the wait for the old connection to close.\<close>

definition openVncWindow_close :: "env \<Rightarrow> (ustring \<Rightarrow> ustring option) \<Rightarrow> fields \<Rightarrow> ext \<Rightarrow> ext" where
  "openVncWindow_close en protocol_of m x =
     (case (string_of m ''name'', string_of m ''url'') of
        (Some name, Some u) \<Rightarrow>
          (if \<not> isHttpUrl protocol_of u then x
           else let s = vncState (en_ser en) name
                in case findHostFor en s None x of
                     Some (At_Slot i) \<Rightarrow> closeSlot en i x
                   | Some (At_Host n) \<Rightarrow>
                       (case find_host n x of
                          Some h \<Rightarrow> (case h_kind h of Panel \<Rightarrow> dispose_panel n x | Slot i \<Rightarrow> closeSlot en i x)
                        | None \<Rightarrow> x)
                   | None \<Rightarrow> (let stale = unresolvedTabsFor en s x
                              in if stale \<noteq> [] then close_tabs stale x else x))
      | _ \<Rightarrow> x)"

definition openVncWindow_open :: "(ustring \<Rightarrow> ustring option) \<Rightarrow> fields \<Rightarrow> ext \<Rightarrow> ext" where
  "openVncWindow_open protocol_of m x =
     (case (string_of m ''name'', string_of m ''url'') of
        (Some name, Some u) \<Rightarrow> (if isHttpUrl protocol_of u then run (External u) x else x)
      | _ \<Rightarrow> x)"

section \<open>State reports\<close>

text \<open>A report still in flight from the page a slot was closed with.\<close>

definition stale_report :: "host \<Rightarrow> fields \<Rightarrow> bool" where
  "stale_report h m \<longleftrightarrow>
     (case h_closedState h of
        None \<Rightarrow> False
      | Some c \<Rightarrow> (let r = normalizeState m in vs_section c = vs_section r
                   \<and> vs_session c = vs_session r \<and> vs_query c = vs_query r))"

definition reported_state :: "view_state \<Rightarrow> fields \<Rightarrow> view_state" where
  "reported_state old m =
     (let same = (m (js ''session'') = map_option JString (vs_session old));
          prev = (if same then fields_of old
                  else (fields_of old)(js ''pinned'' := None, js ''created'' := None));
          s = normalizeState (prev ++ m)
      in if vs_session s \<noteq> None then s\<lparr>vs_command := None\<rparr> else s)"

definition on_state :: "env \<Rightarrow> nat \<Rightarrow> fields \<Rightarrow> ext \<Rightarrow> ext" where
  "on_state en i m x =
     (case find_host i x of
        None \<Rightarrow> x
      | Some h \<Rightarrow>
          (if stale_report h m then x
           else let x1 = update_host i (\<lambda>h. h\<lparr>h_closedState := None,
                           h_state := reported_state (h_state h) m,
                           h_href := (case string_of m ''href'' of Some u \<Rightarrow> Some u | None \<Rightarrow> h_href h)\<rparr>) x;
                    x2 = updateTitle en i x1;
                    s = reported_state (h_state h) m
                in (case h_kind h of
                      Slot slot \<Rightarrow> (if vs_section s \<noteq> js ''terminal'' \<or> vs_session s \<noteq> None
                                    then saveBinding slot (Some s) x2 else x2)
                    | Panel \<Rightarrow> x2)))"

section \<open>All messages\<close>

text \<open>What the handler reads besides the message.\<close>

record inputs =
  in_retain :: retain_setting
  in_alnum :: "nat \<Rightarrow> bool"
  in_lower :: "ustring \<Rightarrow> ustring"
  in_protocol :: "ustring \<Rightarrow> ustring option"
  in_join :: "ustring \<Rightarrow> ustring \<Rightarrow> ustring"
  in_home :: ustring
  in_stat :: "ustring \<Rightarrow> file_stat"
  in_names :: "ustring list option"          \<comment> \<open>\<open>fetchSessionNames()\<close>\<close>
  in_folders :: "ustring list"               \<comment> \<open>\<open>fileFolders()\<close>\<close>
  in_folder_pick :: "ustring option"
  in_passthrough :: "json list"              \<comment> \<open>the \<open>passthroughKeys\<close> setting\<close>

definition run_passthrough :: "inputs \<Rightarrow> fields \<Rightarrow> ext \<Rightarrow> ext" where
  "run_passthrough inp m x =
     (case List.find (\<lambda>e. case chord_key e of
              Some k \<Rightarrow> m (js ''chord'') = Some (JString (canonicalChord (in_lower inp) k)) | None \<Rightarrow> False)
            (in_passthrough inp) of
        None \<Rightarrow> x
      | Some e \<Rightarrow> (case json_field e (js ''command'') of
                    Some (JString c) \<Rightarrow> run (Run_Command c (json_field e (js ''args''))) x
                  | _ \<Rightarrow> x))"

definition close_request :: "env \<Rightarrow> nat \<Rightarrow> ext \<Rightarrow> ext" where
  "close_request en i x =
     (case find_host i x of
        None \<Rightarrow> x
      | Some h \<Rightarrow> (case h_kind h of Panel \<Rightarrow> dispose_panel i x | Slot slot \<Rightarrow> closeSlot en slot x))"

text \<open>
  \<open>onMessage\<close>, up to the second half of \<open>openVncWindow\<close>. A \<open>wv-ready\<close>, \<open>embed-timeout\<close> or
  \<open>session-ended\<close> only stops the timer or writes the log.
\<close>

definition onMessage :: "env \<Rightarrow> inputs \<Rightarrow> nat \<Rightarrow> fields \<Rightarrow> ext \<Rightarrow> ext" where
  "onMessage en inp i m x =
     (case string_of m ''type'' of
        None \<Rightarrow> x
      | Some t \<Rightarrow>
          if t = js ''ready'' then tellVisibility i x
          else if t = js ''state'' then on_state en i m x
          else if t = js ''open-external'' then
            (case string_of m ''url'' of
               Some u \<Rightarrow> (if isHttpUrl (in_protocol inp) u then run (External u) x else x) | None \<Rightarrow> x)
          else if t = js ''open-folder'' then
            (case string_of m ''path'' of
               Some p \<Rightarrow> (if starts_with p [U_SLASH] then run (Folder_Window p) x else x) | None \<Rightarrow> x)
          else if t = js ''open-file'' then openFileFromEmbed (in_join inp) (in_home inp) (in_stat inp) m x
          else if t = js ''new-session'' then
            newSessionInView en i (newSessionState (in_alnum inp) (in_folders inp) (in_folder_pick inp)
              (nonempty_field m ''label'') (string_of m ''command'') (in_names inp)) x
          else if t = js ''open-terminal'' then
            openTerminalFromEmbed en (in_retain inp) (in_alnum inp) (in_names inp) m x
          else if t = js ''open-session'' then
            (case nonempty_field m ''session'' of Some n \<Rightarrow> openSessionInView en i n x | None \<Rightarrow> x)
          else if t = js ''open-vnc'' then
            (case nonempty_field m ''name'' of
               Some n \<Rightarrow> openState en (in_retain inp) Active_Column (vncState (en_ser en) n) x | None \<Rightarrow> x)
          else if t = js ''open-vnc-window'' then openVncWindow_close en (in_protocol inp) m x
          else if t = js ''vnc-targets'' then rememberVncTargets en (m (js ''targets'')) x
          else if t = js ''close-request'' then close_request en i x
          else if t = js ''key'' then run_passthrough inp m x
          else x)"

section \<open>View actions\<close>

text \<open>\<open>changeSession\<close>, once the user has picked \<open>s\<close>.\<close>

definition changeSession :: "env \<Rightarrow> nat \<Rightarrow> view_state \<Rightarrow> ext \<Rightarrow> ext" where
  "changeSession en i s x =
     (case findHostFor en (case vs_session s of Some n \<Rightarrow> terminal_state n | None \<Rightarrow> blank_state (js ''terminal'')) (Some i) x of
        Some p \<Rightarrow> revealHost p x
      | None \<Rightarrow>
          (case find_host i x of
             Some h \<Rightarrow> (case h_kind h of Slot slot \<Rightarrow> bindSlot en slot s x | Panel \<Rightarrow> navigateHost en i s x)
           | None \<Rightarrow> x))"

text \<open>\<open>switchTab\<close>, once a tab other than the terminal is picked; \<open>s\<close> is the picked VNC state for \<open>vnc\<close>.\<close>

definition switch_choices :: "host \<Rightarrow> ext_section list" where
  "switch_choices h = filter (\<lambda>s. \<not> (h_kind h \<noteq> Panel \<and> xs_id s = js ''terminal'')) EXT_SECTIONS"

definition switchTab :: "env \<Rightarrow> nat \<Rightarrow> view_state \<Rightarrow> ext \<Rightarrow> ext" where
  "switchTab en i s x =
     (case (if vs_section s = js ''vnc'' then findHostFor en s (Some i) x else None) of
        Some p \<Rightarrow> revealHost p x
      | None \<Rightarrow>
          (case find_host i x of
             Some h \<Rightarrow> (case h_kind h of Slot slot \<Rightarrow> bindSlot en slot s x | Panel \<Rightarrow> navigateHost en i s x)
           | None \<Rightarrow> x))"

text \<open>The input box of \<open>renameSession\<close>, then what its answer does.\<close>

definition rename_problem :: "(nat \<Rightarrow> bool) \<Rightarrow> ustring list option \<Rightarrow> ustring \<Rightarrow> ustring \<Rightarrow> name_problem option" where
  "rename_problem alnum names session v =
     validateName alnum (trim v) (filter (\<lambda>n. n \<noteq> session) (case names of Some ns \<Rightarrow> ns | None \<Rightarrow> []))"

definition rename_view :: "nat \<Rightarrow> ustring \<Rightarrow> ext \<Rightarrow> ext" where
  "rename_view i name x =
     (case find_host i x of
        Some h \<Rightarrow> (if \<not> shows_session (h_state h) \<or> name = [] \<or> Some (trim name) = vs_session (h_state h)
                   then x else run (Send i (Rename (trim name))) x)
      | None \<Rightarrow> x)"

definition togglePin_view :: "nat \<Rightarrow> ext \<Rightarrow> ext" where
  "togglePin_view i x =
     (case find_host i x of
        Some h \<Rightarrow> (if \<not> shows_session (h_state h) then x
                   else run (Send i (Pin (vs_pinned (h_state h) \<noteq> Some True))) x)
      | None \<Rightarrow> x)"

text \<open>\<open>opened\<close> is what \<open>openExternal\<close> answers: a blocked popup must not cost the view.\<close>

definition openInBrowser :: "env \<Rightarrow> nat \<Rightarrow> bool \<Rightarrow> ext \<Rightarrow> ext" where
  "openInBrowser en i opened x =
     (case find_host i x of
        None \<Rightarrow> x
      | Some h \<Rightarrow>
          (case or_undefined (h_href h) of
             None \<Rightarrow> run Inform x
           | Some u \<Rightarrow>
               let x1 = run (External u) x
               in if opened \<and> vs_section (h_state h) = js ''terminal'' then close_request en i x1 else x1))"

definition reload_view :: "env \<Rightarrow> nat \<Rightarrow> ext \<Rightarrow> ext" where
  "reload_view en i x =
     (case find_host i x of Some h \<Rightarrow> navigateHost en i (h_state h) x | None \<Rightarrow> x)"

definition moveToEditor :: "env \<Rightarrow> retain_setting \<Rightarrow> nat \<Rightarrow> ext \<Rightarrow> ext" where
  "moveToEditor en r i x =
     (case find_host i x of
        Some h \<Rightarrow> (case h_kind h of
                    Slot slot \<Rightarrow> createPanel en r Active_Column (h_state h) (closeSlot en slot x)
                  | Panel \<Rightarrow> x)
      | None \<Rightarrow> x)"

definition moveToPanel :: "env \<Rightarrow> nat \<Rightarrow> ustring option \<Rightarrow> ext \<Rightarrow> ext" where
  "moveToPanel en i picked x =
     (case find_host i x of
        Some h \<Rightarrow> (case pickSlot (h_state h) picked x of
                    Some slot \<Rightarrow> bindSlot en slot (h_state h) (dispose_panel i x)
                  | None \<Rightarrow> x)
      | None \<Rightarrow> x)"

section \<open>Pickers\<close>

datatype session_pick = Pick_Session ustring | Pick_New "ustring option"

text \<open>\<open>answer\<close>: what the input box returned for a new session.\<close>

definition picked_session :: "session_pick option \<Rightarrow> ustring option \<Rightarrow> view_state option" where
  "picked_session pick answer =
     (case pick of
        None \<Rightarrow> None
      | Some (Pick_Session n) \<Rightarrow> Some (terminal_state n)
      | Some (Pick_New cwd) \<Rightarrow>
          (case or_undefined answer of
             None \<Rightarrow> None
           | Some n \<Rightarrow> Some ((terminal_state (trim n))\<lparr>vs_cwd := cwd\<rparr>)))"

definition proposed_name :: "(nat \<Rightarrow> bool) \<Rightarrow> ustring option \<Rightarrow> ustring list \<Rightarrow> ustring" where
  "proposed_name alnum cwd names =
     uniqueName alnum (if folderBase cwd \<noteq> [] then folderBase cwd else DEFAULT_BASE) names"

datatype vnc_pick = Pick_List | Pick_Target ustring

definition picked_vnc :: "(query \<Rightarrow> ustring) \<Rightarrow> vnc_pick option \<Rightarrow> view_state option" where
  "picked_vnc ser pick =
     (case pick of None \<Rightarrow> None
      | Some Pick_List \<Rightarrow> Some (blank_state (js ''vnc''))
      | Some (Pick_Target n) \<Rightarrow> Some (vncState ser n))"

definition picked_section ::
  "(query \<Rightarrow> ustring) \<Rightarrow> ustring option \<Rightarrow> session_pick option \<Rightarrow> ustring option \<Rightarrow> vnc_pick option \<Rightarrow> view_state option" where
  "picked_section ser section session answer vnc =
     (case section of
        None \<Rightarrow> None
      | Some i \<Rightarrow> (if i = js ''terminal'' then picked_session session answer
                   else if i = js ''vnc'' then picked_vnc ser vnc
                   else Some (blank_state i)))"

section \<open>Activation\<close>

text \<open>\<open>deserializeWebviewPanel\<close>: VS Code hands back a restored tab's panel and its saved state.\<close>

definition deserialize :: "env \<Rightarrow> nat \<Rightarrow> bool \<Rightarrow> bool \<Rightarrow> fields option \<Rightarrow> ext \<Rightarrow> ext" where
  "deserialize en tab_id active retain saved x =
     (let x1 = x\<lparr>x_restored := filter (\<lambda>t. tb_id t \<noteq> tab_id) (x_restored x)\<rparr>
      in case saved of
           None \<Rightarrow> run (Close_Tabs [tab_id]) x1
         | Some f \<Rightarrow>
             (if string_of f ''section'' = None then run (Close_Tabs [tab_id]) x1
              else if findHostFor en (normalizeState f) None x1 \<noteq> None then run (Close_Tabs [tab_id]) x1
              else setupPanel en active retain (normalizeState f) x1))"

definition prune_titles :: "ext \<Rightarrow> ext" where
  "prune_titles x =
     (let labels = map tb_label (x_restored x) @ map h_title (filter (\<lambda>h. h_kind h = Panel) (x_hosts x))
      in x\<lparr>x_titles := filter (\<lambda>e. tr_title e \<in> set labels) (x_titles x)\<rparr>)"

definition activate :: "ext \<Rightarrow> ext" where
  "activate x = syncSlotContexts (prune_titles x)"

definition window_focused :: "ext \<Rightarrow> ext" where
  "window_focused x = x\<lparr>x_effects := x_effects x @
     map (\<lambda>h. Send (h_id h) Foreground) (filter h_visible (x_hosts x))\<rparr>"

text \<open>A change of the settings: the theme or the passthrough keys, whichever it touches.\<close>

definition configuration_changed ::
  "(ustring \<Rightarrow> bool) \<Rightarrow> ustring option option \<Rightarrow> ustring list option \<Rightarrow> ext \<Rightarrow> ext" where
  "configuration_changed slotRetain theme chords x =
     (let messages =
            (case theme of None \<Rightarrow> [] | Some th \<Rightarrow>
               [Theme_Pref (case or_undefined th of Some t \<Rightarrow> t | None \<Rightarrow> js ''auto'')])
            @ (case chords of None \<Rightarrow> [] | Some cs \<Rightarrow> [Keys cs])
      in if messages \<noteq> [] then tellViews slotRetain messages x else x)"

end
