(* ===== verification/View_Frame.thy ===== *)
theory View_Frame
  imports View_Messages
begin

text \<open>
  What each operation of \<open>extension.js\<close> does to the views themselves, apart from titles, contexts and
  messages: the part of the state that decides where a session or VNC target is shown.
\<close>

section \<open>The part that matters\<close>

definition views :: "ext \<Rightarrow> (nat \<times> host_kind \<times> view_state) list" where
  "views x = map (\<lambda>h. (h_id h, h_kind h, h_state h)) (x_hosts x)"

definition mv :: "ext \<Rightarrow> nat \<Rightarrow> (host_kind \<times> view_state) option" where
  "mv x = map_of (views x)"

definition frame where
  "frame x = (views x, x_slotHosts x, x_bindings x, x_next x)"

lemma frameD:
  "frame x = frame y \<Longrightarrow> views x = views y" "frame x = frame y \<Longrightarrow> x_slotHosts x = x_slotHosts y"
  "frame x = frame y \<Longrightarrow> x_bindings x = x_bindings y" "frame x = frame y \<Longrightarrow> x_next x = x_next y"
  by (simp_all add: frame_def)

lemma mv_find: "mv x n = map_option (\<lambda>h. (h_kind h, h_state h)) (find_host n x)"
proof -
  have "map_of (map (\<lambda>h. (h_id h, h_kind h, h_state h)) hs) n =
      map_option (\<lambda>h. (h_kind h, h_state h)) (List.find (\<lambda>h. h_id h = n) hs)" for hs
    by (induction hs) auto
  then show ?thesis by (simp add: mv_def views_def find_host_def)
qed

lemma find_host_id: "find_host n x = Some h \<Longrightarrow> h_id h = n \<and> h \<in> set (x_hosts x)"
  by (auto simp: find_host_def find_Some_iff)

lemma frame_same [simp]:
  "frame (x\<lparr>x_effects := a1\<rparr>) = frame x" "frame (x\<lparr>x_activePanel := a2\<rparr>) = frame x"
  "frame (x\<lparr>x_lastContexts := a3\<rparr>) = frame x" "frame (x\<lparr>x_titles := a4\<rparr>) = frame x"
  "frame (x\<lparr>x_restored := a5\<rparr>) = frame x" "frame (x\<lparr>x_vncTargets := a6\<rparr>) = frame x"
  "frame (x\<lparr>x_lastSlotContexts := a7\<rparr>) = frame x" "frame (x\<lparr>x_warnedInsecure := a8\<rparr>) = frame x"
  by (simp_all add: frame_def views_def)

lemma frame_run [simp]: "frame (run e x) = frame x"
  by (simp add: run_def)

lemma frame_refreshContexts [simp]: "frame (refreshContexts x) = frame x"
  by (simp add: refreshContexts_def Let_def)

lemma frame_setActivePanel [simp]: "frame (setActivePanel i x) = frame x"
  by (simp add: setActivePanel_def)

lemma frame_titles [simp]:
  "frame (recordTitle r x) = frame x" "frame (forgetTitle i r x) = frame x"
  by (simp_all add: recordTitle_def forgetTitle_def)

lemma frame_update_host:
  assumes "\<And>h. h_id (f h) = h_id h \<and> h_kind (f h) = h_kind h \<and> h_state (f h) = h_state h"
  shows "frame (update_host i f x) = frame x"
  using assms by (simp add: frame_def views_def update_host_def o_def if_distrib cong: if_cong)

lemma frame_updateTitle [simp]: "frame (updateTitle en i x) = frame x"
  by (simp add: updateTitle_def Let_def frame_update_host split: option.split host_kind.split)

lemma frame_tellVisibility [simp]: "frame (tellVisibility i x) = frame x"
  by (simp add: tellVisibility_def split: option.split)

lemma frame_revealHost [simp]: "frame (revealHost p x) = frame x"
  by (simp add: revealHost_def split: option.split place.split host_kind.split)

lemma frame_close_tabs [simp]: "frame (close_tabs ts x) = frame x"
  by (simp add: close_tabs_def)

lemma frame_syncSlotContexts [simp]: "frame (syncSlotContexts x) = frame x"
  by (simp add: syncSlotContexts_def Let_def frame_def views_def)

section \<open>Operations that change it\<close>

lemma mv_update_host:
  assumes "\<And>h. h_id (f h) = h_id h" "\<And>h. h_kind (f h) = h_kind h"
  shows "mv (update_host i f x) =
     (mv x)(i := map_option (\<lambda>h. (h_kind h, h_state (f h))) (find_host i x))"
proof
  fix n
  have "List.find (\<lambda>h. h_id h = n) (map (\<lambda>h. if h_id h = i then f h else h) hs) =
      map_option (\<lambda>h. if n = i then f h else h) (List.find (\<lambda>h. h_id h = n) hs)" for hs
    using assms by (induction hs) auto
  then show "mv (update_host i f x) n =
      ((mv x)(i := map_option (\<lambda>h. (h_kind h, h_state (f h))) (find_host i x))) n"
    using assms by (auto simp: mv_find find_host_def update_host_def option.map_comp o_def intro!: option.map_cong0)
qed

lemma update_host_fields [simp]:
  "x_slotHosts (update_host i f x) = x_slotHosts x" "x_bindings (update_host i f x) = x_bindings x"
  "x_next (update_host i f x) = x_next x"
  by (simp_all add: update_host_def)

text \<open>Well-formedness: views have distinct fresh names and the slots know theirs.\<close>

definition ids :: "ext \<Rightarrow> nat list" where
  "ids x = map fst (views x)"

definition kind_at :: "ext \<Rightarrow> nat \<Rightarrow> host_kind option" where
  "kind_at x n = map_option fst (mv x n)"

definition well_formed :: "ext \<Rightarrow> bool" where
  "well_formed x \<longleftrightarrow> distinct (ids x) \<and> (\<forall>n \<in> set (ids x). n < x_next x)
     \<and> (\<forall>n t. kind_at x n = Some (Slot t) \<longleftrightarrow> slot_host t x = Some n)"

lemma ids_update_host:
  "(\<And>h. h_id (f h) = h_id h) \<Longrightarrow> ids (update_host i f x) = ids x"
  by (simp add: ids_def views_def update_host_def o_def if_distrib cong: if_cong)

lemma slot_host_frame: "frame x = frame y \<Longrightarrow> slot_host t x = slot_host t y"
  by (simp add: slot_host_def frame_def)

lemma mv_frame: "frame x = frame y \<Longrightarrow> mv x = mv y"
  by (simp add: mv_def frame_def)

lemma wf_frame: "frame x = frame y \<Longrightarrow> well_formed x = well_formed y"
  by (simp add: well_formed_def frame_def mv_def slot_host_def ids_def kind_at_def)

lemma wf_ext_init [simp]: "well_formed (ext_init b t v r)"
  by (simp add: well_formed_def ext_init_def views_def mv_def slot_host_def ids_def kind_at_def)

lemma mv_fresh: "well_formed x \<Longrightarrow> x_next x \<le> n \<Longrightarrow> mv x n = None"
  unfolding well_formed_def mv_def ids_def by (force simp: map_of_eq_None_iff)

lemma wf_update_host:
  assumes "well_formed x" "\<And>h. h_id (f h) = h_id h" "\<And>h. h_kind (f h) = h_kind h"
  shows "well_formed (update_host i f x)"
proof -
  have "kind_at (update_host i f x) n = kind_at x n" for n
    unfolding kind_at_def mv_update_host [OF assms(2,3)] by (simp add: mv_find option.map_comp o_def)
  moreover have "slot_host t (update_host i f x) = slot_host t x" for t by (simp add: slot_host_def)
  ultimately show ?thesis
    using assms(1) ids_update_host [of f i x] assms(2) by (simp add: well_formed_def)
qed

subsection \<open>New views\<close>

lemma attach_frame:
  "views (attach en i s x) = views (update_host i (\<lambda>h. h\<lparr>h_state := normalized s\<rparr>) x)"
  "mv (attach en i s x) = (mv x)(i := map_option (\<lambda>(k, _). (k, normalized s)) (mv x i))"
  "x_slotHosts (attach en i s x) = x_slotHosts x" "x_bindings (attach en i s x) = x_bindings x"
  "x_next (attach en i s x) = Suc (x_next x)"
proof -
  let ?y = "update_host i (\<lambda>h. h\<lparr>h_state := normalized s, h_bound := x_next x\<rparr>) (x\<lparr>x_next := Suc (x_next x)\<rparr>)"
  have f: "frame (attach en i s x) = frame ?y" by (simp add: attach_def)
  show "views (attach en i s x) = views (update_host i (\<lambda>h. h\<lparr>h_state := normalized s\<rparr>) x)"
    using frameD(1) [OF f] by (simp add: views_def update_host_def o_def if_distrib cong: if_cong)
  show "mv (attach en i s x) = (mv x)(i := map_option (\<lambda>(k, _). (k, normalized s)) (mv x i))"
  proof -
    have "mv ?y = (mv x)(i := map_option (\<lambda>(k, _). (k, normalized s)) (mv x i))"
      by (subst mv_update_host) (simp_all add: mv_find find_host_def option.map_comp o_def fun_eq_iff)
    then show ?thesis using mv_frame [OF f] by simp
  qed
  show "x_slotHosts (attach en i s x) = x_slotHosts x" "x_bindings (attach en i s x) = x_bindings x"
    "x_next (attach en i s x) = Suc (x_next x)"
    using frameD(2-4) [OF f] by simp_all
qed

lemma mv_append:
  "mv x (h_id h) = None \<Longrightarrow> mv (x\<lparr>x_hosts := x_hosts x @ [h], x_next := n\<rparr>) = (mv x)(h_id h \<mapsto> (h_kind h, h_state h))"
  by (auto simp: mv_def views_def map_add_def fun_eq_iff split: option.split)

text \<open>A panel or slot view with the next name, whose other fields do not matter here.\<close>

lemma setupPanel_frame:
  fixes en active retain s
  assumes "well_formed x"
  defines "y \<equiv> setupPanel en active retain s x"
  shows "mv y = (mv x)(x_next x \<mapsto> (Panel, normalized s))" "x_slotHosts y = x_slotHosts x"
    "x_bindings y = x_bindings x" "well_formed y"
proof -
  define h where "h = \<lparr>h_id = x_next x, h_kind = Panel, h_state = normalized s, h_record = None,
    h_closedState = None, h_href = None, h_visible = active, h_retained = retain, h_title = [],
    h_description = None, h_bound = x_next x\<rparr>"
  define z where "z = x\<lparr>x_hosts := x_hosts x @ [h], x_next := Suc (x_next x)\<rparr>"
  have fr: "frame y = frame (attach en (x_next x) s z)"
    by (simp add: y_def setupPanel_def Let_def h_def z_def)
  have z: "mv z = (mv x)(x_next x \<mapsto> (Panel, normalized s))"
    unfolding z_def using mv_append [of x h] mv_fresh [OF assms(1) order.refl] by (simp add: h_def)
  have vz: "views z = views x @ [(x_next x, Panel, normalized s)]" "x_next z = Suc (x_next x)"
    "x_slotHosts z = x_slotHosts x" "x_bindings z = x_bindings x"
    by (simp_all add: z_def views_def h_def)
  show m: "mv y = (mv x)(x_next x \<mapsto> (Panel, normalized s))"
    using mv_frame [OF fr] by (simp add: attach_frame z)
  show s: "x_slotHosts y = x_slotHosts x" "x_bindings y = x_bindings x"
    using frameD(2,3) [OF fr] by (simp_all add: attach_frame vz)
  have idy: "ids y = ids x @ [x_next x]"
    using frameD(1) [OF fr] ids_update_host [of "\<lambda>h. h\<lparr>h_state := normalized s\<rparr>" "x_next x" z]
    by (simp add: ids_def attach_frame vz)
  have nx: "x_next y = Suc (Suc (x_next x))" using frameD(4) [OF fr] by (simp add: attach_frame vz)
  have fresh: "mv x (x_next x) = None" by (rule mv_fresh [OF assms(1) order.refl])
  have noslot: "map_of (x_slotHosts x) t \<noteq> Some (x_next x)" for t
  proof
    assume "map_of (x_slotHosts x) t = Some (x_next x)"
    then have "kind_at x (x_next x) = Some (Slot t)" using assms(1) by (simp add: well_formed_def slot_host_def)
    then show False by (simp add: kind_at_def fresh)
  qed
  show "well_formed y"
    using assms(1) noslot unfolding well_formed_def idy nx slot_host_def s kind_at_def m
    by (auto simp: fresh dest: less_SucI)
qed

lemma createPanel_frame:
  assumes "well_formed x"
  shows "mv (createPanel en r col s x) = (mv x)(x_next x \<mapsto> (Panel, normalized s))"
    "x_slotHosts (createPanel en r col s x) = x_slotHosts x"
    "x_bindings (createPanel en r col s x) = x_bindings x" "well_formed (createPanel en r col s x)"
proof -
  let ?z = "run (Create_Panel (x_next x) col) x"
  have w: "well_formed ?z" using assms wf_frame [of ?z x] by simp
  have e: "mv ?z = mv x" "x_slotHosts ?z = x_slotHosts x" "x_bindings ?z = x_bindings x" "x_next ?z = x_next x"
    by (simp_all add: run_def mv_def views_def)
  show "mv (createPanel en r col s x) = (mv x)(x_next x \<mapsto> (Panel, normalized s))"
    "x_slotHosts (createPanel en r col s x) = x_slotHosts x"
    "x_bindings (createPanel en r col s x) = x_bindings x" "well_formed (createPanel en r col s x)"
    using setupPanel_frame [OF w, of en True _ s] by (simp_all add: createPanel_def e)
qed


lemma resolve_frame:
  fixes en slot visible
  assumes "well_formed x" "slot_host slot x = None"
  defines "y \<equiv> resolveWebviewView en slot visible x"
  defines "s \<equiv> normalized (case x_bindings x slot of Some b \<Rightarrow> b | None \<Rightarrow> defaultSlotState en slot)"
  shows "mv y = (mv x)(x_next x \<mapsto> (Slot slot, s))" "slot_host t y = (if t = slot then Some (x_next x) else slot_host t x)"
    "x_bindings y = x_bindings x" "well_formed y"
proof -
  define h where "h = \<lparr>h_id = x_next x, h_kind = Slot slot, h_state = s, h_record = None,
    h_closedState = None, h_href = None, h_visible = visible, h_retained = False, h_title = [],
    h_description = None, h_bound = x_next x\<rparr>"
  define z where "z = x\<lparr>x_hosts := x_hosts x @ [h], x_next := Suc (x_next x),
    x_slotHosts := AList.update slot (x_next x) (x_slotHosts x)\<rparr>"
  let ?b = "case x_bindings x slot of Some b \<Rightarrow> b | None \<Rightarrow> defaultSlotState en slot"
  have yz: "y = attach en (x_next x) ?b z"
    by (simp add: y_def resolveWebviewView_def Let_def h_def z_def s_def)
  have fresh: "mv x (x_next x) = None" by (rule mv_fresh [OF assms(1) order.refl])
  have z: "mv z = (mv x)(x_next x \<mapsto> (Slot slot, s))"
    using mv_append [of x h "Suc (x_next x)"] fresh by (simp add: h_def z_def mv_def views_def)
  have vz: "x_next z = Suc (x_next x)" "x_bindings z = x_bindings x" "ids z = ids x @ [x_next x]"
    by (simp_all add: z_def ids_def views_def h_def)
  show m: "mv y = (mv x)(x_next x \<mapsto> (Slot slot, s))"
    by (simp add: yz attach_frame z s_def)
  show sl: "slot_host t y = (if t = slot then Some (x_next x) else slot_host t x)" for t
    by (simp add: yz slot_host_def attach_frame z_def update_conv')
  show b: "x_bindings y = x_bindings x" by (simp add: yz attach_frame vz)
  have idy: "ids y = ids x @ [x_next x]"
    using ids_update_host [of "\<lambda>h. h\<lparr>h_state := normalized ?b\<rparr>" "x_next x" z]
    by (simp add: yz ids_def attach_frame vz(3) [unfolded ids_def])
  have nx: "x_next y = Suc (Suc (x_next x))" by (simp add: yz attach_frame vz)
  have noslot: "slot_host t x \<noteq> Some (x_next x)" for t
  proof
    assume "slot_host t x = Some (x_next x)"
    then have "kind_at x (x_next x) = Some (Slot t)" using assms(1) by (simp add: well_formed_def)
    then show False by (simp add: kind_at_def fresh)
  qed
  show "well_formed y"
    using assms(1,2) noslot unfolding well_formed_def idy nx sl kind_at_def m
    by (auto simp: fresh dest: less_SucI)
qed

subsection \<open>Closing\<close>

lemma views_detach: "views (detach i x) = filter (\<lambda>v. fst v \<noteq> i) (views x)"
  by (simp add: views_def detach_def filter_map o_def)

lemma mv_detach: "mv (detach i x) = (mv x)(i := None)"
proof
  have "map_of (filter (\<lambda>v. fst v \<noteq> i) vs) n = (if n = i then None else map_of vs n)"
    for vs :: "(nat \<times> host_kind \<times> view_state) list" and n
    by (induction vs) auto
  then show "mv (detach i x) n = ((mv x)(i := None)) n" for n by (simp add: mv_def views_detach)
qed

lemma detach_fields [simp]:
  "x_slotHosts (detach i x) = x_slotHosts x" "x_bindings (detach i x) = x_bindings x" "x_next (detach i x) = x_next x"
  by (simp_all add: detach_def)

lemma ids_detach: "ids (detach i x) = filter (\<lambda>n. n \<noteq> i) (ids x)"
  by (simp add: ids_def views_detach filter_map o_def)

lemma dispose_panel_frame:
  assumes "find_host i x \<noteq> None"
  shows "frame (dispose_panel i x) = frame (detach i x)"
proof -
  have "frame (detach i (run e x)) = frame (detach i x)" for e
    by (simp add: run_def detach_def frame_def views_def)
  then show ?thesis using assms by (auto simp: dispose_panel_def Let_def split: option.split)
qed

lemma dispose_panel_mv: "mv (dispose_panel i x) = (mv x)(i := None)"
proof (cases "find_host i x")
  case None
  then show ?thesis by (auto simp: dispose_panel_def mv_find fun_eq_iff)
next
  case (Some h)
  then show ?thesis using mv_frame [OF dispose_panel_frame] by (simp add: mv_detach)
qed

lemma dispose_panel_fields [simp]:
  "x_slotHosts (dispose_panel i x) = x_slotHosts x" "x_bindings (dispose_panel i x) = x_bindings x"
  "x_next (dispose_panel i x) = x_next x"
  using dispose_panel_frame [of i x] by (cases "find_host i x"; simp add: frame_def dispose_panel_def)+

lemma wf_detach:
  assumes "well_formed x" "\<And>t. kind_at x i \<noteq> Some (Slot t)" shows "well_formed (detach i x)"
  using assms by (auto simp: well_formed_def ids_detach kind_at_def mv_detach slot_host_def)

lemma wf_dispose_panel:
  assumes "well_formed x" "\<And>t. kind_at x i \<noteq> Some (Slot t)" shows "well_formed (dispose_panel i x)"
proof (cases "find_host i x = None")
  case False
  then show ?thesis using wf_frame [OF dispose_panel_frame] wf_detach [OF assms] by simp
qed (simp add: dispose_panel_def assms(1))

lemma dispose_slot_frame:
  assumes "well_formed x" "kind_at x i = Some (Slot slot)"
  shows "mv (dispose_slot_view i slot x) = (mv x)(i := None)"
    "slot_host t (dispose_slot_view i slot x) = (if t = slot then None else slot_host t x)"
    "x_bindings (dispose_slot_view i slot x) = x_bindings x" "well_formed (dispose_slot_view i slot x)"
proof -
  define z where "z = (detach i x)\<lparr>x_slotHosts := AList.delete slot (x_slotHosts x)\<rparr>"
  have own: "slot_host t x = Some i \<longleftrightarrow> t = slot" for t
    using assms unfolding well_formed_def by (metis host_kind.inject option.inject)
  have "slot_host slot (detach i x) = Some i" using own by (simp add: slot_host_def)
  then have fr: "frame (dispose_slot_view i slot x) = frame z"
    by (simp add: dispose_slot_view_def Let_def z_def)
  have z: "mv z = (mv x)(i := None)" "x_bindings z = x_bindings x" "ids z = filter (\<lambda>n. n \<noteq> i) (ids x)" "x_next z = x_next x"
    using mv_detach [of i x] ids_detach [of i x] by (simp_all add: z_def mv_def views_def ids_def)
  have zs: "slot_host t z = (if t = slot then None else slot_host t x)" for t
    by (simp add: z_def slot_host_def delete_conv')
  show "mv (dispose_slot_view i slot x) = (mv x)(i := None)" "x_bindings (dispose_slot_view i slot x) = x_bindings x"
    "slot_host t (dispose_slot_view i slot x) = (if t = slot then None else slot_host t x)"
    using mv_frame [OF fr] frameD(3) [OF fr] slot_host_frame [OF fr] z zs by simp_all
  have kn: "kind_at x n = Some (Slot t) \<longleftrightarrow> slot_host t x = Some n" for n t
    using assms(1) by (simp add: well_formed_def)
  have "kind_at z n = Some (Slot t) \<longleftrightarrow> slot_host t z = Some n" for n t
  proof (cases "n = i")
    case True
    then show ?thesis using own [of t] by (auto simp: kind_at_def z zs)
  next
    case False
    then have "kind_at z n = kind_at x n" by (simp add: kind_at_def z)
    then show ?thesis using kn [of n t] own [of slot] False by (auto simp: zs)
  qed
  then have "well_formed z"
    using assms(1) by (auto simp: well_formed_def z)
  then show "well_formed (dispose_slot_view i slot x)" using wf_frame [OF fr] by simp
qed

section \<open>Navigating and binding\<close>

lemma mv_state_update:
  "mv (update_host i (\<lambda>h. h\<lparr>h_state := st\<rparr>) x) = (mv x)(i := map_option (\<lambda>(k, _). (k, st)) (mv x i))"
  by (subst mv_update_host) (simp_all add: mv_find option.map_comp o_def)

lemma navigateHost_frame:
  "mv (navigateHost en i s x) = (mv x)(i := map_option (\<lambda>(k, _). (k, normalized s)) (mv x i))"
  "slot_host t (navigateHost en i s x) = slot_host t x"
  "x_bindings (navigateHost en i s x) = x_bindings x"
  "well_formed x \<Longrightarrow> well_formed (navigateHost en i s x)"
proof -
  let ?z = "update_host i (\<lambda>h. h\<lparr>h_state := normalized s\<rparr>) x"
  have fr: "frame (navigateHost en i s x) = frame ?z" by (simp add: navigateHost_def Let_def)
  show "mv (navigateHost en i s x) = (mv x)(i := map_option (\<lambda>(k, _). (k, normalized s)) (mv x i))"
    using mv_frame [OF fr] by (simp add: mv_state_update)
  show "slot_host t (navigateHost en i s x) = slot_host t x" "x_bindings (navigateHost en i s x) = x_bindings x"
    using slot_host_frame [OF fr] frameD(3) [OF fr] by (simp_all add: slot_host_def)
  show "well_formed x \<Longrightarrow> well_formed (navigateHost en i s x)"
    using wf_frame [OF fr] wf_update_host [of x] by simp
qed

lemma saveBinding_frame:
  "mv (saveBinding slot s x) = mv x" "slot_host t (saveBinding slot s x) = slot_host t x"
  "x_bindings (saveBinding slot s x) = (x_bindings x)(slot := s)" "well_formed (saveBinding slot s x) = well_formed x"
proof -
  let ?z = "x\<lparr>x_bindings := (x_bindings x)(slot := s)\<rparr>"
  have fr: "frame (saveBinding slot s x) = frame ?z" by (simp add: saveBinding_def)
  show "mv (saveBinding slot s x) = mv x" "slot_host t (saveBinding slot s x) = slot_host t x"
    "x_bindings (saveBinding slot s x) = (x_bindings x)(slot := s)" "well_formed (saveBinding slot s x) = well_formed x"
    using mv_frame [OF fr] slot_host_frame [OF fr] frameD(3) [OF fr] wf_frame [OF fr]
    by (simp_all add: mv_def views_def slot_host_def well_formed_def ids_def kind_at_def)
qed

lemma closed_mark_frame [simp]:
  "frame (update_host i (\<lambda>h. h\<lparr>h_closedState := f h\<rparr>) x) = frame x"
  by (rule frame_update_host) simp

lemma bindSlot_frame:
  defines "y \<equiv> \<lambda>en slot s x. bindSlot en slot s x"
  shows "mv (y en slot s x) = (case slot_host slot x of
            Some i \<Rightarrow> (mv x)(i := map_option (\<lambda>(k, _). (k, normalized s)) (mv x i)) | None \<Rightarrow> mv x)"
    "slot_host t (y en slot s x) = slot_host t x"
    "x_bindings (y en slot s x) = (x_bindings x)(slot \<mapsto> normalized s)"
    "well_formed x \<Longrightarrow> well_formed (y en slot s x)"
proof -
  define x1 where "x1 = saveBinding slot (Some (normalized s)) x"
  have x1f: "mv x1 = mv x" "slot_host t x1 = slot_host t x" "x_bindings x1 = (x_bindings x)(slot \<mapsto> normalized s)"
    "well_formed x1 = well_formed x" for t by (simp_all add: x1_def saveBinding_frame)
  define z where "z = (case slot_host slot x of
      Some i \<Rightarrow> navigateHost en i (normalized s) (update_host i (\<lambda>h. h\<lparr>h_closedState := None\<rparr>) x1) | None \<Rightarrow> x1)"
  have fr: "frame (y en slot s x) = frame z"
    by (simp add: y_def bindSlot_def Let_def z_def x1_def saveBinding_frame split: option.split)
  let ?u = "\<lambda>i. update_host i (\<lambda>h. h\<lparr>h_closedState := None\<rparr>) x1"
  have u: "mv (?u i) = mv x" "slot_host t (?u i) = slot_host t x"
    "x_bindings (?u i) = (x_bindings x)(slot \<mapsto> normalized s)" "well_formed (?u i) = well_formed x" for i t
    using mv_frame [OF closed_mark_frame [of i "\<lambda>_. None" x1]] wf_frame [OF closed_mark_frame [of i "\<lambda>_. None" x1]]
      slot_host_frame [OF closed_mark_frame [of i "\<lambda>_. None" x1]] frameD(3) [OF closed_mark_frame [of i "\<lambda>_. None" x1]]
    by (simp_all add: x1_def saveBinding_frame)
  show "mv (y en slot s x) = (case slot_host slot x of
            Some i \<Rightarrow> (mv x)(i := map_option (\<lambda>(k, _). (k, normalized s)) (mv x i)) | None \<Rightarrow> mv x)"
    "slot_host t (y en slot s x) = slot_host t x"
    "x_bindings (y en slot s x) = (x_bindings x)(slot \<mapsto> normalized s)"
    using mv_frame [OF fr] slot_host_frame [OF fr] frameD(3) [OF fr]
    by (auto simp: z_def navigateHost_frame u x1f split: option.split)
  show "well_formed x \<Longrightarrow> well_formed (y en slot s x)"
    using wf_frame [OF fr]
    by (auto simp: z_def navigateHost_frame u x1f split: option.split)
qed

lemma closeSlot_frame:
  shows "mv (closeSlot en slot x) = (case slot_host slot x of
            Some i \<Rightarrow> (if slot = js ''term1''
              then (mv x)(i := map_option (\<lambda>(k, _). (k, normalized (defaultSlotState en slot))) (mv x i)) else mv x)
          | None \<Rightarrow> mv x)"
    "slot_host t (closeSlot en slot x) = slot_host t x"
    "x_bindings (closeSlot en slot x) = (x_bindings x)(slot := None)"
    "well_formed x \<Longrightarrow> well_formed (closeSlot en slot x)"
proof -
  define x1 where "x1 = (case slot_host slot x of
      Some i \<Rightarrow> update_host i (\<lambda>h. h\<lparr>h_closedState := Some (h_state h)\<rparr>) x | None \<Rightarrow> x)"
  have x1: "frame x1 = frame x" by (simp add: x1_def split: option.split)
  define x2 where "x2 = saveBinding slot None x1"
  have x2: "mv x2 = mv x" "slot_host t x2 = slot_host t x" "x_bindings x2 = (x_bindings x)(slot := None)" "well_formed x2 = well_formed x" for t
    using mv_frame [OF x1] slot_host_frame [OF x1] frameD(3) [OF x1] wf_frame [OF x1]
    by (simp_all add: x2_def saveBinding_frame)
  have c: "closeSlot en slot x = (case slot_host slot x of
      Some i \<Rightarrow> (if slot = js ''term1'' then navigateHost en i (defaultSlotState en slot) x2 else x2) | None \<Rightarrow> x2)"
    using x2(2) [of slot] by (simp add: closeSlot_def Let_def x1_def x2_def split: option.split)
  show "mv (closeSlot en slot x) = (case slot_host slot x of
            Some i \<Rightarrow> (if slot = js ''term1''
              then (mv x)(i := map_option (\<lambda>(k, _). (k, normalized (defaultSlotState en slot))) (mv x i)) else mv x)
          | None \<Rightarrow> mv x)"
    "slot_host t (closeSlot en slot x) = slot_host t x"
    "x_bindings (closeSlot en slot x) = (x_bindings x)(slot := None)"
    "well_formed x \<Longrightarrow> well_formed (closeSlot en slot x)"
    by (auto simp: c navigateHost_frame x2 split: option.split)
qed

end
