(* ===== verification/View_Once.thy ===== *)
theory View_Once
  imports View_Frame
begin

text \<open>
  One place per session and VNC target. The specification is a map from the places of a window (a
  live view, or a bound slot whose view does not exist yet) to what is shown there; the operations
  of the extension change it at one place at a time and never let two places show the same thing.
\<close>

section \<open>The abstract state\<close>

text \<open>A slot's view counts while the slot is bound; \<open>term1\<close> also shows the terminal home.\<close>

definition live :: "ext \<Rightarrow> host_kind \<Rightarrow> bool" where
  "live x k = (case k of Panel \<Rightarrow> True | Slot t \<Rightarrow> t = js ''term1'' \<or> x_bindings x t \<noteq> None)"

lemma live_Panel [simp]: "live x Panel"
  by (simp add: live_def)

lemma live_Slot: "live x (Slot t) \<longleftrightarrow> t = js ''term1'' \<or> x_bindings x t \<noteq> None"
  by (simp add: live_def)

lemma live_same: "x_bindings y = x_bindings x \<Longrightarrow> live y = live x"
  by (simp add: live_def fun_eq_iff split: host_kind.split)

definition shown :: "env \<Rightarrow> ext \<Rightarrow> place \<Rightarrow> identity option" where
  "shown en x p =
     (case p of
        At_Host n \<Rightarrow> (case mv x n of Some (k, s) \<Rightarrow> (if live x k then ident en s else None) | None \<Rightarrow> None)
      | At_Slot t \<Rightarrow> (if t \<in> set SLOT_IDS \<and> slot_host t x = None
                      then (case x_bindings x t of Some b \<Rightarrow> ident en b | None \<Rightarrow> None) else None))"

definition shown_once :: "env \<Rightarrow> ext \<Rightarrow> bool" where
  "shown_once en x \<longleftrightarrow> (\<forall>p q i. shown en x p = Some i \<longrightarrow> shown en x q = Some i \<longrightarrow> p = q)"

lemma shown_frame:
  assumes "frame x = frame y" shows "shown en x = shown en y"
proof -
  have eqs: "mv x = mv y" "x_bindings x = x_bindings y" "\<And>t. slot_host t x = slot_host t y"
    using assms by (simp_all add: mv_frame [of x y] slot_host_frame [of x y] frameD(3) [of x y])
  have l: "live x = live y" by (rule live_same) (rule eqs(2))
  show ?thesis by (rule ext) (unfold shown_def eqs l, rule refl)
qed

lemma shown_once_frame: "frame x = frame y \<Longrightarrow> shown_once en x = shown_once en y"
  using shown_frame [of x y en] by (simp add: shown_once_def)

text \<open>The shape of every step: one place gets a value that no other place keeps.\<close>

lemma shown_once_step:
  assumes "shown_once en x"
    and "\<And>q. q \<noteq> p \<Longrightarrow> shown en y q = shown en x q \<or> shown en y q = None"
    and "\<And>q i. q \<noteq> p \<Longrightarrow> shown en y p = Some i \<Longrightarrow> shown en x q = Some i \<Longrightarrow> shown en y q = None"
  shows "shown_once en y"
  unfolding shown_once_def
proof (intro allI impI)
  fix a b i assume a: "shown en y a = Some i" and b: "shown en y b = Some i"
  have x: "q \<noteq> p \<Longrightarrow> shown en y q = Some i \<Longrightarrow> shown en x q = Some i" for q
    using assms(2) [of q] by auto
  show "a = b"
  proof (cases "a = p \<or> b = p")
    case True
    then show ?thesis using assms(3) a b x by (metis option.distinct(1))
  next
    case False
    then show ?thesis using assms(1) a b x unfolding shown_once_def by blast
  qed
qed

lemma ident_normalized [simp]: "ident en (normalized s) = ident en s"
  by (simp add: ident_def)

lemma ident_default [simp]: "ident en (defaultSlotState en t) = None"
  by (auto simp: ident_def defaultSlotState_def identityOf_def blank_state_def vncTarget_def or_undefined_def)

section \<open>Looking a view up\<close>

lemma mv_host:
  assumes "mv x n = Some (k, s)" obtains h where "h \<in> set (x_hosts x)" "h_id h = n" "h_kind h = k" "h_state h = s"
  using assms find_host_id [of n x] by (auto simp: mv_find)

text \<open>Nothing found: no other place shows it.\<close>

lemma findHostFor_None:
  assumes "well_formed x" "findHostFor en s except x = None" "ident en s = Some i" "shown en x p = Some i"
  shows "\<exists>n. p = At_Host n \<and> except = Some n"
proof (cases p)
  case (At_Host n)
  then obtain k st where m: "mv x n = Some (k, st)" "ident en st = Some i"
    using assms(4) by (auto simp: shown_def split: option.splits prod.splits if_splits)
  obtain h where "h \<in> set (x_hosts x)" "h_id h = n" "h_state h = st" using m(1) by (rule mv_host)
  then show ?thesis
    using assms(2,3) m(2) At_Host
    by (auto simp: findHostFor_def find_None_iff split: option.splits)
next
  case (At_Slot t)
  then have t: "t \<in> set SLOT_IDS" "slot_host t x = None"
    "case x_bindings x t of Some b \<Rightarrow> ident en b = Some i | None \<Rightarrow> False"
    using assms(4) by (auto simp: shown_def split: option.splits if_splits)
  have "find_host n x = Some h \<Longrightarrow> h_kind h \<noteq> Slot t" for n h
  proof
    assume "find_host n x = Some h" "h_kind h = Slot t"
    then have "kind_at x n = Some (Slot t)" by (simp add: kind_at_def mv_find)
    then show False using assms(1) t(2) by (simp add: well_formed_def)
  qed
  then show ?thesis
    using assms(2,3) t
    by (auto simp: findHostFor_def find_None_iff Let_def split: option.splits host_kind.splits)
qed

section \<open>Each operation\<close>

lemma shown_createPanel:
  assumes "well_formed x"
  shows "shown en (createPanel en r col s x) = (shown en x)(At_Host (x_next x) := ident en s)"
proof
  fix p show "shown en (createPanel en r col s x) p = ((shown en x)(At_Host (x_next x) := ident en s)) p"
    by (cases p) (simp_all add: shown_def slot_host_def createPanel_frame [OF assms]
        live_same [OF createPanel_frame(3) [OF assms]] split: option.split)
qed

lemma shown_setupPanel:
  assumes "well_formed x"
  shows "shown en (setupPanel en active retain s x) = (shown en x)(At_Host (x_next x) := ident en s)"
proof
  fix p show "shown en (setupPanel en active retain s x) p = ((shown en x)(At_Host (x_next x) := ident en s)) p"
    by (cases p) (simp_all add: shown_def slot_host_def setupPanel_frame [OF assms]
        live_same [OF setupPanel_frame(3) [OF assms]] split: option.split)
qed

definition slot_place :: "ext \<Rightarrow> ustring \<Rightarrow> place" where
  "slot_place x slot = (case slot_host slot x of Some n \<Rightarrow> At_Host n | None \<Rightarrow> At_Slot slot)"

lemma wf_slot_host: "well_formed x \<Longrightarrow> slot_host t x = Some n \<longleftrightarrow> (\<exists>s. mv x n = Some (Slot t, s))"
proof -
  assume "well_formed x"
  then have "kind_at x n = Some (Slot t) \<longleftrightarrow> slot_host t x = Some n" by (simp add: well_formed_def)
  then show ?thesis by (cases "mv x n") (auto simp: kind_at_def)
qed

text \<open>Whether a view counts depends on no other slot's binding.\<close>

lemma live_other: "k \<noteq> Slot slot \<Longrightarrow> x_bindings y = (x_bindings x)(slot := b) \<Longrightarrow> live y k = live x k"
  by (auto simp: live_def split: host_kind.split)

lemma shown_rebind:
  assumes "well_formed x" and b: "x_bindings y = (x_bindings x)(slot := b)"
    and sl: "\<And>t. slot_host t y = slot_host t x"
    and m: "\<And>n. slot_host slot x \<noteq> Some n \<Longrightarrow> mv y n = mv x n"
  shows "shown en y = (shown en x)(slot_place x slot := shown en y (slot_place x slot))"
proof
  fix p show "shown en y p = ((shown en x)(slot_place x slot := shown en y (slot_place x slot))) p"
  proof (cases "p = slot_place x slot")
    case False
    show ?thesis
    proof (cases p)
      case (At_Host n)
      then have ne: "slot_host slot x \<noteq> Some n" using False by (auto simp: slot_place_def)
      then have ns: "mv x n \<noteq> Some (Slot slot, s)" for s using wf_slot_host [OF assms(1)] by blast
      have "live y k = live x k" if "mv x n = Some (k, s)" for k s
        by (rule live_other [OF _ b]) (use ns that in auto)
      then show ?thesis using At_Host False m [OF ne]
        by (auto simp: shown_def split: option.split)
    next
      case (At_Slot t)
      then have "t \<noteq> slot \<or> slot_host t x \<noteq> None" using False by (auto simp: slot_place_def split: option.splits)
      then show ?thesis using At_Slot False by (auto simp: shown_def sl b)
    qed
  qed simp
qed

lemma shown_bindSlot:
  assumes "well_formed x" "slot \<in> set SLOT_IDS"
  shows "shown en (bindSlot en slot s x) = (shown en x)(slot_place x slot := ident en s)"
proof -
  have "shown en (bindSlot en slot s x) (slot_place x slot) = ident en s"
  proof (cases "slot_host slot x")
    case (Some n)
    then obtain st where "mv x n = Some (Slot slot, st)" using wf_slot_host [OF assms(1)] by blast
    then show ?thesis using Some by (simp add: shown_def live_Slot slot_place_def bindSlot_frame)
  qed (simp add: shown_def slot_place_def bindSlot_frame assms(2))
  then show ?thesis
    using shown_rebind [OF assms(1), where y = "bindSlot en slot s x" and slot = slot and en = en]
    by (simp add: bindSlot_frame split: option.split)
qed

lemma shown_closeSlot:
  assumes "well_formed x"
  shows "shown en (closeSlot en slot x) = (shown en x)(slot_place x slot := None)"
proof -
  have "shown en (closeSlot en slot x) (slot_place x slot) = None"
  proof (cases "slot_host slot x")
    case (Some n)
    then obtain st where "mv x n = Some (Slot slot, st)" using wf_slot_host [OF assms(1)] by blast
    then show ?thesis using Some by (simp add: shown_def live_Slot slot_place_def closeSlot_frame)
  qed (simp add: shown_def slot_place_def closeSlot_frame)
  moreover have m: "mv (closeSlot en slot x) n = mv x n" if "slot_host slot x \<noteq> Some n" for n
    using that by (auto simp: closeSlot_frame split: option.split)
  ultimately show ?thesis
    using shown_rebind [OF assms(1) closeSlot_frame(3) closeSlot_frame(2) m, where en = en] by simp
qed

lemma shown_navigateHost:
  assumes "mv x n = Some (k, st)" "live x k"
  shows "shown en (navigateHost en n s x) = (shown en x)(At_Host n := ident en s)"
proof
  fix p show "shown en (navigateHost en n s x) p = ((shown en x)(At_Host n := ident en s)) p"
    using assms by (cases p) (simp_all add: shown_def navigateHost_frame live_same [OF navigateHost_frame(3)] split: option.split)
qed

lemma shown_dispose_panel: "shown en (dispose_panel n x) = (shown en x)(At_Host n := None)"
proof
  fix p show "shown en (dispose_panel n x) p = ((shown en x)(At_Host n := None)) p"
    by (cases p) (simp_all add: shown_def dispose_panel_mv slot_host_def
        live_same [OF dispose_panel_fields(2)] split: option.split)
qed

lemma shown_resolve:
  assumes "well_formed x" "slot_host slot x = None" "slot \<in> set SLOT_IDS"
  shows "shown en (resolveWebviewView en slot visible x) =
     (shown en x)(At_Host (x_next x) := shown en x (At_Slot slot), At_Slot slot := None)"
proof -
  define y where "y = resolveWebviewView en slot visible x"
  note fr = resolve_frame [OF assms(1,2), where en = en and visible = visible, folded y_def]
  have l: "live y = live x" by (rule live_same) (rule fr(3))
  have new: "shown en y (At_Host (x_next x)) = shown en x (At_Slot slot)"
    using assms(2,3) by (simp add: shown_def fr(1) l live_Slot split: option.split)
  have "shown en y p = shown en x p" if "p \<noteq> At_Host (x_next x)" "p \<noteq> At_Slot slot" for p
    using that by (cases p) (simp_all add: shown_def fr l split: option.split)
  moreover have "shown en y (At_Slot slot) = None" by (simp add: shown_def fr(2))
  ultimately show ?thesis unfolding y_def [symmetric] using new by (auto simp: fun_eq_iff)
qed

lemma shown_dispose_slot:
  assumes "well_formed x" "kind_at x n = Some (Slot slot)" "slot \<in> set SLOT_IDS"
  shows "shown en (dispose_slot_view n slot x) =
     (shown en x)(At_Host n := None,
        At_Slot slot := (case x_bindings x slot of Some b \<Rightarrow> ident en b | None \<Rightarrow> None))"
proof
  fix p show "shown en (dispose_slot_view n slot x) p = ((shown en x)(At_Host n := None,
        At_Slot slot := (case x_bindings x slot of Some b \<Rightarrow> ident en b | None \<Rightarrow> None))) p"
    using assms(3)
    by (cases p) (simp_all add: shown_def dispose_slot_frame [OF assms(1,2)]
        live_same [OF dispose_slot_frame(3) [OF assms(1,2)]] split: option.split)
qed


lemma shown_after_close [simp]: "x_bindings (close_tabs ts x) = x_bindings x" "x_next (close_tabs ts x) = x_next x"
  by (simp_all add: close_tabs_def run_def)

section \<open>Opening\<close>

lemma openState_cases:
  obtains (found) p where "findHostFor en s None x = Some p" "openState en r col s x = revealHost p x"
  | (fresh) c y where "findHostFor en s None x = None" "frame y = frame x" "openState en r col s x = createPanel en r c s y"
proof (cases "findHostFor en s None x")
  case None
  show ?thesis
  proof (cases "if ident en s \<noteq> None then unresolvedTabsFor en s x else []")
    case Nil
    then show ?thesis using None that(2) [of x col] by (simp add: openState_def Let_def)
  next
    case (Cons t ts)
    then show ?thesis
      using None that(2) [of "close_tabs (t # ts) x" "Column (tb_column t)"] by (simp add: openState_def Let_def)
  qed
qed (use that(1) in \<open>simp add: openState_def\<close>)

text \<open>What a step keeps; \<open>not_elsewhere\<close> is what it needs of a new identity.\<close>

definition once_ok :: "env \<Rightarrow> ext \<Rightarrow> bool" where
  "once_ok en x \<longleftrightarrow> well_formed x \<and> shown_once en x"

definition not_elsewhere :: "env \<Rightarrow> ext \<Rightarrow> place option \<Rightarrow> view_state \<Rightarrow> bool" where
  "not_elsewhere en x except s \<longleftrightarrow> (\<forall>p i. shown en x p = Some i \<longrightarrow> ident en s = Some i \<longrightarrow> Some p = except)"

lemma once_ok_frame: "frame x = frame y \<Longrightarrow> once_ok en x = once_ok en y"
  using wf_frame [of x y] shown_once_frame [of x y en] by (simp add: once_ok_def)

lemma not_elsewhere_frame: "frame x = frame y \<Longrightarrow> not_elsewhere en x p s = not_elsewhere en y p s"
  using shown_frame [of x y en] by (simp add: not_elsewhere_def)

lemma once_ok_put:
  assumes "once_ok en x" "well_formed y" "shown en y = (shown en x)(p := v)"
    and "\<And>q i. q \<noteq> p \<Longrightarrow> v = Some i \<Longrightarrow> shown en x q \<noteq> Some i"
  shows "once_ok en y"
proof -
  have "shown_once en y"
    by (rule shown_once_step [where p = p and x = x]) (use assms in \<open>auto simp: once_ok_def\<close>)
  then show ?thesis using assms(2) by (simp add: once_ok_def)
qed

lemma not_elsewhere_found:
  assumes "well_formed x" "findHostFor en s None x = None" shows "not_elsewhere en x None s"
  unfolding not_elsewhere_def using findHostFor_None [OF assms] by blast

lemma not_elsewhere_except:
  assumes "well_formed x" "findHostFor en s (Some n) x = None" shows "not_elsewhere en x (Some (At_Host n)) s"
  unfolding not_elsewhere_def using findHostFor_None [OF assms] by blast

lemma createPanel_ok:
  assumes "once_ok en x" "not_elsewhere en x None s" shows "once_ok en (createPanel en r col s x)"
proof -
  have w: "well_formed x" using assms(1) by (simp add: once_ok_def)
  show ?thesis
    by (rule once_ok_put [OF assms(1) createPanel_frame(4) [OF w] shown_createPanel [OF w]])
      (use assms(2) in \<open>auto simp: not_elsewhere_def\<close>)
qed

lemma openState_ok:
  assumes "once_ok en x" shows "once_ok en (openState en r col s x)"
proof (cases rule: openState_cases [of en s x r col])
  case (found p)
  then show ?thesis using assms once_ok_frame [of "revealHost p x" x en] by simp
next
  case (fresh c y)
  have "once_ok en y" "not_elsewhere en y None s"
    using assms once_ok_frame [OF fresh(2), of en] not_elsewhere_frame [OF fresh(2), of en None s]
      not_elsewhere_found [OF _ fresh(1)] by (simp_all add: once_ok_def)
  then show ?thesis using createPanel_ok fresh(3) by simp
qed

lemma bindSlot_ok:
  assumes "once_ok en x" "slot \<in> set SLOT_IDS" "not_elsewhere en x (Some (slot_place x slot)) s"
  shows "once_ok en (bindSlot en slot s x)"
proof -
  have w: "well_formed x" using assms(1) by (simp add: once_ok_def)
  show ?thesis
    by (rule once_ok_put [OF assms(1) bindSlot_frame(4) [OF w] shown_bindSlot [OF w assms(2)]])
      (use assms(3) in \<open>auto simp: not_elsewhere_def\<close>)
qed

lemma pickSlot_in: "pickSlot s picked x = Some i \<Longrightarrow> i \<in> set SLOT_IDS"
  by (auto simp: pickSlot_def slot_choices_def dest!: find_Some_mem split: option.splits if_splits)

lemma openInPanel_ok:
  assumes "once_ok en x" "not_elsewhere en x None s" shows "once_ok en (openInPanel en s picked x)"
proof (cases "pickSlot (normalized s) picked x")
  case (Some i)
  have "not_elsewhere en x (Some (slot_place x i)) (normalized s)"
    using assms(2) by (auto simp: not_elsewhere_def)
  then show ?thesis
    using Some assms(1) pickSlot_in [OF Some] by (simp add: openInPanel_def bindSlot_ok)
qed (simp add: openInPanel_def assms(1))

lemma openStateInPanel_ok:
  assumes "once_ok en x" shows "once_ok en (openStateInPanel en s picked x)"
proof (cases "findHostFor en s None x")
  case None
  then show ?thesis
    using assms openInPanel_ok not_elsewhere_found by (auto simp: openStateInPanel_def once_ok_def)
next
  case (Some p)
  then show ?thesis using assms once_ok_frame [of "revealHost p x" x en] by (simp add: openStateInPanel_def)
qed

text \<open>Navigating a view that counts, to something no other place shows.\<close>

lemma navigateHost_ok:
  assumes "once_ok en x" "mv x n = Some (k, st)" "live x k" "not_elsewhere en x (Some (At_Host n)) s"
  shows "once_ok en (navigateHost en n s x)"
proof -
  have w: "well_formed x" using assms(1) by (simp add: once_ok_def)
  show ?thesis
    by (rule once_ok_put [OF assms(1) navigateHost_frame(4) [OF w] shown_navigateHost [OF assms(2,3)]])
      (use assms(4) in \<open>auto simp: not_elsewhere_def\<close>)
qed

lemma closeSlot_ok: "once_ok en x \<Longrightarrow> once_ok en (closeSlot en slot x)"
  using once_ok_put [of en x "closeSlot en slot x" "slot_place x slot" None]
    shown_closeSlot [of x en slot] closeSlot_frame(4) [of x en slot] by (auto simp: once_ok_def)

lemma dispose_panel_ok:
  assumes "once_ok en x" "\<And>t. kind_at x n \<noteq> Some (Slot t)" shows "once_ok en (dispose_panel n x)"
  using once_ok_put [of en x "dispose_panel n x" "At_Host n" None] shown_dispose_panel [of en n x]
    wf_dispose_panel [of x n] assms by (auto simp: once_ok_def)

end
