(* ===== verification/View_Window.thy ===== *)
theory View_Window
  imports View_Once
begin

text \<open>
  A window over time: the messages of its views, the user's commands and what VS Code does to views
  and tabs, in any order. No two places of a window ever come to show the same session or VNC target.
\<close>

section \<open>State reports\<close>

lemma on_state_frame:
  assumes "find_host i x = Some h" "\<not> stale_report h m"
  defines "s \<equiv> reported_state (h_state h) m"
  shows "mv (on_state en i m x) = (mv x)(i \<mapsto> (h_kind h, s))"
    "slot_host t (on_state en i m x) = slot_host t x"
    "x_bindings (on_state en i m x) = (case h_kind h of
       Slot slot \<Rightarrow> (if vs_section s \<noteq> js ''terminal'' \<or> vs_session s \<noteq> None
                     then (x_bindings x)(slot \<mapsto> s) else x_bindings x)
     | Panel \<Rightarrow> x_bindings x)"
    "well_formed x \<Longrightarrow> well_formed (on_state en i m x)"
proof -
  define f where "f = (\<lambda>h :: host. h\<lparr>h_closedState := None, h_state := reported_state (h_state h) m,
      h_href := (case string_of m ''href'' of Some u \<Rightarrow> Some u | None \<Rightarrow> h_href h)\<rparr>)"
  define x2 where "x2 = updateTitle en i (update_host i f x)"
  have f: "h_id (f g) = h_id g" "h_kind (f g) = h_kind g" for g by (simp_all add: f_def)
  have fr: "frame x2 = frame (update_host i f x)" by (simp add: x2_def)
  have x2: "mv x2 = (mv x)(i \<mapsto> (h_kind h, s))" "\<And>t. slot_host t x2 = slot_host t x" "x_bindings x2 = x_bindings x"
    "well_formed x \<Longrightarrow> well_formed x2"
    using mv_frame [OF fr] slot_host_frame [OF fr] frameD(3) [OF fr] wf_frame [OF fr]
      mv_update_host [of f i x, OF f] wf_update_host [of x f i, OF _ f] assms(1)
    by (simp_all add: f_def s_def slot_host_def)
  have o: "on_state en i m x = (case h_kind h of
      Slot slot \<Rightarrow> (if vs_section s \<noteq> js ''terminal'' \<or> vs_session s \<noteq> None
                    then saveBinding slot (Some s) x2 else x2) | Panel \<Rightarrow> x2)"
    using assms(1,2) by (simp add: on_state_def Let_def x2_def f_def s_def split: host_kind.split)
  show "mv (on_state en i m x) = (mv x)(i \<mapsto> (h_kind h, s))"
    "slot_host t (on_state en i m x) = slot_host t x"
    "x_bindings (on_state en i m x) = (case h_kind h of
       Slot slot \<Rightarrow> (if vs_section s \<noteq> js ''terminal'' \<or> vs_session s \<noteq> None
                     then (x_bindings x)(slot \<mapsto> s) else x_bindings x)
     | Panel \<Rightarrow> x_bindings x)"
    "well_formed x \<Longrightarrow> well_formed (on_state en i m x)"
    by (simp_all add: o x2 saveBinding_frame split: host_kind.split)
qed

lemma mv_find_host: "find_host i x = Some h \<Longrightarrow> mv x i = Some (h_kind h, h_state h)"
  by (simp add: mv_find)

lemma on_state_ok:
  assumes "once_ok en x"
    and "\<And>h. find_host i x = Some h \<Longrightarrow> not_elsewhere en x (Some (At_Host i)) (reported_state (h_state h) m)"
  shows "once_ok en (on_state en i m x)"
proof (cases "find_host i x")
  case None
  then show ?thesis using assms(1) by (simp add: on_state_def)
next
  case (Some h)
  show ?thesis
  proof (cases "stale_report h m")
    case True
    then show ?thesis using assms(1) Some by (simp add: on_state_def)
  next
    case False
    define y where "y = on_state en i m x"
    note fr = on_state_frame [OF Some False, where en = en, folded y_def]
    let ?s = "reported_state (h_state h) m"
    have w: "well_formed x" using assms(1) by (simp add: once_ok_def)
    have there: "shown en y (At_Host i) = ident en ?s \<or> shown en y (At_Host i) = None"
      by (auto simp: shown_def fr(1))
    have "shown en y = (shown en x)(At_Host i := shown en y (At_Host i))"
    proof (cases "h_kind h")
      case Panel
      have l: "live y = live x" using fr(3) Panel by (intro live_same) simp
      have "shown en y p = shown en x p" if "p \<noteq> At_Host i" for p
        using that Panel by (cases p) (simp_all add: shown_def fr l split: option.split)
      then show ?thesis by (auto simp: fun_eq_iff)
    next
      case (Slot slot)
      have sl: "slot_host slot x = Some i"
        using wf_slot_host [OF w] mv_find_host [OF Some] Slot by auto
      have "x_bindings y = (x_bindings x)(slot := x_bindings y slot)"
        using fr(3) Slot by auto
      moreover have "mv y n = mv x n" if "slot_host slot x \<noteq> Some n" for n
        using that sl fr(1) by auto
      ultimately show ?thesis
        using shown_rebind [OF w, of y slot "x_bindings y slot" en] fr(2) sl by (simp add: slot_place_def)
    qed
    moreover have "shown en x q \<noteq> Some j" if "q \<noteq> At_Host i" "shown en y (At_Host i) = Some j" for q j
    proof
      assume "shown en x q = Some j"
      moreover have "ident en ?s = Some j" using there that(2) by auto
      ultimately show False using that(1) assms(2) [OF Some] unfolding not_elsewhere_def by blast
    qed
    ultimately show ?thesis
      using once_ok_put [OF assms(1) fr(4) [OF w], of "At_Host i" "shown en y (At_Host i)"]
      by (auto simp: y_def)
  qed
qed

section \<open>Messages\<close>

lemma frame_fold_updateTitle [simp]: "frame (fold (updateTitle en) ns x) = frame x"
  by (induction ns arbitrary: x) simp_all

lemma frame_rememberVncTargets [simp]: "frame (rememberVncTargets en ts x) = frame x"
  by (simp add: rememberVncTargets_def Let_def split: option.split json.split)

lemma frame_openFile [simp]: "frame (openFileFromEmbed j home st m x) = frame x"
  by (simp add: openFileFromEmbed_def Let_def split: option.split file_stat.split)

lemma frame_passthrough [simp]: "frame (run_passthrough inp m x) = frame x"
  by (simp add: run_passthrough_def split: option.split json.split)

lemma frame_openSessionInView [simp]: "frame (openSessionInView en i n x) = frame x"
  by (simp add: openSessionInView_def Let_def split: option.split)

lemma host_kind_at: "find_host i x = Some h \<Longrightarrow> kind_at x i = Some (h_kind h)"
  by (simp add: kind_at_def mv_find)

lemma close_request_ok: "once_ok en x \<Longrightarrow> once_ok en (close_request en i x)"
  using dispose_panel_ok [of en x i] closeSlot_ok [of en x]
  by (auto simp: close_request_def host_kind_at split: option.split host_kind.split)

lemma openVncWindow_ok: "once_ok en x \<Longrightarrow> once_ok en (openVncWindow_close en pr m x)"
proof -
  assume ok: "once_ok en x"
  have t: "once_ok en (close_tabs ts x)" for ts using ok once_ok_frame [of "close_tabs ts x" x en] by simp
  have d: "once_ok en (dispose_panel n x)" if "find_host n x = Some h" "h_kind h = Panel" for n h
    using that by (intro dispose_panel_ok ok) (simp add: host_kind_at)
  show ?thesis
    using ok t d closeSlot_ok [OF ok]
    by (auto simp: openVncWindow_close_def Let_def split: option.split place.split host_kind.split)
qed

text \<open>
  What the window relies on: a report names something no other place shows, and so does a session
  started in a view. The first fails when a page moves to a session by itself that another view
  already has; the second when the names of the sessions could not be read.
\<close>

definition message_new :: "inputs \<Rightarrow> fields \<Rightarrow> view_state option" where
  "message_new inp m = newSessionState (in_alnum inp) (in_folders inp) (in_folder_pick inp)
     (nonempty_field m ''label'') (string_of m ''command'') (in_names inp)"

definition message_allowed :: "env \<Rightarrow> inputs \<Rightarrow> nat \<Rightarrow> fields \<Rightarrow> ext \<Rightarrow> bool" where
  "message_allowed en inp i m x \<longleftrightarrow>
     (\<forall>h. find_host i x = Some h \<longrightarrow> live x (h_kind h)
        \<and> (string_of m ''type'' = Some (js ''state'') \<longrightarrow>
             not_elsewhere en x (Some (At_Host i)) (reported_state (h_state h) m))
        \<and> (string_of m ''type'' = Some (js ''new-session'') \<longrightarrow>
             (\<forall>s. message_new inp m = Some s \<longrightarrow> not_elsewhere en x (Some (At_Host i)) s)))"

lemma navigateHost_none: "find_host i x = None \<Longrightarrow> once_ok en x \<Longrightarrow> once_ok en (navigateHost en i s x)"
proof -
  assume a: "find_host i x = None" "once_ok en x"
  have "mv x i = None" using a(1) by (simp add: mv_find)
  then have m: "mv (navigateHost en i s x) = mv x" by (simp add: navigateHost_frame fun_eq_iff)
  have "shown en (navigateHost en i s x) = shown en x"
    unfolding shown_def m navigateHost_frame(2,3) live_same [OF navigateHost_frame(3)] by simp
  then show ?thesis
    using a(2) navigateHost_frame(4) [where en = en and i = i and s = s and x = x] by (simp add: once_ok_def shown_once_def)
qed

lemma newSession_ok:
  assumes "once_ok en x" "message_allowed en inp i m x" "string_of m ''type'' = Some (js ''new-session'')"
  shows "once_ok en (newSessionInView en i (message_new inp m) x)"
proof (cases "message_new inp m")
  case (Some s)
  show ?thesis
  proof (cases "find_host i x")
    case None
    then show ?thesis using Some assms(1) by (simp add: newSessionInView_def navigateHost_none)
  next
    case h: (Some h)
    then show ?thesis
      using Some assms navigateHost_ok [OF assms(1) mv_find_host [OF h], of s]
      by (simp add: newSessionInView_def message_allowed_def)
  qed
qed (simp add: newSessionInView_def assms(1))

lemma onMessage_ok:
  assumes "once_ok en x" "message_allowed en inp i m x" shows "once_ok en (onMessage en inp i m x)"
proof -
  have fr: "frame y = frame x \<Longrightarrow> once_ok en y" for y using assms(1) once_ok_frame by blast
  have terminal: "once_ok en (openTerminalFromEmbed en r al names m x)" for r al names
    using openState_ok [OF assms(1)] by (simp add: openTerminalFromEmbed_def Let_def split: option.split)
  have new: "once_ok en (newSessionInView en i (newSessionState (in_alnum inp) (in_folders inp) (in_folder_pick inp)
      (nonempty_field m ''label'') (string_of m ''command'') (in_names inp)) x)"
    if "string_of m ''type'' = Some (js ''new-session'')"
    using newSession_ok [OF assms that] by (simp add: message_new_def)
  have report: "once_ok en (on_state en i m x)" if "string_of m ''type'' = Some (js ''state'')"
    using that assms by (intro on_state_ok) (auto simp: message_allowed_def)
  show ?thesis
    unfolding onMessage_def
    using fr terminal new report openState_ok [OF assms(1)] close_request_ok [OF assms(1)]
      openVncWindow_ok [OF assms(1)] assms(1)
    by (auto split: option.split)
qed


section \<open>Actions\<close>

definition own_slot :: "host \<Rightarrow> bool" where
  "own_slot h \<longleftrightarrow> (\<forall>t. h_kind h = Slot t \<longrightarrow> t \<in> set SLOT_IDS)"

lemma slot_place_own: "well_formed x \<Longrightarrow> find_host i x = Some h \<Longrightarrow> h_kind h = Slot t \<Longrightarrow> slot_place x t = At_Host i"
  using wf_slot_host [of x t i] mv_find_host [of i x h] by (simp add: slot_place_def)

text \<open>Showing \<open>s\<close> in the view itself, a slot's through its binding.\<close>

lemma show_here_ok:
  assumes "once_ok en x" "find_host i x = Some h" "live x (h_kind h)" "own_slot h"
    and "not_elsewhere en x (Some (At_Host i)) s"
  shows "once_ok en (case h_kind h of Slot slot \<Rightarrow> bindSlot en slot s x | Panel \<Rightarrow> navigateHost en i s x)"
proof (cases "h_kind h")
  case Panel
  then show ?thesis using navigateHost_ok [OF assms(1) mv_find_host [OF assms(2)] assms(3,5)] by simp
next
  case (Slot t)
  have "well_formed x" using assms(1) by (simp add: once_ok_def)
  then have "slot_place x t = At_Host i" using assms(2) Slot by (rule slot_place_own)
  then show ?thesis using Slot assms(1,4,5) by (simp add: bindSlot_ok own_slot_def)
qed

lemma changeSession_ok:
  assumes "once_ok en x" "find_host i x = Some h" "live x (h_kind h)" "own_slot h"
    and "vs_section s = js ''terminal''" "vs_session s = Some n"
  shows "once_ok en (changeSession en i s x)"
proof (cases "findHostFor en (terminal_state n) (Some i) x")
  case None
  have "ident en s = ident en (terminal_state n)"
    using assms(5,6)
    by (simp add: ident_def identityOf_def terminal_state_def blank_state_def vncTarget_def split: option.split)
  then have "not_elsewhere en x (Some (At_Host i)) s"
    using not_elsewhere_except [OF _ None] assms(1) by (simp add: once_ok_def not_elsewhere_def)
  then show ?thesis using None show_here_ok [OF assms(1-4)] assms(2,6) by (simp add: changeSession_def)
next
  case (Some p)
  then show ?thesis using assms(1,6) once_ok_frame [of "revealHost p x" x en] by (simp add: changeSession_def)
qed

lemma switchTab_ok:
  assumes "once_ok en x" "find_host i x = Some h" "live x (h_kind h)" "own_slot h" "vs_section s \<noteq> js ''terminal''"
  shows "once_ok en (switchTab en i s x)"
proof (cases "if vs_section s = js ''vnc'' then findHostFor en s (Some i) x else None")
  case None
  have "not_elsewhere en x (Some (At_Host i)) s"
  proof (cases "vs_section s = js ''vnc''")
    case True
    then show ?thesis using None not_elsewhere_except assms(1) by (simp add: once_ok_def)
  next
    case False
    then have "ident en s = None" using assms(5) by (simp add: ident_def identityOf_def vncTarget_def or_undefined_def)
    then show ?thesis by (simp add: not_elsewhere_def)
  qed
  then show ?thesis using None show_here_ok [OF assms(1-4)] assms(2) by (simp add: switchTab_def)
next
  case (Some p)
  then show ?thesis using assms(1) once_ok_frame [of "revealHost p x" x en] by (simp add: switchTab_def split: if_splits)
qed

text \<open>Giving a view's state to another place after taking it away here.\<close>

lemma shown_here: "find_host i x = Some h \<Longrightarrow> live x (h_kind h) \<Longrightarrow> shown en x (At_Host i) = ident en (h_state h)"
  using mv_find_host [of i x h] by (simp add: shown_def)

lemma not_elsewhere_taken:
  assumes "once_ok en x" "find_host i x = Some h" "live x (h_kind h)" "shown en y = (shown en x)(At_Host i := None)"
  shows "not_elsewhere en y None (h_state h)"
  unfolding not_elsewhere_def
proof (intro allI impI)
  fix p j assume a: "shown en y p = Some j" "ident en (h_state h) = Some j"
  then have "p \<noteq> At_Host i" "shown en x p = Some j" using assms(4) by (auto split: if_splits)
  moreover have "shown en x (At_Host i) = Some j" using shown_here [OF assms(2,3)] a(2) by simp
  ultimately show "Some p = None" using assms(1) unfolding once_ok_def shown_once_def by blast
qed

lemma moveToEditor_ok:
  assumes "once_ok en x" "\<And>h. find_host i x = Some h \<Longrightarrow> live x (h_kind h)"
  shows "once_ok en (moveToEditor en r i x)"
proof (cases "find_host i x")
  case (Some h)
  show ?thesis
  proof (cases "h_kind h")
    case (Slot t)
    have w: "well_formed x" using assms(1) by (simp add: once_ok_def)
    have "shown en (closeSlot en t x) = (shown en x)(At_Host i := None)"
      using shown_closeSlot [OF w, of en t] slot_place_own [OF w Some Slot] by simp
    then have "not_elsewhere en (closeSlot en t x) None (h_state h)"
      by (rule not_elsewhere_taken [OF assms(1) Some assms(2) [OF Some]])
    then show ?thesis
      using createPanel_ok [OF closeSlot_ok [OF assms(1)]] Some Slot by (simp add: moveToEditor_def)
  qed (simp add: moveToEditor_def Some assms(1))
qed (simp add: moveToEditor_def assms(1))

lemma moveToPanel_ok:
  assumes "once_ok en x" "\<And>h. find_host i x = Some h \<Longrightarrow> h_kind h = Panel"
  shows "once_ok en (moveToPanel en i picked x)"
proof (cases "find_host i x")
  case (Some h)
  have k: "h_kind h = Panel" using assms(2) [OF Some] .
  let ?y = "dispose_panel i x"
  have ok: "once_ok en ?y" using dispose_panel_ok [OF assms(1)] host_kind_at [OF Some] k by simp
  have "not_elsewhere en ?y None (h_state h)"
    by (rule not_elsewhere_taken [OF assms(1) Some]) (simp_all add: k shown_dispose_panel)
  then have "not_elsewhere en ?y (Some p) (h_state h)" for p by (auto simp: not_elsewhere_def)
  then show ?thesis
    using Some assms(1) bindSlot_ok [OF ok pickSlot_in] by (auto simp: moveToPanel_def split: option.split)
qed (simp add: moveToPanel_def assms(1))

lemma openInBrowser_ok: "once_ok en x \<Longrightarrow> once_ok en (openInBrowser en i opened x)"
proof -
  assume ok: "once_ok en x"
  have "once_ok en (run e x)" for e using ok once_ok_frame [of "run e x" x en] by simp
  then show ?thesis
    using ok close_request_ok by (simp add: openInBrowser_def Let_def split: option.split)
qed

lemma reload_ok:
  assumes "once_ok en x" "\<And>h. find_host i x = Some h \<Longrightarrow> live x (h_kind h)"
  shows "once_ok en (reload_view en i x)"
proof (cases "find_host i x")
  case (Some h)
  have "not_elsewhere en x (Some (At_Host i)) (h_state h)"
    unfolding not_elsewhere_def
  proof (intro allI impI)
    fix p j assume "shown en x p = Some j" "ident en (h_state h) = Some j"
    then have "p = At_Host i"
      using shown_here [OF Some assms(2) [OF Some], of en] assms(1) unfolding once_ok_def shown_once_def by metis
    then show "Some p = Some (At_Host i)" by simp
  qed
  then show ?thesis
    using Some navigateHost_ok [OF assms(1) mv_find_host [OF Some] assms(2) [OF Some]] by (simp add: reload_view_def)
qed (simp add: reload_view_def assms(1))

section \<open>What VS Code does\<close>

lemma resolve_ok:
  assumes "once_ok en x" "slot_host slot x = None" "slot \<in> set SLOT_IDS"
  shows "once_ok en (resolveWebviewView en slot visible x)"
proof -
  have w: "well_formed x" using assms(1) by (simp add: once_ok_def)
  have "shown_once en (resolveWebviewView en slot visible x)"
  proof (rule shown_once_step [where p = "At_Host (x_next x)" and x = x])
    fix q i
    assume q: "q \<noteq> At_Host (x_next x)" and
      "shown en (resolveWebviewView en slot visible x) (At_Host (x_next x)) = Some i" "shown en x q = Some i"
    then have "q = At_Slot slot"
      using assms(1) unfolding shown_resolve [OF w assms(2,3)] once_ok_def shown_once_def by simp
    then show "shown en (resolveWebviewView en slot visible x) q = None"
      by (simp add: shown_resolve [OF w assms(2,3)])
  qed (use assms(1) in \<open>simp_all add: shown_resolve [OF w assms(2,3)] once_ok_def\<close>)
  then show ?thesis using resolve_frame(4) [OF w assms(2)] by (simp add: once_ok_def)
qed

lemma dispose_slot_ok:
  assumes "once_ok en x" "kind_at x n = Some (Slot slot)" "slot \<in> set SLOT_IDS"
    and "\<And>b. x_bindings x slot = Some b \<Longrightarrow> not_elsewhere en x (Some (At_Host n)) b"
  shows "once_ok en (dispose_slot_view n slot x)"
proof -
  have w: "well_formed x" using assms(1) by (simp add: once_ok_def)
  note sh = shown_dispose_slot [OF w assms(2,3), of en]
  have "shown_once en (dispose_slot_view n slot x)"
  proof (rule shown_once_step [where p = "At_Slot slot" and x = x])
    fix q i
    assume q: "q \<noteq> At_Slot slot" and a: "shown en (dispose_slot_view n slot x) (At_Slot slot) = Some i" "shown en x q = Some i"
    then obtain b where b: "x_bindings x slot = Some b" "ident en b = Some i" by (auto simp: sh split: option.splits)
    then have "q = At_Host n" using assms(4) [OF b(1)] a(2) by (auto simp: not_elsewhere_def)
    then show "shown en (dispose_slot_view n slot x) q = None" by (simp add: sh)
  qed (use assms(1) in \<open>simp_all add: sh once_ok_def\<close>)
  then show ?thesis using dispose_slot_frame(4) [OF w assms(2)] by (simp add: once_ok_def)
qed

lemma deserialize_ok:
  assumes "once_ok en x" shows "once_ok en (deserialize en t active retain saved x)"
proof -
  let ?x1 = "x\<lparr>x_restored := filter (\<lambda>u. tb_id u \<noteq> t) (x_restored x)\<rparr>"
  have ok: "once_ok en ?x1" using assms once_ok_frame [of ?x1 x en] by simp
  then have c: "once_ok en (run e ?x1)" for e using once_ok_frame [of "run e ?x1" ?x1 en] by simp
  have w: "well_formed ?x1" using ok by (simp add: once_ok_def)
  have s: "once_ok en (setupPanel en active retain s ?x1)" if "findHostFor en s None ?x1 = None" for s
    by (rule once_ok_put [OF ok setupPanel_frame(4) [OF w] shown_setupPanel [OF w]])
      (use not_elsewhere_found [OF w that] in \<open>auto simp: not_elsewhere_def\<close>)
  show ?thesis using c s by (auto simp: deserialize_def Let_def split: option.split)
qed

section \<open>A window over time\<close>

inductive window_step :: "env \<Rightarrow> ext \<Rightarrow> ext \<Rightarrow> bool" for en :: env where
  message: "message_allowed en inp i m x \<Longrightarrow> window_step en x (onMessage en inp i m x)"
| open_tab: "window_step en x (openState en r col s x)"
| open_slot: "window_step en x (openStateInPanel en s picked x)"
| new_slot: "not_elsewhere en x None s \<Longrightarrow> window_step en x (openInPanel en s picked x)"
| change: "find_host i x = Some h \<Longrightarrow> live x (h_kind h) \<Longrightarrow> own_slot h \<Longrightarrow> vs_section s = js ''terminal'' \<Longrightarrow>
    vs_session s = Some n \<Longrightarrow> window_step en x (changeSession en i s x)"
| switch: "find_host i x = Some h \<Longrightarrow> live x (h_kind h) \<Longrightarrow> own_slot h \<Longrightarrow> vs_section s \<noteq> js ''terminal'' \<Longrightarrow>
    window_step en x (switchTab en i s x)"
| to_editor: "find_host i x = Some h \<Longrightarrow> live x (h_kind h) \<Longrightarrow> window_step en x (moveToEditor en r i x)"
| to_panel: "find_host i x = Some h \<Longrightarrow> h_kind h = Panel \<Longrightarrow> window_step en x (moveToPanel en i picked x)"
| to_browser: "window_step en x (openInBrowser en i opened x)"
| reload: "find_host i x = Some h \<Longrightarrow> live x (h_kind h) \<Longrightarrow> window_step en x (reload_view en i x)"
| close: "window_step en x (closeSlot en slot x)"
| close_tab: "find_host i x = Some h \<Longrightarrow> h_kind h = Panel \<Longrightarrow> window_step en x (dispose_panel i x)"
| resolve: "slot \<in> set SLOT_IDS \<Longrightarrow> slot_host slot x = None \<Longrightarrow> window_step en x (resolveWebviewView en slot visible x)"
| slot_gone: "slot \<in> set SLOT_IDS \<Longrightarrow> kind_at x i = Some (Slot slot) \<Longrightarrow>
    (\<And>b. x_bindings x slot = Some b \<Longrightarrow> not_elsewhere en x (Some (At_Host i)) b) \<Longrightarrow>
    window_step en x (dispose_slot_view i slot x)"
| restored: "window_step en x (deserialize en t active retain saved x)"
| palette: "window_step en x (withTargetHost m x)"
| rename: "window_step en x (rename_view i name x)"
| pin: "window_step en x (togglePin_view i x)"
| panel_shown: "window_step en x (panel_view_state i active visible x)"
| slot_shown: "window_step en x (slot_visibility i visible x)"
| timeout: "window_step en x (ready_timeout x)"
| focused: "window_step en x (window_focused x)"
| configured: "window_step en x (configuration_changed retain theme chords x)"
| activated: "window_step en x (activate x)"

inductive window_reach :: "env \<Rightarrow> ext \<Rightarrow> ext \<Rightarrow> bool" for en :: env and x0 :: ext where
  start: "window_reach en x0 x0"
| step: "window_reach en x0 x \<Longrightarrow> window_step en x y \<Longrightarrow> window_reach en x0 y"

lemma frame_visible [simp]: "frame (update_host i (\<lambda>h. h\<lparr>h_visible := v\<rparr>) x) = frame x"
  by (rule frame_update_host) simp

lemma frame_others [simp]:
  "frame (withTargetHost m x) = frame x" "frame (rename_view i name x) = frame x"
  "frame (togglePin_view i x) = frame x" "frame (panel_view_state i active visible x) = frame x"
  "frame (slot_visibility i visible x) = frame x" "frame (ready_timeout x) = frame x"
  "frame (window_focused x) = frame x" "frame (configuration_changed retain theme chords x) = frame x"
  "frame (activate x) = frame x"
  by (simp_all add: withTargetHost_def rename_view_def togglePin_view_def panel_view_state_def Let_def
      slot_visibility_def ready_timeout_def window_focused_def configuration_changed_def tellViews_def
      activate_def prune_titles_def split: option.split)

lemma window_step_ok: "window_step en x y \<Longrightarrow> once_ok en x \<Longrightarrow> once_ok en y"
proof (induction rule: window_step.induct)
  case (slot_gone slot x i)
  then show ?case by (intro dispose_slot_ok) auto
next
  case (close_tab i x h)
  then show ?case by (intro dispose_panel_ok) (simp_all add: host_kind_at)
next
  case (to_editor i x h r)
  then show ?case by (intro moveToEditor_ok) simp_all
next
  case (to_panel i x h picked)
  then show ?case by (intro moveToPanel_ok) simp_all
next
  case (reload i x h)
  then show ?case by (intro reload_ok) simp_all
qed (simp_all add: onMessage_ok openState_ok openStateInPanel_ok openInPanel_ok changeSession_ok switchTab_ok
    moveToEditor_ok moveToPanel_ok openInBrowser_ok reload_ok closeSlot_ok resolve_ok deserialize_ok
    once_ok_frame [OF frame_others(1)] once_ok_frame [OF frame_others(2)] once_ok_frame [OF frame_others(3)]
    once_ok_frame [OF frame_others(4)] once_ok_frame [OF frame_others(5)] once_ok_frame [OF frame_others(6)]
    once_ok_frame [OF frame_others(7)] once_ok_frame [OF frame_others(8)] once_ok_frame [OF frame_others(9)])

lemma window_reach_ok: "window_reach en x0 x \<Longrightarrow> once_ok en x0 \<Longrightarrow> once_ok en x"
  by (induction rule: window_reach.induct) (simp_all add: window_step_ok)

end
