(* ===== verification/View_Effects.thy ===== *)
theory View_Effects
  imports View_Window
begin

text \<open>
  What an operation asks of VS Code, up to a class of effects. Most operations only talk to pages and
  to the tabs; the ones that change a slot's binding also set the contexts its view depends on, and a
  few messages open something outside. The locale collects what the former leave alone.
\<close>

section \<open>Effects of a class\<close>

fun dangerous :: "ext_effect \<Rightarrow> bool" where
  "dangerous (External u) = True"
| "dangerous (Folder_Window p) = True"
| "dangerous (Run_Command c a) = True"
| "dangerous _ = False"

definition slot_keys :: "ustring list" where
  "slot_keys = map fst (slot_contexts Map.empty)"

fun slot_context :: "ext_effect \<Rightarrow> bool" where
  "slot_context (Set_Context k v) = (k \<in> set slot_keys)"
| "slot_context _ = False"

definition trace :: "(ext_effect \<Rightarrow> bool) \<Rightarrow> ext \<Rightarrow> ext_effect list" where
  "trace P x = filter P (x_effects x)"

definition watch :: "(ext_effect \<Rightarrow> bool) \<Rightarrow> ext \<Rightarrow>
     (ustring \<times> bool) list option \<times> (ustring \<rightharpoonup> view_state) \<times> ext_effect list" where
  "watch P x = (x_lastSlotContexts x, x_bindings x, trace P x)"

lemma watch_update [simp]:
  "watch P (x\<lparr>x_hosts := a\<rparr>) = watch P x" "watch P (x\<lparr>x_slotHosts := b\<rparr>) = watch P x"
  "watch P (x\<lparr>x_activePanel := c\<rparr>) = watch P x" "watch P (x\<lparr>x_titles := d\<rparr>) = watch P x"
  "watch P (x\<lparr>x_vncTargets := e\<rparr>) = watch P x" "watch P (x\<lparr>x_restored := f\<rparr>) = watch P x"
  "watch P (x\<lparr>x_lastContexts := g\<rparr>) = watch P x" "watch P (x\<lparr>x_warnedInsecure := h\<rparr>) = watch P x"
  "watch P (x\<lparr>x_next := n\<rparr>) = watch P x"
  "watch P (update_host i k x) = watch P x" "watch P (detach i x) = watch P x"
  "watch P (recordTitle r x) = watch P x" "watch P (forgetTitle i r x) = watch P x"
  by (simp_all add: watch_def trace_def update_host_def detach_def recordTitle_def forgetTitle_def)

locale watched =
  fixes P :: "ext_effect \<Rightarrow> bool"
  assumes only: "P e \<Longrightarrow> dangerous e \<or> slot_context e"
begin

lemma quiet [simp]: "\<not> dangerous e \<Longrightarrow> \<not> slot_context e \<Longrightarrow> \<not> P e"
  using only by blast

lemma watch_run [simp]: "\<not> P e \<Longrightarrow> watch P (run e x) = watch P x"
  by (simp add: watch_def trace_def run_def)

lemma watch_more [simp]: "filter P es = [] \<Longrightarrow> watch P (x\<lparr>x_effects := x_effects x @ es\<rparr>) = watch P x"
  by (simp add: watch_def trace_def)

lemma watch_refresh [simp]: "watch P (refreshContexts x) = watch P x"
  by (simp add: refreshContexts_def Let_def slot_keys_def slot_contexts_def SLOT_IDS_def js_def)

lemma watch_updateTitle [simp]: "watch P (updateTitle en i x) = watch P x"
  by (simp add: updateTitle_def Let_def split: option.split host_kind.split)

lemma watch_basic [simp]:
  "watch P (setActivePanel j x) = watch P x" "watch P (attach en i s x) = watch P x"
  "watch P (tellVisibility i x) = watch P x" "watch P (navigateHost en i s x) = watch P x"
  "watch P (revealHost p x) = watch P x" "watch P (close_tabs ts x) = watch P x"
  "watch P (ready_timeout x) = watch P x"
  by (simp_all add: setActivePanel_def attach_def tellVisibility_def navigateHost_def Let_def revealHost_def
      close_tabs_def ready_timeout_def split: option.split place.split host_kind.split)

lemma watch_panels [simp]:
  "watch P (setupPanel en active retain s x) = watch P x" "watch P (createPanel en r col s x) = watch P x"
  "watch P (panel_view_state i active visible x) = watch P x" "watch P (dispose_panel i x) = watch P x"
  "watch P (slot_visibility i visible x) = watch P x" "watch P (resolveWebviewView en slot visible x) = watch P x"
  "watch P (dispose_slot_view i slot x) = watch P x"
  by (simp_all add: setupPanel_def createPanel_def panel_view_state_def dispose_panel_def Let_def
      slot_visibility_def resolveWebviewView_def dispose_slot_view_def split: option.split)

lemma watch_openState [simp]: "watch P (openState en r col s x) = watch P x"
proof (cases "findHostFor en s None x")
  case None
  then show ?thesis
    by (cases "if ident en s \<noteq> None then unresolvedTabsFor en s x else []") (simp_all add: openState_def Let_def)
qed (simp add: openState_def)

lemma watch_opening [simp]:
  "watch P (newSessionInView en i t x) = watch P x" "watch P (openSessionInView en i n x) = watch P x"
  "watch P (withTargetHost m x) = watch P x"
  by (simp_all add: newSessionInView_def openSessionInView_def withTargetHost_def Let_def split: option.split)

lemma watch_openTerminal [simp]: "watch P (openTerminalFromEmbed en r alnum names f x) = watch P x"
  by (simp add: openTerminalFromEmbed_def Let_def split: option.split)

lemma watch_views [simp]:
  "watch P (rename_view i name x) = watch P x" "watch P (togglePin_view i x) = watch P x"
  "watch P (reload_view en i x) = watch P x" "watch P (deserialize en t active retain saved x) = watch P x"
  "watch P (prune_titles x) = watch P x" "watch P (openFileFromEmbed j home st f x) = watch P x"
  by (simp_all add: rename_view_def togglePin_view_def reload_view_def deserialize_def Let_def prune_titles_def
      openFileFromEmbed_def split: option.split file_stat.split)

lemma watch_titles [simp]: "watch P (rememberVncTargets en ts x) = watch P x"
proof -
  have "watch P (fold (updateTitle en) ns y) = watch P y" for ns y
    by (induction ns arbitrary: y) simp_all
  then show ?thesis by (simp add: rememberVncTargets_def Let_def split: option.split json.split)
qed

lemma watch_broadcast [simp]:
  "watch P (window_focused x) = watch P x" "watch P (tellViews retain ms x) = watch P x"
  "watch P (configuration_changed retain theme chords x) = watch P x"
proof -
  have sends: "filter P (map (Send i) ms) = []" for i ms by (simp add: filter_empty_conv)
  show "watch P (window_focused x) = watch P x"
    unfolding window_focused_def by (rule watch_more) (simp add: filter_empty_conv)
  have views: "watch P (tellViews retain ms x) = watch P x" for ms
    unfolding tellViews_def by (rule watch_more) (simp add: filter_concat filter_empty_conv sends)
  then show "watch P (tellViews retain ms x) = watch P x" .
  show "watch P (configuration_changed retain theme chords x) = watch P x"
    by (simp add: configuration_changed_def Let_def views)
qed

end

interpretation danger: watched dangerous
  by unfold_locales simp

interpretation panel: watched slot_context
  by unfold_locales simp

section \<open>Nothing outside but what is allowed\<close>

lemma trace_watch: "watch P x = watch P y \<Longrightarrow> trace P x = trace P y"
  by (simp add: watch_def)

lemma contexts_not_dangerous [simp]: "filter dangerous (map (\<lambda>(k, v). Set_Context k v) kvs) = []"
  by (induction kvs) auto

lemma trace_saveBinding [simp]: "trace dangerous (saveBinding slot s x) = trace dangerous x"
  unfolding saveBinding_def syncSlotContexts_def Let_def by (simp add: trace_def)

lemma trace_run: "trace P (run e x) = trace P x @ (if P e then [e] else [])"
  by (simp add: trace_def run_def)

lemma trace_closeSlot [simp]: "trace dangerous (closeSlot en slot x) = trace dangerous x"
  using trace_watch [OF danger.watch_basic(4)] trace_watch [OF watch_update(10), of dangerous]
  by (simp add: closeSlot_def Let_def split: option.split)

lemma trace_close_request [simp]: "trace dangerous (close_request en i x) = trace dangerous x"
  using trace_watch [OF danger.watch_panels(4)] by (simp add: close_request_def split: option.split host_kind.split)

lemma trace_openVncWindow [simp]: "trace dangerous (openVncWindow_close en protocol m x) = trace dangerous x"
  using trace_watch [OF danger.watch_panels(4)] trace_watch [OF danger.watch_basic(6)]
  by (simp add: openVncWindow_close_def Let_def split: option.split place.split host_kind.split)

lemma trace_on_state [simp]: "trace dangerous (on_state en i m x) = trace dangerous x"
  using trace_watch [OF danger.watch_updateTitle] trace_watch [OF watch_update(10), of dangerous]
  by (simp add: on_state_def Let_def split: option.split host_kind.split)

section \<open>The panel's views\<close>

text \<open>
  The context keys of VS Code, all unset at first, and the views the panel shows by the \<open>when\<close>
  clauses of \<open>package.json\<close>.
\<close>

fun apply_context :: "ext_effect \<Rightarrow> (ustring \<Rightarrow> bool) \<Rightarrow> (ustring \<Rightarrow> bool)" where
  "apply_context (Set_Context k v) c = c(k := v)"
| "apply_context _ c = c"

definition contexts :: "ext_effect list \<Rightarrow> ustring \<Rightarrow> bool" where
  "contexts es = fold apply_context es (\<lambda>_. False)"

definition slot_key :: "ustring \<Rightarrow> ustring" where
  "slot_key i = js ''webmanager.slot.'' @ i"

definition panel_views :: "(ustring \<Rightarrow> bool) \<Rightarrow> ustring list" where
  "panel_views c = filter (\<lambda>i. c (slot_key i) \<or> (i = js ''term1'' \<and> \<not> c (js ''webmanager.panelInUse''))) SLOT_IDS"

lemma panel_views_nonempty:
  "panel_views c \<noteq> [] \<longleftrightarrow>
     (\<exists>i \<in> set SLOT_IDS. c (slot_key i)) \<or> \<not> c (js ''webmanager.panelInUse'')"
  by (auto simp: panel_views_def filter_empty_conv SLOT_IDS_def)

definition never_empty :: "ext_effect list \<Rightarrow> bool" where
  "never_empty es \<longleftrightarrow> (\<forall>n. panel_views (contexts (take n es)) \<noteq> [])"

definition agrees :: "ext_effect list \<Rightarrow> (ustring \<times> bool) list \<Rightarrow> bool" where
  "agrees es kvs \<longleftrightarrow> (\<forall>(k, v) \<in> set kvs. contexts es k = v)"

definition panel_ok :: "ext \<Rightarrow> bool" where
  "panel_ok x \<longleftrightarrow> x_lastSlotContexts x = Some (slot_contexts (x_bindings x))
     \<and> agrees (trace slot_context x) (slot_contexts (x_bindings x)) \<and> never_empty (trace slot_context x)"

lemma contexts_Nil [simp]: "contexts [] k = False"
  by (simp add: contexts_def)

lemma contexts_append: "contexts (es @ fs) = fold apply_context fs (contexts es)"
  by (simp add: contexts_def)

lemma fold_contexts:
  "distinct (map fst kvs) \<Longrightarrow> fold apply_context (map (\<lambda>(k, v). Set_Context k v) kvs) c k =
     (case map_of kvs k of Some v \<Rightarrow> v | None \<Rightarrow> c k)"
proof (induction kvs arbitrary: c)
  case (Cons p kvs)
  obtain a b where p: "p = (a, b)" by (cases p)
  have "map_of kvs a = None" using Cons.prems by (simp add: p map_of_eq_None_iff)
  then show ?case using Cons by (simp add: p split: option.split)
qed simp

lemma slot_keys_distinct: "distinct (map fst (slot_contexts b))"
  by (simp add: slot_contexts_def SLOT_IDS_def js_def)

lemma slot_key_in: "i \<in> set SLOT_IDS \<Longrightarrow> (slot_key i, b i \<noteq> None) \<in> set (slot_contexts b)"
  by (simp add: slot_contexts_def slot_key_def)

lemma slot_key_not_use [simp]: "i \<in> set SLOT_IDS \<Longrightarrow> slot_key i \<noteq> js ''webmanager.panelInUse''"
  by (auto simp: slot_key_def SLOT_IDS_def js_def)

definition panel_in_use :: "(ustring \<rightharpoonup> view_state) \<Rightarrow> bool" where
  "panel_in_use b \<longleftrightarrow> (\<exists>i \<in> set SLOT_IDS. i \<noteq> js ''term1'' \<and> b i \<noteq> None)"

lemma use_key_in: "(js ''webmanager.panelInUse'', panel_in_use b) \<in> set (slot_contexts b)"
  by (simp add: slot_contexts_def list_ex_iff panel_in_use_def Bex_def)

text \<open>The two halves of a change: what shows a view only adds views, and once it is done the new views
  are there to stay.\<close>

lemma shows_keep:
  assumes "distinct (map fst kvs)" "\<And>kv. kv \<in> set kvs \<Longrightarrow> context_shows kv" "panel_views c \<noteq> []"
  shows "panel_views (fold apply_context (map (\<lambda>(k, v). Set_Context k v) kvs) c) \<noteq> []"
proof -
  have v: "map_of kvs k = Some v \<Longrightarrow> context_shows (k, v)" for k v using assms(2) map_of_SomeD by fast
  let ?c = "fold apply_context (map (\<lambda>(k, v). Set_Context k v) kvs) c"
  have "?c (slot_key i)" if "i \<in> set SLOT_IDS" "c (slot_key i)" for i
    using that v [of "slot_key i"] slot_key_not_use [OF that(1)]
    by (auto simp: fold_contexts [OF assms(1)] context_shows_def split: option.split)
  moreover have "\<not> ?c (js ''webmanager.panelInUse'')" if "\<not> c (js ''webmanager.panelInUse'')"
    using that v [of "js ''webmanager.panelInUse''"]
    by (auto simp: fold_contexts [OF assms(1)] context_shows_def split: option.split)
  ultimately show ?thesis using assms(3) unfolding panel_views_nonempty by blast
qed

lemma new_stays:
  assumes "distinct (map fst kvs)" "set kvs \<subseteq> set (slot_contexts b)"
    and "\<And>kv. kv \<in> set (slot_contexts b) \<Longrightarrow> context_shows kv \<Longrightarrow> kv \<in> set kvs"
  shows "panel_views (fold apply_context (map (\<lambda>(k, v). Set_Context k v) kvs) c) \<noteq> []"
proof (cases "\<exists>i \<in> set SLOT_IDS. b i \<noteq> None")
  case True
  then obtain i where i: "i \<in> set SLOT_IDS" "b i \<noteq> None" by blast
  then have "(slot_key i, True) \<in> set kvs"
    using assms(3) [OF slot_key_in [OF i(1), of b]] by (simp add: context_shows_def)
  then have "map_of kvs (slot_key i) = Some True" using assms(1) by simp
  then have "fold apply_context (map (\<lambda>(k, v). Set_Context k v) kvs) c (slot_key i)"
    by (simp add: fold_contexts [OF assms(1)])
  then show ?thesis using i(1) unfolding panel_views_nonempty by blast
next
  case False
  then have "\<not> panel_in_use b" by (auto simp: panel_in_use_def)
  then have "(js ''webmanager.panelInUse'', False) \<in> set kvs"
    using assms(3) [OF use_key_in [of b]] by (simp add: context_shows_def)
  then have "map_of kvs (js ''webmanager.panelInUse'') = Some False" using assms(1) by simp
  then show ?thesis unfolding panel_views_nonempty by (simp add: fold_contexts [OF assms(1)])
qed

lemma never_empty_append:
  assumes "never_empty es" "\<And>m. panel_views (fold apply_context (take m fs) (contexts es)) \<noteq> []"
  shows "never_empty (es @ fs)"
  unfolding never_empty_def
proof
  fix n show "panel_views (contexts (take n (es @ fs))) \<noteq> []"
  proof (cases "n \<le> length es")
    case True
    then show ?thesis using assms(1) by (simp add: never_empty_def)
  next
    case False
    then show ?thesis using assms(2) [of "n - length es"] by (simp add: contexts_append)
  qed
qed

definition sync_order :: "(ustring \<times> bool) list \<Rightarrow> (ustring \<times> bool) list" where
  "sync_order next = filter context_shows next @ filter (\<lambda>kv. \<not> context_shows kv) next"

lemma set_sync_order [simp]: "set (sync_order next) = set next"
  by (auto simp: sync_order_def)

lemma distinct_sync_order: "distinct (map fst next) \<Longrightarrow> distinct (map fst (sync_order next))"
  by (auto simp: sync_order_def distinct_map inj_on_def dest: set_mp)

lemma sync_never_empty:
  assumes "never_empty es"
  shows "never_empty (es @ map (\<lambda>(k, v). Set_Context k v) (sync_order (slot_contexts b)))"
proof (rule never_empty_append [OF assms])
  fix m
  define kvs where "kvs = take m (sync_order (slot_contexts b))"
  have d: "distinct (map fst kvs)"
    using distinct_sync_order [OF slot_keys_distinct [of b]] by (simp add: kvs_def take_map [symmetric])
  have "panel_views (fold apply_context (map (\<lambda>(k, v). Set_Context k v) kvs) (contexts es)) \<noteq> []"
  proof (cases "m \<le> length (filter context_shows (slot_contexts b))")
    case True
    have "panel_views (contexts es) \<noteq> []"
      using assms [unfolded never_empty_def, rule_format, of "length es"] by simp
    moreover have "context_shows kv" if "kv \<in> set kvs" for kv
      using that True set_take_subset [of m "filter context_shows (slot_contexts b)"]
      by (auto simp: kvs_def sync_order_def)
    ultimately show ?thesis by (intro shows_keep d) simp_all
  next
    case False
    have "set kvs \<subseteq> set (slot_contexts b)"
      using set_take_subset [of m "sync_order (slot_contexts b)"] by (simp add: kvs_def)
    moreover have "kv \<in> set kvs" if "kv \<in> set (slot_contexts b)" "context_shows kv" for kv
      using that False by (simp add: kvs_def sync_order_def)
    ultimately show ?thesis by (intro new_stays d) simp_all
  qed
  then show "panel_views (fold apply_context (take m (map (\<lambda>(k, v). Set_Context k v) (sync_order (slot_contexts b))))
      (contexts es)) \<noteq> []"
    by (simp add: kvs_def take_map)
qed

lemma sync_agrees: "agrees (es @ map (\<lambda>(k, v). Set_Context k v) (sync_order (slot_contexts b))) (slot_contexts b)"
proof -
  note d = distinct_sync_order [OF slot_keys_distinct [of b]]
  have "contexts (es @ map (\<lambda>(k, v). Set_Context k v) (sync_order (slot_contexts b))) k = v"
    if "(k, v) \<in> set (slot_contexts b)" for k v
  proof -
    have "map_of (sync_order (slot_contexts b)) k = Some v" using that d by simp
    then show ?thesis by (simp add: contexts_append fold_contexts [OF d])
  qed
  then show ?thesis by (auto simp: agrees_def)
qed

lemma syncSlotContexts_trace:
  "trace slot_context (syncSlotContexts x) = trace slot_context x @
     (if x_lastSlotContexts x = Some (slot_contexts (x_bindings x)) then []
      else map (\<lambda>(k, v). Set_Context k v) (sync_order (slot_contexts (x_bindings x))))"
proof -
  have "filter slot_context (map (\<lambda>(k, v). Set_Context k v) kvs) = map (\<lambda>(k, v). Set_Context k v) kvs"
    if "set (map fst kvs) \<subseteq> set slot_keys" for kvs
    using that by (induction kvs) auto
  moreover have "set (map fst (sync_order (slot_contexts b))) = set slot_keys" for b
    unfolding set_map set_sync_order slot_keys_def by (simp add: slot_contexts_def image_Un image_image)
  ultimately have "filter slot_context (map (\<lambda>(k, v). Set_Context k v) (sync_order (slot_contexts b))) =
      map (\<lambda>(k, v). Set_Context k v) (sync_order (slot_contexts b))" for b
    by blast
  then show ?thesis
    unfolding syncSlotContexts_def Let_def sync_order_def [symmetric] by (simp add: trace_def)
qed

lemma syncSlotContexts_fields [simp]:
  "x_bindings (syncSlotContexts x) = x_bindings x"
  "x_lastSlotContexts (syncSlotContexts x) = Some (slot_contexts (x_bindings x))"
  by (simp_all add: syncSlotContexts_def Let_def)

text \<open>What holds between two changes of the bindings.\<close>

definition panel_synced :: "ext \<Rightarrow> bool" where
  "panel_synced x \<longleftrightarrow> never_empty (trace slot_context x) \<and> (case x_lastSlotContexts x of
     None \<Rightarrow> True | Some kvs \<Rightarrow> agrees (trace slot_context x) kvs)"

lemma panel_ok_sync: "panel_synced x \<Longrightarrow> panel_ok (syncSlotContexts x)"
  by (auto simp: panel_ok_def panel_synced_def syncSlotContexts_trace sync_never_empty sync_agrees)

lemma panel_ok_watch: "watch slot_context x = watch slot_context y \<Longrightarrow> panel_ok x = panel_ok y"
  by (simp add: watch_def panel_ok_def)

lemma panel_ok_saveBinding [simp]: "panel_ok x \<Longrightarrow> panel_ok (saveBinding slot s x)"
proof -
  assume "panel_ok x"
  then have "panel_synced (x\<lparr>x_bindings := (x_bindings x)(slot := s)\<rparr>)"
    by (simp add: panel_ok_def panel_synced_def trace_def)
  then show ?thesis unfolding saveBinding_def by (rule panel_ok_sync)
qed

section \<open>Every step keeps a view in the panel\<close>

lemma panel_ok_quiet [simp]:
  "panel_ok (update_host i k x) = panel_ok x" "panel_ok (navigateHost en i s x) = panel_ok x"
  "panel_ok (updateTitle en i x) = panel_ok x" "panel_ok (dispose_panel i x) = panel_ok x"
  "panel_ok (revealHost p x) = panel_ok x" "panel_ok (close_tabs ts x) = panel_ok x"
  "panel_ok (createPanel en r col s x) = panel_ok x" "panel_ok (openState en r col s x) = panel_ok x"
  "\<not> slot_context e \<Longrightarrow> panel_ok (run e x) = panel_ok x"
  by (rule panel_ok_watch; simp)+

lemma panel_ok_slots:
  assumes "panel_ok x"
  shows "panel_ok (closeSlot en slot x)" "panel_ok (bindSlot en slot s x)"
    "panel_ok (openInPanel en s picked x)" "panel_ok (openStateInPanel en s picked x)"
    "panel_ok (close_request en i x)" "panel_ok (moveToEditor en r i x)" "panel_ok (moveToPanel en i picked x)"
    "panel_ok (openInBrowser en i opened x)" "panel_ok (changeSession en i s x)" "panel_ok (switchTab en i s x)"
    "panel_ok (on_state en i m x)" "panel_ok (openVncWindow_close en protocol m x)"
proof -
  have close: "panel_ok y \<Longrightarrow> panel_ok (closeSlot en slot y)" for slot y
    by (simp add: closeSlot_def Let_def split: option.split)
  have bind: "panel_ok y \<Longrightarrow> panel_ok (bindSlot en slot s y)" for slot s y
    by (simp add: bindSlot_def Let_def split: option.split)
  have request: "panel_ok y \<Longrightarrow> panel_ok (close_request en i y)" for y
    by (simp add: close_request_def close split: option.split host_kind.split)
  have slot: "panel_ok (openInPanel en s picked x)"
    using assms by (simp add: openInPanel_def Let_def bind split: option.split)
  show "panel_ok (closeSlot en slot x)" "panel_ok (bindSlot en slot s x)"
    "panel_ok (openInPanel en s picked x)" "panel_ok (close_request en i x)"
    using assms close bind request slot by simp_all
  show "panel_ok (openStateInPanel en s picked x)"
    using assms slot by (simp add: openStateInPanel_def split: option.split)
  show "panel_ok (moveToEditor en r i x)"
    using assms by (simp add: moveToEditor_def close split: option.split host_kind.split)
  show "panel_ok (moveToPanel en i picked x)"
    using assms by (simp add: moveToPanel_def bind split: option.split)
  show "panel_ok (openInBrowser en i opened x)"
    using assms by (simp add: openInBrowser_def Let_def request split: option.split)
  show "panel_ok (changeSession en i s x)"
    using assms by (simp add: changeSession_def bind split: option.split host_kind.split)
  show "panel_ok (switchTab en i s x)"
    using assms by (simp add: switchTab_def bind split: option.split host_kind.split)
  show "panel_ok (on_state en i m x)"
    using assms by (simp add: on_state_def Let_def split: option.split host_kind.split)
  show "panel_ok (openVncWindow_close en protocol m x)"
    using assms by (simp add: openVncWindow_close_def Let_def close split: option.split place.split host_kind.split)
qed

lemma panel_ok_more [simp]:
  "panel_ok (tellVisibility i x) = panel_ok x" "panel_ok (newSessionInView en i t x) = panel_ok x"
  "panel_ok (openSessionInView en i n x) = panel_ok x" "panel_ok (withTargetHost m x) = panel_ok x"
  "panel_ok (openTerminalFromEmbed en r alnum names f x) = panel_ok x"
  "panel_ok (openFileFromEmbed j home st f x) = panel_ok x" "panel_ok (rememberVncTargets en ts x) = panel_ok x"
  "panel_ok (rename_view i name x) = panel_ok x" "panel_ok (togglePin_view i x) = panel_ok x"
  "panel_ok (reload_view en i x) = panel_ok x" "panel_ok (deserialize en tb active retain saved x) = panel_ok x"
  "panel_ok (panel_view_state i active visible x) = panel_ok x" "panel_ok (slot_visibility i visible x) = panel_ok x"
  "panel_ok (resolveWebviewView en slot visible x) = panel_ok x" "panel_ok (dispose_slot_view i slot x) = panel_ok x"
  "panel_ok (ready_timeout x) = panel_ok x" "panel_ok (window_focused x) = panel_ok x"
  "panel_ok (configuration_changed keep theme chords x) = panel_ok x"
  by (rule panel_ok_watch; simp)+

lemma panel_ok_passthrough [simp]: "panel_ok (run_passthrough inp m x) = panel_ok x"
  by (simp add: run_passthrough_def split: option.split json.split)

lemma panel_ok_onMessage: "panel_ok x \<Longrightarrow> panel_ok (onMessage en inp i m x)"
  unfolding onMessage_def using panel_ok_slots by (auto split: option.split)

lemma panel_ok_activate: "panel_synced (prune_titles x) \<Longrightarrow> panel_ok (activate x)"
  unfolding activate_def by (rule panel_ok_sync)

lemma panel_synced_prune: "panel_ok x \<Longrightarrow> panel_synced (prune_titles x)"
  by (simp add: panel_ok_def panel_synced_def prune_titles_def Let_def trace_def)

lemma panel_synced_init: "panel_synced (prune_titles (ext_init b titles targets restored))"
  by (simp add: panel_synced_def prune_titles_def Let_def trace_def ext_init_def never_empty_def panel_views_nonempty)

lemma panel_ok_step: "window_step en x y \<Longrightarrow> panel_ok x \<Longrightarrow> panel_ok y"
  by (induction rule: window_step.induct)
    (simp_all add: panel_ok_slots panel_ok_onMessage panel_ok_activate panel_synced_prune)

lemma panel_ok_reach: "window_reach en x0 x \<Longrightarrow> panel_ok x0 \<Longrightarrow> panel_ok x"
  by (induction rule: window_reach.induct) (simp_all add: panel_ok_step)

text \<open>From the contexts' effects to all of them.\<close>

lemma contexts_slot_keys:
  "k \<in> set slot_keys \<Longrightarrow> contexts (filter slot_context es) k = contexts es k"
proof -
  assume k: "k \<in> set slot_keys"
  have one: "apply_context e c k = c k" if "\<not> slot_context e" for e c
    using that k by (cases e) auto
  have "c k = d k \<Longrightarrow> fold apply_context (filter slot_context es) c k = fold apply_context es d k" for c d
  proof (induction es arbitrary: c d)
    case (Cons e es)
    have same: "apply_context e c k = apply_context e d k" using Cons.prems by (cases e) simp_all
    show ?case
      using Cons.IH [of "apply_context e c" "apply_context e d", OF same] Cons.IH [of c "apply_context e d"] one [of e d] Cons.prems
      by (cases "slot_context e") simp_all
  qed simp
  then show ?thesis by (simp add: contexts_def)
qed

lemma slot_keys_mem: "i \<in> set SLOT_IDS \<Longrightarrow> slot_key i \<in> set slot_keys" "js ''webmanager.panelInUse'' \<in> set slot_keys"
  by (simp_all add: slot_keys_def slot_contexts_def slot_key_def image_Un image_image)

lemma panel_views_filter: "panel_views (contexts (filter slot_context es)) = panel_views (contexts es)"
  unfolding panel_views_def
  by (rule filter_cong [OF refl]) (simp add: contexts_slot_keys slot_keys_mem)

lemma filter_take: "filter P (take n es) = take (length (filter P (take n es))) (filter P es)"
proof -
  have "filter P es = filter P (take n es) @ filter P (drop n es)"
    by (simp add: filter_append [symmetric])
  then show ?thesis by (metis append_eq_conv_conj)
qed

lemma never_empty_filter: "never_empty (filter slot_context es) \<Longrightarrow> never_empty es"
  unfolding never_empty_def by (metis filter_take panel_views_filter)

end
