(* ===== verification/View_Properties.thy ===== *)
theory View_Properties
  imports View_Effects
begin

text \<open>
  What the extension promises of its views: one place per session and target, slots that stay
  closed, an initial command that runs once, a panel that never empties, pages that are not trusted
  with the editor, and names that are free and valid.
\<close>

section \<open>One place\<close>


definition plain_env :: env where
  "plain_env = \<lparr>en_parse = (\<lambda>q. [(js ''target'', q)]), en_ser = (\<lambda>q. case q of [] \<Rightarrow> [] | (k, v) # _ \<Rightarrow> v),
     en_defaultCwd = None\<rparr>"



section \<open>A closed slot\<close>

definition closed_of :: "ext \<Rightarrow> nat \<Rightarrow> view_state option option" where
  "closed_of x n = map_option h_closedState (find_host n x)"

lemma find_host_update:
  assumes "\<And>h. h_id (f h) = h_id h"
  shows "find_host n (update_host i f x) = map_option (\<lambda>h. if n = i then f h else h) (find_host n x)"
proof -
  have "List.find (\<lambda>h. h_id h = n) (map (\<lambda>h. if h_id h = i then f h else h) hs) =
      map_option (\<lambda>h. if n = i then f h else h) (List.find (\<lambda>h. h_id h = n) hs)" for hs
    using assms by (induction hs) auto
  then show ?thesis by (simp add: find_host_def update_host_def)
qed

lemma find_host_same [simp]:
  "find_host n (run e x) = find_host n x" "find_host n (refreshContexts x) = find_host n x"
  "find_host n (recordTitle r x) = find_host n x" "find_host n (forgetTitle i r x) = find_host n x"
  "find_host n (saveBinding slot s x) = find_host n x"
  by (simp_all add: find_host_def run_def refreshContexts_def Let_def recordTitle_def forgetTitle_def
      saveBinding_def syncSlotContexts_def)

lemma closed_of_update:
  assumes "\<And>h. h_id (f h) = h_id h" "\<And>h. h_closedState (f h) = h_closedState h"
  shows "closed_of (update_host i f x) n = closed_of x n"
  using assms by (simp add: closed_of_def find_host_update option.map_comp o_def if_distrib cong: if_cong)

lemma closed_of_same [simp]:
  "closed_of (run e x) n = closed_of x n" "closed_of (refreshContexts x) n = closed_of x n"
  "closed_of (recordTitle r x) n = closed_of x n" "closed_of (forgetTitle i r x) n = closed_of x n"
  by (simp_all add: closed_of_def)

lemma closed_of_updateTitle [simp]: "closed_of (updateTitle en i x) n = closed_of x n"
  by (simp add: updateTitle_def Let_def closed_of_update split: option.split host_kind.split)

lemma closed_of_navigateHost [simp]: "closed_of (navigateHost en i s x) n = closed_of x n"
  by (simp add: navigateHost_def Let_def closed_of_update)

lemma closed_of_closeSlot:
  assumes "slot_host slot x = Some i" "find_host i x = Some h"
  shows "closed_of (closeSlot en slot x) i = Some (Some (h_state h))"
proof -
  let ?x1 = "update_host i (\<lambda>h. h\<lparr>h_closedState := Some (h_state h)\<rparr>) x"
  have "slot_host slot (saveBinding slot None ?x1) = Some i" 
    using assms(1) slot_host_frame [OF closed_mark_frame [of i "\<lambda>h. Some (h_state h)" x]] by (simp add: saveBinding_frame)
  then have c: "closeSlot en slot x = (if slot = js ''term1'' then navigateHost en i (defaultSlotState en slot) (saveBinding slot None ?x1)
      else saveBinding slot None ?x1)"
    using assms(1) by (simp add: closeSlot_def Let_def)
  have "closed_of (saveBinding slot None ?x1) i = Some (Some (h_state h))"
    using assms(2) by (simp add: closed_of_def find_host_update)
  then show ?thesis by (auto simp: c)
qed

text \<open>A slot stays closed. A report still in flight from the page it was closed with (the same
  section, session and query) changes nothing, so the slot is still unbound after it; the first
  report of anything else worth restoring binds the slot again, to that.\<close>
lemma closed_slot_stays_closed:
  fixes en m
  assumes "well_formed x" and "slot_host slot x = Some i" and "find_host i x = Some h"
  defines "y \<equiv> closeSlot en slot x" and "r \<equiv> normalizeState m"
  shows "if vs_section r = vs_section (h_state h) \<and> vs_session r = vs_session (h_state h)
            \<and> vs_query r = vs_query (h_state h)
         then on_state en i m y = y \<and> x_bindings (on_state en i m y) slot = None
         else (\<exists>g. find_host i y = Some g \<and> (let s = reported_state (h_state g) m in
                 x_bindings (on_state en i m y) slot =
                   (if vs_section s \<noteq> js ''terminal'' \<or> vs_session s \<noteq> None then Some s else None)))"
proof -
  obtain g where g: "find_host i y = Some g" "h_closedState g = Some (h_state h)"
    using closed_of_closeSlot [OF assms(2,3), of en] by (auto simp: closed_of_def y_def)
  have b: "x_bindings y slot = None" by (simp add: y_def closeSlot_frame)
  have "mv y i = Some (h_kind g, h_state g)" using g(1) by (rule mv_find_host)
  moreover have "well_formed y" "slot_host slot y = Some i"
    using assms(1,2) by (simp_all add: y_def closeSlot_frame)
  ultimately have k: "h_kind g = Slot slot" using wf_slot_host [of y slot i] by auto
  have stale: "stale_report g m \<longleftrightarrow> vs_section r = vs_section (h_state h)
      \<and> vs_session r = vs_session (h_state h) \<and> vs_query r = vs_query (h_state h)"
    using g(2) by (auto simp: stale_report_def r_def Let_def)
  show ?thesis
  proof (cases "stale_report g m")
    case True
    then have "on_state en i m y = y" by (simp add: on_state_def g(1))
    then show ?thesis using True stale b by simp
  next
    case False
    then show ?thesis
      using stale g(1) on_state_frame(3) [OF g(1) False, of en] k b by (auto simp: Let_def)
  qed
qed

lemma closed_slot_stays_closed_witness:
  "let x = resolveWebviewView plain_env (js ''term2'') True (ext_init [js ''term2'' \<mapsto> terminal_state (js ''a'')] [] [] []);
       y = closeSlot plain_env (js ''term2'') x;
       m = fields_of (terminal_state (js ''a''))
   in on_state plain_env 0 m y = y \<and> x_bindings y (js ''term2'') = None"
proof -
  let ?init = "ext_init [js ''term2'' \<mapsto> terminal_state (js ''a'')] [] [] []"
  let ?x = "resolveWebviewView plain_env (js ''term2'') True ?init"
  have w: "well_formed ?init" by simp
  have n: "slot_host (js ''term2'') ?init = None" by (simp add: slot_host_def ext_init_def)
  note fr = resolve_frame [OF w n, where en = plain_env and visible = True]
  have nx: "x_next ?init = 0" "x_bindings ?init (js ''term2'') = Some (terminal_state (js ''a''))" by (simp_all add: ext_init_def)
  have sh: "slot_host (js ''term2'') ?x = Some 0" using fr(2) nx by simp
  have st: "normalized (terminal_state (js ''a'')) = terminal_state (js ''a'')"
    by (simp add: normalized_eq terminal_state_def blank_state_def or_undefined_def)
  have "mv ?x 0 = Some (Slot (js ''term2''), terminal_state (js ''a''))" using fr(1) nx st by simp
  then obtain h where h: "find_host 0 ?x = Some h" "h_state h = terminal_state (js ''a'')" by (auto simp: mv_find)
  have "normalizeState (fields_of (terminal_state (js ''a''))) = terminal_state (js ''a'')"
    using st by (simp add: normalized_def)
  then show ?thesis
    using closed_slot_stays_closed [OF fr(4) sh h(1), of "fields_of (terminal_state (js ''a''))" plain_env]
    unfolding Let_def h(2) by metis
qed

section \<open>The initial command\<close>

definition terminal_params :: "view_state \<Rightarrow> query" where
  "terminal_params s =
     (let p = set_if ''cmd'' (vs_command s) (set_if ''created'' (vs_created s)
                (set_if ''cwd'' (vs_cwd s) (set_if ''session'' (vs_session s) [])))
      in if vs_pinned s = Some False then params_set (js ''unpinned'') (js ''1'') p else p)"

lemma buildPath_terminal:
  "vs_section s = js ''terminal'' \<Longrightarrow> buildPath parse ser s =
     (let qs = ser (terminal_params s) in js ''terminal'' @ (if qs = [] then [] else js ''?'' @ qs))"
  by (simp add: buildPath_def terminal_params_def Let_def)

lemma reported_session: "vs_session (reported_state old m) \<noteq> None \<Longrightarrow> vs_command (reported_state old m) = None"
  by (auto simp: reported_state_def Let_def split: if_splits)

text \<open>The initial command of a session runs once: from the first report that names a session,
  what the extension keeps of the view has no command, and the path it loads the view from carries
  the session's name, folder and creation time, an unpinned mark exactly for an unpinned session,
  and no command. A report about another session takes neither pin nor creation time from the
  one before.\<close>
lemma initial_command_runs_once:
  assumes "vs_session (reported_state old m) = Some n"
  shows "(let s = reported_state old m; q = terminal_params s
     in vs_command s = None \<and> params_get q (js ''cmd'') = None \<and> params_get q (js ''session'') = or_undefined (Some n)
        \<and> params_get q (js ''cwd'') = or_undefined (vs_cwd s) \<and> params_get q (js ''created'') = or_undefined (vs_created s)
        \<and> (params_get q (js ''unpinned'') = Some (js ''1'') \<longleftrightarrow> vs_pinned s = Some False)
        \<and> (vs_section s = js ''terminal'' \<longrightarrow> buildPath parse ser s =
             js ''terminal'' @ (if ser q = [] then [] else js ''?'' @ ser q))
        \<and> (m (js ''session'') \<noteq> map_option JString (vs_session old) \<and> m (js ''pinned'') = None \<longrightarrow> vs_pinned s = None)
        \<and> (m (js ''session'') \<noteq> map_option JString (vs_session old) \<and> m (js ''created'') = None \<longrightarrow> vs_created s = None))"
proof -
  have c: "vs_command (reported_state old m) = None" using reported_session assms by simp
  have q0: "params_get [] k = None" for k by (simp add: params_get_def)
  have p: "params_get (terminal_params (reported_state old m)) (js k) =
      (if k = ''unpinned'' \<and> vs_pinned (reported_state old m) = Some False then Some (js ''1'')
       else if k = ''created'' \<and> or_undefined (vs_created (reported_state old m)) \<noteq> None then or_undefined (vs_created (reported_state old m))
       else if k = ''cwd'' \<and> or_undefined (vs_cwd (reported_state old m)) \<noteq> None then or_undefined (vs_cwd (reported_state old m))
       else if k = ''session'' \<and> or_undefined (Some n) \<noteq> None then or_undefined (Some n) else None)" for k
    using c assms by (simp add: terminal_params_def Let_def params_get_set_if q0 or_undefined_def)
  have other: "m (js ''session'') \<noteq> map_option JString (vs_session old) \<Longrightarrow> m (js ''pinned'') = None \<Longrightarrow>
      vs_pinned (reported_state old m) = None"
    by (auto simp: reported_state_def Let_def normalizeState_def map_add_def)
  have other': "m (js ''session'') \<noteq> map_option JString (vs_session old) \<Longrightarrow> m (js ''created'') = None \<Longrightarrow>
      vs_created (reported_state old m) = None"
    by (auto simp: reported_state_def Let_def normalizeState_def map_add_def nonempty_field_def)
  show ?thesis
    unfolding Let_def
    using c p other other' buildPath_terminal [of "reported_state old m" parse ser] by (simp add: Let_def)
qed

lemma initial_command_runs_once_witness:
  "let old = (terminal_state (js ''a''))\<lparr>vs_command := Some (js ''make'')\<rparr>;
       s = reported_state old (fields_of (terminal_state (js ''a'')))
   in vs_command s = None \<and> params_get (terminal_params s) (js ''session'') = Some (js ''a'')"
proof -
  let ?old = "(terminal_state (js ''a''))\<lparr>vs_command := Some (js ''make'')\<rparr>"
  have "vs_session (reported_state ?old (fields_of (terminal_state (js ''a'')))) = Some (js ''a'')"
    by (simp add: reported_state_def Let_def normalizeState_def nonempty_field_def map_add_def fields_of_apply
        terminal_state_def blank_state_def)
  from initial_command_runs_once [OF this] show ?thesis by (simp add: Let_def or_undefined_def)
qed

section \<open>The panel and the outside\<close>



definition allowed_effect :: "inputs \<Rightarrow> fields \<Rightarrow> ext_effect \<Rightarrow> bool" where
  "allowed_effect inp m e =
     (case e of
        External u \<Rightarrow> isHttpUrl (in_protocol inp) u \<and> string_of m ''url'' = Some u
      | Folder_Window p \<Rightarrow> starts_with p [U_SLASH] \<and> string_of m ''path'' = Some p
      | Run_Command c args \<Rightarrow> list_ex (\<lambda>entry. json_field entry (js ''command'') = Some (JString c)
          \<and> json_field entry (js ''args'') = args
          \<and> (case chord_key entry of
                Some k \<Rightarrow> m (js ''chord'') = Some (JString (canonicalChord (in_lower inp) k)) | None \<Rightarrow> False))
            (in_passthrough inp)
      | _ \<Rightarrow> True)"

text \<open>C6: A page is not trusted with the editor. Whatever message a view sends, in whatever state the
  window is, it opens at most one thing outside, and only an http(s) address, a folder given by an
  absolute path, or a command the user listed under passthroughKeys for the very chord
  reported, with the arguments listed there. The second half of a VNC popup is bound the same way.\<close>
theorem views_are_not_trusted:
  "(\<exists>es. trace dangerous (onMessage en inp i m x) = trace dangerous x @ es \<and> length es \<le> 1
      \<and> list_all (allowed_effect inp m) es)
   \<and> (\<exists>es. trace dangerous (openVncWindow_open (in_protocol inp) m x) = trace dangerous x @ es \<and> length es \<le> 1
      \<and> list_all (allowed_effect inp m) es)"
proof -
  define ok where "ok = (\<lambda>y. \<exists>es. trace dangerous y = trace dangerous x @ es \<and> length es \<le> 1
      \<and> list_all (allowed_effect inp m) es)"
  have same: "ok y" if "trace dangerous y = trace dangerous x" for y
    unfolding ok_def using that by (intro exI [of _ "[]"]) simp
  have quiet: "ok y" if "watch dangerous y = watch dangerous x" for y
    by (rule same) (rule trace_watch [OF that])
  have opens: "ok (run e x)" if "dangerous e" "allowed_effect inp m e" for e
    unfolding ok_def using that by (intro exI [of _ "[e]"]) (simp add: trace_run)
  have passthrough: "ok (run_passthrough inp m x)"
  proof (cases "List.find (\<lambda>e. case chord_key e of
              Some k \<Rightarrow> m (js ''chord'') = Some (JString (canonicalChord (in_lower inp) k)) | None \<Rightarrow> False)
            (in_passthrough inp)")
    case None
    then show ?thesis by (simp add: run_passthrough_def same)
  next
    case (Some e)
    then have "e \<in> set (in_passthrough inp)" "case chord_key e of
              Some k \<Rightarrow> m (js ''chord'') = Some (JString (canonicalChord (in_lower inp) k)) | None \<Rightarrow> False"
      by (auto simp: find_Some_iff)
    then have "allowed_effect inp m (Run_Command c (json_field e (js ''args'')))"
      if "json_field e (js ''command'') = Some (JString c)" for c
      using that by (auto simp: allowed_effect_def list_ex_iff intro!: bexI [of _ e])
    then show ?thesis using Some by (simp add: run_passthrough_def same opens split: option.split json.split)
  qed
  have none: "ok x" by (rule same) (rule refl)
  have quiets: "ok (tellVisibility i x)" "ok (openFileFromEmbed j home st m x)" "ok (newSessionInView en i t x)"
    "ok (openTerminalFromEmbed en r al names m x)" "ok (openSessionInView en i n x)" "ok (openState en r col s x)"
    "ok (rememberVncTargets en ts x)" for j home st t r al names n col s ts
    by (rule quiet; simp)+
  have closes: "ok (on_state en i m x)" "ok (openVncWindow_close en pr m x)" "ok (close_request en i x)" for pr
    by (rule same; simp)+
  have external: "string_of m ''url'' = Some u \<Longrightarrow> isHttpUrl (in_protocol inp) u \<Longrightarrow> ok (run (External u) x)" for u
    by (rule opens) (simp_all add: allowed_effect_def)
  have folder: "string_of m ''path'' = Some p \<Longrightarrow> starts_with p [U_SLASH] \<Longrightarrow> ok (run (Folder_Window p) x)" for p
    by (rule opens) (simp_all add: allowed_effect_def)
  have "ok (onMessage en inp i m x)"
    unfolding onMessage_def using none quiets closes external folder passthrough
    by (auto split: option.split)
  moreover have "ok (openVncWindow_open (in_protocol inp) m x)"
    unfolding openVncWindow_open_def using none external by (auto split: option.split)
  ultimately show ?thesis by (simp add: ok_def)
qed

end
