(* ===== verification/View_Names.thy ===== *)
theory View_Names
  imports View_State
begin

text \<open>
  The names the editor extension gives to new sessions (\<open>src/sessions.js\<close>): a proposed name is free
  and passes the check a typed one has to pass.
\<close>

section \<open>Cleaning\<close>

lemma code_points_plain: "list_all (\<lambda>u. \<not> high_surrogate u) s \<Longrightarrow> code_points s = map (\<lambda>u. [u]) s"
  by (induction s rule: code_points.induct) auto

lemma set_trim: "set (trim s) \<subseteq> set s"
  unfolding trim_def by (auto dest!: set_dropWhileD)

definition plain_char :: "(nat \<Rightarrow> bool) \<Rightarrow> codeunit \<Rightarrow> bool" where
  "plain_char alnum u \<longleftrightarrow> \<not> high_surrogate u \<and> name_char alnum [u]"

lemma NAME_RE_plain:
  "list_all (plain_char alnum) s \<Longrightarrow> NAME_RE alnum s \<longleftrightarrow> s \<noteq> [] \<and> length s \<le> 64"
proof -
  assume a: "list_all (plain_char alnum) s"
  then have "code_points s = map (\<lambda>u. [u]) s"
    by (intro code_points_plain) (auto simp: plain_char_def list_all_iff)
  then show ?thesis using a by (auto simp: NAME_RE_def plain_char_def list_all_iff Suc_le_eq)
qed

lemma plain_marks: "plain_char alnum 0x2d" "plain_char alnum U_SPACE"
  by (simp_all add: plain_char_def name_char_def high_surrogate_def js_def)

lemma clean_name_plain:
  assumes "alnum 0xc138" "alnum 0xc158" "list_all (\<lambda>u. \<not> high_surrogate u) base"
  shows "list_all (plain_char alnum) (clean_name alnum base)" "clean_name alnum base \<noteq> []"
    "length (clean_name alnum base) \<le> 60"
proof -
  let ?c = "map (\<lambda>u. if name_char alnum [u] then u else 0x2d) base"
  have c: "concat (map (\<lambda>ch. if name_char alnum ch then ch else js ''-'') (code_points base)) = ?c"
    unfolding code_points_plain [OF assms(3)] by (induction base) (auto simp: js_def)
  have "plain_char alnum u" if "u \<in> set ?c" for u
    using that assms(3) plain_marks(1) by (auto simp: plain_char_def list_all_iff split: if_splits)
  then have p: "list_all (plain_char alnum) (take 60 (trim ?c))"
    using set_trim [of ?c] set_take_subset [of 60 "trim ?c"] unfolding list_all_iff by blast
  have d: "list_all (plain_char alnum) DEFAULT_BASE"
    using assms(1,2) by (simp add: DEFAULT_BASE_def plain_char_def name_char_def high_surrogate_def)
  show "list_all (plain_char alnum) (clean_name alnum base)" "clean_name alnum base \<noteq> []"
    "length (clean_name alnum base) \<le> 60"
    unfolding clean_name_def c Let_def using p d by (auto simp: DEFAULT_BASE_def)
qed

section \<open>Numbering\<close>

lemma first_free_bound: "first_free taken b n \<le> n + length taken"
proof -
  have "numbered b ` {n..<first_free taken b n} \<subseteq> set taken"
    using first_free_least [of n _ taken b] by auto
  then have "card {n..<first_free taken b n} \<le> card (set taken)"
    by (intro card_inj_on_le [of "numbered b"]) (auto simp: inj_on_def)
  then show ?thesis using card_length [of taken] by simp
qed

lemma show_nat_short: "n < 1000 \<Longrightarrow> length (show_nat n) \<le> 3"
  by (simp add: show_nat_def to_radix_def radix_aux.simps [of 10 n] radix_aux.simps [of 10 "n div 10"]
      radix_aux.simps [of 10 "n div 10 div 10"])

lemma numbered_plain:
  "list_all (plain_char alnum) b \<Longrightarrow> (\<And>u. is_digit u \<Longrightarrow> alnum u) \<Longrightarrow> list_all (plain_char alnum) (numbered b n)"
proof -
  assume a: "list_all (plain_char alnum) b" "\<And>u. is_digit u \<Longrightarrow> alnum u"
  have "plain_char alnum u" if "is_digit u" for u
    using that a(2) by (simp add: plain_char_def name_char_def) (simp add: is_digit_def high_surrogate_def)
  then show ?thesis
    using a(1) show_nat_digits [of _ n] plain_marks(2) [of alnum] by (auto simp: numbered_def list_all_iff)
qed

text \<open>The name the extension proposes for a new session is not taken and passes the check a typed
  name has to pass (letters, digits, space, _ . -, at most 64), whatever folder, label or request it
  is derived from, as long as that holds no surrogate pair and fewer than a thousand
  names are taken.\<close>
lemma proposed_names_are_valid:
  assumes "\<And>u. is_digit u \<Longrightarrow> alnum u" and "alnum 0xc138" "alnum 0xc158"
    and "list_all (\<lambda>u. \<not> high_surrogate u) base" and "length taken \<le> 997"
  shows "validateName alnum (uniqueName alnum base taken) taken = None"
proof -
  let ?c = "clean_name alnum base"
  note c = clean_name_plain [OF assms(2,3,4)]
  have n: "first_free taken ?c 2 < 1000" using first_free_bound [of taken ?c 2] assms(5) by simp
  have "NAME_RE alnum ?c" using NAME_RE_plain [OF c(1)] c(2,3) by simp
  moreover have "NAME_RE alnum (numbered ?c (first_free taken ?c 2))"
    using NAME_RE_plain [OF numbered_plain [OF c(1) assms(1)]] c(3) show_nat_short [OF n] by (simp add: numbered_def)
  ultimately show ?thesis
    using uniqueName_free [of alnum base taken] by (simp add: validateName_def uniqueName_def Let_def)
qed

definition ascii_or_hangul :: "nat \<Rightarrow> bool" where
  "ascii_or_hangul u \<longleftrightarrow> is_digit u \<or> (0x61 \<le> u \<and> u \<le> 0x7a) \<or> (0xac00 \<le> u \<and> u \<le> 0xd7a3) \<or> u = 0x10400"

lemma proposed_names_are_valid_witness:
  "validateName ascii_or_hangul (uniqueName ascii_or_hangul (js ''a/b'') [js ''a-b'']) [js ''a-b''] = None
   \<and> uniqueName ascii_or_hangul (js ''a/b'') [js ''a-b''] \<noteq> js ''a-b''"
proof -
  have "list_all (\<lambda>u. \<not> high_surrogate u) (js ''a/b'')" by (simp add: js_def high_surrogate_def)
  then have "validateName ascii_or_hangul (uniqueName ascii_or_hangul (js ''a/b'') [js ''a-b'']) [js ''a-b''] = None"
    by (intro proposed_names_are_valid) (simp_all add: ascii_or_hangul_def)
  then show ?thesis using uniqueName_free [of ascii_or_hangul "js ''a/b''" "[js ''a-b'']"] by simp
qed

text \<open>Without that condition a name can be cut in the middle of a letter, and the half left is refused.\<close>

lemma cut_letter_is_refused:
  "validateName ascii_or_hangul
     (uniqueName ascii_or_hangul (replicate 59 0x61 @ [0xd801, 0xdc00]) []) [] = Some Not_Allowed"
proof -
  have p: "code_points (replicate n 0x61 @ s) = replicate n [0x61] @ code_points s" for n s
  proof (induction n)
    case (Suc n)
    then show ?case by (cases "replicate n 0x61 @ s") (simp_all add: high_surrogate_def)
  qed simp
  have t: "trim (replicate n 0x61 @ [0xd801, 0xdc00]) = replicate n 0x61 @ [0xd801, 0xdc00]" for n
    by (cases n) (simp_all add: trim_def js_space_def)
  have "clean_name ascii_or_hangul (replicate 59 0x61 @ [0xd801, 0xdc00]) = replicate 59 0x61 @ [0xd801]"
    by (simp add: clean_name_def p name_char_def ascii_or_hangul_def high_surrogate_def low_surrogate_def t)
  moreover have "\<not> NAME_RE ascii_or_hangul (replicate 59 0x61 @ [0xd801])"
    by (simp add: NAME_RE_def p name_char_def ascii_or_hangul_def is_digit_def js_def)
  ultimately show ?thesis by (simp add: uniqueName_def validateName_def)
qed

end
