(* ===== verification/Webview_Relay.thy ===== *)
theory Webview_Relay
  imports View_Host
begin

text \<open>
  \<open>webmanager/vscode-extension/media/embed.js\<close>: the document of a view. It hosts the page in a frame,
  relays messages between the page and the extension, saves what the view shows, and reports the key
  chords the editor wants.

  Outside: the \<open>URL\<close> constructor and \<open>URLSearchParams\<close> printing, \<open>toLowerCase\<close>, the windows of the
  browser and \<open>fetch\<close>, whose answer is an event.
\<close>

record relay_env =
  re_ser :: "query \<Rightarrow> ustring"                  \<comment> \<open>\<open>URLSearchParams.toString\<close>\<close>
  re_href :: "ustring \<Rightarrow> ustring"                \<comment> \<open>\<open>new URL(path, baseUrl()).toString()\<close>\<close>
  re_frameUrl :: "ustring \<Rightarrow> ustring \<Rightarrow> ustring"   \<comment> \<open>\<open>frameUrl\<close>, of a path and a theme\<close>
  re_lower :: "ustring \<Rightarrow> ustring"
  re_origin :: ustring
  re_secure :: bool

text \<open>The configuration \<open>src/html.js\<close> renders into the document.\<close>

record relay_cfg =
  rc_bind :: ustring
  rc_path :: ustring
  rc_state :: view_state
  rc_chords :: "ustring list"
  rc_theme :: "ustring option"

datatype relay_out =
    To_Host fields
  | To_Page fields
  | Focus_Frame

datatype banner = Hidden | Not_Responding | Login_Expired

record relay =
  rl_state :: view_state              \<comment> \<open>\<open>cfg.state\<close>\<close>
  rl_chords :: "ustring list"
  rl_themePref :: ustring
  rl_classes :: "ustring list"        \<comment> \<open>of the body\<close>
  rl_timer :: bool
  rl_banner :: banner
  rl_navSeq :: nat
  rl_asked :: "(nat \<times> ustring) list"  \<comment> \<open>fetches in flight\<close>
  rl_src :: "ustring option"
  rl_saved :: "fields option"         \<comment> \<open>\<open>vscode.setState\<close>\<close>
  rl_out :: "relay_out list"

definition RELAY_SOURCE :: ustring where
  "RELAY_SOURCE = js ''cd-webmanager-embed''"

definition say :: "relay_out \<Rightarrow> relay \<Rightarrow> relay" where
  "say m r = r\<lparr>rl_out := rl_out r @ [m]\<rparr>"

definition typed :: "string \<Rightarrow> fields" where
  "typed t = [js ''type'' \<mapsto> JString (js t)]"

section \<open>What is saved, and where to start\<close>

definition persist :: "relay_cfg \<Rightarrow> fields \<Rightarrow> relay \<Rightarrow> relay" where
  "persist cfg state r = r\<lparr>rl_saved := Some ((state(js ''command'' := None, js ''source'' := None, js ''v'' := None))
     (js ''bind'' \<mapsto> JString (rc_bind cfg)))\<rparr>"

definition terminal_query :: "fields \<Rightarrow> query" where
  "terminal_query f =
     (let q = set_if ''created'' (nonempty_field f ''created'')
                (set_if ''cwd'' (nonempty_field f ''cwd'') (set_if ''session'' (nonempty_field f ''session'') []))
      in if f (js ''pinned'') = Some (JBool False) then params_set (js ''unpinned'') (js ''1'') q else q)"

definition terminalPath :: "relay_env \<Rightarrow> fields \<Rightarrow> ustring" where
  "terminalPath en f =
     (let qs = re_ser en (terminal_query f) in js ''terminal'' @ (if qs = [] then [] else js ''?'' @ qs))"

definition same_bind :: "relay_cfg \<Rightarrow> fields option \<Rightarrow> bool" where
  "same_bind cfg saved \<longleftrightarrow> (case saved of Some f \<Rightarrow> f (js ''bind'') = Some (JString (rc_bind cfg)) | None \<Rightarrow> False)"

definition startPath :: "relay_env \<Rightarrow> relay_cfg \<Rightarrow> fields option \<Rightarrow> ustring" where
  "startPath en cfg saved =
     (case saved of
        None \<Rightarrow> rc_path cfg
      | Some f \<Rightarrow>
          (if same_bind cfg saved then
             (case f (js ''section'') of
                Some (JString s) \<Rightarrow>
                  (if s = js ''terminal'' then terminalPath en f
                   else case f (js ''path'') of Some (JString p) \<Rightarrow> p | _ \<Rightarrow> rc_path cfg)
              | _ \<Rightarrow> rc_path cfg)
           else rc_path cfg))"

section \<open>Theme and navigation\<close>

definition currentTheme :: "relay \<Rightarrow> ustring" where
  "currentTheme r =
     (if rl_themePref r \<in> {js ''light'', js ''dark''} then rl_themePref r
      else if list_ex (\<lambda>c. c \<in> {js ''vscode-light'', js ''vscode-high-contrast-light''}) (rl_classes r)
      then js ''light'' else js ''dark'')"

definition navigate :: "relay_env \<Rightarrow> ustring \<Rightarrow> relay \<Rightarrow> relay" where
  "navigate en path r = r\<lparr>rl_navSeq := Suc (rl_navSeq r), rl_banner := Hidden, rl_timer := True,
     rl_asked := rl_asked r @ [(Suc (rl_navSeq r), re_frameUrl en path (currentTheme r))]\<rparr>"

text \<open>The answer to the fetch of one navigation: whether it is a redirect to the outer login.\<close>

definition fetch_answered :: "nat \<Rightarrow> bool \<Rightarrow> relay \<Rightarrow> relay" where
  "fetch_answered seq expired r =
     (case map_of (rl_asked r) seq of
        None \<Rightarrow> r
      | Some url \<Rightarrow>
          let r1 = r\<lparr>rl_asked := filter (\<lambda>(s, _). s \<noteq> seq) (rl_asked r)\<rparr>
          in if seq \<noteq> rl_navSeq r then r1
             else if \<not> expired then r1\<lparr>rl_src := Some url\<rparr>
             else r1\<lparr>rl_timer := False, rl_banner := Login_Expired\<rparr>)"

definition ready_timer_fires :: "relay \<Rightarrow> relay" where
  "ready_timer_fires r =
     (if rl_timer r then say (To_Host (typed ''embed-timeout'')) (r\<lparr>rl_timer := False, rl_banner := Not_Responding\<rparr>)
      else r)"

text \<open>\<open>toEmbed\<close>: the envelope every message to the page gets.\<close>

definition toEmbed :: "fields \<Rightarrow> relay \<Rightarrow> relay" where
  "toEmbed m r = say (To_Page ([js ''source'' \<mapsto> JString RELAY_SOURCE, js ''v'' \<mapsto> JNumber 1] ++ m)) r"

definition theme_message :: "relay \<Rightarrow> fields" where
  "theme_message r = (typed ''theme'')(js ''theme'' \<mapsto> JString (currentTheme r))"

definition classes_changed :: "ustring list \<Rightarrow> relay \<Rightarrow> relay" where
  "classes_changed cs r = (let r1 = r\<lparr>rl_classes := cs\<rparr> in toEmbed (theme_message r1) r1)"

definition relay_focus :: "relay \<Rightarrow> relay" where
  "relay_focus r = toEmbed (typed ''focus'') (say Focus_Frame r)"

text \<open>The document is run: at first, and again whenever a hidden view is rebuilt.\<close>

definition relay_start :: "relay_env \<Rightarrow> relay_cfg \<Rightarrow> ustring list \<Rightarrow> fields option \<Rightarrow> relay" where
  "relay_start en cfg classes saved =
     (let r0 = \<lparr>rl_state = rc_state cfg, rl_chords = rc_chords cfg,
                rl_themePref = (case or_undefined (rc_theme cfg) of Some t \<Rightarrow> t | None \<Rightarrow> js ''auto''),
                rl_classes = classes, rl_timer = False, rl_banner = Hidden, rl_navSeq = 0, rl_asked = [],
                rl_src = None, rl_saved = saved, rl_out = []\<rparr>;
          kept = (if same_bind cfg saved then (case saved of Some f \<Rightarrow> f | None \<Rightarrow> Map.empty) else Map.empty);
          r1 = persist cfg ((fields_of (rc_state cfg) ++ kept)(js ''path'' \<mapsto> JString (startPath en cfg saved))) r0;
          r2 = say (To_Host ((typed ''wv-ready'')(js ''secure'' \<mapsto> JBool (re_secure en)))) r1
      in navigate en (startPath en cfg saved) r2)"

section \<open>Key chords\<close>

record relay_key =
  ke_code :: ustring
  ke_ctrl :: bool
  ke_shift :: bool
  ke_alt :: bool
  ke_meta :: bool

definition modifier_codes :: "ustring list" where
  "modifier_codes = concat (map (\<lambda>m. [js m @ js ''Left'', js m @ js ''Right'']) [''Control'', ''Shift'', ''Alt'', ''Meta''])"

definition is_upper :: "codeunit \<Rightarrow> bool" where
  "is_upper u \<longleftrightarrow> 0x41 \<le> u \<and> u \<le> 0x5a"

definition chord_key_of :: "(ustring \<Rightarrow> ustring) \<Rightarrow> ustring \<Rightarrow> ustring" where
  "chord_key_of lower code =
     (if \<exists>u \<in> set code. code = js ''Key'' @ [u] \<and> is_upper u then lower (drop 3 code)
      else if \<exists>u \<in> set code. code = js ''Digit'' @ [u] \<and> is_digit u then drop 5 code
      else if \<exists>u \<in> set code. code = js ''Numpad'' @ [u] \<and> is_digit u then drop 6 code
      else if code = js ''Backquote'' then [0x60]
      else lower code)"

definition chord_mods :: "relay_key \<Rightarrow> ustring list" where
  "chord_mods e = (if ke_ctrl e then [js ''ctrl''] else []) @ (if ke_shift e then [js ''shift''] else [])
     @ (if ke_alt e then [js ''alt''] else []) @ (if ke_meta e then [js ''meta''] else [])"

definition chordOf :: "(ustring \<Rightarrow> ustring) \<Rightarrow> relay_key \<Rightarrow> ustring option" where
  "chordOf lower e =
     (if ke_code e \<in> set modifier_codes then None
      else Some (join_with 0x2b (chord_mods e @ [chord_key_of lower (ke_code e)])))"

text \<open>Whether the page still gets the key, and what is reported.\<close>

definition relay_onKeyDown :: "relay_env \<Rightarrow> relay_key \<Rightarrow> relay \<Rightarrow> bool \<times> relay" where
  "relay_onKeyDown en e r =
     (case chordOf (re_lower en) e of
        None \<Rightarrow> (True, r)
      | Some c \<Rightarrow>
          (if c = [] \<or> c \<notin> set (rl_chords r) then (True, r)
           else (False, say (To_Host ((typed ''key'')(js ''chord'' \<mapsto> JString c))) r)))"

section \<open>Messages\<close>

text \<open>
  \<open>fromEmbedTree\<close>: \<open>parent\<close> of a window, \<open>None\<close> when it cannot be read. The top window is its own
  parent.
\<close>

partial_function (option) fromEmbedTree :: "(nat \<Rightarrow> nat option) \<Rightarrow> nat \<Rightarrow> nat \<Rightarrow> bool option" where
  "fromEmbedTree parent frame w =
     (if w = frame then Some True
      else case parent w of
             None \<Rightarrow> Some False
           | Some up \<Rightarrow> (if up = w then Some False else fromEmbedTree parent frame up))"

datatype relay_host_message = Known_Message to_view | Focus_Message | Unknown_Message

text \<open>
  A page's message is cloned with its undefined properties, and spreading one over a state erases the
  property; \<open>fields\<close> are the defined ones.
\<close>

type_synonym props = "ustring \<rightharpoonup> json option"

definition defined_props :: "props \<Rightarrow> fields" where
  "defined_props m = (\<lambda>k. case m k of Some v \<Rightarrow> v | None \<Rightarrow> None)"

definition spread :: "fields \<Rightarrow> props \<Rightarrow> fields" where
  "spread base m = (\<lambda>k. case m k of Some v \<Rightarrow> v | None \<Rightarrow> base k)"

datatype payload = From_Page props | From_Host relay_host_message

text \<open>
  A message event: its window (none for VS Code's own channel), origin and data, and whether the data
  carries a \<open>source\<close>.
\<close>

record relay_event =
  me_window :: "nat option"
  me_origin :: ustring
  me_source :: "ustring option"
  me_data :: payload

text \<open>What is passed on of a page's message.\<close>

definition unmarked :: "props \<Rightarrow> fields" where
  "unmarked m = (defined_props m)(js ''source'' := None, js ''v'' := None)"

definition on_page_message :: "relay_env \<Rightarrow> relay_cfg \<Rightarrow> props \<Rightarrow> relay \<Rightarrow> relay" where
  "on_page_message en cfg m r =
     (let t = defined_props m (js ''type'');
          r1 = (if t = Some (JString (js ''ready'')) then r\<lparr>rl_timer := False, rl_banner := Hidden\<rparr> else r)
      in if t = Some (JString (js ''state'')) then
           (let path = (case defined_props m (js ''path'') of Some (JString p) \<Rightarrow> p | _ \<Rightarrow> [])
            in say (To_Host ((unmarked m)(js ''href'' \<mapsto> JString (re_href en path))))
                 (persist cfg (spread (fields_of (rl_state r)) m) r1))
         else say (To_Host (unmarked m)) r1)"

definition view_message :: "to_view \<Rightarrow> fields" where
  "view_message m =
     (case m of
        Pin b \<Rightarrow> (typed ''pin'')(js ''pinned'' \<mapsto> JBool b)
      | Rename n \<Rightarrow> (typed ''rename'')(js ''name'' \<mapsto> JString n)
      | Select_Session n \<Rightarrow> (typed ''select-session'')(js ''session'' \<mapsto> JString n)
      | Visibility b \<Rightarrow> (typed ''visibility'')(js ''visible'' \<mapsto> JBool b)
      | Open_Webauthn \<Rightarrow> typed ''open-webauthn''
      | Lock \<Rightarrow> typed ''lock''
      | Foreground \<Rightarrow> typed ''foreground''
      | _ \<Rightarrow> Map.empty)"

definition on_host_message :: "relay_env \<Rightarrow> relay_cfg \<Rightarrow> relay_host_message \<Rightarrow> relay \<Rightarrow> relay" where
  "on_host_message en cfg m r =
     (case m of
        Unknown_Message \<Rightarrow> r
      | Focus_Message \<Rightarrow> relay_focus r
      | Known_Message (Navigate path s) \<Rightarrow>
          navigate en path (persist cfg ((fields_of s)(js ''path'' \<mapsto> JString path)) (r\<lparr>rl_state := s\<rparr>))
      | Known_Message (Keys cs) \<Rightarrow> r\<lparr>rl_chords := cs\<rparr>
      | Known_Message (Theme_Pref t) \<Rightarrow>
          (let r1 = r\<lparr>rl_themePref := t\<rparr> in toEmbed (theme_message r1) r1)
      | Known_Message v \<Rightarrow> toEmbed (view_message v) r)"

definition relay_message :: "relay_env \<Rightarrow> relay_cfg \<Rightarrow> (nat \<Rightarrow> nat option) \<Rightarrow> nat \<Rightarrow> relay_event \<Rightarrow> relay \<Rightarrow> relay" where
  "relay_message en cfg parent frame ev r =
     (if me_window ev = Some frame then
        (if me_origin ev \<noteq> re_origin en \<or> me_source ev \<noteq> Some RELAY_SOURCE then r
         else case me_data ev of From_Page m \<Rightarrow> on_page_message en cfg m r | From_Host m \<Rightarrow> r)
      else if me_origin ev \<noteq> re_origin en then r
      else if or_undefined (me_source ev) \<noteq> None
           \<or> (case me_window ev of Some w \<Rightarrow> fromEmbedTree parent frame w = Some True | None \<Rightarrow> False) then r
      else case me_data ev of From_Host m \<Rightarrow> on_host_message en cfg m r | From_Page m \<Rightarrow> r)"

end
