(* ===== verification/Relay_View.thy ===== *)
theory Relay_View
  imports Webview_Relay
begin

text \<open>
  What the document of a view guarantees: only the extension steers it, what it saved brings the view
  back where it was without running anything again, and a configured chord is recognised in
  any spelling.
\<close>

section \<open>Steps\<close>

inductive relay_step :: "relay_env \<Rightarrow> relay_cfg \<Rightarrow> (nat \<Rightarrow> nat option) \<Rightarrow> nat \<Rightarrow> relay \<Rightarrow> relay \<Rightarrow> bool"
  for en cfg parent frame where
  message: "relay_step en cfg parent frame r (relay_message en cfg parent frame ev r)"
| fetched: "relay_step en cfg parent frame r (fetch_answered seq expired r)"
| timeout: "relay_step en cfg parent frame r (ready_timer_fires r)"
| key: "relay_step en cfg parent frame r (snd (relay_onKeyDown en e r))"
| focus: "relay_step en cfg parent frame r (relay_focus r)"
| classes: "relay_step en cfg parent frame r (classes_changed cs r)"

inductive relay_reach :: "relay_env \<Rightarrow> relay_cfg \<Rightarrow> (nat \<Rightarrow> nat option) \<Rightarrow> nat \<Rightarrow> relay \<Rightarrow> relay \<Rightarrow> bool"
  for en cfg parent frame r0 where
  start: "relay_reach en cfg parent frame r0 r0"
| step: "relay_reach en cfg parent frame r0 r \<Longrightarrow> relay_step en cfg parent frame r s \<Longrightarrow>
    relay_reach en cfg parent frame r0 s"

text \<open>What steers the view: the page it shows, the one it is about to show, and what it listens for.\<close>

definition steering :: "relay \<Rightarrow> nat \<times> (nat \<times> ustring) list \<times> ustring option \<times> ustring list \<times> ustring \<times> view_state" where
  "steering r = (rl_navSeq r, rl_asked r, rl_src r, rl_chords r, rl_themePref r, rl_state r)"

definition from_extension :: "relay_env \<Rightarrow> (nat \<Rightarrow> nat option) \<Rightarrow> nat \<Rightarrow> relay_event \<Rightarrow> bool" where
  "from_extension en parent frame ev \<longleftrightarrow> me_origin ev = re_origin en \<and> or_undefined (me_source ev) = None
     \<and> (case me_window ev of Some w \<Rightarrow> fromEmbedTree parent frame w \<noteq> Some True | None \<Rightarrow> True)"

lemma fromEmbedTree_frame: "fromEmbedTree parent frame frame = Some True"
  by (subst fromEmbedTree.simps) simp

text \<open>Any window nested in the frame, at any depth.\<close>

inductive nested :: "(nat \<Rightarrow> nat option) \<Rightarrow> nat \<Rightarrow> nat \<Rightarrow> bool" for parent frame where
  here: "nested parent frame frame"
| inside: "parent w = Some up \<Longrightarrow> up \<noteq> w \<Longrightarrow> nested parent frame up \<Longrightarrow> nested parent frame w"

lemma nested_found: "nested parent frame w \<Longrightarrow> fromEmbedTree parent frame w = Some True"
proof (induction rule: nested.induct)
  case (inside w up)
  then show ?case by (subst fromEmbedTree.simps) simp
qed (rule fromEmbedTree_frame)

lemma say_fields [simp]:
  "steering (say m r) = steering r" "rl_saved (say m r) = rl_saved r"
  by (simp_all add: say_def steering_def)

lemma persist_fields [simp]: "steering (persist cfg f r) = steering r"
  by (simp add: persist_def steering_def)

lemma page_does_not_steer [simp]: "steering (on_page_message en cfg m r) = steering r"
  by (simp add: on_page_message_def Let_def) (simp add: steering_def)

text \<open>Every fetch in flight belongs to a navigation, each to another one.\<close>

definition asked_ok :: "relay \<Rightarrow> bool" where
  "asked_ok r \<longleftrightarrow> (\<forall>(s, u) \<in> set (rl_asked r). s \<le> rl_navSeq r) \<and> distinct (map fst (rl_asked r))"

lemma asked_steering: "steering r = steering s \<Longrightarrow> asked_ok r = asked_ok s"
  by (simp add: steering_def asked_ok_def)

lemma asked_navigate: "asked_ok r \<Longrightarrow> asked_ok (navigate en path r)"
  by (force simp: asked_ok_def navigate_def)

lemma steering_quiet [simp]:
  "steering (toEmbed m r) = steering r" "steering (relay_focus r) = steering r"
  "steering (ready_timer_fires r) = steering r" "steering (snd (relay_onKeyDown en e r)) = steering r"
  "steering (classes_changed cs r) = steering r"
proof -
  show t: "steering (toEmbed m r) = steering r" for m r by (simp add: toEmbed_def)
  show "steering (relay_focus r) = steering r" by (simp add: relay_focus_def t)
  show "steering (ready_timer_fires r) = steering r"
    by (simp add: ready_timer_fires_def) (simp add: steering_def)
  show "steering (snd (relay_onKeyDown en e r)) = steering r" by (simp add: relay_onKeyDown_def split: option.split)
  show "steering (classes_changed cs r) = steering r"
    by (simp add: classes_changed_def Let_def t) (simp add: steering_def)
qed

lemma asked_host: "asked_ok r \<Longrightarrow> asked_ok (on_host_message en cfg m r)"
proof -
  assume a: "asked_ok r"
  have u: "asked_ok (r\<lparr>rl_state := s\<rparr>)" "asked_ok (r\<lparr>rl_chords := cs\<rparr>)" "asked_ok (r\<lparr>rl_themePref := t\<rparr>)" for s cs t
    using a by (simp_all add: asked_ok_def)
  have t: "asked_ok x \<Longrightarrow> asked_ok (toEmbed m x)" for m x
    by (subst asked_steering [OF steering_quiet(1)])
  have p: "asked_ok x \<Longrightarrow> asked_ok (persist cfg f x)" for f x
    by (subst asked_steering [OF persist_fields])
  have f: "asked_ok (relay_focus r)"
    using a by (subst asked_steering [OF steering_quiet(2)])
  show ?thesis
  proof (cases m)
    case (Known_Message v)
    then show ?thesis
      by (cases v) (simp_all only: on_host_message_def relay_host_message.case to_view.case Let_def t a u p asked_navigate)
  qed (simp_all add: on_host_message_def a f)
qed

lemma asked_step: "relay_step en cfg parent frame r s \<Longrightarrow> asked_ok r \<Longrightarrow> asked_ok s"
proof (induction rule: relay_step.induct)
  case (message r ev)
  then show ?case
    using asked_host asked_steering [OF page_does_not_steer] by (simp add: relay_message_def split: payload.split)
next
  case (fetched r seq expired)
  then show ?case
    by (auto simp: asked_ok_def fetch_answered_def Let_def distinct_map_filter split: option.split)
qed (use asked_steering [OF steering_quiet(2)] asked_steering [OF steering_quiet(3)] asked_steering [OF steering_quiet(4)]
    asked_steering [OF steering_quiet(5)] in simp_all)

lemma asked_start: "asked_ok (relay_start en cfg classes saved)"
  unfolding relay_start_def Let_def
  by (rule asked_navigate) (simp add: asked_ok_def say_def persist_def)

lemma asked_reach: "relay_reach en cfg parent frame r0 r \<Longrightarrow> asked_ok r0 \<Longrightarrow> asked_ok r"
  by (induction rule: relay_reach.induct) (simp_all add: asked_step)

lemma navigate_answered:
  assumes "asked_ok r"
  shows "rl_src (fetch_answered (Suc (rl_navSeq r)) False (navigate en path r)) = Some (re_frameUrl en path (currentTheme r))"
proof -
  have "Suc (rl_navSeq r) \<notin> fst ` set (rl_asked r)" using assms by (auto simp: asked_ok_def)
  then have "map_of (rl_asked r @ [(Suc (rl_navSeq r), u)]) (Suc (rl_navSeq r)) = Some u" for u
    by (simp add: map_add_def map_of_eq_None_iff [THEN iffD2])
  then show ?thesis by (simp add: fetch_answered_def navigate_def currentTheme_def Let_def)
qed

text \<open>C24: A page cannot impersonate the extension. A message from the page or from any window nested in
  it, at any depth, from another origin, or carrying a source, never changes what the view shows, is
  about to show or listens for, and unless it is the page's own it changes nothing at all. And
  whichever way answers arrive, only the answer to the last navigation decides what the
  frame shows: an older one is dropped.\<close>
theorem only_the_extension_steers:
  assumes "relay_reach en cfg parent frame (relay_start en cfg classes saved) r"
  shows "(\<not> from_extension en parent frame ev \<longrightarrow> steering (relay_message en cfg parent frame ev r) = steering r
      \<and> (me_window ev \<noteq> Some frame \<longrightarrow> relay_message en cfg parent frame ev r = r))
   \<and> (\<forall>w. nested parent frame w \<longrightarrow> me_window ev = Some w \<longrightarrow> \<not> from_extension en parent frame ev)
   \<and> (seq \<noteq> rl_navSeq r \<longrightarrow> rl_src (fetch_answered seq expired r) = rl_src r
        \<and> rl_banner (fetch_answered seq expired r) = rl_banner r)
   \<and> rl_src (fetch_answered (Suc (rl_navSeq r)) False (navigate en path r)) = Some (re_frameUrl en path (currentTheme r))"
proof (intro conjI)
  show "\<not> from_extension en parent frame ev \<longrightarrow> steering (relay_message en cfg parent frame ev r) = steering r
      \<and> (me_window ev \<noteq> Some frame \<longrightarrow> relay_message en cfg parent frame ev r = r)"
    by (auto simp: from_extension_def relay_message_def split: option.splits payload.split)
  show "\<forall>w. nested parent frame w \<longrightarrow> me_window ev = Some w \<longrightarrow> \<not> from_extension en parent frame ev"
    using nested_found by (auto simp: from_extension_def)
  show "seq \<noteq> rl_navSeq r \<longrightarrow> rl_src (fetch_answered seq expired r) = rl_src r
        \<and> rl_banner (fetch_answered seq expired r) = rl_banner r"
    by (simp add: fetch_answered_def Let_def split: option.split)
  show "rl_src (fetch_answered (Suc (rl_navSeq r)) False (navigate en path r)) = Some (re_frameUrl en path (currentTheme r))"
    by (rule navigate_answered [OF asked_reach [OF assms asked_start]])
qed

definition plain_relay_env :: relay_env where
  "plain_relay_env = \<lparr>re_ser = (\<lambda>q. case q of [] \<Rightarrow> [] | (k, v) # _ \<Rightarrow> k @ js ''='' @ v), re_href = (\<lambda>p. js ''/manager/'' @ p),
     re_frameUrl = (\<lambda>p t. js ''/manager/'' @ p), re_lower = (\<lambda>s. s), re_origin = js ''https://x'', re_secure = True\<rparr>"

definition plain_cfg :: relay_cfg where
  "plain_cfg = \<lparr>rc_bind = js ''n1'', rc_path = js ''files'', rc_state = blank_state (js ''files''), rc_chords = [], rc_theme = None\<rparr>"

theorem only_the_extension_steers_witness:
  "let r = relay_start plain_relay_env plain_cfg [] None;
       ev = \<lparr>me_window = Some 7, me_origin = js ''https://x'', me_source = None,
             me_data = From_Host (Known_Message (Navigate (js ''terminal?cmd=x'') (blank_state (js ''terminal''))))\<rparr>
   in relay_message plain_relay_env plain_cfg (\<lambda>w. if w = 7 then Some 3 else Some 0) 3 ev r = r"
proof -
  let ?p = "\<lambda>w :: nat. if w = 7 then Some 3 else Some (0 :: nat)"
  have n: "nested ?p 3 7" by (rule nested.inside [where up = 3]) (simp_all add: nested.here)
  have ev: "\<not> from_extension plain_relay_env ?p 3 ev" if "me_window ev = Some 7" for ev
    using that nested_found [OF n] by (simp add: from_extension_def)
  show ?thesis
    unfolding Let_def
    using only_the_extension_steers [OF relay_reach.start [where en = plain_relay_env and cfg = plain_cfg
      and parent = ?p and frame = 3 and ?r0.0 = "relay_start plain_relay_env plain_cfg [] None"], THEN conjunct1, rule_format, OF ev]
    by simp
qed

section \<open>Coming back\<close>

definition saved_ok :: "relay_cfg \<Rightarrow> relay \<Rightarrow> bool" where
  "saved_ok cfg r \<longleftrightarrow> (\<exists>f. rl_saved r = Some f \<and> f (js ''command'') = None
     \<and> f (js ''bind'') = Some (JString (rc_bind cfg)))"

lemma saved_persist [simp]: "saved_ok cfg (persist cfg f r)"
  by (simp add: saved_ok_def persist_def)

lemma saved_keep: "rl_saved s = rl_saved r \<Longrightarrow> saved_ok cfg s = saved_ok cfg r"
  by (simp add: saved_ok_def)

lemma saved_fields [simp]:
  "rl_saved (toEmbed m r) = rl_saved r" "rl_saved (relay_focus r) = rl_saved r"
  "rl_saved (navigate en path r) = rl_saved r" "rl_saved (ready_timer_fires r) = rl_saved r"
  "rl_saved (snd (relay_onKeyDown en e r)) = rl_saved r" "rl_saved (classes_changed cs r) = rl_saved r"
  "rl_saved (fetch_answered seq expired r) = rl_saved r"
  by (simp_all add: toEmbed_def relay_focus_def navigate_def ready_timer_fires_def relay_onKeyDown_def
      classes_changed_def Let_def fetch_answered_def split: option.split)

lemma saved_host: "saved_ok cfg r \<Longrightarrow> saved_ok cfg (on_host_message en cfg m r)"
proof (cases m)
  case (Known_Message v)
  assume "saved_ok cfg r"
  moreover have "saved_ok cfg (navigate en path (persist cfg f x))" for path f x
    by (subst saved_keep [OF saved_fields(3)]) simp
  ultimately show ?thesis
    using Known_Message by (cases v) (simp_all add: on_host_message_def saved_ok_def Let_def)
qed (simp_all add: on_host_message_def saved_ok_def)

lemma saved_page: "saved_ok cfg r \<Longrightarrow> saved_ok cfg (on_page_message en cfg m r)"
  using saved_persist by (simp add: on_page_message_def Let_def saved_ok_def)

lemma saved_step: "relay_step en cfg parent frame r s \<Longrightarrow> saved_ok cfg r \<Longrightarrow> saved_ok cfg s"
proof (induction rule: relay_step.induct)
  case (message r ev)
  then show ?case by (simp add: relay_message_def saved_host saved_page split: payload.split)
qed (simp_all add: saved_ok_def)

lemma saved_start: "saved_ok cfg (relay_start en cfg classes saved)"
  unfolding relay_start_def Let_def saved_keep [OF saved_fields(3)] saved_keep [OF say_fields(2)] by (rule saved_persist)

lemma saved_reach: "relay_reach en cfg parent frame r0 r \<Longrightarrow> saved_ok cfg r0 \<Longrightarrow> saved_ok cfg r"
  by (induction rule: relay_reach.induct) (simp_all add: saved_step)

lemma query_persisted:
  "terminal_query ((f(js ''command'' := None, js ''source'' := None, js ''v'' := None))(js ''bind'' \<mapsto> b)) = terminal_query f"
  by (simp add: terminal_query_def nonempty_field_def)

lemma saved_after_report:
  assumes "defined_props m (js ''type'') = Some (JString (js ''state''))"
  shows "rl_saved (on_page_message en cfg m r) = rl_saved (persist cfg (spread (fields_of (rl_state r)) m) r)"
  using assms by (simp add: on_page_message_def Let_def persist_def)

text \<open>C29: A rebuilt view comes back to what its page last reported. In every reachable state what is
  saved carries this rendering's binding and no initial command; built again from it, the view
  starts at the reported path, a terminal at its reported session, folder and pin without any command to
  run; and a document rendered for another binding ignores it and starts where it was told to.\<close>
theorem rebuilt_view_resumes:
  assumes "relay_reach en cfg parent frame (relay_start en cfg classes saved) r"
  shows "(\<exists>g. rl_saved r = Some g \<and> g (js ''command'') = None \<and> g (js ''bind'') = Some (JString (rc_bind cfg)))
    \<and> (rc_bind cfg' \<noteq> rc_bind cfg \<longrightarrow> startPath en cfg' (rl_saved r) = rc_path cfg')
    \<and> (let f = spread (fields_of (rl_state r)) m; r' = on_page_message en cfg m r; path = startPath en cfg (rl_saved r') in
      defined_props m (js ''type'') = Some (JString (js ''state'')) \<and> f (js ''section'') = Some (JString S) \<longrightarrow>
        path = (if S = js ''terminal'' then terminalPath en f
                else case f (js ''path'') of Some (JString p) \<Rightarrow> p | _ \<Rightarrow> rc_path cfg)
        \<and> params_get (terminal_query f) (js ''cmd'') = None
        \<and> map snd (rl_asked (relay_start en cfg classes' (rl_saved r'))) =
            [re_frameUrl en path (currentTheme (relay_start en cfg classes' (rl_saved r')))])"
proof -
  obtain g where g: "rl_saved r = Some g" "g (js ''command'') = None" "g (js ''bind'') = Some (JString (rc_bind cfg))"
    using saved_reach [OF assms saved_start] by (auto simp: saved_ok_def)
  define f where "f = spread (fields_of (rl_state r)) m"
  define r' where "r' = on_page_message en cfg m r"
  have path: "startPath en cfg (rl_saved r') = (if S = js ''terminal'' then terminalPath en f
      else case f (js ''path'') of Some (JString p) \<Rightarrow> p | _ \<Rightarrow> rc_path cfg)"
    if "defined_props m (js ''type'') = Some (JString (js ''state''))" "f (js ''section'') = Some (JString S)"
  proof -
    let ?h = "(f(js ''command'' := None, js ''source'' := None, js ''v'' := None))(js ''bind'' \<mapsto> JString (rc_bind cfg))"
    have "rl_saved r' = Some ?h" using saved_after_report [OF that(1)] by (simp add: r'_def f_def persist_def)
    moreover have "?h (js ''section'') = Some (JString S)" "?h (js ''path'') = f (js ''path'')" using that(2) by simp_all
    moreover have "same_bind cfg (Some ?h)" by (simp add: same_bind_def)
    ultimately show ?thesis by (simp add: startPath_def terminalPath_def query_persisted)
  qed
  have "params_get (terminal_query f) (js ''cmd'') = None"
    by (simp add: terminal_query_def Let_def params_get_set_if) (simp add: params_get_def)
  moreover have "map snd (rl_asked (relay_start en cfg classes' t)) =
      [re_frameUrl en (startPath en cfg t) (currentTheme (relay_start en cfg classes' t))]" for t
    by (simp add: relay_start_def Let_def navigate_def say_def persist_def currentTheme_def)
  moreover have "rc_bind cfg' \<noteq> rc_bind cfg \<longrightarrow> startPath en cfg' (rl_saved r) = rc_path cfg'"
    using g by (auto simp: startPath_def same_bind_def)
  ultimately show ?thesis unfolding Let_def f_def [symmetric] r'_def [symmetric] using path g by simp
qed

definition files_report :: props where
  "files_report = [js ''type'' \<mapsto> Some (JString (js ''state'')), js ''section'' \<mapsto> Some (JString (js ''files'')),
     js ''path'' \<mapsto> Some (JString (js ''files?path=/a''))]"

theorem rebuilt_view_resumes_witness:
  "startPath plain_relay_env plain_cfg
     (rl_saved (on_page_message plain_relay_env plain_cfg files_report (relay_start plain_relay_env plain_cfg [] None)))
   = js ''files?path=/a''"
proof -
  let ?r = "relay_start plain_relay_env plain_cfg [] None"
  have s: "spread f files_report (js ''section'') = Some (JString (js ''files''))"
    "spread f files_report (js ''path'') = Some (JString (js ''files?path=/a''))"
    "defined_props files_report (js ''type'') = Some (JString (js ''state''))" for f
    by (simp_all add: spread_def defined_props_def files_report_def)
  show ?thesis
    using rebuilt_view_resumes [OF relay_reach.start [of plain_relay_env plain_cfg "\<lambda>w. None" 0 ?r],
      of plain_cfg files_report "js ''files''" "[]"] s
    by (simp add: Let_def)
qed

text \<open>
  What is saved of another session than the one the document was rendered for still has the creation
  time of that one until its own is known, while the extension drops it.
\<close>

lemma saved_keeps_old_creation_time:
  assumes "vs_created (rl_state r) = Some c" "c \<noteq> []"
    and "m = [js ''type'' \<mapsto> Some (JString (js ''state'')), js ''section'' \<mapsto> Some (JString (js ''terminal'')),
              js ''session'' \<mapsto> Some (JString b)]"
  shows "\<exists>f. rl_saved (on_page_message en cfg m r) = Some f \<and> f (js ''session'') = Some (JString b)
     \<and> params_get (terminal_query f) (js ''created'') = Some c"
    "vs_session old \<noteq> Some b \<Longrightarrow> vs_created (normalizeState (((fields_of old)(js ''pinned'' := None, js ''created'' := None))
       ++ defined_props m)) = None"
proof -
  let ?f = "spread (fields_of (rl_state r)) m"
  have f: "?f (js ''session'') = Some (JString b)" "?f (js ''created'') = Some (JString c)"
    using assms(1) by (simp_all add: assms(3) spread_def fields_of_apply)
  have "defined_props m (js ''type'') = Some (JString (js ''state''))" by (simp add: assms(3) defined_props_def)
  from saved_after_report [OF this, of en cfg r]
  have "rl_saved (on_page_message en cfg m r) = Some ((?f(js ''command'' := None, js ''source'' := None, js ''v'' := None))
      (js ''bind'' \<mapsto> JString (rc_bind cfg)))" by (simp add: persist_def)
  moreover have "params_get (terminal_query ?f) (js ''created'') = Some c"
    using f assms(2)
    by (simp add: terminal_query_def Let_def params_get_set_if nonempty_field_def or_undefined_def)
  ultimately show "\<exists>f. rl_saved (on_page_message en cfg m r) = Some f \<and> f (js ''session'') = Some (JString b)
     \<and> params_get (terminal_query f) (js ''created'') = Some c"
    using f(1) by (simp add: query_persisted)
  show "vs_created (normalizeState (((fields_of old)(js ''pinned'' := None, js ''created'' := None))
       ++ defined_props m)) = None"
    by (simp add: assms(3) normalizeState_def nonempty_field_def map_add_def defined_props_def)
qed

end
