(* ===== verification/Relay_Chords.thy ===== *)
theory Relay_Chords
  imports Relay_View
begin

text \<open>
  Key chords: what the settings list (\<open>src/html.js\<close>) against what the document reports
  (\<open>media/embed.js\<close>).
\<close>

text \<open>Lower case of ASCII text.\<close>

definition ascii_lower :: "ustring \<Rightarrow> ustring" where
  "ascii_lower s = map (\<lambda>u. if is_upper u then u + 0x20 else u) s"

definition ascii :: "ustring \<Rightarrow> bool" where
  "ascii s \<longleftrightarrow> list_all (\<lambda>u. u < 0x80) s"

lemma plus_lower: "0x2b \<in> set (ascii_lower s) \<longleftrightarrow> 0x2b \<in> set s"
  by (auto simp: ascii_lower_def is_upper_def image_iff split: if_splits)

lemma join_lower: "ascii_lower (join_with 0x2b ws) = join_with 0x2b (map ascii_lower ws)"
  by (induction "0x2b :: nat" ws rule: join_with.induct) (simp_all add: ascii_lower_def is_upper_def)

lemma join_ascii: "(\<And>w. w \<in> set ws \<Longrightarrow> ascii w) \<Longrightarrow> ascii (join_with 0x2b ws)"
  by (induction "0x2b :: nat" ws rule: join_with.induct) (simp_all add: ascii_def)

lemma filter_eq_iff: "distinct xs \<Longrightarrow> filter P xs = filter Q xs \<longleftrightarrow> (\<forall>x \<in> set xs. P x = Q x)"
proof
  assume "filter P xs = filter Q xs"
  then have "set (filter P xs) = set (filter Q xs)" by simp
  then show "\<forall>x \<in> set xs. P x = Q x" by auto
qed (auto intro: filter_cong)

text \<open>The modifiers of a key event, in the order of \<open>MODIFIER_ORDER\<close>.\<close>

definition pressed :: "relay_key \<Rightarrow> ustring \<Rightarrow> bool" where
  "pressed e m \<longleftrightarrow> (m = js ''ctrl'' \<and> ke_ctrl e) \<or> (m = js ''shift'' \<and> ke_shift e)
     \<or> (m = js ''alt'' \<and> ke_alt e) \<or> (m = js ''meta'' \<and> ke_meta e)"

lemma chord_mods_filter: "chord_mods e = filter (pressed e) MODIFIER_ORDER"
  by (simp add: chord_mods_def pressed_def MODIFIER_ORDER_def)

lemma MODIFIER_ORDER_plain: "distinct MODIFIER_ORDER" "m \<in> set MODIFIER_ORDER \<Longrightarrow> m \<noteq> [] \<and> 0x2b \<notin> set m"
  by (auto simp: MODIFIER_ORDER_def js_def)

text \<open>A configured chord is recognised in any spelling. Written as parts joined by plus signs, in
  any order and letter case, with modifiers repeated or not, it matches a key press exactly when its
  modifiers are the ones held and its only other part is the key, by its place on the
  keyboard.\<close>
lemma chord_matches_any_spelling:
  assumes "\<And>s. ascii s \<Longrightarrow> lower s = ascii_lower s"
    and "ps \<noteq> []" "\<And>p. p \<in> set ps \<Longrightarrow> ascii p \<and> 0x2b \<notin> set p"
    and "ke_code e \<notin> set modifier_codes"
    and "k = chord_key_of lower (ke_code e)" "k \<noteq> []" "0x2b \<notin> set k" "k \<notin> set MODIFIER_ORDER"
  shows "chordOf lower e = Some (canonicalChord lower (join_with 0x2b ps)) \<longleftrightarrow>
     (\<forall>m \<in> set MODIFIER_ORDER. m \<in> set (map ascii_lower ps) \<longleftrightarrow> pressed e m)
     \<and> filter (\<lambda>p. p \<noteq> [] \<and> p \<notin> set MODIFIER_ORDER) (map ascii_lower ps) = [k]"
proof -
  define parts where "parts = filter (\<lambda>p. p \<noteq> []) (map ascii_lower ps)"
  define mods where "mods = filter (\<lambda>m. m \<in> set parts) MODIFIER_ORDER"
  define keys where "keys = filter (\<lambda>p. p \<notin> set MODIFIER_ORDER) parts"
  have "split_on 0x2b (join_with 0x2b (map ascii_lower ps)) = map ascii_lower ps"
    by (rule split_join) (use assms(2,3) in \<open>auto simp: plus_lower\<close>)
  then have "split_on 0x2b (lower (join_with 0x2b ps)) = map ascii_lower ps"
    using assms(1) [OF join_ascii [of ps]] assms(3) by (simp add: join_lower)
  then have c: "canonicalChord lower (join_with 0x2b ps) = join_with 0x2b (mods @ keys)"
    by (simp add: canonicalChord_def parts_def mods_def keys_def)
  have chord: "chordOf lower e = Some (join_with 0x2b (chord_mods e @ [k]))"
    using assms(4,5) by (simp add: chordOf_def)
  have plain: "0x2b \<notin> set w" if "w \<in> set (mods @ keys)" for w
    using that assms(3) MODIFIER_ORDER_plain(2) plus_lower by (auto simp: mods_def keys_def parts_def)
  have "join_with 0x2b (chord_mods e @ [k]) = join_with 0x2b (mods @ keys) \<longleftrightarrow> chord_mods e @ [k] = mods @ keys"
  proof
    assume eq: "join_with 0x2b (chord_mods e @ [k]) = join_with 0x2b (mods @ keys)"
    have s: "split_on 0x2b (join_with 0x2b (chord_mods e @ [k])) = chord_mods e @ [k]"
      using assms(7) MODIFIER_ORDER_plain(2) by (intro split_join) (auto simp: chord_mods_filter)
    show "chord_mods e @ [k] = mods @ keys"
    proof (cases "mods @ keys = []")
      case True
      then show ?thesis using eq s assms(6) by (cases "chord_mods e") simp_all
    next
      case False
      have "split_on 0x2b (join_with 0x2b (mods @ keys)) = mods @ keys" by (rule split_join [OF False plain])
      then show ?thesis unfolding eq [symmetric] s .
    qed
  qed simp
  also have "\<dots> \<longleftrightarrow> chord_mods e = mods \<and> [k] = keys"
  proof
    assume eq: "chord_mods e @ [k] = mods @ keys"
    have mod: "filter (\<lambda>p. p \<in> set MODIFIER_ORDER) (filter Q MODIFIER_ORDER) = filter Q MODIFIER_ORDER" for Q
      by (rule filter_True) simp
    have no_key: "filter (\<lambda>p. p \<in> set MODIFIER_ORDER) keys = []" by (rule filter_False) (simp add: keys_def)
    have "filter (\<lambda>p. p \<in> set MODIFIER_ORDER) (chord_mods e @ [k]) = chord_mods e"
      unfolding filter_append chord_mods_filter mod using assms(8) by simp
    moreover have "filter (\<lambda>p. p \<in> set MODIFIER_ORDER) (mods @ keys) = mods"
      unfolding filter_append no_key unfolding mods_def mod by simp
    ultimately show "chord_mods e = mods \<and> [k] = keys" using eq by simp
  qed simp
  also have "chord_mods e = mods \<longleftrightarrow> (\<forall>m \<in> set MODIFIER_ORDER. m \<in> set (map ascii_lower ps) \<longleftrightarrow> pressed e m)"
    using MODIFIER_ORDER_plain(2)
    by (auto simp: chord_mods_filter mods_def filter_eq_iff [OF MODIFIER_ORDER_plain(1)] parts_def)
  also have "[k] = keys \<longleftrightarrow> filter (\<lambda>p. p \<noteq> [] \<and> p \<notin> set MODIFIER_ORDER) (map ascii_lower ps) = [k]"
    unfolding keys_def parts_def filter_filter by (auto simp: conj_commute)
  finally show ?thesis unfolding chord c option.inject .
qed

definition shift_meta_p :: relay_key where
  "shift_meta_p = \<lparr>ke_code = js ''KeyP'', ke_ctrl = False, ke_shift = True, ke_alt = False, ke_meta = True\<rparr>"

lemma chord_matches_any_spelling_witness:
  "chordOf ascii_lower shift_meta_p = Some (canonicalChord ascii_lower (join_with 0x2b [js ''Meta'', js ''p'', js ''shift'']))"
proof -
  let ?k = "chord_key_of ascii_lower (ke_code shift_meta_p)"
  have k: "?k = js ''p''"
    by (simp add: shift_meta_p_def chord_key_of_def js_def is_upper_def ascii_lower_def)
  have "chordOf ascii_lower shift_meta_p = Some (canonicalChord ascii_lower (join_with 0x2b [js ''Meta'', js ''p'', js ''shift''])) \<longleftrightarrow>
     (\<forall>m \<in> set MODIFIER_ORDER. m \<in> set (map ascii_lower [js ''Meta'', js ''p'', js ''shift'']) \<longleftrightarrow> pressed shift_meta_p m)
     \<and> filter (\<lambda>p. p \<noteq> [] \<and> p \<notin> set MODIFIER_ORDER) (map ascii_lower [js ''Meta'', js ''p'', js ''shift'']) = [?k]"
    by (rule chord_matches_any_spelling [OF refl _ _ _ refl])
      (unfold k, auto simp: ascii_def js_def MODIFIER_ORDER_def modifier_codes_def shift_meta_p_def)
  moreover have "\<forall>m \<in> set MODIFIER_ORDER. m \<in> set (map ascii_lower [js ''Meta'', js ''p'', js ''shift'']) \<longleftrightarrow> pressed shift_meta_p m"
    by (simp add: MODIFIER_ORDER_def pressed_def shift_meta_p_def js_def ascii_lower_def is_upper_def)
  moreover have "filter (\<lambda>p. p \<noteq> [] \<and> p \<notin> set MODIFIER_ORDER) (map ascii_lower [js ''Meta'', js ''p'', js ''shift'']) = [?k]"
    unfolding k by (simp add: MODIFIER_ORDER_def js_def ascii_lower_def is_upper_def)
  ultimately show ?thesis by blast
qed

end
