(* ===== verification/Touch_Gestures.thy ===== *)
theory Touch_Gestures
  imports Device_Prefs
begin

text \<open>
  Touch gestures over the terminal (\<open>components/Terminal/Terminal.tsx\<close>, the xterm effect): a drag
  scrolls, or is replayed as mouse events, and a flick coasts on. Coordinates, times and velocities
  are reals (the code's are doubles), \<open>Math.pow\<close> is \<open>powr\<close>.

  What a handler reads besides its own variables is \<open>surroundings\<close>; what it does to xterm and to the
  browser is recorded in order.
\<close>

section \<open>State\<close>

record surroundings =
  su_now :: real
  su_mode :: touch_mode
  su_rows :: nat
  su_height :: real               \<comment> \<open>\<open>container.clientHeight\<close>\<close>
  su_alternate :: bool            \<comment> \<open>the alternate buffer is shown\<close>
  su_tracking :: bool             \<comment> \<open>\<open>mouseTrackingMode\<close> is not \<open>none\<close>\<close>
  su_altScroll :: bool            \<comment> \<open>the preference \<open>altScreenScroll\<close>\<close>
  su_momentum :: bool             \<comment> \<open>the preference \<open>touchMomentum\<close>\<close>
  su_rect :: "(real \<times> real) \<times> (real \<times> real)"  \<comment> \<open>left, top; right, bottom\<close>
  su_scrollable :: bool           \<comment> \<open>\<open>scrollLines\<close> moves \<open>viewportY\<close>\<close>

datatype mouse_kind = Mouse_Down | Mouse_Move | Mouse_Up

datatype gesture_out =
    Wheel_Line int "real \<times> real"
  | Scroll_Lines int
  | Mouse mouse_kind "real \<times> real" bool
  | Vibrate
  | Prevent_Default

record coast =
  co_v :: real
  co_prev :: real
  co_toApp :: bool

record gesture =
  ge_velocity :: real
  ge_seeded :: bool
  ge_lastMoveAt :: real
  ge_start :: "real \<times> real"
  ge_last :: "real \<times> real"
  ge_dragging :: bool
  ge_pointer :: bool              \<comment> \<open>\<open>pointerDragging\<close>\<close>
  ge_remainder :: real
  ge_force :: bool
  ge_longPress :: bool            \<comment> \<open>the timer is armed\<close>
  ge_active :: bool
  ge_lastEndAt :: real
  ge_holdUntil :: real
  ge_coast :: "coast option"      \<comment> \<open>the scheduled frame\<close>
  ge_out :: "gesture_out list"

definition gesture_init :: gesture where
  "gesture_init = \<lparr>ge_velocity = 0, ge_seeded = False, ge_lastMoveAt = 0, ge_start = (0, 0), ge_last = (0, 0),
     ge_dragging = False, ge_pointer = False, ge_remainder = 0, ge_force = False, ge_longPress = False,
     ge_active = False, ge_lastEndAt = 0, ge_holdUntil = 0, ge_coast = None, ge_out = []\<rparr>"

definition TOUCH_SCROLL_THRESHOLD :: real where "TOUCH_SCROLL_THRESHOLD = 16"
definition MAX_WHEEL_STEPS_PER_MOVE :: nat where "MAX_WHEEL_STEPS_PER_MOVE = 6"
definition MOMENTUM_FRICTION :: real where "MOMENTUM_FRICTION = 94 / 100"
definition MOMENTUM_MIN_VELOCITY :: real where "MOMENTUM_MIN_VELOCITY = 4 / 100"
definition MOMENTUM_MAX_FRAME_MS :: real where "MOMENTUM_MAX_FRAME_MS = 50"
definition MOMENTUM_VELOCITY_SMOOTHING :: real where "MOMENTUM_VELOCITY_SMOOTHING = 7 / 10"

lemmas momentum_consts = TOUCH_SCROLL_THRESHOLD_def MAX_WHEEL_STEPS_PER_MOVE_def MOMENTUM_FRICTION_def
  MOMENTUM_MIN_VELOCITY_def MOMENTUM_MAX_FRAME_MS_def MOMENTUM_VELOCITY_SMOOTHING_def

definition sendsScrollToApp :: "surroundings \<Rightarrow> bool" where
  "sendsScrollToApp su \<longleftrightarrow> su_alternate su \<or> su_tracking su"

text \<open>\<open>container.clientHeight / (term.rows || 1) || 18\<close>\<close>

definition rowHeight :: "surroundings \<Rightarrow> real" where
  "rowHeight su = (let h = su_height su / (if su_rows su = 0 then 1 else real (su_rows su)) in if h = 0 then 18 else h)"

definition js_trunc :: "real \<Rightarrow> int" where
  "js_trunc x = (if 0 \<le> x then \<lfloor>x\<rfloor> else \<lceil>x\<rceil>)"

definition emit :: "gesture_out list \<Rightarrow> gesture \<Rightarrow> gesture" where
  "emit es s = s\<lparr>ge_out := ge_out s @ es\<rparr>"

definition holdFocus :: "surroundings \<Rightarrow> real \<Rightarrow> gesture \<Rightarrow> gesture" where
  "holdFocus su ms s = s\<lparr>ge_holdUntil := max (ge_holdUntil s) (su_now su + ms)\<rparr>"

section \<open>Synthesised events\<close>

definition clampToScreen :: "surroundings \<Rightarrow> real \<times> real \<Rightarrow> real \<times> real" where
  "clampToScreen su p =
     (let ((left, top), (right, bottom)) = su_rect su
      in (min (max (fst p) (left + 1)) (right - 1), min (max (snd p) (top + 1)) (bottom - 1)))"

definition wheel_events :: "int \<Rightarrow> real \<times> real \<Rightarrow> gesture_out list" where
  "wheel_events lines p =
     replicate (min (nat \<bar>lines\<bar>) MAX_WHEEL_STEPS_PER_MOVE) (Wheel_Line (if lines > 0 then 1 else -1) p)"

definition dispatchWheel :: "int \<Rightarrow> real \<times> real \<Rightarrow> gesture \<Rightarrow> gesture" where
  "dispatchWheel lines p s = emit (wheel_events lines p) s"

definition dispatchMouse :: "surroundings \<Rightarrow> mouse_kind \<Rightarrow> real \<times> real \<Rightarrow> gesture \<Rightarrow> gesture" where
  "dispatchMouse su kind p s = emit [Mouse kind (clampToScreen su p) (ge_force s)] s"

definition beginPointerDrag :: "surroundings \<Rightarrow> real \<times> real \<Rightarrow> gesture \<Rightarrow> gesture" where
  "beginPointerDrag su p s =
     dispatchMouse su Mouse_Down p
       (holdFocus su 600 (s\<lparr>ge_longPress := False, ge_pointer := True,
          ge_force := (su_mode su = SelectMode \<and> su_tracking su)\<rparr>))"

definition endPointerDrag :: "surroundings \<Rightarrow> real \<times> real \<Rightarrow> gesture \<Rightarrow> gesture" where
  "endPointerDrag su p s =
     (if \<not> ge_pointer s then s else dispatchMouse su Mouse_Up p (s\<lparr>ge_pointer := False\<rparr>))"

section \<open>The handlers\<close>

text \<open>\<open>touches\<close> are the fingers on the screen after the event.\<close>

definition onTouchStart :: "surroundings \<Rightarrow> (real \<times> real) list \<Rightarrow> gesture \<Rightarrow> gesture" where
  "onTouchStart su touches s =
     (let s1 = s\<lparr>ge_coast := None, ge_longPress := False, ge_active := True\<rparr>
      in case touches of
           [p] \<Rightarrow> s1\<lparr>ge_velocity := 0, ge_seeded := False, ge_lastMoveAt := 0, ge_start := p, ge_last := p,
                     ge_dragging := False, ge_pointer := False, ge_remainder := 0,
                     ge_longPress := (su_mode su \<noteq> ScrollMode)\<rparr>
         | _ \<Rightarrow> s1)"

definition longPress :: "surroundings \<Rightarrow> gesture \<Rightarrow> gesture" where
  "longPress su s =
     (if \<not> ge_longPress s then s
      else let s1 = s\<lparr>ge_longPress := False\<rparr>
           in if ge_pointer s1 then s1 else emit [Vibrate] (beginPointerDrag su (ge_start s1) s1))"

text \<open>The release velocity, from the last two points.\<close>

definition track_velocity :: "surroundings \<Rightarrow> real \<Rightarrow> gesture \<Rightarrow> gesture" where
  "track_velocity su y s =
     (let dt = (if ge_lastMoveAt s \<noteq> 0 then su_now su - ge_lastMoveAt s else 0);
          sample = (snd (ge_last s) - y) / dt;
          s1 = (if dt > 0 then s\<lparr>ge_velocity :=
                    (if ge_seeded s
                     then ge_velocity s * (1 - MOMENTUM_VELOCITY_SMOOTHING) + sample * MOMENTUM_VELOCITY_SMOOTHING
                     else sample), ge_seeded := True\<rparr>
                else s)
      in s1\<lparr>ge_lastMoveAt := su_now su\<rparr>)"

definition scroll_move :: "surroundings \<Rightarrow> real \<times> real \<Rightarrow> gesture \<Rightarrow> gesture" where
  "scroll_move su p s =
     (let s1 = track_velocity su (snd p) (holdFocus su 600 (s\<lparr>ge_dragging := True\<rparr>));
          r = ge_remainder s1 + (snd (ge_last s1) - snd p) / rowHeight su;
          lines = js_trunc r;
          s2 = s1\<lparr>ge_last := (fst (ge_last s1), snd p)\<rparr>;
          s3 = (if lines = 0 then s2\<lparr>ge_remainder := r\<rparr>
                else (if su_altScroll su \<and> sendsScrollToApp su then dispatchWheel lines p s2
                      else emit [Scroll_Lines lines] s2)\<lparr>ge_remainder := r - of_int lines\<rparr>)
      in emit [Prevent_Default] s3)"

definition pointer_move :: "surroundings \<Rightarrow> real \<times> real \<Rightarrow> gesture \<Rightarrow> gesture" where
  "pointer_move su p s =
     (let s1 = (if ge_pointer s then s else beginPointerDrag su (ge_start s) s);
          s2 = dispatchMouse su Mouse_Move p (holdFocus su 600 s1)
      in emit [Prevent_Default] (s2\<lparr>ge_last := p\<rparr>))"

definition onTouchMove :: "surroundings \<Rightarrow> (real \<times> real) list \<Rightarrow> gesture \<Rightarrow> gesture" where
  "onTouchMove su touches s =
     (case touches of
        [p] \<Rightarrow>
          (let near_y = \<bar>snd p - snd (ge_start s)\<bar> < TOUCH_SCROLL_THRESHOLD;
               near_x = \<bar>fst p - fst (ge_start s)\<bar> < TOUCH_SCROLL_THRESHOLD
           in if su_mode su \<noteq> ScrollMode
              then (if \<not> ge_pointer s \<and> near_y \<and> near_x then s else pointer_move su p s)
              else (if \<not> ge_dragging s \<and> near_y then s else scroll_move su p s))
      | _ \<Rightarrow> s)"

section \<open>Momentum\<close>

datatype skip_reason = Disabled | No_Mouse_Tracking | Too_Slow | Rested

definition momentum_skip :: "surroundings \<Rightarrow> bool \<Rightarrow> gesture \<Rightarrow> skip_reason option" where
  "momentum_skip su toApp s =
     (if \<not> su_momentum su then Some Disabled
      else if toApp \<and> \<not> su_tracking su then Some No_Mouse_Tracking
      else if \<bar>ge_velocity s\<bar> < MOMENTUM_MIN_VELOCITY then Some Too_Slow
      else if su_now su - ge_lastMoveAt s \<ge> 100 then Some Rested
      else None)"

definition startMomentum :: "surroundings \<Rightarrow> bool \<Rightarrow> gesture \<Rightarrow> gesture" where
  "startMomentum su toApp s = s\<lparr>ge_coast := Some \<lparr>co_v = ge_velocity s, co_prev = su_now su, co_toApp = toApp\<rparr>\<rparr>"

text \<open>The end of a frame: the velocity decays, and below the minimum no further frame is asked for.\<close>

definition coast_on :: "real \<Rightarrow> coast \<Rightarrow> gesture \<Rightarrow> gesture" where
  "coast_on dt c s =
     (let v = co_v c * MOMENTUM_FRICTION powr (dt / (1667 / 100))
      in if \<bar>v\<bar> < MOMENTUM_MIN_VELOCITY then s else s\<lparr>ge_coast := Some (c\<lparr>co_v := v\<rparr>)\<rparr>)"

definition momentum_frame :: "surroundings \<Rightarrow> gesture \<Rightarrow> gesture" where
  "momentum_frame su s =
     (case ge_coast s of
        None \<Rightarrow> s
      | Some c \<Rightarrow>
          let s1 = holdFocus su 400 (s\<lparr>ge_coast := None\<rparr>);
              dt = min (su_now su - co_prev c) MOMENTUM_MAX_FRAME_MS;
              c1 = c\<lparr>co_prev := su_now su\<rparr>;
              r = ge_remainder s1 + co_v c * dt / rowHeight su;
              lines = js_trunc r
          in if co_toApp c \<noteq> (su_altScroll su \<and> sendsScrollToApp su) then s1
             else if co_toApp c \<and> \<not> su_tracking su then s1
             else if lines = 0 then coast_on dt c1 (s1\<lparr>ge_remainder := r\<rparr>)
             else if co_toApp c then
               coast_on dt c1 ((dispatchWheel lines (clampToScreen su (ge_last s1)) s1)\<lparr>ge_remainder := r - of_int lines\<rparr>)
             else
               (let s2 = (emit [Scroll_Lines lines] s1)\<lparr>ge_remainder := r - of_int lines\<rparr>
                in if \<not> su_scrollable su then s2 else coast_on dt c1 s2))"

text \<open>\<open>changed\<close>: the finger that left; \<open>touches\<close>: the ones still there.\<close>

definition onTouchEnd :: "surroundings \<Rightarrow> (real \<times> real) option \<Rightarrow> (real \<times> real) list \<Rightarrow> bool \<Rightarrow> gesture \<Rightarrow> gesture" where
  "onTouchEnd su changed touches cancelable s =
     (let had = ge_pointer s \<or> ge_dragging s;
          p = (case changed of Some q \<Rightarrow> q | None \<Rightarrow> ge_last s);
          s1 = endPointerDrag su p (s\<lparr>ge_longPress := False\<rparr>);
          s2 = (if had then holdFocus su 600 s1 else s1);
          s3 = (if had \<and> cancelable then emit [Prevent_Default] s2 else s2)
      in if touches \<noteq> [] then s3
         else let s4 = s3\<lparr>ge_active := False, ge_lastEndAt := su_now su\<rparr>;
                  toApp = (su_altScroll su \<and> sendsScrollToApp su);
                  s5 = (if ge_dragging s \<and> su_mode su = ScrollMode \<and> momentum_skip su toApp s4 = None
                        then startMomentum su toApp s4 else s4)
              in s5\<lparr>ge_dragging := False\<rparr>)"

definition onContextMenu :: "surroundings \<Rightarrow> gesture \<Rightarrow> bool" where
  "onContextMenu su s \<longleftrightarrow> ge_active s \<or> su_now su - ge_lastEndAt s < 800"

section \<open>The mouse wheel over a full-screen application\<close>

datatype delta_mode = Delta_Pixel | Delta_Line | Delta_Page

definition wheelLinesPerEvent :: "surroundings \<Rightarrow> delta_mode \<Rightarrow> real \<Rightarrow> real" where
  "wheelLinesPerEvent su m dy =
     (case m of
        Delta_Line \<Rightarrow> dy
      | Delta_Page \<Rightarrow> dy * (if su_rows su = 0 then 1 else real (su_rows su))
      | Delta_Pixel \<Rightarrow> dy / rowHeight su)"

text \<open>Whether xterm handles the event itself, the remainder, and what is dispatched instead.\<close>

definition real_wheel :: "surroundings \<Rightarrow> bool \<Rightarrow> bool \<Rightarrow> delta_mode \<Rightarrow> real \<Rightarrow> real \<times> real \<Rightarrow> real \<Rightarrow>
     bool \<times> real \<times> gesture_out list" where
  "real_wheel su synthetic enabled m dy p remainder =
     (if synthetic then (True, remainder, [])
      else if \<not> enabled \<or> \<not> sendsScrollToApp su \<or> dy = 0 then (True, 0, [])
      else let r = remainder + wheelLinesPerEvent su m dy; lines = js_trunc r
           in (False, r - of_int lines, if lines \<noteq> 0 then wheel_events lines p else []))"

end
