(* ===== verification/Touch_Properties.thy ===== *)
theory Touch_Properties
  imports Touch_Gestures
begin

text \<open>
  What touch gestures promise: the text follows the finger to within a line, a drag always presses and
  releases once, and a coast comes to rest and never changes what it means.
\<close>

section \<open>Fields\<close>

lemma gesture_out [simp]:
  "ge_out (emit es s) = ge_out s @ es" "ge_out (holdFocus su ms s) = ge_out s"
  "ge_out (track_velocity su y s) = ge_out s"
  by (simp_all add: emit_def holdFocus_def track_velocity_def Let_def)

lemma gesture_fields [simp]:
  "ge_remainder (emit es s) = ge_remainder s" "ge_remainder (holdFocus su ms s) = ge_remainder s"
  "ge_remainder (track_velocity su y s) = ge_remainder s"
  "ge_last (emit es s) = ge_last s" "ge_last (holdFocus su ms s) = ge_last s" "ge_last (track_velocity su y s) = ge_last s"
  "ge_pointer (emit es s) = ge_pointer s" "ge_pointer (holdFocus su ms s) = ge_pointer s"
  "ge_pointer (track_velocity su y s) = ge_pointer s"
  "ge_dragging (emit es s) = ge_dragging s" "ge_dragging (holdFocus su ms s) = ge_dragging s"
  "ge_dragging (track_velocity su y s) = ge_dragging s"
  "ge_start (emit es s) = ge_start s" "ge_start (holdFocus su ms s) = ge_start s" "ge_start (track_velocity su y s) = ge_start s"
  "ge_longPress (emit es s) = ge_longPress s" "ge_longPress (holdFocus su ms s) = ge_longPress s"
  "ge_longPress (track_velocity su y s) = ge_longPress s"
  "ge_coast (emit es s) = ge_coast s" "ge_coast (holdFocus su ms s) = ge_coast s"
  "ge_coast (track_velocity su y s) = ge_coast s"
  by (simp_all add: emit_def holdFocus_def track_velocity_def Let_def)


section \<open>Scrolling\<close>

definition scrolled :: "gesture_out list \<Rightarrow> int" where
  "scrolled es = sum_list (map (\<lambda>e. case e of Scroll_Lines n \<Rightarrow> n | _ \<Rightarrow> 0) es)"

lemma scrolled_append [simp]: "scrolled (xs @ ys) = scrolled xs + scrolled ys"
  by (simp add: scrolled_def)




lemma scroll_move_dragging [simp]: "ge_dragging (scroll_move su p s)"
  by (simp add: scroll_move_def Let_def dispatchWheel_def)





definition quiet_touch :: surroundings where
  "quiet_touch = \<lparr>su_now = 0, su_mode = ScrollMode, su_rows = 10, su_height = 200, su_alternate = False,
     su_tracking = False, su_altScroll = True, su_momentum = True, su_rect = ((0, 0), (100, 200)), su_scrollable = True\<rparr>"


section \<open>Replayed drags\<close>

text \<open>Whether a button is down after the replayed events; \<open>None\<close> when one makes no sense.\<close>

fun pressed_after :: "gesture_out list \<Rightarrow> bool \<Rightarrow> bool option" where
  "pressed_after [] b = Some b"
| "pressed_after (Mouse k p f # es) b =
     (case k of
        Mouse_Down \<Rightarrow> if b then None else pressed_after es True
      | Mouse_Move \<Rightarrow> if b then pressed_after es True else None
      | Mouse_Up \<Rightarrow> if b then pressed_after es False else None)"
| "pressed_after (_ # es) b = pressed_after es b"

lemma pressed_append: "pressed_after (xs @ ys) b = (case pressed_after xs b of Some c \<Rightarrow> pressed_after ys c | None \<Rightarrow> None)"
  by (induction xs b rule: pressed_after.induct) (auto split: mouse_kind.split)

lemma pressed_quiet: "list_all (\<lambda>e. \<not> (\<exists>k p f. e = Mouse k p f)) es \<Longrightarrow> pressed_after es b = Some b"
proof (induction es arbitrary: b)
  case (Cons e es)
  then show ?case by (cases e) auto
qed simp

text \<open>The fingers that went down on the terminal, and what may happen. A finger is down when a move
  arrives; with none down, a touch that starts with one finger on the screen is a new one.\<close>

inductive touch_step :: "nat \<times> gesture \<Rightarrow> nat \<times> gesture \<Rightarrow> bool" where
  down: "0 < k \<Longrightarrow> f + k \<le> length touches \<Longrightarrow> touch_step (f, s) (f + k, onTouchStart su touches s)"
| move: "0 < f \<Longrightarrow> touch_step (f, s) (f, onTouchMove su touches s)"
| up: "0 < k \<Longrightarrow> k \<le> f \<Longrightarrow> touch_step (f, s) (f - k, onTouchEnd su changed touches cancelable s)"
| hold: "touch_step (f, s) (f, longPress su s)"
| frame: "touch_step (f, s) (f, momentum_frame su s)"

inductive touch_reach :: "nat \<Rightarrow> gesture \<Rightarrow> bool" where
  start: "touch_reach 0 gesture_init"
| step: "touch_reach f s \<Longrightarrow> touch_step (f, s) (g, t) \<Longrightarrow> touch_reach g t"

definition drag_ok :: "nat \<Rightarrow> gesture \<Rightarrow> bool" where
  "drag_ok f s \<longleftrightarrow> pressed_after (ge_out s) False = Some (ge_pointer s) \<and> (f = 0 \<longrightarrow> \<not> ge_pointer s \<and> \<not> ge_longPress s)"

lemma wheel_quiet: "pressed_after (wheel_events lines p) b = Some b"
  by (rule pressed_quiet) (simp add: wheel_events_def list_all_iff)

lemma begin_drag:
  assumes "pressed_after (ge_out s) False = Some False"
  shows "pressed_after (ge_out (beginPointerDrag su p s)) False = Some True" "ge_pointer (beginPointerDrag su p s)"
    "\<not> ge_longPress (beginPointerDrag su p s)"
  using assms by (simp_all add: beginPointerDrag_def dispatchMouse_def pressed_append)

lemma end_drag:
  assumes "pressed_after (ge_out s) False = Some (ge_pointer s)"
  shows "pressed_after (ge_out (endPointerDrag su p s)) False = Some False" "\<not> ge_pointer (endPointerDrag su p s)"
    "ge_longPress (endPointerDrag su p s) = ge_longPress s"
  using assms by (auto simp: endPointerDrag_def dispatchMouse_def pressed_append)

lemma pointer_move_ok:
  assumes "pressed_after (ge_out s) False = Some (ge_pointer s)"
  shows "pressed_after (ge_out (pointer_move su p s)) False = Some (ge_pointer (pointer_move su p s))"
  using assms begin_drag [of s su "ge_start s"]
  by (cases "ge_pointer s") (simp_all add: pointer_move_def Let_def dispatchMouse_def pressed_append)

lemma scroll_move_ok:
  assumes "pressed_after (ge_out s) False = Some (ge_pointer s)"
  shows "pressed_after (ge_out (scroll_move su p s)) False = Some (ge_pointer (scroll_move su p s))"
  using assms by (simp add: scroll_move_def Let_def dispatchWheel_def pressed_append wheel_quiet)

lemma move_ok:
  assumes "pressed_after (ge_out s) False = Some (ge_pointer s)"
  shows "pressed_after (ge_out (onTouchMove su touches s)) False = Some (ge_pointer (onTouchMove su touches s))"
  using assms pointer_move_ok [OF assms] scroll_move_ok [OF assms]
  by (simp add: onTouchMove_def Let_def split: list.split)

lemma coast_on_fields [simp]:
  "ge_out (coast_on dt c s) = ge_out s" "ge_pointer (coast_on dt c s) = ge_pointer s"
  "ge_longPress (coast_on dt c s) = ge_longPress s"
  by (simp_all add: coast_on_def Let_def)

lemma frame_ok:
  assumes "pressed_after (ge_out s) False = Some (ge_pointer s)"
  shows "pressed_after (ge_out (momentum_frame su s)) False = Some (ge_pointer (momentum_frame su s))"
    "ge_pointer (momentum_frame su s) = ge_pointer s" "ge_longPress (momentum_frame su s) = ge_longPress s"
  using assms by (simp_all add: momentum_frame_def Let_def dispatchWheel_def pressed_append wheel_quiet split: option.split)

lemma end_ok:
  assumes "pressed_after (ge_out s) False = Some (ge_pointer s)"
  shows "pressed_after (ge_out (onTouchEnd su changed touches cancelable s)) False = Some False"
    "\<not> ge_pointer (onTouchEnd su changed touches cancelable s)" "\<not> ge_longPress (onTouchEnd su changed touches cancelable s)"
proof -
  let ?p = "case changed of Some q \<Rightarrow> q | None \<Rightarrow> ge_last s"
  have "pressed_after (ge_out (s\<lparr>ge_longPress := False\<rparr>)) False = Some (ge_pointer (s\<lparr>ge_longPress := False\<rparr>))"
    using assms by simp
  note e = end_drag [OF this, of su ?p]
  show "pressed_after (ge_out (onTouchEnd su changed touches cancelable s)) False = Some False"
    "\<not> ge_pointer (onTouchEnd su changed touches cancelable s)" "\<not> ge_longPress (onTouchEnd su changed touches cancelable s)"
    using e by (simp_all add: onTouchEnd_def Let_def startMomentum_def pressed_append)
qed

lemma touch_step_ok: "touch_step (f, s) (g, t) \<Longrightarrow> drag_ok f s \<Longrightarrow> drag_ok g t"
proof (induction "(f, s)" "(g, t)" rule: touch_step.induct)
  case (down k touches su)
  show ?case
  proof (cases touches)
    case (Cons p ps)
    then show ?thesis
      using down by (cases ps) (auto simp: drag_ok_def onTouchStart_def Let_def)
  qed (use down in \<open>simp add: drag_ok_def\<close>)
next
  case (move su touches)
  then show ?case
    using move_ok [of s su touches] by (auto simp: drag_ok_def)
next
  case (up k su changed touches cancelable)
  then show ?case using end_ok [of s su changed touches cancelable] by (simp add: drag_ok_def)
next
  case (hold su)
  then show ?case
    using begin_drag [of "s\<lparr>ge_longPress := False\<rparr>" su "ge_start s"]
    by (auto simp: drag_ok_def longPress_def Let_def pressed_append)
next
  case (frame su)
  then show ?case using frame_ok [of s su] by (simp add: drag_ok_def)
qed

text \<open>C26: A drag replayed as a mouse presses once and releases once. Whatever fingers come and go, with
  holds, moves, mode changes and coasting frames in between, the mouse events handed to xterm are a
  press, moves and a release, again and again; once no finger is left on the terminal
  nothing is held down and no pending hold can still press.\<close>
theorem replayed_drags_are_paired:
  assumes "touch_reach f s"
  shows "pressed_after (ge_out s) False = Some (ge_pointer s)
    \<and> (f = 0 \<longrightarrow> pressed_after (ge_out s) False = Some False \<and> longPress su s = s)"
proof -
  have "drag_ok f s"
    using assms
  proof (induction rule: touch_reach.induct)
    case (step f s g t)
    then show ?case using touch_step_ok by blast
  qed (simp add: drag_ok_def gesture_init_def)
  moreover have "\<not> ge_longPress s \<Longrightarrow> longPress su s = s" by (simp add: longPress_def)
  ultimately show ?thesis by (simp add: drag_ok_def)
qed

definition select_touch :: surroundings where
  "select_touch = quiet_touch\<lparr>su_mode := SelectMode\<rparr>"

theorem replayed_drags_are_paired_witness:
  "pressed_after (ge_out (onTouchEnd select_touch None [] True (onTouchMove select_touch [(60, 50)]
     (onTouchStart select_touch [(5, 50)] gesture_init)))) False = Some False"
proof -
  have "touch_reach (0 + 1) (onTouchStart select_touch [(5, 50)] gesture_init)"
    by (rule touch_reach.step [OF touch_reach.start]) (rule touch_step.down, simp_all)
  then have "touch_reach (0 + 1) (onTouchMove select_touch [(60, 50)] (onTouchStart select_touch [(5, 50)] gesture_init))"
    by (rule touch_reach.step) (rule touch_step.move, simp)
  then have "touch_reach (0 + 1 - 1) (onTouchEnd select_touch None [] True (onTouchMove select_touch [(60, 50)]
     (onTouchStart select_touch [(5, 50)] gesture_init)))"
    by (rule touch_reach.step) (rule touch_step.up, simp_all)
  from replayed_drags_are_paired [OF this, of select_touch, THEN conjunct2] show ?thesis by simp
qed

section \<open>Coasting\<close>

text \<open>The time a coast has used: that of its frames, each counted for at most 50 ms.\<close>

fun coasted :: "real \<Rightarrow> real list \<Rightarrow> real" where
  "coasted prev [] = 0"
| "coasted prev (t # ts) = min (t - prev) MOMENTUM_MAX_FRAME_MS + coasted t ts"

definition slowed :: "real \<Rightarrow> real \<Rightarrow> real" where
  "slowed v t = v * MOMENTUM_FRICTION powr (t / (1667 / 100))"

lemma slowed_slowed: "slowed (slowed v a) b = slowed v (a + b)"
  by (simp add: slowed_def powr_add [symmetric] add_divide_distrib)

lemma coast_on_cases:
  assumes "ge_coast s = None" "ge_coast (coast_on dt c s) = Some d"
  shows "d = c\<lparr>co_v := slowed (co_v c) dt\<rparr>" "MOMENTUM_MIN_VELOCITY \<le> \<bar>co_v d\<bar>"
  using assms by (auto simp: coast_on_def Let_def slowed_def split: if_splits)

lemma frame_coast:
  assumes "ge_coast s = Some c" "ge_coast (momentum_frame su s) = Some d"
  shows "co_v d = slowed (co_v c) (min (su_now su - co_prev c) MOMENTUM_MAX_FRAME_MS)" "co_prev d = su_now su"
    "co_toApp d = co_toApp c" "MOMENTUM_MIN_VELOCITY \<le> \<bar>co_v d\<bar>"
proof -
  let ?dt = "min (su_now su - co_prev c) MOMENTUM_MAX_FRAME_MS"
  have t: "ge_coast (coast_on dt e t) = Some d \<Longrightarrow> ge_coast t = None \<Longrightarrow>
      d = e\<lparr>co_v := slowed (co_v e) dt\<rparr> \<and> MOMENTUM_MIN_VELOCITY \<le> \<bar>co_v d\<bar>" for dt e t
    using coast_on_cases by blast
  have "d = c\<lparr>co_prev := su_now su, co_v := slowed (co_v c) ?dt\<rparr> \<and> MOMENTUM_MIN_VELOCITY \<le> \<bar>co_v d\<bar>"
    using assms by (auto simp: momentum_frame_def Let_def dispatchWheel_def split: if_splits dest!: t)
  then have d: "d = c\<lparr>co_prev := su_now su, co_v := slowed (co_v c) ?dt\<rparr>" and m: "MOMENTUM_MIN_VELOCITY \<le> \<bar>co_v d\<bar>"
    by blast+
  show "co_v d = slowed (co_v c) ?dt" "co_prev d = su_now su" "co_toApp d = co_toApp c"
    unfolding d by simp_all
  show "MOMENTUM_MIN_VELOCITY \<le> \<bar>co_v d\<bar>" by (rule m)
qed

definition one_way :: "bool \<Rightarrow> gesture_out \<Rightarrow> bool" where
  "one_way toApp e \<longleftrightarrow> (case e of Wheel_Line _ _ \<Rightarrow> toApp | Scroll_Lines _ \<Rightarrow> \<not> toApp | _ \<Rightarrow> False)"

lemma coast_out [simp]: "ge_out (coast_on dt c s) = ge_out s"
  by (rule coast_on_fields)

lemma frame_out:
  assumes "ge_coast s = Some c"
  shows "\<exists>es. ge_out (momentum_frame su s) = ge_out s @ es \<and> list_all (one_way (co_toApp c)) es
     \<and> length es \<le> MAX_WHEEL_STEPS_PER_MOVE"
  using assms
  by (auto simp: momentum_frame_def Let_def dispatchWheel_def wheel_events_def one_way_def list_all_iff MAX_WHEEL_STEPS_PER_MOVE_def)

lemma frames_stopped: "ge_coast s = None \<Longrightarrow> fold momentum_frame sus s = s"
  by (induction sus) (simp_all add: momentum_frame_def)

lemma coast_run:
  assumes "ge_coast s = Some c" "ge_coast (fold momentum_frame sus s) = Some d"
  shows "co_v d = slowed (co_v c) (coasted (co_prev c) (map su_now sus))
     \<and> (MOMENTUM_MIN_VELOCITY \<le> \<bar>co_v c\<bar> \<longrightarrow> MOMENTUM_MIN_VELOCITY \<le> \<bar>co_v d\<bar>)"
  using assms
proof (induction sus arbitrary: s c)
  case Nil
  then show ?case by (simp add: slowed_def MOMENTUM_FRICTION_def)
next
  case (Cons su sus)
  obtain b where b: "ge_coast (momentum_frame su s) = Some b"
    using Cons.prems(2) frames_stopped [of "momentum_frame su s" sus] by (cases "ge_coast (momentum_frame su s)") auto
  note f = frame_coast [OF Cons.prems(1) b]
  have last: "ge_coast (fold momentum_frame sus (momentum_frame su s)) = Some d" using Cons.prems(2) by simp
  have v: "co_v d = slowed (co_v b) (coasted (co_prev b) (map su_now sus))" and m: "MOMENTUM_MIN_VELOCITY \<le> \<bar>co_v d\<bar>"
    using Cons.IH [OF b last] f(4) by blast+
  have "co_v d = slowed (co_v c) (coasted (co_prev c) (map su_now (su # sus)))"
    unfolding v f(1,2) slowed_slowed by simp
  then show ?case using m by blast
qed

lemma coast_run_out:
  assumes "ge_coast s = Some c"
  shows "\<exists>es. ge_out (fold momentum_frame sus s) = ge_out s @ es \<and> list_all (one_way (co_toApp c)) es
     \<and> length es \<le> MAX_WHEEL_STEPS_PER_MOVE * length sus"
  using assms
proof (induction sus arbitrary: s c)
  case (Cons su sus)
  obtain es where es: "ge_out (momentum_frame su s) = ge_out s @ es" "list_all (one_way (co_toApp c)) es"
    "length es \<le> MAX_WHEEL_STEPS_PER_MOVE" using frame_out [OF Cons.prems] by blast
  show ?case
  proof (cases "ge_coast (momentum_frame su s)")
    case None
    then show ?thesis using es frames_stopped [of "momentum_frame su s" sus] by auto
  next
    case (Some b)
    then obtain fs where "ge_out (fold momentum_frame sus (momentum_frame su s)) = ge_out (momentum_frame su s) @ fs"
      "list_all (one_way (co_toApp b)) fs" "length fs \<le> MAX_WHEEL_STEPS_PER_MOVE * length sus"
      using Cons.IH by blast
    then show ?thesis
      using es frame_coast(3) [OF Cons.prems Some] by (intro exI [of _ "es @ fs"]) simp
  qed
qed simp

text \<open>A flick comes to rest and keeps its meaning. Once a coast has used enough time for its starting
  velocity to decay below the minimum, no further frame is asked for, however the frames fall; all it
  ever does goes to the destination it started with, the viewport or the application, at most
  six wheel events a frame; and any touch stops it.\<close>
lemma flick_comes_to_rest:
  assumes "ge_coast s = Some c" "MOMENTUM_MIN_VELOCITY \<le> \<bar>co_v c\<bar>"
  shows "(\<bar>slowed (co_v c) (coasted (co_prev c) (map su_now sus))\<bar> < MOMENTUM_MIN_VELOCITY \<longrightarrow>
      ge_coast (fold momentum_frame sus s) = None)
    \<and> (\<exists>es. ge_out (fold momentum_frame sus s) = ge_out s @ es \<and> list_all (one_way (co_toApp c)) es
         \<and> length es \<le> 6 * length sus)
    \<and> ge_coast (onTouchStart su touches s) = None"
proof -
  have "ge_coast (fold momentum_frame sus s) = None"
    if "\<bar>slowed (co_v c) (coasted (co_prev c) (map su_now sus))\<bar> < MOMENTUM_MIN_VELOCITY"
  proof (rule ccontr)
    assume "ge_coast (fold momentum_frame sus s) \<noteq> None"
    then obtain d where "ge_coast (fold momentum_frame sus s) = Some d" by blast
    then show False using coast_run [OF assms(1)] assms(2) that by fastforce
  qed
  moreover have "ge_coast (onTouchStart su touches s) = None"
    by (simp add: onTouchStart_def Let_def split: list.split)
  ultimately show ?thesis using coast_run_out [OF assms(1), of sus] by (simp add: MAX_WHEEL_STEPS_PER_MOVE_def)
qed

lemma flick_comes_to_rest_witness:
  "ge_coast (momentum_frame (quiet_touch\<lparr>su_now := 1667 / 100\<rparr>)
     (gesture_init\<lparr>ge_coast := Some \<lparr>co_v = 41 / 1000, co_prev = 0, co_toApp = False\<rparr>\<rparr>)) = None"
proof -
  let ?s = "gesture_init\<lparr>ge_coast := Some \<lparr>co_v = 41 / 1000, co_prev = 0, co_toApp = False\<rparr>\<rparr>"
  have "\<bar>slowed (41 / 1000) (coasted 0 [1667 / 100])\<bar> < MOMENTUM_MIN_VELOCITY"
    by (simp add: slowed_def momentum_consts)
  then show ?thesis
    using flick_comes_to_rest [of ?s "\<lparr>co_v = 41 / 1000, co_prev = 0, co_toApp = False\<rparr>" "[quiet_touch\<lparr>su_now := 1667 / 100\<rparr>]",
      THEN conjunct1]
    by (simp add: momentum_consts(4))
qed

section \<open>The mouse wheel\<close>

text \<open>The comment over the handler says that none of a turn's distance is discarded. A turn of more than
  six lines loses the rest: \<open>dispatchWheel\<close> caps the events and the remainder drops all lines.\<close>

lemma long_wheel_turn_is_cut:
  assumes "sendsScrollToApp su" "6 \<le> dy"
  shows "real_wheel su False True Delta_Line dy p 0 = (False, dy - of_int \<lfloor>dy\<rfloor>, replicate 6 (Wheel_Line 1 p))"
proof -
  have "6 \<le> \<lfloor>dy\<rfloor>" using assms(2) by (simp add: le_floor_iff)
  then have "min (nat \<lfloor>dy\<rfloor>) 6 = 6" "\<lfloor>dy\<rfloor> \<noteq> 0" "\<lfloor>dy\<rfloor> > 0" "\<bar>\<lfloor>dy\<rfloor>\<bar> = \<lfloor>dy\<rfloor>" by linarith+
  then show ?thesis
    using assms by (simp add: real_wheel_def wheelLinesPerEvent_def js_trunc_def wheel_events_def MAX_WHEEL_STEPS_PER_MOVE_def Let_def)
qed

lemma synthetic_wheel_is_left_alone: "real_wheel su True en m dy p r = (True, r, [])"
  by (simp add: real_wheel_def)

end
