(* ===== verification/Terminal_Size.thy ===== *)
theory Terminal_Size
  imports Terminal_Connection
begin

text \<open>
  The size of the terminal (\<open>components/Terminal/Terminal.tsx\<close>): xterm is fitted to its container,
  and the backend is told the grid, so that the PTY has it. The container, the font, the socket and
  the timers change it; \<open>FitAddon\<close> is the argument \<open>fit\<close>, from the font and the container's size to
  columns and rows.

  A size goes out on the URL of a connection or as a \<open>resize\<close> message; both are recorded with the
  socket they went to. A socket is a number, as in \<open>Terminal_Connection\<close>. Opening one and closing it
  is that theory's; here a step says only that it happened.
\<close>

section \<open>State\<close>

type_synonym box = "nat \<times> nat"
type_synonym grid = "nat \<times> nat"
type_synonym font = "ustring \<times> int"

datatype told = Url_Size nat grid | Resize_Message nat grid

record sizing =
  sz_box :: box                            \<comment> \<open>\<open>clientWidth\<close>, \<open>clientHeight\<close>; 0 while hidden\<close>
  sz_font :: font                          \<comment> \<open>\<open>options.fontFamily\<close>, \<open>options.fontSize\<close>\<close>
  sz_grid :: grid                          \<comment> \<open>\<open>term.cols\<close>, \<open>term.rows\<close>\<close>
  sz_alternate :: bool
  sz_ws :: "nat option"
  sz_status :: "socket_status list"
  sz_sentSizes :: "nat \<rightharpoonup> grid"
  sz_told :: "told list"
  sz_observe :: bool                       \<comment> \<open>the observer has yet to report a change of the box\<close>
  sz_lastObservedRows :: nat
  sz_lastResizeAt :: real
  sz_settle :: bool                        \<comment> \<open>\<open>resizeSettleTimer\<close> is armed\<close>
  sz_nudge :: bool                         \<comment> \<open>\<open>repaintNudgeTimer\<close> is armed\<close>
  sz_probe :: "nat option"
  sz_probeTimers :: nat                    \<comment> \<open>timers that end a probe\<close>
  sz_insetTimers :: "nat list"
  sz_foregroundAt :: int

abbreviation sz_visible :: "sizing \<Rightarrow> bool" where
  "sz_visible s \<equiv> fst (sz_box s) \<noteq> 0 \<and> snd (sz_box s) \<noteq> 0"

definition sizing_init :: "box \<Rightarrow> font \<Rightarrow> grid \<Rightarrow> sizing" where
  "sizing_init b f g = \<lparr>sz_box = b, sz_font = f, sz_grid = g, sz_alternate = False, sz_ws = None, sz_status = [],
     sz_sentSizes = Map.empty, sz_told = [], sz_observe = True, sz_lastObservedRows = snd g, sz_lastResizeAt = 0,
     sz_settle = False, sz_nudge = False, sz_probe = None, sz_probeTimers = 0, sz_insetTimers = [], sz_foregroundAt = 0\<rparr>"

section \<open>Fitting and telling\<close>

definition fitIfVisible :: "(font \<Rightarrow> box \<Rightarrow> grid) \<Rightarrow> sizing \<Rightarrow> sizing" where
  "fitIfVisible fit s = (if \<not> sz_visible s then s else s\<lparr>sz_grid := fit (sz_font s) (sz_box s)\<rparr>)"

definition is_open :: "nat \<Rightarrow> sizing \<Rightarrow> bool" where
  "is_open i s \<longleftrightarrow> i < length (sz_status s) \<and> sz_status s ! i = Open"

definition send_on :: "nat \<Rightarrow> grid \<Rightarrow> sizing \<Rightarrow> sizing" where
  "send_on i g s = s\<lparr>sz_told := sz_told s @ [Resize_Message i g], sz_sentSizes := (sz_sentSizes s)(i \<mapsto> g)\<rparr>"

definition sendSize :: "grid \<Rightarrow> sizing \<Rightarrow> sizing" where
  "sendSize g s = (case sz_ws s of None \<Rightarrow> s | Some i \<Rightarrow> if is_open i s then send_on i g s else s)"

definition already_sent :: "sizing \<Rightarrow> bool" where
  "already_sent s \<longleftrightarrow> (case sz_ws s of None \<Rightarrow> False | Some i \<Rightarrow> sz_sentSizes s i = Some (sz_grid s))"

definition sendResize :: "sizing \<Rightarrow> sizing" where
  "sendResize s = (if already_sent s then s else sendSize (sz_grid s) s)"

section \<open>The font\<close>

text \<open>The new family, once its face is loaded, and the new size.\<close>

definition apply_family :: "(font \<Rightarrow> box \<Rightarrow> grid) \<Rightarrow> ustring \<Rightarrow> sizing \<Rightarrow> sizing" where
  "apply_family fit family s = sendResize (fitIfVisible fit (s\<lparr>sz_font := (family, snd (sz_font s))\<rparr>))"

definition apply_fontSize :: "(font \<Rightarrow> box \<Rightarrow> grid) \<Rightarrow> int \<Rightarrow> sizing \<Rightarrow> sizing" where
  "apply_fontSize fit n s = sendResize (fitIfVisible fit (s\<lparr>sz_font := (fst (sz_font s), n)\<rparr>))"

section \<open>The on-screen keyboard\<close>

definition inset_changed :: "sizing \<Rightarrow> sizing" where
  "inset_changed s = s\<lparr>sz_insetTimers := [250, 600]\<rparr>"

definition inset_timer :: "(font \<Rightarrow> box \<Rightarrow> grid) \<Rightarrow> nat \<Rightarrow> sizing \<Rightarrow> sizing" where
  "inset_timer fit ms s =
     (if ms \<notin> set (sz_insetTimers s) then s
      else sendResize (fitIfVisible fit (s\<lparr>sz_insetTimers := remove1 ms (sz_insetTimers s)\<rparr>)))"

section \<open>The connection and the foreground\<close>

definition size_connect :: "(font \<Rightarrow> box \<Rightarrow> grid) \<Rightarrow> sizing \<Rightarrow> sizing" where
  "size_connect fit s =
     (let s1 = fitIfVisible fit s; i = length (sz_status s1)
      in s1\<lparr>sz_told := sz_told s1 @ [Url_Size i (sz_grid s1)], sz_status := sz_status s1 @ [Opening], sz_ws := Some i\<rparr>)"

definition size_onopen :: "(font \<Rightarrow> box \<Rightarrow> grid) \<Rightarrow> nat \<Rightarrow> sizing \<Rightarrow> sizing" where
  "size_onopen fit i s =
     (let s1 = fitIfVisible fit (s\<lparr>sz_status := (sz_status s)[i := Open]\<rparr>) in send_on i (sz_grid s1) s1)"

definition size_closed :: "nat \<Rightarrow> sizing \<Rightarrow> sizing" where
  "size_closed i s = s\<lparr>sz_status := (sz_status s)[i := Closed]\<rparr>"

definition size_disconnect :: "sizing \<Rightarrow> sizing" where
  "size_disconnect s = (case sz_ws s of None \<Rightarrow> s | Some i \<Rightarrow> (size_closed i s)\<lparr>sz_ws := None\<rparr>)"

definition size_foreground :: "(font \<Rightarrow> box \<Rightarrow> grid) \<Rightarrow> int \<Rightarrow> sizing \<Rightarrow> sizing" where
  "size_foreground fit now s =
     (if now - sz_foregroundAt s < 500 then s
      else let s1 = fitIfVisible fit (s\<lparr>sz_foregroundAt := now\<rparr>)
           in if sz_visible s1 then sendSize (sz_grid s1) s1 else s1)"

section \<open>The container\<close>

definition RESIZE_SETTLE_MS :: real where "RESIZE_SETTLE_MS = 100"

definition applyResize :: "(font \<Rightarrow> box \<Rightarrow> grid) \<Rightarrow> sizing \<Rightarrow> sizing" where
  "applyResize fit s =
     (if \<not> sz_visible s then s
      else let s1 = sendResize (s\<lparr>sz_grid := fit (sz_font s) (sz_box s)\<rparr>)
           in if snd (sz_grid s1) = sz_lastObservedRows s1 then s1
              else s1\<lparr>sz_lastObservedRows := snd (sz_grid s1), sz_probe := Some 0, sz_nudge := True\<rparr>)"

definition nudge_timer :: "sizing \<Rightarrow> sizing" where
  "nudge_timer s =
     (if \<not> sz_nudge s then s
      else let s1 = s\<lparr>sz_nudge := False\<rparr>; (cols, rows) = sz_grid s1
           in if \<not> sz_alternate s1 \<or> rows < 2 then s1\<lparr>sz_probe := None\<rparr>
              else (sendSize (cols, rows) (sendSize (cols, rows - 1) (s1\<lparr>sz_probe := Some 0\<rparr>)))
                     \<lparr>sz_probeTimers := sz_probeTimers s1 + 1\<rparr>)"

definition probe_timer :: "sizing \<Rightarrow> sizing" where
  "probe_timer s =
     (if sz_probeTimers s = 0 then s else s\<lparr>sz_probe := None, sz_probeTimers := sz_probeTimers s - 1\<rparr>)"

definition ws_output :: "nat \<Rightarrow> sizing \<Rightarrow> sizing" where
  "ws_output n s = s\<lparr>sz_probe := map_option (\<lambda>b. b + n) (sz_probe s)\<rparr>"

definition settle_timer :: "(font \<Rightarrow> box \<Rightarrow> grid) \<Rightarrow> sizing \<Rightarrow> sizing" where
  "settle_timer fit s = (if \<not> sz_settle s then s else applyResize fit (s\<lparr>sz_settle := False\<rparr>))"

definition onResize :: "(font \<Rightarrow> box \<Rightarrow> grid) \<Rightarrow> real \<Rightarrow> sizing \<Rightarrow> sizing" where
  "onResize fit now s =
     (let inBurst = now - sz_lastResizeAt s < RESIZE_SETTLE_MS;
          s1 = s\<lparr>sz_lastResizeAt := now, sz_settle := False, sz_observe := False\<rparr>;
          s2 = (if \<not> inBurst then applyResize fit s1 else s1)
      in s2\<lparr>sz_settle := True\<rparr>)"

section \<open>Steps\<close>

text \<open>What happens with nothing new from outside: the observer reports and the timers fire.\<close>

inductive size_timer :: "(font \<Rightarrow> box \<Rightarrow> grid) \<Rightarrow> sizing \<Rightarrow> sizing \<Rightarrow> bool" for fit where
  observed: "sz_observe s \<Longrightarrow> size_timer fit s (onResize fit now s)"
| settled: "sz_settle s \<Longrightarrow> size_timer fit s (settle_timer fit s)"
| nudged: "sz_nudge s \<Longrightarrow> size_timer fit s (nudge_timer s)"
| probed: "sz_probeTimers s \<noteq> 0 \<Longrightarrow> size_timer fit s (probe_timer s)"
| inset: "ms \<in> set (sz_insetTimers s) \<Longrightarrow> size_timer fit s (inset_timer fit ms s)"

inductive size_step :: "(font \<Rightarrow> box \<Rightarrow> grid) \<Rightarrow> sizing \<Rightarrow> sizing \<Rightarrow> bool" for fit where
  timer: "size_timer fit s t \<Longrightarrow> size_step fit s t"
| box: "size_step fit s (s\<lparr>sz_box := b, sz_observe := True\<rparr>)"
| buffer: "size_step fit s (s\<lparr>sz_alternate := b\<rparr>)"
| family: "size_step fit s (apply_family fit f s)"
| fontSize: "size_step fit s (apply_fontSize fit n s)"
| keyboard: "size_step fit s (inset_changed s)"
| connect: "sz_ws s = None \<Longrightarrow> size_step fit s (size_connect fit s)"
| opened: "i < length (sz_status s) \<Longrightarrow> sz_status s ! i = Opening \<Longrightarrow> size_step fit s (size_onopen fit i s)"
| closed: "size_step fit s (size_closed i s)"
| disconnect: "size_step fit s (size_disconnect s)"
| foreground: "size_step fit s (size_foreground fit now s)"
| session: "size_step fit s (s\<lparr>sz_foregroundAt := 0\<rparr>)"
| received: "size_step fit s (ws_output n s)"

inductive size_reach :: "(font \<Rightarrow> box \<Rightarrow> grid) \<Rightarrow> sizing \<Rightarrow> bool" for fit where
  start: "size_reach fit (sizing_init b f g)"
| step: "size_reach fit s \<Longrightarrow> size_step fit s t \<Longrightarrow> size_reach fit t"

end
