(* ===== verification/Size_Properties.thy ===== *)
theory Size_Properties
  imports Terminal_Size
begin

text \<open>
  The PTY ends up with the size of the terminal: whatever changed the container, the font or the
  socket, once the timers have run out the last size the server heard on the open socket is the grid
  that fits the container.
\<close>

section \<open>What the server heard\<close>

fun told_to :: "nat \<Rightarrow> told \<Rightarrow> grid option" where
  "told_to i (Url_Size j g) = (if i = j then Some g else None)"
| "told_to i (Resize_Message j g) = (if i = j then Some g else None)"

definition heard :: "nat \<Rightarrow> told list \<Rightarrow> grid option" where
  "heard i ts = fold (\<lambda>t a. case told_to i t of None \<Rightarrow> a | Some g \<Rightarrow> Some g) ts None"

lemma heard_append [simp]:
  "heard i (ts @ [t]) = (case told_to i t of None \<Rightarrow> heard i ts | Some g \<Rightarrow> Some g)"
  unfolding heard_def by simp

section \<open>The invariant\<close>

definition live_is_ref :: "sizing \<Rightarrow> bool" where
  "live_is_ref s \<longleftrightarrow> (\<forall>i < length (sz_status s). sz_status s ! i \<noteq> Closed \<longrightarrow> sz_ws s = Some i)"

definition told_grid :: "sizing \<Rightarrow> bool" where
  "told_grid s \<longleftrightarrow> (\<forall>i. is_open i s \<longrightarrow> sz_sentSizes s i = Some (sz_grid s) \<and> heard i (sz_told s) = Some (sz_grid s))"

text \<open>The sizes recorded per socket are the ones it was told.\<close>

definition sent_heard :: "sizing \<Rightarrow> bool" where
  "sent_heard s \<longleftrightarrow> (\<forall>i g. sz_sentSizes s i = Some g \<longrightarrow>
     i < length (sz_status s) \<and> heard i (sz_told s) = Some g)"

definition fitted :: "(font \<Rightarrow> box \<Rightarrow> grid) \<Rightarrow> sizing \<Rightarrow> bool" where
  "fitted fit s \<longleftrightarrow> sz_visible s \<longrightarrow> sz_grid s = fit (sz_font s) (sz_box s)"

definition size_ok :: "(font \<Rightarrow> box \<Rightarrow> grid) \<Rightarrow> sizing \<Rightarrow> bool" where
  "size_ok fit s \<longleftrightarrow> live_is_ref s \<and> sent_heard s \<and> told_grid s \<and> (\<not> sz_observe s \<and> \<not> sz_settle s \<longrightarrow> fitted fit s)"

text \<open>What telling leaves alone, and that after it the socket in use has the grid.\<close>

definition same_view :: "sizing \<Rightarrow> sizing \<Rightarrow> bool" where
  "same_view s t \<longleftrightarrow> sz_box t = sz_box s \<and> sz_font t = sz_font s \<and> sz_ws t = sz_ws s \<and> sz_status t = sz_status s"

lemma same_view_refl [simp, intro]: "same_view s s"
  by (simp add: same_view_def)

lemma same_view_trans: "same_view s t \<Longrightarrow> same_view t u \<Longrightarrow> same_view s u"
  by (simp add: same_view_def)

lemma live_is_ref_same: "same_view s t \<Longrightarrow> live_is_ref s = live_is_ref t"
  by (simp add: same_view_def live_is_ref_def)

lemma is_open_same: "same_view s t \<Longrightarrow> is_open i s = is_open i t"
  by (simp add: same_view_def is_open_def)

definition same_timers :: "sizing \<Rightarrow> sizing \<Rightarrow> bool" where
  "same_timers s t \<longleftrightarrow> sz_observe t = sz_observe s \<and> sz_settle t = sz_settle s \<and> sz_nudge t = sz_nudge s
     \<and> sz_probeTimers t = sz_probeTimers s \<and> sz_insetTimers t = sz_insetTimers s \<and> sz_grid t = sz_grid s"

lemma sendSize_keeps: "same_view s (sendSize g s)" "same_timers s (sendSize g s)"
  by (simp_all add: sendSize_def send_on_def same_view_def same_timers_def split: option.split)

lemma sendResize_keeps: "same_view s (sendResize s)" "same_timers s (sendResize s)"
  using sendSize_keeps by (simp_all add: sendResize_def same_timers_def)

lemma open_is_ref: "live_is_ref s \<Longrightarrow> is_open i s \<Longrightarrow> sz_ws s = Some i"
  by (simp add: live_is_ref_def is_open_def)

lemma sendSize_tells:
  assumes "live_is_ref s" "g = sz_grid s"
  shows "told_grid (sendSize g s)"
  unfolding told_grid_def
proof (intro allI impI)
  fix i
  assume "is_open i (sendSize g s)"
  then have o: "is_open i s" using is_open_same [OF sendSize_keeps(1)] by blast
  then show "sz_sentSizes (sendSize g s) i = Some (sz_grid (sendSize g s)) \<and>
      heard i (sz_told (sendSize g s)) = Some (sz_grid (sendSize g s))"
    using open_is_ref [OF assms(1) o] assms(2) by (simp add: sendSize_def send_on_def)
qed

lemma sendSize_sent_heard: "sent_heard s \<Longrightarrow> sent_heard (sendSize g s)"
  by (simp add: sent_heard_def sendSize_def send_on_def is_open_def split: option.split)

lemma sendResize_sent_heard: "sent_heard s \<Longrightarrow> sent_heard (sendResize s)"
  by (simp add: sendResize_def sendSize_sent_heard)

lemma sendResize_tells:
  assumes "live_is_ref s" "sent_heard s"
  shows "told_grid (sendResize s)"
proof (cases "already_sent s")
  case True
  have "sz_sentSizes s i = Some (sz_grid s)" if "is_open i s" for i
    using open_is_ref [OF assms(1) that] True by (simp add: already_sent_def)
  then have "told_grid s" using assms(2) unfolding told_grid_def sent_heard_def by blast
  then show ?thesis using True by (simp add: sendResize_def)
next
  case False
  then show ?thesis using sendSize_tells [OF assms(1) refl] by (simp add: sendResize_def)
qed

section \<open>Every step keeps it\<close>

text \<open>Fitting and telling, however the state was changed before, as long as the sockets are the same.\<close>

lemma fit_tells:
  fixes fit
  assumes "live_is_ref s" "sent_heard s"
  defines "t \<equiv> sendResize (fitIfVisible fit s)"
  shows "told_grid t" "sent_heard t" "live_is_ref t" "fitted fit t" "same_view s t"
    "sz_observe t = sz_observe s" "sz_settle t = sz_settle s" "sz_nudge t = sz_nudge s"
    "sz_probeTimers t = sz_probeTimers s" "sz_insetTimers t = sz_insetTimers s"
proof -
  let ?f = "fitIfVisible fit s"
  have f: "same_view s ?f" "sent_heard ?f" "fitted fit ?f"
    using assms(2) by (auto simp: fitIfVisible_def same_view_def sent_heard_def fitted_def)
  then have l: "live_is_ref ?f" using live_is_ref_same [OF f(1)] assms(1) by blast
  show "told_grid t" unfolding t_def by (rule sendResize_tells [OF l f(2)])
  show "sent_heard t" unfolding t_def by (rule sendResize_sent_heard [OF f(2)])
  show v: "same_view s t" unfolding t_def by (rule same_view_trans [OF f(1) sendResize_keeps(1)])
  show "live_is_ref t" using live_is_ref_same [OF v] assms(1) by blast
  have k: "same_view ?f t" "same_timers ?f t" unfolding t_def by (rule sendResize_keeps)+
  show "fitted fit t" using f(3) k by (simp add: fitted_def same_view_def same_timers_def)
  show "sz_observe t = sz_observe s" "sz_settle t = sz_settle s" "sz_nudge t = sz_nudge s"
    "sz_probeTimers t = sz_probeTimers s" "sz_insetTimers t = sz_insetTimers s"
    using k(2) by (simp_all add: same_timers_def fitIfVisible_def)
qed

lemma told_grid_cong:
  "same_view s r \<Longrightarrow> sz_told r = sz_told s \<Longrightarrow> sz_sentSizes r = sz_sentSizes s \<Longrightarrow> sz_grid r = sz_grid s \<Longrightarrow>
    told_grid r = told_grid s \<and> sent_heard r = sent_heard s \<and> live_is_ref r = live_is_ref s"
  by (simp add: told_grid_def sent_heard_def live_is_ref_def same_view_def is_open_def)

lemma applyResize_visible:
  assumes "sz_visible s"
  shows "applyResize fit s = sendResize (fitIfVisible fit s) \<or>
     (\<exists>r. applyResize fit s =
        (sendResize (fitIfVisible fit s))\<lparr>sz_lastObservedRows := r, sz_probe := Some 0, sz_nudge := True\<rparr>)"
  using assms by (auto simp: applyResize_def fitIfVisible_def Let_def)

lemma applyResize_ok:
  fixes fit
  assumes "live_is_ref s" "sent_heard s" "told_grid s"
  defines "t \<equiv> applyResize fit s"
  shows "told_grid t \<and> sent_heard t \<and> live_is_ref t \<and> fitted fit t \<and> same_view s t \<and> sz_observe t = sz_observe s \<and>
      sz_settle t = sz_settle s \<and> (sz_nudge s \<longrightarrow> sz_nudge t) \<and> sz_probeTimers t = sz_probeTimers s \<and>
      sz_insetTimers t = sz_insetTimers s"
proof (cases "sz_visible s")
  case False
  then have "t = s" by (auto simp: t_def applyResize_def)
  then show ?thesis using False assms(1-3) by (auto simp: fitted_def)
next
  case True
  let ?u = "sendResize (fitIfVisible fit s)"
  note u = fit_tells [OF assms(1,2), of fit]
  from applyResize_visible [OF True, of fit] show ?thesis
  proof
    assume "applyResize fit s = ?u"
    then show ?thesis using u by (simp add: t_def)
  next
    assume "\<exists>r. applyResize fit s = ?u\<lparr>sz_lastObservedRows := r, sz_probe := Some 0, sz_nudge := True\<rparr>"
    then obtain r where r: "t = ?u\<lparr>sz_lastObservedRows := r, sz_probe := Some 0, sz_nudge := True\<rparr>"
      unfolding t_def by blast
    have "told_grid t = told_grid ?u \<and> sent_heard t = sent_heard ?u \<and> live_is_ref t = live_is_ref ?u"
      unfolding r by (rule told_grid_cong) (simp_all add: same_view_def)
    then show ?thesis using u by (simp add: r fitted_def same_view_def)
  qed
qed

lemma size_ok_fit:
  assumes "size_ok fit s" "sz_ws r = sz_ws s" "sz_status r = sz_status s" "sz_told r = sz_told s"
    "sz_sentSizes r = sz_sentSizes s"
  shows "size_ok fit (sendResize (fitIfVisible fit r))"
proof -
  have "live_is_ref r" "sent_heard r"
    using assms by (simp_all add: size_ok_def sent_heard_def live_is_ref_def)
  from fit_tells [OF this, of fit] show ?thesis by (simp add: size_ok_def)
qed

lemma applyResize_size_ok:
  assumes "size_ok fit s" "same_view s r" "sz_told r = sz_told s" "sz_sentSizes r = sz_sentSizes s" "sz_grid r = sz_grid s"
  shows "size_ok fit (applyResize fit r)"
proof -
  have "live_is_ref r" "sent_heard r" "told_grid r"
    using assms(1) told_grid_cong [OF assms(2-5)] by (simp_all add: size_ok_def)
  from applyResize_ok [OF this, of fit] show ?thesis by (simp add: size_ok_def)
qed

lemma onResize_ok:
  assumes "size_ok fit s"
  shows "size_ok fit (onResize fit now s)"
proof -
  let ?r = "s\<lparr>sz_lastResizeAt := now, sz_settle := False, sz_observe := False\<rparr>"
  let ?t = "if \<not> now - sz_lastResizeAt s < RESIZE_SETTLE_MS then applyResize fit ?r else ?r"
  have r: "live_is_ref ?r" "sent_heard ?r" "told_grid ?r"
    using assms told_grid_cong [of s ?r] by (simp_all add: size_ok_def same_view_def)
  have "live_is_ref ?t \<and> sent_heard ?t \<and> told_grid ?t"
    using r applyResize_ok [OF r, of fit] by simp
  moreover have "onResize fit now s = ?t\<lparr>sz_settle := True\<rparr>" by (simp add: onResize_def Let_def)
  ultimately show ?thesis
    using told_grid_cong [of ?t "?t\<lparr>sz_settle := True\<rparr>"] by (simp add: size_ok_def same_view_def)
qed

lemma nudge_timer_ok:
  assumes "size_ok fit s"
  shows "size_ok fit (nudge_timer s)"
proof (cases "\<not> sz_nudge s \<or> \<not> sz_alternate s \<or> snd (sz_grid s) < 2")
  case True
  then have "nudge_timer s = s \<or> nudge_timer s = s\<lparr>sz_nudge := False, sz_probe := None\<rparr>"
    by (cases "sz_grid s") (auto simp: nudge_timer_def Let_def)
  then show ?thesis
    using assms told_grid_cong [of s "s\<lparr>sz_nudge := False, sz_probe := None\<rparr>"]
    by (auto simp: size_ok_def same_view_def fitted_def)
next
  case False
  obtain cols rows where g: "sz_grid s = (cols, rows)" by force
  let ?a = "s\<lparr>sz_nudge := False, sz_probe := Some 0\<rparr>"
  let ?b = "sendSize (cols, rows - 1) ?a"
  let ?c = "sendSize (cols, rows) ?b"
  have t: "nudge_timer s = ?c\<lparr>sz_probeTimers := sz_probeTimers s + 1\<rparr>"
    using False g by (simp add: nudge_timer_def Let_def)
  have a: "live_is_ref ?a" "sent_heard ?a"
    using assms by (simp_all add: size_ok_def live_is_ref_def sent_heard_def)
  have b: "live_is_ref ?b" "sent_heard ?b" "sz_grid ?b = (cols, rows)"
    using a live_is_ref_same [OF sendSize_keeps(1)] sendSize_sent_heard sendSize_keeps(2) [of ?a] g
    by (auto simp: same_timers_def)
  have c: "live_is_ref ?c" "sent_heard ?c" "told_grid ?c"
    using b live_is_ref_same [OF sendSize_keeps(1), of ?b "(cols, rows)"] sendSize_sent_heard [of ?b "(cols, rows)"]
      sendSize_tells [OF b(1) b(3) [symmetric]] by simp_all
  have v: "same_view s ?c" "sz_grid ?c = sz_grid s" "sz_observe ?c = sz_observe s" "sz_settle ?c = sz_settle s"
    using sendSize_keeps [of ?a "(cols, rows - 1)"] sendSize_keeps [of ?b "(cols, rows)"] g
    by (simp_all add: same_view_def same_timers_def)
  then have "\<not> sz_observe ?c \<and> \<not> sz_settle ?c \<longrightarrow> fitted fit ?c"
    using assms by (simp add: size_ok_def fitted_def same_view_def)
  then show ?thesis
    using c unfolding t by (simp add: size_ok_def live_is_ref_def sent_heard_def told_grid_def is_open_def fitted_def)
qed

lemma size_timer_ok:
  assumes "size_ok fit s" "size_timer fit s t"
  shows "size_ok fit t"
  using assms(2)
proof cases
  case (observed now)
  then show ?thesis using onResize_ok [OF assms(1)] by simp
next
  case settled
  then show ?thesis using applyResize_size_ok [OF assms(1)] by (simp add: settle_timer_def same_view_def)
next
  case nudged
  then show ?thesis using nudge_timer_ok [OF assms(1)] by simp
next
  case probed
  then show ?thesis
    using assms(1) by (simp add: probe_timer_def size_ok_def live_is_ref_def sent_heard_def told_grid_def is_open_def fitted_def)
next
  case (inset ms)
  then show ?thesis using size_ok_fit [OF assms(1)] by (simp add: inset_timer_def same_view_def)
qed

lemma size_connect_ok:
  assumes "size_ok fit s" "sz_ws s = None"
  shows "size_ok fit (size_connect fit s)"
proof -
  have closed: "sz_status s ! i = Closed" if "i < length (sz_status s)" for i
    using assms that by (auto simp: size_ok_def live_is_ref_def)
  have "\<not> is_open i (size_connect fit s)" for i
    using closed [of i]
    by (auto simp: is_open_def size_connect_def Let_def fitIfVisible_def nth_append less_Suc_eq)
  moreover have "live_is_ref (size_connect fit s)"
    using closed by (auto simp: live_is_ref_def size_connect_def Let_def fitIfVisible_def nth_append less_Suc_eq)
  moreover have "sent_heard (size_connect fit s)"
    using assms(1) by (fastforce simp: size_ok_def sent_heard_def size_connect_def Let_def fitIfVisible_def)
  ultimately show ?thesis
    by (simp add: size_ok_def told_grid_def) (simp add: fitted_def size_connect_def Let_def fitIfVisible_def)
qed

lemma size_onopen_ok:
  assumes "size_ok fit s" "i < length (sz_status s)" "sz_status s ! i = Opening"
  shows "size_ok fit (size_onopen fit i s)"
proof -
  let ?t = "size_onopen fit i s"
  have ref: "sz_ws s = Some i" using assms by (auto simp: size_ok_def live_is_ref_def)
  have t: "sz_status ?t = (sz_status s)[i := Open]" "sz_ws ?t = Some i" "sz_sentSizes ?t = (sz_sentSizes s)(i \<mapsto> sz_grid ?t)"
    "sz_told ?t = sz_told s @ [Resize_Message i (sz_grid ?t)]"
    using ref by (simp_all add: size_onopen_def Let_def send_on_def fitIfVisible_def)
  have l: "live_is_ref ?t"
    using assms(1) ref by (auto simp: live_is_ref_def t size_ok_def nth_list_update split: if_splits)
  have "told_grid ?t"
    unfolding told_grid_def
  proof (intro allI impI)
    fix j
    assume "is_open j ?t"
    then have "j = i" using open_is_ref [OF l, of j] t(2) by simp
    then show "sz_sentSizes ?t j = Some (sz_grid ?t) \<and> heard j (sz_told ?t) = Some (sz_grid ?t)"
      by (simp add: t(3,4))
  qed
  moreover have "sent_heard ?t"
    using assms(1,2) by (simp add: sent_heard_def t size_ok_def)
  moreover have "fitted fit ?t" by (simp add: fitted_def size_onopen_def Let_def fitIfVisible_def send_on_def)
  ultimately show ?thesis using l by (simp add: size_ok_def)
qed

lemma still_live:
  "j < length xs \<Longrightarrow> xs[i := Closed] ! j \<noteq> Closed \<Longrightarrow> j \<noteq> i \<and> xs[i := Closed] ! j = xs ! j"
  by (cases "j = i") simp_all

lemma closed_keeps:
  "sz_ws (size_closed i s) = sz_ws s" "sz_sentSizes (size_closed i s) = sz_sentSizes s" "sz_told (size_closed i s) = sz_told s"
  "sz_grid (size_closed i s) = sz_grid s" "sz_box (size_closed i s) = sz_box s" "sz_font (size_closed i s) = sz_font s"
  "sz_observe (size_closed i s) = sz_observe s" "sz_settle (size_closed i s) = sz_settle s"
  by (simp_all add: size_closed_def)

lemma closed_open: "is_open j (size_closed i s) \<Longrightarrow> is_open j s \<and> j \<noteq> i"
  using still_live [of j "sz_status s" i] by (auto simp: is_open_def size_closed_def)

lemma closed_live: "live_is_ref s \<Longrightarrow> live_is_ref (size_closed i s)"
  using still_live [of _ "sz_status s" i] by (fastforce simp: live_is_ref_def size_closed_def)

lemma closed_sent: "sent_heard s \<Longrightarrow> sent_heard (size_closed i s)"
  by (simp add: sent_heard_def size_closed_def)

lemma size_closed_ok: "size_ok fit s \<Longrightarrow> size_ok fit (size_closed i s)"
  using closed_open [of _ i s] closed_live [of s i] closed_sent [of s i]
  unfolding size_ok_def told_grid_def fitted_def closed_keeps by blast

lemma size_disconnect_ok:
  assumes "size_ok fit s"
  shows "size_ok fit (size_disconnect s)"
proof (cases "sz_ws s")
  case (Some i)
  let ?c = "size_closed i s"
  have t: "size_disconnect s = ?c\<lparr>sz_ws := None\<rparr>" by (simp add: size_disconnect_def Some)
  have c: "size_ok fit ?c" by (rule size_closed_ok [OF assms])
  have all: "sz_status ?c ! j = Closed" if "j < length (sz_status ?c)" for j
  proof (rule ccontr)
    assume n: "sz_status ?c ! j \<noteq> Closed"
    then have "sz_ws ?c = Some j" using c that by (simp add: size_ok_def live_is_ref_def)
    then show False using still_live [of j "sz_status s" i] that n Some by (simp add: size_closed_def)
  qed
  then have "live_is_ref (size_disconnect s)" "\<And>j. \<not> is_open j (size_disconnect s)"
    by (auto simp: t live_is_ref_def is_open_def)
  moreover have "sent_heard (size_disconnect s)" using c by (simp add: t size_ok_def sent_heard_def)
  ultimately show ?thesis using c by (simp add: size_ok_def told_grid_def) (simp add: t fitted_def)
qed (use assms in \<open>simp add: size_disconnect_def\<close>)

lemma size_foreground_ok:
  assumes "size_ok fit s"
  shows "size_ok fit (size_foreground fit now s)"
proof -
  let ?r = "s\<lparr>sz_foregroundAt := now\<rparr>"
  let ?f = "fitIfVisible fit ?r"
  have r: "size_ok fit ?r"
    using assms told_grid_cong [of s ?r] by (simp add: size_ok_def same_view_def fitted_def)
  have "size_ok fit (sendSize (sz_grid ?f) ?f)"
  proof -
    have f: "live_is_ref ?f" "sent_heard ?f" "fitted fit ?f"
      using r by (auto simp: fitIfVisible_def size_ok_def live_is_ref_def sent_heard_def fitted_def)
    have k: "same_view ?f (sendSize (sz_grid ?f) ?f)" "same_timers ?f (sendSize (sz_grid ?f) ?f)"
      by (rule sendSize_keeps)+
    have "fitted fit (sendSize (sz_grid ?f) ?f)"
      using f(3) k unfolding fitted_def same_view_def same_timers_def by metis
    then show ?thesis
      using f live_is_ref_same [OF k(1)] sendSize_sent_heard [OF f(2)] sendSize_tells [OF f(1) refl] by (simp add: size_ok_def)
  qed
  moreover have "size_ok fit ?f" if "\<not> sz_visible ?f" using that r by (auto simp: fitIfVisible_def)
  ultimately show ?thesis using assms by (simp add: size_foreground_def Let_def)
qed

lemma size_step_ok:
  assumes "size_ok fit s" "size_step fit s t"
  shows "size_ok fit t"
  using assms(2)
proof cases
  case timer
  then show ?thesis using size_timer_ok [OF assms(1)] by simp
next
  case (family f)
  then show ?thesis using size_ok_fit [OF assms(1)] by (simp add: apply_family_def)
next
  case (fontSize n)
  then show ?thesis using size_ok_fit [OF assms(1)] by (simp add: apply_fontSize_def)
next
  case connect
  then show ?thesis using size_connect_ok [OF assms(1)] by simp
next
  case (opened i)
  then show ?thesis using size_onopen_ok [OF assms(1)] by simp
next
  case (closed i)
  then show ?thesis using size_closed_ok [OF assms(1)] by simp
next
  case disconnect
  then show ?thesis using size_disconnect_ok [OF assms(1)] by simp
next
  case (foreground now)
  then show ?thesis using size_foreground_ok [OF assms(1)] by simp
qed (use assms(1) in \<open>simp_all add: size_ok_def live_is_ref_def sent_heard_def told_grid_def is_open_def fitted_def
       inset_changed_def ws_output_def\<close>)

lemma size_reach_ok: "size_reach fit s \<Longrightarrow> size_ok fit s"
proof (induction rule: size_reach.induct)
  case (start b f g)
  show ?case by (simp add: size_ok_def sizing_init_def live_is_ref_def sent_heard_def told_grid_def is_open_def)
qed (rule size_step_ok)

section \<open>The timers run out\<close>

definition timer_weight :: "sizing \<Rightarrow> nat" where
  "timer_weight s = (if sz_observe s then 6 else 0) + (if sz_settle s then 3 else 0) + (if sz_nudge s then 2 else 0)
     + sz_probeTimers s + length (sz_insetTimers s)"

lemma applyResize_timers:
  "same_view s (applyResize fit s) \<and> sz_observe (applyResize fit s) = sz_observe s \<and>
   sz_settle (applyResize fit s) = sz_settle s \<and> sz_probeTimers (applyResize fit s) = sz_probeTimers s \<and>
   sz_insetTimers (applyResize fit s) = sz_insetTimers s"
proof (cases "sz_visible s")
  case True
  let ?u = "sendResize (fitIfVisible fit s)"
  have f: "same_view s (fitIfVisible fit s)" by (simp add: fitIfVisible_def same_view_def)
  have v: "same_view s ?u" by (rule same_view_trans [OF f sendResize_keeps(1)])
  have "sz_observe ?u = sz_observe s" "sz_settle ?u = sz_settle s" "sz_probeTimers ?u = sz_probeTimers s"
    "sz_insetTimers ?u = sz_insetTimers s"
    using sendResize_keeps(2) [of "fitIfVisible fit s"] unfolding same_timers_def by (simp_all add: fitIfVisible_def)
  note u = v this
  from applyResize_visible [OF True, of fit] show ?thesis
  proof
    assume "applyResize fit s = ?u"
    then show ?thesis using u by simp
  next
    assume "\<exists>r. applyResize fit s = ?u\<lparr>sz_lastObservedRows := r, sz_probe := Some 0, sz_nudge := True\<rparr>"
    then obtain r where "applyResize fit s = ?u\<lparr>sz_lastObservedRows := r, sz_probe := Some 0, sz_nudge := True\<rparr>" ..
    then show ?thesis using u by (simp add: same_view_def)
  qed
qed (simp add: applyResize_def)

lemma nudge_timers:
  assumes "sz_nudge s"
  shows "same_view s (nudge_timer s) \<and> sz_observe (nudge_timer s) = sz_observe s \<and> sz_settle (nudge_timer s) = sz_settle s
    \<and> \<not> sz_nudge (nudge_timer s) \<and> sz_probeTimers (nudge_timer s) \<le> sz_probeTimers s + 1
    \<and> sz_insetTimers (nudge_timer s) = sz_insetTimers s"
proof -
  obtain cols rows where g: "sz_grid s = (cols, rows)" by force
  let ?a = "s\<lparr>sz_nudge := False, sz_probe := Some 0\<rparr>"
  let ?c = "sendSize (cols, rows) (sendSize (cols, rows - 1) ?a)"
  have c: "same_view s ?c" "same_timers ?a ?c"
    using sendSize_keeps [of ?a "(cols, rows - 1)"] sendSize_keeps [of "sendSize (cols, rows - 1) ?a" "(cols, rows)"]
    by (simp_all add: same_view_def same_timers_def)
  show ?thesis
  proof (cases "\<not> sz_alternate s \<or> rows < 2")
    case True
    then show ?thesis using assms g by (simp add: nudge_timer_def Let_def same_view_def)
  next
    case False
    then have "nudge_timer s = ?c\<lparr>sz_probeTimers := sz_probeTimers s + 1\<rparr>"
      using assms g by (simp add: nudge_timer_def Let_def)
    then show ?thesis using c by (simp add: same_view_def same_timers_def)
  qed
qed

lemma size_timer_progress:
  assumes "size_timer fit s t"
  shows "same_view s t \<and> timer_weight t < timer_weight s"
  using assms
proof cases
  case (observed now)
  let ?r = "s\<lparr>sz_lastResizeAt := now, sz_settle := False, sz_observe := False\<rparr>"
  show ?thesis
    using observed applyResize_timers [of ?r fit]
    by (simp add: onResize_def Let_def timer_weight_def same_view_def)
next
  case settled
  then show ?thesis
    using applyResize_timers [of "s\<lparr>sz_settle := False\<rparr>" fit]
    by (simp add: settle_timer_def timer_weight_def same_view_def)
next
  case nudged
  then show ?thesis using nudge_timers [of s] by (simp add: timer_weight_def)
next
  case probed
  then show ?thesis by (simp add: probe_timer_def timer_weight_def same_view_def)
next
  case (inset ms)
  let ?r = "s\<lparr>sz_insetTimers := remove1 ms (sz_insetTimers s)\<rparr>"
  have "same_view ?r (sendResize (fitIfVisible fit ?r)) \<and> same_timers (fitIfVisible fit ?r) (sendResize (fitIfVisible fit ?r))"
    using sendResize_keeps [of "fitIfVisible fit ?r"] by (simp add: fitIfVisible_def same_view_def)
  moreover have "length (remove1 ms (sz_insetTimers s)) < length (sz_insetTimers s)"
    using length_pos_if_in_set [OF inset(2)] inset(2) by (simp add: length_remove1)
  ultimately show ?thesis
    using inset by (simp add: inset_timer_def timer_weight_def same_view_def same_timers_def fitIfVisible_def)
qed

text \<open>C25: The PTY ends up with the terminal's size. Whatever changed the container, the font, the keyboard
  or the socket before, the observer and the timers run out after at most \<open>timer_weight\<close> of
  them, in any order; then, if the terminal is shown and the socket in use is open, the grid fits the
  container and is the last size the server heard on that socket.\<close>
theorem pty_size_settles:
  assumes "size_reach fit s" "(size_timer fit ^^ n) s t"
  shows "n \<le> timer_weight s \<and>
    ((\<nexists>u. size_timer fit t u) \<and> sz_visible t \<and> is_open i t \<longrightarrow>
       sz_ws t = Some i \<and> sz_grid t = fit (sz_font s) (sz_box s) \<and> heard i (sz_told t) = Some (sz_grid t))"
proof -
  have run: "size_ok fit t \<and> same_view s t \<and> timer_weight t + n \<le> timer_weight s"
    using assms(2)
  proof (induction n arbitrary: t)
    case 0
    then show ?case using size_reach_ok [OF assms(1)] by simp
  next
    case (Suc n)
    then obtain u where u: "(size_timer fit ^^ n) s u" "size_timer fit u t" by auto
    then show ?case
      using Suc.IH [OF u(1)] size_timer_ok [OF _ u(2)] size_timer_progress [OF u(2)] same_view_trans by fastforce
  qed
  have "\<not> sz_observe t" "\<not> sz_settle t" if "\<nexists>u. size_timer fit t u"
    using that size_timer.observed [of t fit 0] size_timer.settled [of t fit] by blast+
  then show ?thesis
    using run open_is_ref [of t i] by (auto simp: size_ok_def told_grid_def fitted_def same_view_def)
qed

text \<open>The keyboard opens over a full-screen application: the row count changes, the size settles.\<close>

definition demo_fit :: "font \<Rightarrow> box \<Rightarrow> grid" where
  "demo_fit f b = (fst b div 8, snd b div 16)"

theorem pty_size_settles_witness:
  "let s = size_onopen demo_fit 0 (size_connect demo_fit (sizing_init (800, 480) ([], 14) (80, 24)));
       t = settle_timer demo_fit (onResize demo_fit 1000 (s\<lparr>sz_box := (800, 240), sz_observe := True\<rparr>));
       u = probe_timer (nudge_timer t)
   in sz_grid u = (100, 15) \<and> heard 0 (sz_told u) = Some (100, 15)"
proof -
  let ?i = "sizing_init (800, 480) ([], 14) (80, 24)"
  let ?s = "size_onopen demo_fit 0 (size_connect demo_fit ?i)"
  let ?b = "?s\<lparr>sz_box := (800, 240), sz_observe := True\<rparr>"
  let ?o = "onResize demo_fit 1000 ?b"
  let ?t = "settle_timer demo_fit ?o"
  let ?n = "nudge_timer ?t"
  note defs = size_onopen_def size_connect_def sizing_init_def fitIfVisible_def send_on_def demo_fit_def onResize_def
    applyResize_def sendResize_def already_sent_def sendSize_def is_open_def settle_timer_def nudge_timer_def RESIZE_SETTLE_MS_def
  have "size_reach demo_fit (size_connect demo_fit ?i)"
    by (rule size_reach.step [OF size_reach.start]) (rule size_step.connect, simp add: sizing_init_def)
  then have "size_reach demo_fit ?s"
    by (rule size_reach.step) (rule size_step.opened, simp_all add: defs Let_def)
  then have b: "size_reach demo_fit ?b" by (rule size_reach.step) (rule size_step.box)
  have o: "size_timer demo_fit ?b ?o" by (rule size_timer.observed) simp
  have t: "size_timer demo_fit ?o ?t" by (rule size_timer.settled) (simp add: onResize_def Let_def)
  have n: "size_timer demo_fit ?t ?n" by (rule size_timer.nudged) (simp add: defs Let_def)
  have quiet: "sz_observe ?n = False" "sz_settle ?n = False" "sz_nudge ?n = False" "sz_probeTimers ?n = 0"
    "sz_insetTimers ?n = []" "sz_visible ?n" "is_open 0 ?n"
    by (simp_all add: defs Let_def)
  have "\<nexists>u. size_timer demo_fit ?n u"
    using quiet by (auto elim!: size_timer.cases)
  moreover have "(size_timer demo_fit ^^ 3) ?b ?n"
    using o t n by (auto simp: numeral_3_eq_3)
  ultimately have "sz_grid ?n = (100, 15) \<and> heard 0 (sz_told ?n) = Some (sz_grid ?n)"
    using pty_size_settles [OF b, of 3 ?n 0] quiet(6,7) by (simp add: demo_fit_def)
  then show ?thesis using quiet(4) by (simp add: Let_def probe_timer_def)
qed

text \<open>Inside a burst the observer sends nothing: it only starts the wait again.\<close>

lemma burst_sends_nothing:
  "now - sz_lastResizeAt s < RESIZE_SETTLE_MS \<Longrightarrow>
    sz_told (onResize fit now s) = sz_told s \<and> sz_grid (onResize fit now s) = sz_grid s \<and> sz_settle (onResize fit now s)"
  by (simp add: onResize_def Let_def)

end
