(* ===== verification/File_Manager.thy ===== *)
theory File_Manager
  imports Api_Types Api_Client
begin

text \<open>
  The file manager (\<open>components/FileManager/FileManager.tsx\<close> with its table and destination dialog):
  the folder shown, its listing and the selection, and the operations on files with their overwrite
  questions.

  A request that was sent is recorded; a promise still to be answered carries what its continuation
  closes over, among that the folder shown when it was made: the \<open>load()\<close> of a continuation is the
  one of that render. Message texts are constructors.
\<close>

section \<open>Paths\<close>

definition dirnamePosix :: "ustring \<Rightarrow> ustring" where
  "dirnamePosix p = (let d = join_with U_SLASH (butlast (split_on U_SLASH p)) in if d = [] then [U_SLASH] else d)"

definition joinPath :: "ustring \<Rightarrow> ustring \<Rightarrow> ustring" where
  "joinPath dir name = (if dir = [U_SLASH] then U_SLASH # name else dir @ U_SLASH # name)"

definition basenamePosix :: "ustring \<Rightarrow> ustring" where
  "basenamePosix p = (let b = last (split_on U_SLASH p) in if b = [] then p else b)"

section \<open>State\<close>

datatype crumb_label = Home_Label | Root_Label | Named ustring

record crumb =
  cr_label :: crumb_label
  cr_path :: "ustring option"

datatype bulk_mode = Move | Copy

record upload_file =
  uf_name :: ustring
  uf_body :: "nat list"

datatype fm_message =
    Failed api_error
  | Failures "(ustring \<times> ustring option) list"
  | No_Directory
  | Upload_Refused nat

datatype upload_summary = Uploaded nat "(ustring \<times> ustring option) list"

datatype fm_request =
    Rq_List "ustring option"
  | Rq_Home
  | Rq_Rename ustring ustring bool
  | Rq_Delete "ustring list"
  | Rq_Mkdir ustring
  | Rq_Upload ustring bool "upload_file list"
  | Rq_Bulk bulk_mode "ustring list" ustring bool

text \<open>What follows the \<open>await load()\<close> of a handler.\<close>

datatype fm_then = Nothing_More | Rename_Done | Delete_Done | Mkdir_Done | Upload_Done | Bulk_Done

datatype fm_await =
    Aw_List "ustring option" fm_then
  | Aw_Home
  | Aw_Rename file_entry ustring bool "ustring option"
  | Aw_Delete "ustring option"
  | Aw_Mkdir "ustring option"
  | Aw_Upload ustring "upload_file list" "ustring option"
  | Aw_Bulk bulk_mode ustring "ustring option"

record fm =
  fm_stack :: "crumb list"
  fm_entries :: "file_entry list"
  fm_loading :: bool
  fm_error :: "fm_message option"
  fm_selected :: "ustring list"            \<comment> \<open>a \<open>Set\<close>, in insertion order\<close>
  fm_root :: "ustring option"              \<comment> \<open>\<open>resolvedRootPath\<close>\<close>
  fm_info :: "file_entry option"
  fm_editing :: "file_entry option"
  fm_renaming :: "ustring option"
  fm_renameBusy :: bool
  fm_mkdirOpen :: bool
  fm_mkdirName :: ustring
  fm_mkdirBusy :: bool
  fm_uploading :: bool
  fm_uploadSummary :: "upload_summary option"
  fm_bulkMode :: "bulk_mode option"
  fm_renameConflict :: "(file_entry \<times> ustring) option"
  fm_uploadConflict :: "upload_file list option"
  fm_bulkConflict :: "(bulk_mode \<times> ustring \<times> ustring list) option"
  fm_confirmDelete :: "ustring list option"
  fm_deleteBusy :: bool
  fm_bulkBusy :: bool
  fm_sent :: "fm_request list"
  fm_awaits :: "fm_await list"

definition currentPath :: "fm \<Rightarrow> ustring option" where
  "currentPath s = cr_path (last (fm_stack s))"

definition currentDirPath :: "fm \<Rightarrow> ustring option" where
  "currentDirPath s = (case currentPath s of Some p \<Rightarrow> Some p | None \<Rightarrow> fm_root s)"

definition issue :: "fm_request \<Rightarrow> fm_await \<Rightarrow> fm \<Rightarrow> fm" where
  "issue r a s = s\<lparr>fm_sent := fm_sent s @ [r], fm_awaits := fm_awaits s @ [a]\<rparr>"

section \<open>The listing\<close>

definition list_query :: "ustring option \<Rightarrow> ustring option" where
  "list_query p = (if p = Some [] then None else p)"

definition fm_load :: "ustring option \<Rightarrow> fm_then \<Rightarrow> fm \<Rightarrow> fm" where
  "fm_load cur th s = issue (Rq_List (list_query cur)) (Aw_List cur th) (s\<lparr>fm_loading := True\<rparr>)"

fun fm_finish :: "fm_then \<Rightarrow> fm \<Rightarrow> fm" where
  "fm_finish Nothing_More s = s"
| "fm_finish Rename_Done s = s\<lparr>fm_renameBusy := False\<rparr>"
| "fm_finish Delete_Done s = s\<lparr>fm_deleteBusy := False, fm_confirmDelete := None\<rparr>"
| "fm_finish Mkdir_Done s = s\<lparr>fm_mkdirBusy := False\<rparr>"
| "fm_finish Upload_Done s = s\<lparr>fm_uploading := False\<rparr>"
| "fm_finish Bulk_Done s = s\<lparr>fm_bulkBusy := False\<rparr>"

definition list_answered :: "ustring option \<Rightarrow> fm_then \<Rightarrow> api_error + file_entry list \<Rightarrow> fm \<Rightarrow> fm" where
  "list_answered cur th r s =
     fm_finish th
       ((case r of
           Inl e \<Rightarrow> s\<lparr>fm_error := Some (Failed e)\<rparr>
         | Inr es \<Rightarrow>
             let s1 = s\<lparr>fm_entries := es, fm_error := None\<rparr>
             in (if cur = None \<and> es \<noteq> [] then s1\<lparr>fm_root := Some (dirnamePosix (fe_path (hd es)))\<rparr> else s1))
        \<lparr>fm_loading := False\<rparr>)"

text \<open>The effects that run when the folder shown changes.\<close>

definition set_stack :: "crumb list \<Rightarrow> fm \<Rightarrow> fm" where
  "set_stack st s =
     (let s1 = s\<lparr>fm_stack := st\<rparr>
      in if currentPath s1 = currentPath s then s1
         else (fm_load (currentPath s1) Nothing_More s1)\<lparr>fm_selected := []\<rparr>)"

definition fm_mount :: "ustring option \<Rightarrow> fm" where
  "fm_mount initialPath =
     (let home = \<lparr>cr_label = Home_Label, cr_path = None\<rparr>;
          st = (case initialPath of
                  Some p \<Rightarrow> if p = [] then [home] else [home, \<lparr>cr_label = Named (basenamePosix p), cr_path = Some p\<rparr>]
                | None \<Rightarrow> [home]);
          s = \<lparr>fm_stack = st, fm_entries = [], fm_loading = True, fm_error = None, fm_selected = [], fm_root = None,
               fm_info = None, fm_editing = None, fm_renaming = None, fm_renameBusy = False, fm_mkdirOpen = False,
               fm_mkdirName = [], fm_mkdirBusy = False, fm_uploading = False, fm_uploadSummary = None,
               fm_bulkMode = None, fm_renameConflict = None, fm_uploadConflict = None, fm_bulkConflict = None,
               fm_confirmDelete = None, fm_deleteBusy = False, fm_bulkBusy = False, fm_sent = [], fm_awaits = []\<rparr>
      in issue Rq_Home Aw_Home (fm_load (currentPath s) Nothing_More s))"

definition home_answered :: "api_error + (ustring \<times> ustring) \<Rightarrow> fm \<Rightarrow> fm" where
  "home_answered r s =
     (case r of
        Inl e \<Rightarrow> s
      | Inr (rt, home) \<Rightarrow>
          if rt = home then s
          else case fm_stack s of
                 c # cs \<Rightarrow> if cr_path c = None
                           then set_stack (\<lparr>cr_label = Root_Label, cr_path = Some rt\<rparr> # c # cs) s else s
               | [] \<Rightarrow> s)"

definition openDir :: "file_entry \<Rightarrow> fm \<Rightarrow> fm" where
  "openDir e s = set_stack (fm_stack s @ [\<lparr>cr_label = Named (fe_name e), cr_path = Some (fe_path e)\<rparr>]) s"

definition navigateToCrumb :: "nat \<Rightarrow> fm \<Rightarrow> fm" where
  "navigateToCrumb i s = set_stack (take (i + 1) (fm_stack s)) s"

section \<open>The selection\<close>

definition toggleSelect :: "ustring \<Rightarrow> fm \<Rightarrow> fm" where
  "toggleSelect p s =
     s\<lparr>fm_selected := (if p \<in> set (fm_selected s) then removeAll p (fm_selected s) else fm_selected s @ [p])\<rparr>"

definition as_set :: "'a list \<Rightarrow> 'a list" where
  "as_set xs = rev (remdups (rev xs))"

definition toggleSelectAll :: "fm \<Rightarrow> fm" where
  "toggleSelectAll s =
     s\<lparr>fm_selected := (if length (fm_selected s) = length (fm_entries s) then []
                       else as_set (map fe_path (fm_entries s)))\<rparr>"

section \<open>Renaming\<close>

definition conflict :: "api_error \<Rightarrow> bool" where
  "conflict e \<longleftrightarrow> (case e of ApiError st m \<Rightarrow> st = 409 | OtherError m \<Rightarrow> False)"

definition submitRename :: "file_entry \<Rightarrow> ustring \<Rightarrow> bool \<Rightarrow> fm \<Rightarrow> fm" where
  "submitRename e n overwrite s =
     (if n = [] \<or> n = fe_name e then s\<lparr>fm_renaming := None\<rparr>
      else issue (Rq_Rename (fe_path e) n overwrite) (Aw_Rename e n overwrite (currentPath s)) (s\<lparr>fm_renameBusy := True\<rparr>))"

definition rename_answered :: "file_entry \<Rightarrow> ustring \<Rightarrow> bool \<Rightarrow> ustring option \<Rightarrow> api_error option \<Rightarrow> fm \<Rightarrow> fm" where
  "rename_answered e n overwrite cur r s =
     (case r of
        None \<Rightarrow> fm_load cur Rename_Done (s\<lparr>fm_renaming := None, fm_renameConflict := None, fm_error := None\<rparr>)
      | Some err \<Rightarrow>
          fm_finish Rename_Done
            (if conflict err \<and> \<not> overwrite then s\<lparr>fm_renameConflict := Some (e, n)\<rparr>
             else s\<lparr>fm_renameConflict := None, fm_error := Some (Failed err)\<rparr>))"

definition confirm_rename :: "fm \<Rightarrow> fm" where
  "confirm_rename s = (case fm_renameConflict s of None \<Rightarrow> s | Some (e, n) \<Rightarrow> submitRename e n True s)"

section \<open>Deleting\<close>

definition failed_ops :: "file_op_result list \<Rightarrow> file_op_result list" where
  "failed_ops rs = filter (\<lambda>r. \<not> fo_ok r \<and> \<not> fo_exists r) rs"

definition summarizeFailures :: "file_op_result list \<Rightarrow> fm_message option" where
  "summarizeFailures rs =
     (if failed_ops rs = [] then None else Some (Failures (map (\<lambda>r. (fo_path r, fo_error r)) (failed_ops rs))))"

definition handleDelete :: "ustring list \<Rightarrow> fm \<Rightarrow> fm" where
  "handleDelete ps s =
     (if ps = [] then s else issue (Rq_Delete ps) (Aw_Delete (currentPath s)) (s\<lparr>fm_deleteBusy := True\<rparr>))"

definition delete_answered :: "ustring option \<Rightarrow> api_error + file_op_result list \<Rightarrow> fm \<Rightarrow> fm" where
  "delete_answered cur r s =
     (case r of
        Inr rs \<Rightarrow> fm_load cur Delete_Done (s\<lparr>fm_error := summarizeFailures rs, fm_selected := []\<rparr>)
      | Inl e \<Rightarrow> fm_finish Delete_Done (s\<lparr>fm_error := Some (Failed e)\<rparr>))"

definition confirm_delete :: "fm \<Rightarrow> fm" where
  "confirm_delete s = (case fm_confirmDelete s of None \<Rightarrow> s | Some ps \<Rightarrow> handleDelete ps s)"

section \<open>New folders\<close>

definition submitMkdir :: "fm \<Rightarrow> fm" where
  "submitMkdir s =
     (let name = trim (fm_mkdirName s)
      in case currentDirPath s of
           None \<Rightarrow> s
         | Some dir \<Rightarrow> if name = [] then s
             else issue (Rq_Mkdir (joinPath dir name)) (Aw_Mkdir (currentPath s)) (s\<lparr>fm_mkdirBusy := True\<rparr>))"

definition mkdir_answered :: "ustring option \<Rightarrow> api_error option \<Rightarrow> fm \<Rightarrow> fm" where
  "mkdir_answered cur r s =
     (case r of
        None \<Rightarrow> fm_load cur Mkdir_Done (s\<lparr>fm_mkdirOpen := False, fm_mkdirName := [], fm_error := None\<rparr>)
      | Some e \<Rightarrow> fm_finish Mkdir_Done (s\<lparr>fm_error := Some (Failed e)\<rparr>))"

section \<open>Uploads\<close>

definition handleUpload :: "upload_file list \<Rightarrow> bool \<Rightarrow> fm \<Rightarrow> fm" where
  "handleUpload files overwrite s =
     (case currentDirPath s of
        None \<Rightarrow> s\<lparr>fm_error := Some No_Directory\<rparr>
      | Some dir \<Rightarrow> issue (Rq_Upload dir overwrite files) (Aw_Upload dir files (currentPath s))
                      (s\<lparr>fm_uploading := True, fm_uploadSummary := None\<rparr>))"

definition existing_files :: "file_upload_result list \<Rightarrow> upload_file list \<Rightarrow> upload_file list" where
  "existing_files rs files = filter (\<lambda>f. uf_name f \<in> set (map fu_name (filter fu_exists rs))) files"

text \<open>\<open>fetch\<close> may fail, answer with an error status, or with the results.\<close>

datatype upload_answer = Fetch_Failed api_error | Not_Ok nat | Upload_Results "file_upload_result list"

definition upload_answered :: "upload_file list \<Rightarrow> ustring option \<Rightarrow> upload_answer \<Rightarrow> fm \<Rightarrow> fm" where
  "upload_answered files cur r s =
     (case r of
        Fetch_Failed e \<Rightarrow> fm_finish Upload_Done (s\<lparr>fm_error := Some (Failed e)\<rparr>)
      | Not_Ok st \<Rightarrow> fm_finish Upload_Done (s\<lparr>fm_error := Some (Upload_Refused st)\<rparr>)
      | Upload_Results rs \<Rightarrow>
          fm_load cur Upload_Done
            (s\<lparr>fm_uploadSummary := Some (Uploaded (length (filter fu_ok rs))
                 (map (\<lambda>r. (fu_name r, fu_error r)) (filter (\<lambda>r. \<not> fu_ok r \<and> \<not> fu_exists r) rs))),
               fm_uploadConflict := (if filter fu_exists rs \<noteq> [] then Some (existing_files rs files) else None),
               fm_error := None\<rparr>))"

definition confirm_upload :: "fm \<Rightarrow> fm" where
  "confirm_upload s =
     (case fm_uploadConflict s of None \<Rightarrow> s
      | Some files \<Rightarrow> handleUpload files True (s\<lparr>fm_uploadConflict := None\<rparr>))"

section \<open>Moving and copying\<close>

definition submitBulk :: "ustring \<Rightarrow> bulk_mode option \<Rightarrow> ustring list \<Rightarrow> bool \<Rightarrow> fm \<Rightarrow> fm" where
  "submitBulk dest mode items overwrite s =
     (case mode of
        None \<Rightarrow> s
      | Some m \<Rightarrow> issue (Rq_Bulk m items dest overwrite) (Aw_Bulk m dest (currentPath s)) (s\<lparr>fm_bulkBusy := True\<rparr>))"

definition existing_items :: "file_op_result list \<Rightarrow> ustring list" where
  "existing_items rs = map fo_path (filter fo_exists rs)"

definition bulk_answered :: "bulk_mode \<Rightarrow> ustring \<Rightarrow> ustring option \<Rightarrow> api_error + file_op_result list \<Rightarrow> fm \<Rightarrow> fm" where
  "bulk_answered m dest cur r s =
     (case r of
        Inr rs \<Rightarrow>
          fm_load cur Bulk_Done
            (s\<lparr>fm_error := summarizeFailures rs,
               fm_bulkConflict := (if existing_items rs \<noteq> [] then Some (m, dest, existing_items rs) else None),
               fm_bulkMode := None, fm_selected := []\<rparr>)
      | Inl e \<Rightarrow> fm_finish Bulk_Done (s\<lparr>fm_error := Some (Failed e)\<rparr>))"

definition confirm_bulk :: "fm \<Rightarrow> fm" where
  "confirm_bulk s =
     (case fm_bulkConflict s of None \<Rightarrow> s
      | Some (m, dest, items) \<Rightarrow> submitBulk dest (Some m) items True (s\<lparr>fm_bulkConflict := None\<rparr>))"

text \<open>The destination dialog: what its button does, and when it is disabled.\<close>

definition drop_slashes :: "ustring \<Rightarrow> ustring" where
  "drop_slashes p = rev (dropWhile (\<lambda>u. u = U_SLASH) (rev p))"

definition sameDir :: "ustring \<Rightarrow> ustring \<Rightarrow> bool" where
  "sameDir dest initialDir \<longleftrightarrow> drop_slashes (trim dest) = drop_slashes initialDir"

definition choose_destination :: "ustring \<Rightarrow> ustring \<Rightarrow> fm \<Rightarrow> fm" where
  "choose_destination initialDir dest s =
     (if fm_bulkBusy s \<or> trim dest = [] \<or> fm_bulkMode s = Some Move \<and> sameDir dest initialDir then s
      else submitBulk (trim dest) (fm_bulkMode s) (fm_selected s) False s)"

section \<open>Steps\<close>

datatype fm_answer =
    An_List "api_error + file_entry list"
  | An_Home "api_error + (ustring \<times> ustring)"
  | An_Done "api_error option"
  | An_Results "api_error + file_op_result list"
  | An_Upload upload_answer

fun fm_answered :: "fm_await \<Rightarrow> fm_answer \<Rightarrow> fm \<Rightarrow> fm option" where
  "fm_answered (Aw_List cur th) (An_List r) s = Some (list_answered cur th r s)"
| "fm_answered Aw_Home (An_Home r) s = Some (home_answered r s)"
| "fm_answered (Aw_Rename e n ow cur) (An_Done r) s = Some (rename_answered e n ow cur r s)"
| "fm_answered (Aw_Delete cur) (An_Results r) s = Some (delete_answered cur r s)"
| "fm_answered (Aw_Mkdir cur) (An_Done r) s = Some (mkdir_answered cur r s)"
| "fm_answered (Aw_Upload dir files cur) (An_Upload r) s = Some (upload_answered files cur r s)"
| "fm_answered (Aw_Bulk m dest cur) (An_Results r) s = Some (bulk_answered m dest cur r s)"
| "fm_answered _ _ s = None"

definition forget :: "nat \<Rightarrow> fm \<Rightarrow> fm" where
  "forget k s = s\<lparr>fm_awaits := take k (fm_awaits s) @ drop (k + 1) (fm_awaits s)\<rparr>"

text \<open>What the user can do; a step carries the answer it used, if any.\<close>

inductive fm_step :: "(fm_await \<times> fm_answer) option \<Rightarrow> fm \<Rightarrow> fm \<Rightarrow> bool" where
  answer: "k < length (fm_awaits s) \<Longrightarrow> fm_answered (fm_awaits s ! k) a (forget k s) = Some t \<Longrightarrow>
    fm_step (Some (fm_awaits s ! k, a)) s t"
| refresh: "fm_step None s (fm_load (currentPath s) Nothing_More s)"
| open_dir: "e \<in> set (fm_entries s) \<Longrightarrow> fe_isDir e \<Longrightarrow> fm_step None s (openDir e s)"
| crumb: "i + 1 < length (fm_stack s) \<Longrightarrow> fm_step None s (navigateToCrumb i s)"
| toggle: "e \<in> set (fm_entries s) \<Longrightarrow> fm_step None s (toggleSelect (fe_path e) s)"
| toggle_all: "fm_step None s (toggleSelectAll s)"
| clear: "fm_step None s (s\<lparr>fm_selected := []\<rparr>)"
| start_rename: "e \<in> set (fm_entries s) \<Longrightarrow> fm_step None s (s\<lparr>fm_renaming := Some (fe_path e)\<rparr>)"
| cancel_rename: "fm_step None s (s\<lparr>fm_renaming := None\<rparr>)"
| rename: "e \<in> set (fm_entries s) \<Longrightarrow> \<not> fm_renameBusy s \<Longrightarrow> fm_step None s (submitRename e (trim n) False s)"
| overwrite_rename: "\<not> fm_renameBusy s \<Longrightarrow> fm_step None s (confirm_rename s)"
| keep_name: "fm_step None s (s\<lparr>fm_renameConflict := None\<rparr>)"
| ask_delete: "e \<in> set (fm_entries s) \<Longrightarrow> fm_step None s (s\<lparr>fm_confirmDelete := Some [fe_path e]\<rparr>)"
| ask_delete_all: "fm_step None s (s\<lparr>fm_confirmDelete := Some (fm_selected s)\<rparr>)"
| keep_files: "fm_step None s (s\<lparr>fm_confirmDelete := None\<rparr>)"
| delete: "\<not> fm_deleteBusy s \<Longrightarrow> fm_step None s (confirm_delete s)"
| mkdir_form: "fm_step None s (s\<lparr>fm_mkdirOpen := b, fm_mkdirName := n\<rparr>)"
| mkdir: "\<not> fm_mkdirBusy s \<Longrightarrow> fm_step None s (submitMkdir s)"
| upload: "\<not> fm_uploading s \<Longrightarrow> files \<noteq> [] \<Longrightarrow> fm_step None s (handleUpload files False s)"
| overwrite_upload: "\<not> fm_uploading s \<Longrightarrow> fm_step None s (confirm_upload s)"
| skip_upload: "fm_step None s (s\<lparr>fm_uploadConflict := None\<rparr>)"
| ask_bulk: "fm_step None s (s\<lparr>fm_bulkMode := m\<rparr>)"
| bulk: "fm_step None s (choose_destination initialDir dest s)"
| overwrite_bulk: "\<not> fm_bulkBusy s \<Longrightarrow> fm_step None s (confirm_bulk s)"
| skip_bulk: "fm_step None s (s\<lparr>fm_bulkConflict := None\<rparr>)"
| panels: "fm_step None s (s\<lparr>fm_info := i, fm_editing := e\<rparr>)"
| dismiss: "fm_step None s (s\<lparr>fm_error := None\<rparr>)"

inductive fm_run :: "ustring option \<Rightarrow> (fm_await \<times> fm_answer) list \<Rightarrow> fm \<Rightarrow> bool" for initialPath where
  mount: "fm_run initialPath [] (fm_mount initialPath)"
| quiet: "fm_run initialPath tr s \<Longrightarrow> fm_step None s t \<Longrightarrow> fm_run initialPath tr t"
| answered: "fm_run initialPath tr s \<Longrightarrow> fm_step (Some a) s t \<Longrightarrow> fm_run initialPath (tr @ [a]) t"

end
