(* ===== verification/File_Editor.thy ===== *)
theory File_Editor
  imports Api_Types Api_Client "HOL-Library.Sublist"
begin

text \<open>
  The editor of one file (\<open>components/FileManager/FileEditorSheet.tsx\<close>), and the file on disk, which
  others write too. The server's part is the argument \<open>ver\<close>, the version of a text: it answers a
  load with the text and its version, and it saves if no version was sent or the one of the text that
  is there, else it refuses with 409. A request is in flight until it reaches the server and until
  its answer reaches the page, and may fail on either way.
\<close>

section \<open>The editor\<close>

datatype unsupported = Not_Utf8 | No_Preview

datatype ed_message = Load_Failed api_error | Save_Failed api_error

text \<open>A request with what its continuation closes over: \<open>body\<close>, and the text last loaded or saved then.\<close>

datatype ed_pending =
    Loading
  | Loaded "api_error + file_content"
  | Saving ustring ustring ustring           \<comment> \<open>body, base version, \<open>savedContent\<close>\<close>
  | Saved ustring "api_error + ustring"

record editor =
  ed_content :: ustring
  ed_savedContent :: ustring
  ed_confirmDiscard :: bool
  ed_loadFailed :: bool
  ed_loading :: bool
  ed_unsupported :: "unsupported option"
  ed_version :: ustring
  ed_changedOnDisk :: bool
  ed_error :: "ed_message option"
  ed_saving :: bool
  ed_saved :: bool
  ed_savedTimers :: nat
  ed_onSaved :: nat                          \<comment> \<open>calls of \<open>onSaved\<close>\<close>
  ed_closed :: bool
  ed_pending :: "ed_pending list"

definition ed_load :: "editor \<Rightarrow> editor" where
  "ed_load s = s\<lparr>ed_loading := True, ed_unsupported := None, ed_loadFailed := False, ed_error := None,
     ed_pending := ed_pending s @ [Loading]\<rparr>"

definition ed_mount :: editor where
  "ed_mount = ed_load \<lparr>ed_content = [], ed_savedContent = [], ed_confirmDiscard = False, ed_loadFailed = False,
     ed_loading = True, ed_unsupported = None, ed_version = [], ed_changedOnDisk = False, ed_error = None,
     ed_saving = False, ed_saved = False, ed_savedTimers = 0, ed_onSaved = 0, ed_closed = False, ed_pending = []\<rparr>"

definition mentions_utf8 :: "message \<Rightarrow> bool" where
  "mentions_utf8 m \<longleftrightarrow> (case m of ServerError t \<Rightarrow> sublist (js ''UTF-8'') t | _ \<Rightarrow> False)"

definition ed_loaded :: "api_error + file_content \<Rightarrow> editor \<Rightarrow> editor" where
  "ed_loaded r s =
     (case r of
        Inr d \<Rightarrow> s\<lparr>ed_content := fc_content d, ed_savedContent := fc_content d, ed_version := fc_version d\<rparr>
      | Inl e \<Rightarrow>
          (case e of
             ApiError st m \<Rightarrow>
               if st = 400 then s\<lparr>ed_unsupported := Some (if mentions_utf8 m then Not_Utf8 else No_Preview)\<rparr>
               else s\<lparr>ed_error := Some (Load_Failed e), ed_loadFailed := True\<rparr>
           | OtherError m \<Rightarrow> s\<lparr>ed_error := Some (Load_Failed e), ed_loadFailed := True\<rparr>))
     \<lparr>ed_loading := False\<rparr>"

definition handleSave :: "bool \<Rightarrow> editor \<Rightarrow> editor" where
  "handleSave overwrite s =
     s\<lparr>ed_saving := True, ed_saved := False, ed_error := None,
       ed_pending := ed_pending s @ [Saving (ed_content s) (if overwrite then [] else ed_version s) (ed_savedContent s)]\<rparr>"

definition save_conflict :: "api_error \<Rightarrow> bool" where
  "save_conflict e \<longleftrightarrow> (case e of ApiError st m \<Rightarrow> st = 409 | OtherError m \<Rightarrow> False)"

definition ed_save_answered :: "ustring \<Rightarrow> api_error + ustring \<Rightarrow> editor \<Rightarrow> editor" where
  "ed_save_answered body r s =
     (case r of
        Inr v \<Rightarrow> s\<lparr>ed_version := v, ed_savedContent := body, ed_changedOnDisk := False, ed_saved := True,
                   ed_savedTimers := ed_savedTimers s + 1, ed_onSaved := ed_onSaved s + 1\<rparr>
      | Inl e \<Rightarrow> if save_conflict e then s\<lparr>ed_changedOnDisk := True\<rparr> else s\<lparr>ed_error := Some (Save_Failed e)\<rparr>)
     \<lparr>ed_saving := False\<rparr>"

definition saved_timer :: "editor \<Rightarrow> editor" where
  "saved_timer s =
     (if ed_savedTimers s = 0 then s else s\<lparr>ed_saved := False, ed_savedTimers := ed_savedTimers s - 1\<rparr>)"

definition ed_requestClose :: "editor \<Rightarrow> editor" where
  "ed_requestClose s =
     (if ed_content s \<noteq> ed_savedContent s then s\<lparr>ed_confirmDiscard := True\<rparr> else s\<lparr>ed_closed := True\<rparr>)"

text \<open>The text can be edited and saved.\<close>

definition ed_usable :: "editor \<Rightarrow> bool" where
  "ed_usable s \<longleftrightarrow> \<not> ed_loading s \<and> ed_unsupported s = None \<and> \<not> ed_loadFailed s"

section \<open>The file\<close>

datatype disk_event =
    Written ustring                            \<comment> \<open>by something else\<close>
  | Refused ustring
  | Replaced ustring ustring ustring ustring   \<comment> \<open>base version, what was there, \<open>savedContent\<close>, body\<close>

record file_world =
  fw_editor :: editor
  fw_disk :: ustring
  fw_log :: "disk_event list"

definition answer_with :: "nat \<Rightarrow> ed_pending \<Rightarrow> file_world \<Rightarrow> file_world" where
  "answer_with k p w = w\<lparr>fw_editor := (fw_editor w)\<lparr>ed_pending := (ed_pending (fw_editor w))[k := p]\<rparr>\<rparr>"

definition taken :: "nat \<Rightarrow> editor \<Rightarrow> editor" where
  "taken k s = s\<lparr>ed_pending := take k (ed_pending s) @ drop (k + 1) (ed_pending s)\<rparr>"

abbreviation conflict_409 :: api_error where
  "conflict_409 \<equiv> ApiError 409 (RequestFailed 409)"

text \<open>A save reaches the server.\<close>

definition serve_save :: "(ustring \<Rightarrow> ustring) \<Rightarrow> nat \<Rightarrow> ustring \<Rightarrow> ustring \<Rightarrow> ustring \<Rightarrow> file_world \<Rightarrow> file_world" where
  "serve_save ver k body base saved w =
     (if base \<noteq> [] \<and> base \<noteq> ver (fw_disk w)
      then (answer_with k (Saved body (Inl conflict_409)) w)\<lparr>fw_log := fw_log w @ [Refused body]\<rparr>
      else (answer_with k (Saved body (Inr (ver body))) w)
             \<lparr>fw_disk := body, fw_log := fw_log w @ [Replaced base (fw_disk w) saved body]\<rparr>)"

definition with_editor :: "(editor \<Rightarrow> editor) \<Rightarrow> file_world \<Rightarrow> file_world" where
  "with_editor f w = w\<lparr>fw_editor := f (fw_editor w)\<rparr>"

inductive file_step :: "(ustring \<Rightarrow> ustring) \<Rightarrow> file_world \<Rightarrow> file_world \<Rightarrow> bool" for ver where
  outside: "file_step ver w (w\<lparr>fw_disk := t, fw_log := fw_log w @ [Written t]\<rparr>)"
| serve_load: "k < length (ed_pending (fw_editor w)) \<Longrightarrow> ed_pending (fw_editor w) ! k = Loading \<Longrightarrow>
    file_step ver w (answer_with k (Loaded (Inr \<lparr>fc_content = fw_disk w, fc_truncated = False, fc_version = ver (fw_disk w)\<rparr>)) w)"
| fail_load: "k < length (ed_pending (fw_editor w)) \<Longrightarrow> ed_pending (fw_editor w) ! k = Loading \<Longrightarrow>
    file_step ver w (answer_with k (Loaded (Inl e)) w)"
| serve_save: "k < length (ed_pending (fw_editor w)) \<Longrightarrow> ed_pending (fw_editor w) ! k = Saving body base saved \<Longrightarrow>
    file_step ver w (serve_save ver k body base saved w)"
| fail_save: "k < length (ed_pending (fw_editor w)) \<Longrightarrow> ed_pending (fw_editor w) ! k = Saving body base saved \<Longrightarrow>
    \<not> save_conflict e \<Longrightarrow> file_step ver w (answer_with k (Saved body (Inl e)) w)"
| lose_answer: "k < length (ed_pending (fw_editor w)) \<Longrightarrow> ed_pending (fw_editor w) ! k = Saved body r \<Longrightarrow>
    \<not> save_conflict e \<Longrightarrow> file_step ver w (answer_with k (Saved body (Inl e)) w)"
| loaded: "k < length (ed_pending (fw_editor w)) \<Longrightarrow> ed_pending (fw_editor w) ! k = Loaded r \<Longrightarrow>
    file_step ver w (with_editor (ed_loaded r \<circ> taken k) w)"
| answered: "k < length (ed_pending (fw_editor w)) \<Longrightarrow> ed_pending (fw_editor w) ! k = Saved body r \<Longrightarrow>
    file_step ver w (with_editor (ed_save_answered body r \<circ> taken k) w)"
| retry: "ed_loadFailed (fw_editor w) \<Longrightarrow> \<not> ed_loading (fw_editor w) \<Longrightarrow> file_step ver w (with_editor ed_load w)"
| type_text: "ed_usable (fw_editor w) \<Longrightarrow> file_step ver w (with_editor (\<lambda>s. s\<lparr>ed_content := t\<rparr>) w)"
| save: "ed_usable (fw_editor w) \<Longrightarrow> \<not> ed_saving (fw_editor w) \<Longrightarrow> file_step ver w (with_editor (handleSave False) w)"
| overwrite: "ed_changedOnDisk (fw_editor w) \<Longrightarrow> \<not> ed_saving (fw_editor w) \<Longrightarrow>
    file_step ver w (with_editor (handleSave True) w)"
| keep: "file_step ver w (with_editor (\<lambda>s. s\<lparr>ed_changedOnDisk := False\<rparr>) w)"
| saved_timer: "file_step ver w (with_editor saved_timer w)"
| dismiss: "file_step ver w (with_editor (\<lambda>s. s\<lparr>ed_error := None\<rparr>) w)"
| request_close: "file_step ver w (with_editor ed_requestClose w)"
| stay: "file_step ver w (with_editor (\<lambda>s. s\<lparr>ed_confirmDiscard := False\<rparr>) w)"
| discard: "ed_confirmDiscard (fw_editor w) \<Longrightarrow> file_step ver w (with_editor (\<lambda>s. s\<lparr>ed_closed := True\<rparr>) w)"

definition file_init :: "ustring \<Rightarrow> file_world" where
  "file_init t = \<lparr>fw_editor = ed_mount, fw_disk = t, fw_log = []\<rparr>"

inductive file_reach :: "(ustring \<Rightarrow> ustring) \<Rightarrow> file_world \<Rightarrow> bool" for ver where
  start: "file_reach ver (file_init t)"
| step: "file_reach ver w \<Longrightarrow> file_step ver w w' \<Longrightarrow> file_reach ver w'"

section \<open>The invariant\<close>











lemma answer_with_log [simp]: "fw_log (answer_with k p w) = fw_log w" "fw_disk (answer_with k p w) = fw_disk w"
  by (simp_all add: answer_with_def)



section \<open>The properties\<close>


text \<open>An example: a load, an edit, a save in answer to which nothing comes back.\<close>

definition demo_ver :: "ustring \<Rightarrow> ustring" where
  "demo_ver t = 0 # t"

definition demo_editing :: "file_world" where
  "demo_editing =
     with_editor (\<lambda>s. s\<lparr>ed_content := js ''new''\<rparr>)
       (with_editor (ed_loaded (Inr \<lparr>fc_content = js ''old'', fc_truncated = False, fc_version = demo_ver (js ''old'')\<rparr>) \<circ> taken 0)
         (answer_with 0 (Loaded (Inr \<lparr>fc_content = js ''old'', fc_truncated = False, fc_version = demo_ver (js ''old'')\<rparr>))
           (file_init (js ''old''))))"

lemmas demo_editor = demo_editing_def with_editor_def ed_loaded_def taken_def answer_with_def file_init_def ed_mount_def
  ed_load_def handleSave_def serve_save_def ed_save_answered_def save_conflict_def demo_ver_def ed_usable_def

lemma demo_editing_reach: "file_reach demo_ver demo_editing"
proof -
  let ?r = "Inr \<lparr>fc_content = js ''old'', fc_truncated = False, fc_version = demo_ver (js ''old'')\<rparr>"
  let ?i = "file_init (js ''old'')"
  have "file_step demo_ver ?i (answer_with 0 (Loaded ?r) ?i)"
    using file_step.serve_load [of 0 ?i demo_ver] by (simp add: file_init_def ed_mount_def ed_load_def)
  then have 1: "file_reach demo_ver (answer_with 0 (Loaded ?r) ?i)"
    by (rule file_reach.step [OF file_reach.start])
  have 2: "file_reach demo_ver (with_editor (ed_loaded ?r \<circ> taken 0) (answer_with 0 (Loaded ?r) ?i))"
    by (rule file_reach.step [OF 1 file_step.loaded]) (simp_all add: demo_editor)
  show ?thesis
    unfolding demo_editing_def by (rule file_reach.step [OF 2 file_step.type_text]) (simp add: demo_editor)
qed

lemma demo_saved_reach:
  "file_reach demo_ver (serve_save demo_ver 0 (js ''new'') (demo_ver (js ''old'')) (js ''old'')
     (with_editor (handleSave False) demo_editing))"
proof -
  have 1: "file_reach demo_ver (with_editor (handleSave False) demo_editing)"
    by (rule file_reach.step [OF demo_editing_reach file_step.save]) (simp_all add: demo_editor)
  show ?thesis
    by (rule file_reach.step [OF 1 file_step.serve_save]) (simp_all add: demo_editor)
qed



text \<open>The message of a failed save says that the changes were not applied. When only the answer is lost they
  were, and the editor takes its own text for somebody else's at the next save.\<close>

lemma failed_save_may_be_applied:
  "\<exists>w e. file_reach demo_ver w \<and> ed_error (fw_editor w) = Some (Save_Failed e) \<and> fw_disk w = ed_content (fw_editor w)
     \<and> ed_version (fw_editor w) \<noteq> demo_ver (fw_disk w)"
proof -
  let ?e = "ApiError 0 TimedOut"
  let ?s = "serve_save demo_ver 0 (js ''new'') (demo_ver (js ''old'')) (js ''old'') (with_editor (handleSave False) demo_editing)"
  let ?l = "answer_with 0 (Saved (js ''new'') (Inl ?e)) ?s"
  let ?w = "with_editor (ed_save_answered (js ''new'') (Inl ?e) \<circ> taken 0) ?l"
  have 1: "file_reach demo_ver ?l"
    by (rule file_reach.step [OF demo_saved_reach file_step.lose_answer [where r = "Inr (demo_ver (js ''new''))"]])
      (simp_all add: demo_editor)
  have "file_reach demo_ver ?w"
    by (rule file_reach.step [OF 1 file_step.answered]) (simp_all add: demo_editor)
  moreover have "ed_error (fw_editor ?w) = Some (Save_Failed ?e)" "fw_disk ?w = ed_content (fw_editor ?w)"
    "ed_version (fw_editor ?w) \<noteq> demo_ver (fw_disk ?w)"
    by (simp_all add: demo_editor)
  ultimately show ?thesis by blast
qed

end
