(* ===== verification/Interactive_Login.thy ===== *)
theory Interactive_Login
  imports Api_Client
begin

text \<open>
  The interactive login dialog (\<open>components/ClaudeCode/InteractiveLoginDialog.tsx\<close>): a terminal session
  on the server that the dialog starts, attaches to over a WebSocket, re-attaches to when the socket
  drops, and cancels when it goes away, while it polls for the end of the login.

  A socket is its position in the list of all sockets made; \<open>close()\<close> only starts closing it, its close
  event comes later. A promise still to be answered carries what its continuation closes over. What
  the dialog does besides its own state is recorded in order. The terminal itself is not modelled.
\<close>

section \<open>State\<close>

datatype login_phase = L_Starting | L_Connecting | L_Running | L_Reconnecting | L_Locked | L_Completed | L_Error

datatype ready_state = Ws_Connecting | Ws_Open | Ws_Closing | Ws_Closed

datatype login_error = Session_Ended | Start_Failed api_error

datatype login_await =
    Await_Start nat                          \<comment> \<open>its generation\<close>
  | Await_Probe nat
  | Await_Status
  | Await_Unlock

datatype login_out =
    Cancel_Session ustring
  | Interrupt nat
  | Login_Menu nat
  | Typed nat ustring
  | Logged_In
  | Dialog_Closed

record login =
  lg_sockets :: "ready_state list"
  lg_ws :: "nat option"
  lg_sessionIdRef :: "ustring option"
  lg_closing :: bool
  lg_unmounted :: bool
  lg_completed :: bool
  lg_baseline :: "bool option"
  lg_closeScheduled :: bool
  lg_startGen :: nat
  lg_timer :: "nat option"                   \<comment> \<open>the armed reconnect and its delay\<close>
  lg_attempt :: nat
  lg_probing :: bool
  lg_sessionId :: "ustring option"
  lg_phase :: login_phase
  lg_error :: "login_error option"
  lg_autoClose :: bool                       \<comment> \<open>the timer that closes the dialog is armed\<close>
  lg_interrupts :: "nat list"                \<comment> \<open>timers of a second Ctrl+C\<close>
  lg_cancels :: nat                          \<comment> \<open>timers of a fallback cancel\<close>
  lg_awaits :: "login_await list"
  lg_out :: "login_out list"

definition login_emit :: "login_out \<Rightarrow> login \<Rightarrow> login" where
  "login_emit e s = s\<lparr>lg_out := lg_out s @ [e]\<rparr>"

definition login_await :: "login_await \<Rightarrow> login \<Rightarrow> login" where
  "login_await a s = s\<lparr>lg_awaits := lg_awaits s @ [a]\<rparr>"

text \<open>
  A change of the phase ends the effect that had armed the closing timer, and starts the next; after
  the dialog is gone it does nothing.
\<close>

definition setPhase :: "login_phase \<Rightarrow> login \<Rightarrow> login" where
  "setPhase p s =
     (if p = lg_phase s \<or> lg_unmounted s then s
      else let s1 = s\<lparr>lg_phase := p, lg_autoClose := False\<rparr>
           in if p = L_Completed \<and> \<not> lg_closeScheduled s1 then s1\<lparr>lg_closeScheduled := True, lg_autoClose := True\<rparr>
              else s1)"

definition cancelSession :: "login \<Rightarrow> login" where
  "cancelSession s = (case lg_sessionIdRef s of None \<Rightarrow> s | Some i \<Rightarrow> login_emit (Cancel_Session i) s)"

definition clearReconnectTimer :: "login \<Rightarrow> login" where
  "clearReconnectTimer s = s\<lparr>lg_timer := None\<rparr>"

definition reconnectAllowed :: "login \<Rightarrow> bool" where
  "reconnectAllowed s \<longleftrightarrow> \<not> lg_closing s \<and> \<not> lg_unmounted s \<and> \<not> lg_completed s"

section \<open>The socket\<close>

definition close_ws :: "login \<Rightarrow> login" where
  "close_ws s =
     (case lg_ws s of None \<Rightarrow> s
      | Some i \<Rightarrow> s\<lparr>lg_sockets := (if lg_sockets s ! i = Ws_Closed then lg_sockets s else (lg_sockets s)[i := Ws_Closing]),
                    lg_ws := None\<rparr>)"

text \<open>The effect that dials, after the cleanup of its last run.\<close>

definition dial :: "login \<Rightarrow> login" where
  "dial s =
     (let s1 = close_ws s
      in if lg_sessionId s1 = None then s1
         else s1\<lparr>lg_sockets := lg_sockets s1 @ [Ws_Connecting], lg_ws := Some (length (lg_sockets s1))\<rparr>)"

section \<open>Starting\<close>

definition startSession :: "login \<Rightarrow> login" where
  "startSession s =
     (let gen = lg_startGen s + 1
      in login_await (Await_Start gen)
           (setPhase L_Starting ((clearReconnectTimer (s\<lparr>lg_startGen := gen\<rparr>))\<lparr>lg_attempt := 0, lg_error := None\<rparr>)))"

definition set_sessionId :: "ustring \<Rightarrow> login \<Rightarrow> login" where
  "set_sessionId i s = (if lg_sessionId s = Some i then s else dial (s\<lparr>lg_sessionId := Some i\<rparr>))"

definition start_answered :: "nat \<Rightarrow> api_error + ustring \<Rightarrow> login \<Rightarrow> login" where
  "start_answered gen r s =
     (if gen \<noteq> lg_startGen s then s
      else case r of
        Inr i \<Rightarrow>
          if lg_closing s \<or> lg_unmounted s then login_emit (Cancel_Session i) s
          else setPhase L_Connecting (set_sessionId i (s\<lparr>lg_sessionIdRef := Some i\<rparr>))
      | Inl e \<Rightarrow> if lg_unmounted s then s else setPhase L_Error (s\<lparr>lg_error := Some (Start_Failed e)\<rparr>))"

section \<open>Reconnecting\<close>

definition LOGIN_RECONNECT_BASE_DELAY_MS :: nat where "LOGIN_RECONNECT_BASE_DELAY_MS = 1000"
definition LOGIN_RECONNECT_MAX_DELAY_MS :: nat where "LOGIN_RECONNECT_MAX_DELAY_MS = 30000"

definition login_scheduleReconnect :: "login \<Rightarrow> login" where
  "login_scheduleReconnect s =
     (if lg_timer s \<noteq> None \<or> \<not> reconnectAllowed s then s
      else let attempt = lg_attempt s + 1
           in s\<lparr>lg_attempt := attempt,
                lg_timer := Some (min (LOGIN_RECONNECT_BASE_DELAY_MS * 2 ^ (attempt - 1)) LOGIN_RECONNECT_MAX_DELAY_MS)\<rparr>)"

definition ws_alive :: "login \<Rightarrow> bool" where
  "ws_alive s \<longleftrightarrow> (case lg_ws s of None \<Rightarrow> False | Some i \<Rightarrow> lg_sockets s ! i \<in> {Ws_Connecting, Ws_Open})"

definition login_reconnect :: "login \<Rightarrow> login" where
  "login_reconnect s =
     (if lg_sessionIdRef s = None \<or> lg_probing s \<or> \<not> reconnectAllowed s then s
      else let s1 = clearReconnectTimer s
           in if ws_alive s1 then s1
              else login_await (Await_Probe (lg_startGen s1)) (s1\<lparr>lg_probing := True\<rparr>))"

definition locked_out :: "api_error \<Rightarrow> bool" where
  "locked_out e \<longleftrightarrow> (case e of ApiError st m \<Rightarrow> st = 401 | OtherError m \<Rightarrow> False)"

definition probe_answered :: "nat \<Rightarrow> api_error + bool \<Rightarrow> login \<Rightarrow> login" where
  "probe_answered gen r s =
     (let s1 = s\<lparr>lg_probing := False\<rparr>
      in if gen \<noteq> lg_startGen s1 \<or> \<not> reconnectAllowed s1 then s1
         else case r of
           Inl e \<Rightarrow> if locked_out e then setPhase L_Locked s1 else login_scheduleReconnect s1
         | Inr alive \<Rightarrow> if \<not> alive then setPhase L_Error (s1\<lparr>lg_error := Some Session_Ended\<rparr>)
                        else dial (setPhase L_Reconnecting s1))"

definition login_timer :: "login \<Rightarrow> login" where
  "login_timer s = (if lg_timer s = None then s else login_reconnect (s\<lparr>lg_timer := None\<rparr>))"

definition reconnectNow :: "login \<Rightarrow> login" where
  "reconnectNow s = login_reconnect (s\<lparr>lg_attempt := 0\<rparr>)"

definition login_onForeground :: "login \<Rightarrow> login" where
  "login_onForeground s = (if lg_phase s = L_Reconnecting then reconnectNow s else s)"

definition login_ws_open :: "nat \<Rightarrow> login \<Rightarrow> login" where
  "login_ws_open i s =
     (let s1 = s\<lparr>lg_sockets := (lg_sockets s)[i := Ws_Open]\<rparr>
      in if lg_ws s1 \<noteq> Some i then s1
         else (if lg_phase s1 = L_Completed then id else setPhase L_Running) (s1\<lparr>lg_attempt := 0\<rparr>))"

definition login_ws_close :: "nat \<Rightarrow> login \<Rightarrow> login" where
  "login_ws_close i s =
     (let s1 = s\<lparr>lg_sockets := (lg_sockets s)[i := Ws_Closed]\<rparr>
      in if lg_ws s1 \<noteq> Some i \<or> \<not> reconnectAllowed s1 then s1
         else login_scheduleReconnect (setPhase L_Reconnecting s1))"

section \<open>The end of the login\<close>

definition pollActive :: "login \<Rightarrow> bool" where
  "pollActive s \<longleftrightarrow> lg_sessionId s \<noteq> None \<and> lg_phase s \<noteq> L_Starting \<and> lg_phase s \<noteq> L_Completed"

definition status_answered :: "api_error + bool \<Rightarrow> login \<Rightarrow> login" where
  "status_answered r s =
     (case r of
        Inl e \<Rightarrow> s
      | Inr done_now \<Rightarrow>
          let s1 = s\<lparr>lg_baseline := (case lg_baseline s of None \<Rightarrow> Some done_now | Some b \<Rightarrow> Some b)\<rparr>
          in if done_now \<and> lg_baseline s1 = Some False \<and> \<not> lg_completed s1
             then login_emit Logged_In (setPhase L_Completed (clearReconnectTimer (s1\<lparr>lg_completed := True\<rparr>)))
             else s1)"

section \<open>Closing\<close>

definition ws_is_open :: "nat \<Rightarrow> login \<Rightarrow> bool" where
  "ws_is_open i s \<longleftrightarrow> lg_sockets s ! i = Ws_Open"

definition handleManualClose :: "login \<Rightarrow> login" where
  "handleManualClose s =
     (let s1 = clearReconnectTimer (s\<lparr>lg_closing := True\<rparr>);
          s2 = (case lg_ws s1 of None \<Rightarrow> s1
                | Some i \<Rightarrow> if ws_is_open i s1
                            then (login_emit (Interrupt i) s1)\<lparr>lg_interrupts := lg_interrupts s1 @ [i]\<rparr> else s1);
          s3 = s2\<lparr>lg_cancels := lg_cancels s2 + 1\<rparr>;
          s4 = (if \<not> lg_completed s3 then login_emit Logged_In s3 else s3)
      in login_emit Dialog_Closed s4)"

definition interrupt_timer :: "nat \<Rightarrow> login \<Rightarrow> login" where
  "interrupt_timer i s =
     (if i \<notin> set (lg_interrupts s) then s
      else let s1 = s\<lparr>lg_interrupts := remove1 i (lg_interrupts s)\<rparr>
           in if ws_is_open i s1 then login_emit (Interrupt i) s1 else s1)"

definition cancel_timer :: "login \<Rightarrow> login" where
  "cancel_timer s = (if lg_cancels s = 0 then s else cancelSession (s\<lparr>lg_cancels := lg_cancels s - 1\<rparr>))"

definition auto_close :: "login \<Rightarrow> login" where
  "auto_close s = (if \<not> lg_autoClose s then s else handleManualClose (s\<lparr>lg_autoClose := False\<rparr>))"

text \<open>The cleanups of the effects, in their order.\<close>

definition login_unmount :: "login \<Rightarrow> login" where
  "login_unmount s =
     (let s1 = clearReconnectTimer (s\<lparr>lg_unmounted := True\<rparr>);
          s2 = (if \<not> lg_closing s1 then cancelSession s1 else s1)
      in (close_ws s2)\<lparr>lg_autoClose := False\<rparr>)"

section \<open>The user\<close>

definition handleOpenLoginMenu :: "login \<Rightarrow> login" where
  "handleOpenLoginMenu s =
     (case lg_ws s of None \<Rightarrow> s | Some i \<Rightarrow> if ws_is_open i s then login_emit (Login_Menu i) s else s)"

definition login_onData :: "ustring \<Rightarrow> login \<Rightarrow> login" where
  "login_onData d s =
     (case lg_ws s of None \<Rightarrow> s | Some i \<Rightarrow> if ws_is_open i s then login_emit (Typed i d) s else s)"

definition unlock_answered :: "bool \<Rightarrow> login \<Rightarrow> login" where
  "unlock_answered ok s = (if ok then reconnectNow (setPhase L_Reconnecting s) else s)"

section \<open>Steps\<close>

definition login_mount :: login where
  "login_mount = startSession \<lparr>lg_sockets = [], lg_ws = None, lg_sessionIdRef = None, lg_closing = False,
     lg_unmounted = False, lg_completed = False, lg_baseline = None, lg_closeScheduled = False, lg_startGen = 0,
     lg_timer = None, lg_attempt = 0, lg_probing = False, lg_sessionId = None, lg_phase = L_Starting,
     lg_error = None, lg_autoClose = False, lg_interrupts = [], lg_cancels = 0, lg_awaits = [], lg_out = []\<rparr>"

definition done_awaiting :: "nat \<Rightarrow> login \<Rightarrow> login" where
  "done_awaiting k s = s\<lparr>lg_awaits := take k (lg_awaits s) @ drop (k + 1) (lg_awaits s)\<rparr>"

definition login_awaits :: "nat \<Rightarrow> login_await \<Rightarrow> login \<Rightarrow> bool" where
  "login_awaits k a s \<longleftrightarrow> k < length (lg_awaits s) \<and> lg_awaits s ! k = a"

text \<open>
  Session names are new each time. The buttons are those the phase shows; the unlock prompt covers
  the dialog while it is open.
\<close>

inductive login_step :: "login \<Rightarrow> login \<Rightarrow> bool" where
  started: "login_awaits k (Await_Start gen) s \<Longrightarrow> lg_sessionId s \<noteq> Some i \<Longrightarrow>
    login_step s (start_answered gen (Inr i) (done_awaiting k s))"
| not_started: "login_awaits k (Await_Start gen) s \<Longrightarrow> login_step s (start_answered gen (Inl e) (done_awaiting k s))"
| probed: "login_awaits k (Await_Probe gen) s \<Longrightarrow> login_step s (probe_answered gen r (done_awaiting k s))"
| status: "login_awaits k Await_Status s \<Longrightarrow> login_step s (status_answered r (done_awaiting k s))"
| unlocked: "login_awaits k Await_Unlock s \<Longrightarrow> login_step s (unlock_answered ok (done_awaiting k s))"
| ws_open: "i < length (lg_sockets s) \<Longrightarrow> lg_sockets s ! i = Ws_Connecting \<Longrightarrow> login_step s (login_ws_open i s)"
| ws_closing: "i < length (lg_sockets s) \<Longrightarrow> lg_sockets s ! i = Ws_Open \<Longrightarrow>
    login_step s (s\<lparr>lg_sockets := (lg_sockets s)[i := Ws_Closing]\<rparr>)"
| ws_close: "i < length (lg_sockets s) \<Longrightarrow> lg_sockets s ! i \<noteq> Ws_Closed \<Longrightarrow> login_step s (login_ws_close i s)"
| timer: "login_step s (login_timer s)"
| poll: "pollActive s \<Longrightarrow> \<not> lg_unmounted s \<Longrightarrow> login_step s (login_await Await_Status s)"
| interrupt: "login_step s (interrupt_timer i s)"
| cancel: "login_step s (cancel_timer s)"
| auto_close: "login_step s (auto_close s)"
| foreground: "\<not> lg_unmounted s \<Longrightarrow> login_step s (login_onForeground s)"
| reconnect_button: "\<not> lg_unmounted s \<Longrightarrow> lg_phase s = L_Reconnecting \<Longrightarrow> login_step s (reconnectNow s)"
| unlock_button: "\<not> lg_unmounted s \<Longrightarrow> lg_phase s = L_Locked \<Longrightarrow> Await_Unlock \<notin> set (lg_awaits s) \<Longrightarrow>
    login_step s (login_await Await_Unlock s)"
| restart_button: "\<not> lg_unmounted s \<Longrightarrow> \<not> lg_closing s \<Longrightarrow> lg_phase s = L_Error \<Longrightarrow> login_step s (startSession s)"
| close_button: "\<not> lg_unmounted s \<Longrightarrow> login_step s (handleManualClose s)"
| unmount: "\<not> lg_unmounted s \<Longrightarrow> login_step s (login_unmount s)"
| menu: "\<not> lg_unmounted s \<Longrightarrow> login_step s (handleOpenLoginMenu s)"
| data: "\<not> lg_unmounted s \<Longrightarrow> login_step s (login_onData d s)"

definition login_reachable :: "login \<Rightarrow> bool" where
  "login_reachable = login_step\<^sup>*\<^sup>* login_mount"

end
