(* ===== verification/Login_Properties.thy ===== *)
theory Login_Properties
  imports Interactive_Login
begin

text \<open>
  What the interactive login dialog guarantees: while it may reconnect, exactly one thing is under way
  for its phase and a running terminal stays within reach; no session it was given outlives it.
\<close>

section \<open>What is awaited\<close>

definition is_start :: "login_await \<Rightarrow> bool" where "is_start a \<longleftrightarrow> (\<exists>g. a = Await_Start g)"
definition is_unlock :: "login_await \<Rightarrow> bool" where "is_unlock a \<longleftrightarrow> a = Await_Unlock"
definition is_probe :: "login_await \<Rightarrow> bool" where "is_probe a \<longleftrightarrow> (\<exists>g. a = Await_Probe g)"

lemma await_kinds [simp]:
  "is_start (Await_Start g)" "\<not> is_start (Await_Probe g)" "\<not> is_start Await_Status" "\<not> is_start Await_Unlock"
  "is_probe (Await_Probe g)" "\<not> is_probe (Await_Start g)" "\<not> is_probe Await_Status" "\<not> is_probe Await_Unlock"
  "is_unlock Await_Unlock" "\<not> is_unlock (Await_Start g)" "\<not> is_unlock (Await_Probe g)" "\<not> is_unlock Await_Status"
  by (auto simp: is_start_def is_probe_def is_unlock_def)

definition pending :: "(login_await \<Rightarrow> bool) \<Rightarrow> login \<Rightarrow> nat" where
  "pending P s = length (filter P (lg_awaits s))"

definition ws_state :: "login \<Rightarrow> ready_state" where
  "ws_state s = (case lg_ws s of None \<Rightarrow> Ws_Closed | Some i \<Rightarrow> lg_sockets s ! i)"

lemma awaited_at:
  assumes "login_awaits k a s"
  obtains xs ys where "lg_awaits s = xs @ a # ys" "done_awaiting k s = s\<lparr>lg_awaits := xs @ ys\<rparr>"
proof
  show "lg_awaits s = take k (lg_awaits s) @ a # drop (k + 1) (lg_awaits s)"
    using assms id_take_nth_drop [of k "lg_awaits s"] by (simp add: login_awaits_def)
  show "done_awaiting k s = s\<lparr>lg_awaits := take k (lg_awaits s) @ drop (k + 1) (lg_awaits s)\<rparr>"
    by (simp add: done_awaiting_def)
qed

section \<open>The invariant while reconnecting is allowed\<close>

definition one_socket :: "login \<Rightarrow> bool" where
  "one_socket s \<longleftrightarrow> (\<forall>i. lg_ws s = Some i \<longrightarrow> i < length (lg_sockets s)) \<and>
     (\<forall>j < length (lg_sockets s). lg_ws s \<noteq> Some j \<longrightarrow> lg_sockets s ! j \<in> {Ws_Closing, Ws_Closed})"

definition phase_socket :: "login \<Rightarrow> bool" where
  "phase_socket s \<longleftrightarrow>
     (case lg_phase s of
        L_Starting \<Rightarrow> ws_state s = Ws_Closed
      | L_Connecting \<Rightarrow> ws_state s = Ws_Connecting
      | L_Running \<Rightarrow> ws_state s \<in> {Ws_Open, Ws_Closing}
      | L_Reconnecting \<Rightarrow> ws_state s = (if lg_timer s \<noteq> None \<or> lg_probing s then Ws_Closed else Ws_Connecting)
      | L_Locked \<Rightarrow> ws_state s = Ws_Closed
      | L_Completed \<Rightarrow> False
      | L_Error \<Rightarrow> ws_state s = Ws_Closed)"

definition phase_rest :: "login \<Rightarrow> bool" where
  "phase_rest s \<longleftrightarrow>
     pending is_start s = (if lg_phase s = L_Starting then 1 else 0) \<and>
     pending is_probe s = (if lg_probing s then 1 else 0) \<and>
     (\<forall>g. Await_Probe g \<in> set (lg_awaits s) \<longrightarrow> g = lg_startGen s) \<and>
     pending is_unlock s \<le> (if lg_phase s = L_Locked then 1 else 0) \<and>
     (\<forall>d. lg_timer s = Some d \<longrightarrow> lg_phase s = L_Reconnecting \<and> LOGIN_RECONNECT_BASE_DELAY_MS \<le> d \<and> d \<le> LOGIN_RECONNECT_MAX_DELAY_MS) \<and>
     (lg_probing s \<longrightarrow> lg_phase s = L_Reconnecting \<and> lg_timer s = None) \<and>
     lg_sessionIdRef s = lg_sessionId s \<and>
     (lg_phase s \<notin> {L_Starting, L_Error} \<longrightarrow> lg_sessionId s \<noteq> None)"

definition login_ok :: "login \<Rightarrow> bool" where
  "login_ok s \<longleftrightarrow> one_socket s \<and> phase_socket s \<and> phase_rest s"

definition starts_ok :: "login \<Rightarrow> bool" where
  "starts_ok s \<longleftrightarrow> pending is_start s \<le> 1 \<and> (\<forall>g. Await_Start g \<in> set (lg_awaits s) \<longrightarrow> g = lg_startGen s) \<and>
     (lg_phase s = L_Error \<longrightarrow> pending is_start s = 0)"

definition cancels_ok :: "login \<Rightarrow> bool" where
  "cancels_ok s \<longleftrightarrow>
     (\<forall>i. lg_sessionIdRef s = Some i \<longrightarrow> lg_unmounted s \<or> lg_closing s \<longrightarrow>
        Cancel_Session i \<in> set (lg_out s) \<or> (lg_closing s \<and> 0 < lg_cancels s)) \<and>
     ((\<exists>i. Cancel_Session i \<in> set (lg_out s)) \<or> 0 < lg_cancels s \<longrightarrow> lg_unmounted s \<or> lg_closing s)"

definition login_inv :: "login \<Rightarrow> bool" where
  "login_inv s \<longleftrightarrow> starts_ok s \<and> cancels_ok s \<and> (reconnectAllowed s \<longrightarrow> login_ok s)"

lemmas login_ops = login_emit_def login_await_def setPhase_def cancelSession_def clearReconnectTimer_def close_ws_def
  dial_def startSession_def set_sessionId_def start_answered_def login_scheduleReconnect_def ws_alive_def
  login_reconnect_def probe_answered_def login_timer_def reconnectNow_def login_onForeground_def login_ws_open_def
  login_ws_close_def status_answered_def handleManualClose_def interrupt_timer_def cancel_timer_def auto_close_def
  login_unmount_def handleOpenLoginMenu_def login_onData_def unlock_answered_def

lemma login_delay:
  "LOGIN_RECONNECT_BASE_DELAY_MS \<le> min (LOGIN_RECONNECT_BASE_DELAY_MS * 2 ^ n) LOGIN_RECONNECT_MAX_DELAY_MS"
  by (simp add: LOGIN_RECONNECT_BASE_DELAY_MS_def LOGIN_RECONNECT_MAX_DELAY_MS_def)

lemma mount_inv: "login_inv login_mount"
  by (simp add: login_mount_def login_ops login_inv_def starts_ok_def cancels_ok_def login_ok_def one_socket_def
      phase_socket_def phase_rest_def ws_state_def pending_def)


section \<open>What the operations leave alone\<close>

lemma setPhase_fields [simp]:
  "lg_phase (setPhase p s) = (if lg_unmounted s then lg_phase s else p)"
  "lg_sockets (setPhase p s) = lg_sockets s" "lg_ws (setPhase p s) = lg_ws s" "lg_sessionIdRef (setPhase p s) = lg_sessionIdRef s"
  "lg_closing (setPhase p s) = lg_closing s" "lg_unmounted (setPhase p s) = lg_unmounted s"
  "lg_completed (setPhase p s) = lg_completed s" "lg_startGen (setPhase p s) = lg_startGen s" "lg_timer (setPhase p s) = lg_timer s"
  "lg_attempt (setPhase p s) = lg_attempt s" "lg_probing (setPhase p s) = lg_probing s" "lg_sessionId (setPhase p s) = lg_sessionId s"
  "lg_cancels (setPhase p s) = lg_cancels s" "lg_awaits (setPhase p s) = lg_awaits s" "lg_out (setPhase p s) = lg_out s"
  "lg_error (setPhase p s) = lg_error s"
  by (auto simp: setPhase_def Let_def)

lemma close_ws_fields [simp]:
  "lg_ws (close_ws s) = None" "lg_phase (close_ws s) = lg_phase s" "lg_sessionIdRef (close_ws s) = lg_sessionIdRef s"
  "lg_closing (close_ws s) = lg_closing s" "lg_unmounted (close_ws s) = lg_unmounted s"
  "lg_completed (close_ws s) = lg_completed s" "lg_startGen (close_ws s) = lg_startGen s" "lg_timer (close_ws s) = lg_timer s"
  "lg_attempt (close_ws s) = lg_attempt s" "lg_probing (close_ws s) = lg_probing s" "lg_sessionId (close_ws s) = lg_sessionId s"
  "lg_cancels (close_ws s) = lg_cancels s" "lg_awaits (close_ws s) = lg_awaits s" "lg_out (close_ws s) = lg_out s"
  by (auto simp: close_ws_def split: option.split)

lemma dial_fields [simp]:
  "lg_phase (dial s) = lg_phase s" "lg_sessionIdRef (dial s) = lg_sessionIdRef s"
  "lg_closing (dial s) = lg_closing s" "lg_unmounted (dial s) = lg_unmounted s"
  "lg_completed (dial s) = lg_completed s" "lg_startGen (dial s) = lg_startGen s" "lg_timer (dial s) = lg_timer s"
  "lg_attempt (dial s) = lg_attempt s" "lg_probing (dial s) = lg_probing s" "lg_sessionId (dial s) = lg_sessionId s"
  "lg_cancels (dial s) = lg_cancels s" "lg_awaits (dial s) = lg_awaits s" "lg_out (dial s) = lg_out s"
  by (auto simp: dial_def Let_def)

lemma close_ws_one_socket: "one_socket s \<Longrightarrow> one_socket (close_ws s)"
  by (auto simp: one_socket_def close_ws_def nth_list_update split: option.split)

lemma dial_one_socket:
  assumes "one_socket s"
  shows "one_socket (dial s)"
proof -
  have "one_socket (close_ws s)" using assms by (rule close_ws_one_socket)
  then have "one_socket (close_ws s\<lparr>lg_sockets := lg_sockets (close_ws s) @ [Ws_Connecting], lg_ws := Some (length (lg_sockets (close_ws s)))\<rparr>)"
    by (auto simp: one_socket_def nth_append less_Suc_eq)
  then show ?thesis using \<open>one_socket (close_ws s)\<close> by (simp add: dial_def Let_def)
qed

lemma dial_connects: "lg_sessionId s \<noteq> None \<Longrightarrow> ws_state (dial s) = Ws_Connecting"
  by (auto simp: dial_def Let_def ws_state_def)

lemma socket_updates [simp]:
  "one_socket (setPhase p s) = one_socket s" "ws_state (setPhase p s) = ws_state s"
  "one_socket (s\<lparr>lg_awaits := a\<rparr>) = one_socket s" "ws_state (s\<lparr>lg_awaits := a\<rparr>) = ws_state s"
  "one_socket (s\<lparr>lg_timer := t\<rparr>) = one_socket s" "ws_state (s\<lparr>lg_timer := t\<rparr>) = ws_state s"
  "one_socket (s\<lparr>lg_attempt := n\<rparr>) = one_socket s" "ws_state (s\<lparr>lg_attempt := n\<rparr>) = ws_state s"
  "one_socket (s\<lparr>lg_probing := b\<rparr>) = one_socket s" "ws_state (s\<lparr>lg_probing := b\<rparr>) = ws_state s"
  "one_socket (s\<lparr>lg_error := e\<rparr>) = one_socket s" "ws_state (s\<lparr>lg_error := e\<rparr>) = ws_state s"
  "one_socket (s\<lparr>lg_sessionId := i\<rparr>) = one_socket s" "ws_state (s\<lparr>lg_sessionId := i\<rparr>) = ws_state s"
  "one_socket (s\<lparr>lg_sessionIdRef := i\<rparr>) = one_socket s" "ws_state (s\<lparr>lg_sessionIdRef := i\<rparr>) = ws_state s"
  "one_socket (s\<lparr>lg_startGen := g\<rparr>) = one_socket s" "ws_state (s\<lparr>lg_startGen := g\<rparr>) = ws_state s"
  "one_socket (s\<lparr>lg_baseline := bl\<rparr>) = one_socket s" "ws_state (s\<lparr>lg_baseline := bl\<rparr>) = ws_state s"
  "one_socket (s\<lparr>lg_out := l\<rparr>) = one_socket s" "ws_state (s\<lparr>lg_out := l\<rparr>) = ws_state s"
  "one_socket (s\<lparr>lg_interrupts := is\<rparr>) = one_socket s" "ws_state (s\<lparr>lg_interrupts := is\<rparr>) = ws_state s"
  "one_socket (s\<lparr>lg_cancels := n\<rparr>) = one_socket s" "ws_state (s\<lparr>lg_cancels := n\<rparr>) = ws_state s"
  by (simp_all add: one_socket_def ws_state_def split: option.split)

lemma phase_socket_updates [simp]:
  "phase_socket (s\<lparr>lg_awaits := a\<rparr>) = phase_socket s" "phase_socket (s\<lparr>lg_attempt := n\<rparr>) = phase_socket s"
  "phase_socket (s\<lparr>lg_error := e\<rparr>) = phase_socket s" "phase_socket (s\<lparr>lg_baseline := bl\<rparr>) = phase_socket s"
  "phase_socket (s\<lparr>lg_out := l\<rparr>) = phase_socket s" "phase_socket (s\<lparr>lg_interrupts := is\<rparr>) = phase_socket s"
  "phase_socket (s\<lparr>lg_cancels := n\<rparr>) = phase_socket s"
  by (auto simp: phase_socket_def split: login_phase.split)

lemma pending_updates [simp]:
  "pending P (s\<lparr>lg_awaits := l\<rparr>) = length (filter P l)" "pending P (setPhase p s) = pending P s" "pending P (dial s) = pending P s"
  "pending P (s\<lparr>lg_timer := t\<rparr>) = pending P s" "pending P (s\<lparr>lg_attempt := n\<rparr>) = pending P s"
  "pending P (s\<lparr>lg_probing := b\<rparr>) = pending P s" "pending P (s\<lparr>lg_error := e\<rparr>) = pending P s"
  "pending P (s\<lparr>lg_baseline := bl\<rparr>) = pending P s"
  by (simp_all add: pending_def)

lemma ws_alive_state: "ws_alive s \<longleftrightarrow> ws_state s \<in> {Ws_Connecting, Ws_Open}"
  by (simp add: ws_alive_def ws_state_def split: option.split)

text \<open>An attempt, and a wait, in the phase that reconnects.\<close>

lemma login_reconnect_ok:
  assumes "one_socket s" "phase_rest s" "lg_phase s = L_Reconnecting" "reconnectAllowed s"
    and "ws_state s \<in> {Ws_Closed, Ws_Connecting}" "lg_probing s \<Longrightarrow> ws_state s = Ws_Closed"
  shows "login_ok (login_reconnect s)"
proof -
  have "lg_sessionIdRef s \<noteq> None" using assms(2,3) by (simp add: phase_rest_def)
  then show ?thesis
    using assms by (auto simp: login_reconnect_def login_ok_def phase_socket_def phase_rest_def clearReconnectTimer_def
        login_await_def ws_alive_state Let_def pending_def)
qed

lemma login_schedule_ok:
  assumes "one_socket s" "phase_rest s" "lg_phase s = L_Reconnecting" "reconnectAllowed s"
    and "ws_state s = Ws_Closed" "\<not> lg_probing s"
  shows "login_ok (login_scheduleReconnect s)"
  using assms login_delay [of "lg_attempt s"]
  by (auto simp: login_scheduleReconnect_def login_ok_def phase_socket_def phase_rest_def Let_def pending_def)

lemma reconnect_fields [simp]:
  "lg_phase (login_reconnect s) = lg_phase s" "lg_sessionIdRef (login_reconnect s) = lg_sessionIdRef s"
  "lg_closing (login_reconnect s) = lg_closing s" "lg_unmounted (login_reconnect s) = lg_unmounted s"
  "lg_completed (login_reconnect s) = lg_completed s" "lg_startGen (login_reconnect s) = lg_startGen s"
  "lg_sessionId (login_reconnect s) = lg_sessionId s" "lg_out (login_reconnect s) = lg_out s"
  "lg_cancels (login_reconnect s) = lg_cancels s" "pending is_start (login_reconnect s) = pending is_start s"
  "Await_Start g \<in> set (lg_awaits (login_reconnect s)) \<longleftrightarrow> Await_Start g \<in> set (lg_awaits s)"
  by (auto simp: login_reconnect_def clearReconnectTimer_def login_await_def Let_def pending_def)

lemma schedule_fields [simp]:
  "lg_phase (login_scheduleReconnect s) = lg_phase s" "lg_sessionIdRef (login_scheduleReconnect s) = lg_sessionIdRef s"
  "lg_closing (login_scheduleReconnect s) = lg_closing s" "lg_unmounted (login_scheduleReconnect s) = lg_unmounted s"
  "lg_completed (login_scheduleReconnect s) = lg_completed s" "lg_startGen (login_scheduleReconnect s) = lg_startGen s"
  "lg_out (login_scheduleReconnect s) = lg_out s" "lg_cancels (login_scheduleReconnect s) = lg_cancels s"
  "lg_awaits (login_scheduleReconnect s) = lg_awaits s"
  by (auto simp: login_scheduleReconnect_def Let_def)

lemma login_invI:
  assumes "starts_ok s" "cancels_ok s" "reconnectAllowed s \<Longrightarrow> login_ok s"
  shows "login_inv s"
  using assms by (simp add: login_inv_def)

lemma allowed_same:
  "lg_closing s' = lg_closing s \<Longrightarrow> lg_unmounted s' = lg_unmounted s \<Longrightarrow> lg_completed s' = lg_completed s \<Longrightarrow>
   reconnectAllowed s' = reconnectAllowed s"
  by (simp add: reconnectAllowed_def)

section \<open>Every step keeps it\<close>

lemma starts_same:
  assumes "pending is_start s' = pending is_start s" "\<And>g. Await_Start g \<in> set (lg_awaits s') \<longleftrightarrow> Await_Start g \<in> set (lg_awaits s)"
    "lg_startGen s' = lg_startGen s" "lg_phase s' = L_Error \<Longrightarrow> lg_phase s = L_Error"
  shows "starts_ok s \<Longrightarrow> starts_ok s'"
  using assms by (auto simp: starts_ok_def)

lemma cancels_same:
  assumes "lg_sessionIdRef s' = lg_sessionIdRef s" "lg_unmounted s' = lg_unmounted s" "lg_closing s' = lg_closing s"
    "lg_cancels s' = lg_cancels s" "set (lg_out s') \<inter> range Cancel_Session = set (lg_out s) \<inter> range Cancel_Session"
  shows "cancels_ok s' \<longleftrightarrow> cancels_ok s"
proof -
  have "Cancel_Session i \<in> set (lg_out s') \<longleftrightarrow> Cancel_Session i \<in> set (lg_out s)" for i
    using assms(5) by blast
  then show ?thesis by (simp add: cancels_ok_def assms)
qed

lemma started_inv:
  assumes "login_inv s" "login_awaits k (Await_Start gen) s" "lg_sessionId s \<noteq> Some i"
  shows "login_inv (start_answered gen (Inr i) (done_awaiting k s))"
proof -
  obtain xs ys where a: "lg_awaits s = xs @ Await_Start gen # ys" "done_awaiting k s = s\<lparr>lg_awaits := xs @ ys\<rparr>"
    using assms(2) by (rule awaited_at)
  have gen: "gen = lg_startGen s" using assms(1) a by (simp add: login_inv_def starts_ok_def)
  show ?thesis
  proof (cases "lg_closing s \<or> lg_unmounted s")
    case True
    then show ?thesis using assms(1) gen a
      by (auto simp: login_inv_def start_answered_def login_emit_def starts_ok_def cancels_ok_def pending_def reconnectAllowed_def)
  next
    case False
    define t where "t = s\<lparr>lg_awaits := xs @ ys, lg_sessionIdRef := Some i, lg_sessionId := Some i\<rparr>"
    have eq: "start_answered gen (Inr i) (done_awaiting k s) = setPhase L_Connecting (dial t)"
      using False assms(3) gen a(2) by (simp add: start_answered_def set_sessionId_def t_def)
    have "starts_ok (setPhase L_Connecting (dial t))" "cancels_ok (setPhase L_Connecting (dial t))"
      using assms(1) a(1) False by (auto simp: login_inv_def starts_ok_def cancels_ok_def t_def pending_def)
    moreover have "login_ok (setPhase L_Connecting (dial t))" if "reconnectAllowed (setPhase L_Connecting (dial t))"
    proof -
      have ok: "login_ok s" using that assms(1) by (simp add: login_inv_def reconnectAllowed_def t_def)
      have "one_socket (setPhase L_Connecting (dial t))"
        using ok dial_one_socket [of t] by (simp add: login_ok_def one_socket_def t_def)
      moreover have "phase_socket (setPhase L_Connecting (dial t))"
        using dial_connects [of t] False by (simp add: phase_socket_def t_def)
      moreover have "phase_rest (setPhase L_Connecting (dial t))"
        using ok False a(1) by (auto simp: login_ok_def phase_rest_def t_def pending_def split: if_splits)
      ultimately show ?thesis by (simp add: login_ok_def)
    qed
    ultimately show ?thesis by (simp add: eq login_inv_def)
  qed
qed


lemma not_started_inv:
  assumes "login_inv s" "login_awaits k (Await_Start gen) s"
  shows "login_inv (start_answered gen (Inl e) (done_awaiting k s))"
proof -
  obtain xs ys where a: "lg_awaits s = xs @ Await_Start gen # ys" "done_awaiting k s = s\<lparr>lg_awaits := xs @ ys\<rparr>"
    using assms(2) by (rule awaited_at)
  have gen: "gen = lg_startGen s" using assms(1) a by (simp add: login_inv_def starts_ok_def)
  let ?t = "start_answered gen (Inl e) (done_awaiting k s)"
  show ?thesis
  proof (rule login_invI)
    show "starts_ok ?t" "cancels_ok ?t"
      using assms(1) gen a by (auto simp: login_inv_def start_answered_def starts_ok_def cancels_ok_def pending_def)
  next
    assume "reconnectAllowed ?t"
    then have "reconnectAllowed s" "login_ok s" "\<not> lg_unmounted s"
      using assms(1) gen a by (auto simp: login_inv_def reconnectAllowed_def start_answered_def split: if_splits)
    then show "login_ok ?t"
      using gen a by (auto simp: start_answered_def login_ok_def phase_socket_def phase_rest_def pending_def split: if_splits)
  qed
qed

lemma probed_inv:
  assumes "login_inv s" "login_awaits k (Await_Probe gen) s"
  shows "login_inv (probe_answered gen r (done_awaiting k s))"
proof -
  obtain xs ys where a: "lg_awaits s = xs @ Await_Probe gen # ys" "done_awaiting k s = s\<lparr>lg_awaits := xs @ ys\<rparr>"
    using assms(2) by (rule awaited_at)
  let ?t = "probe_answered gen r (done_awaiting k s)"
  let ?u = "s\<lparr>lg_awaits := xs @ ys, lg_probing := False\<rparr>"
  show ?thesis
  proof (cases "reconnectAllowed s")
    case False
    then have "?t = ?u" by (simp add: probe_answered_def a reconnectAllowed_def Let_def)
    moreover have "\<not> reconnectAllowed ?u" using False by (simp add: reconnectAllowed_def)
    moreover have "starts_ok ?u" "cancels_ok ?u"
      using assms(1) a by (simp_all add: login_inv_def starts_ok_def cancels_ok_def pending_def)
    ultimately show ?thesis by (simp add: login_inv_def)
  next
    case True
    then have ok: "login_ok s" using assms(1) by (simp add: login_inv_def)
    have al: "reconnectAllowed ?u" using True by (simp add: reconnectAllowed_def)
    have m: "\<not> lg_unmounted s" using True by (simp add: reconnectAllowed_def)
    have gen: "gen = lg_startGen s" and p: "lg_probing s" using ok a by (auto simp: login_ok_def phase_rest_def pending_def split: if_splits)
    then have ph: "lg_phase s = L_Reconnecting" "lg_timer s = None" "ws_state s = Ws_Closed" "one_socket s"
      using ok by (auto simp: login_ok_def phase_rest_def phase_socket_def)
    have rest: "phase_rest ?u" using ok a p by (auto simp: login_ok_def phase_rest_def pending_def)
    have ss: "starts_ok ?u" "cancels_ok ?u" "pending is_start ?u = 0"
      using assms(1) a ok ph(1) by (simp_all add: login_inv_def starts_ok_def cancels_ok_def pending_def login_ok_def phase_rest_def)
    have eq: "?t = (case r of
          Inl e \<Rightarrow> if locked_out e then setPhase L_Locked ?u else login_scheduleReconnect ?u
        | Inr alive \<Rightarrow> if \<not> alive then setPhase L_Error (?u\<lparr>lg_error := Some Session_Ended\<rparr>) else dial (setPhase L_Reconnecting ?u))"
      using gen al by (simp add: probe_answered_def a Let_def)
    show ?thesis
    proof (rule login_invI)
      show "starts_ok ?t" using ss(1,3) by (auto simp: eq starts_ok_def pending_def split: sum.split)
      show "cancels_ok ?t" using ss(2) by (auto simp: eq cancels_ok_def split: sum.split)
      have "login_ok (setPhase L_Locked ?u)" "login_ok (setPhase L_Error (?u\<lparr>lg_error := Some Session_Ended\<rparr>))"
        using ph rest m by (auto simp: login_ok_def phase_socket_def phase_rest_def pending_def)
      moreover have "login_ok (login_scheduleReconnect ?u)"
        using ph rest al by (intro login_schedule_ok) auto
      moreover have "login_ok (dial (setPhase L_Reconnecting ?u))"
        using ph rest m dial_one_socket [of "setPhase L_Reconnecting ?u"] dial_connects [of "setPhase L_Reconnecting ?u"]
        by (auto simp: login_ok_def phase_socket_def phase_rest_def pending_def)
      ultimately show "login_ok ?t" by (simp add: eq split: sum.split)
    qed
  qed
qed

lemma status_baseline:
  "(\<exists>bl. status_answered r (s\<lparr>lg_awaits := l\<rparr>) = s\<lparr>lg_awaits := l, lg_baseline := bl\<rparr>) \<or>
   lg_completed (status_answered r (s\<lparr>lg_awaits := l\<rparr>))"
proof (cases r)
  case (Inl e)
  then have "status_answered r (s\<lparr>lg_awaits := l\<rparr>) = s\<lparr>lg_awaits := l, lg_baseline := lg_baseline s\<rparr>"
    by (simp add: status_answered_def)
  then show ?thesis by blast
next
  case (Inr d)
  show ?thesis
    by (simp add: status_answered_def Inr Let_def login_emit_def clearReconnectTimer_def) auto
qed

lemma status_inv:
  assumes "login_inv s" "login_awaits k Await_Status s"
  shows "login_inv (status_answered r (done_awaiting k s))"
proof -
  obtain xs ys where a: "lg_awaits s = xs @ Await_Status # ys" "done_awaiting k s = s\<lparr>lg_awaits := xs @ ys\<rparr>"
    using assms(2) by (rule awaited_at)
  let ?t = "status_answered r (done_awaiting k s)"
  show ?thesis
  proof (rule login_invI)
    show "starts_ok ?t" "cancels_ok ?t"
      using assms(1) a by (auto simp: login_inv_def status_answered_def starts_ok_def cancels_ok_def pending_def
          login_emit_def clearReconnectTimer_def Let_def split: sum.split)
  next
    assume al: "reconnectAllowed ?t"
    have "(\<exists>bl. ?t = s\<lparr>lg_awaits := xs @ ys, lg_baseline := bl\<rparr>) \<or> lg_completed ?t"
      unfolding a(2) by (rule status_baseline)
    then obtain bl where t: "?t = s\<lparr>lg_awaits := xs @ ys, lg_baseline := bl\<rparr>"
      using al by (auto simp: reconnectAllowed_def)
    have "login_ok s" using assms(1) al unfolding t by (simp add: login_inv_def reconnectAllowed_def)
    then show "login_ok ?t"
      unfolding t using a(1) by (auto simp: login_ok_def phase_rest_def pending_def)
  qed
qed

lemma unlocked_inv:
  assumes "login_inv s" "login_awaits k Await_Unlock s"
  shows "login_inv (unlock_answered ok (done_awaiting k s))"
proof -
  obtain xs ys where a: "lg_awaits s = xs @ Await_Unlock # ys" "done_awaiting k s = s\<lparr>lg_awaits := xs @ ys\<rparr>"
    using assms(2) by (rule awaited_at)
  let ?t = "unlock_answered ok (done_awaiting k s)"
  let ?u = "(setPhase L_Reconnecting (s\<lparr>lg_awaits := xs @ ys\<rparr>))\<lparr>lg_attempt := 0\<rparr>"
  have eq: "?t = (if ok then login_reconnect ?u else s\<lparr>lg_awaits := xs @ ys\<rparr>)"
    by (simp add: unlock_answered_def reconnectNow_def a)
  show ?thesis
  proof (rule login_invI)
    show "starts_ok ?t" using assms(1) unfolding eq by (auto simp: login_inv_def starts_ok_def pending_def [of _ s] a(1) split: if_splits)
    show "cancels_ok ?t" using assms(1) unfolding eq by (auto simp: login_inv_def cancels_ok_def)
  next
    assume "reconnectAllowed ?t"
    then have al: "reconnectAllowed s" unfolding eq by (simp add: reconnectAllowed_def split: if_splits)
    then have ok: "login_ok s" and m: "\<not> lg_unmounted s"
      using assms(1) by (simp_all add: login_inv_def reconnectAllowed_def)
    then have ph: "lg_phase s = L_Locked" "\<not> lg_probing s" "ws_state s = Ws_Closed" "one_socket s"
      using a(1) by (auto simp: login_ok_def phase_rest_def phase_socket_def pending_def [of is_unlock] split: if_splits)
    have "login_ok (login_reconnect ?u)"
    proof (rule login_reconnect_ok)
      show "phase_rest ?u" "reconnectAllowed ?u"
        using ok al a ph m by (auto simp: login_ok_def phase_rest_def pending_def reconnectAllowed_def)
    qed (use ph m in auto)
    moreover have "login_ok (s\<lparr>lg_awaits := xs @ ys\<rparr>)"
      using ok a ph by (auto simp: login_ok_def phase_socket_def phase_rest_def pending_def)
    ultimately show "login_ok ?t" unfolding eq by simp
  qed
qed

text \<open>Steps that leave what is awaited, the session and the cancels as they are.\<close>

lemma quiet_inv:
  assumes "login_inv s"
    and "pending is_start s' = pending is_start s" "\<And>g. Await_Start g \<in> set (lg_awaits s') \<longleftrightarrow> Await_Start g \<in> set (lg_awaits s)"
    and "lg_startGen s' = lg_startGen s" "lg_phase s' = L_Error \<Longrightarrow> lg_phase s = L_Error"
    and "lg_sessionIdRef s' = lg_sessionIdRef s" "lg_unmounted s' = lg_unmounted s" "lg_closing s' = lg_closing s"
    and "lg_completed s' = lg_completed s" "lg_cancels s' = lg_cancels s"
    and "\<And>i. Cancel_Session i \<in> set (lg_out s') \<longleftrightarrow> Cancel_Session i \<in> set (lg_out s)"
    and "login_ok s \<Longrightarrow> reconnectAllowed s \<Longrightarrow> login_ok s'"
  shows "login_inv s'"
proof (rule login_invI)
  show "starts_ok s'" using assms(1-5) by (auto simp: login_inv_def starts_ok_def)
  show "cancels_ok s'" using assms(1,6-8,10,11) by (simp add: login_inv_def cancels_ok_def)
  show "reconnectAllowed s' \<Longrightarrow> login_ok s'" using assms(1,7-9,12) by (simp add: login_inv_def reconnectAllowed_def)
qed

lemma timer_inv:
  assumes "login_inv s"
  shows "login_inv (login_timer s)"
  using assms
proof (rule quiet_inv)
  assume ok: "login_ok s" and al: "reconnectAllowed s"
  show "login_ok (login_timer s)"
  proof (cases "lg_timer s")
    case (Some d)
    have "login_ok (login_reconnect (s\<lparr>lg_timer := None\<rparr>))"
      using ok al Some by (intro login_reconnect_ok) (auto simp: login_ok_def phase_rest_def phase_socket_def pending_def reconnectAllowed_def)
    then show ?thesis by (simp add: login_timer_def Some)
  qed (use ok in \<open>simp add: login_timer_def\<close>)
qed (auto simp: login_timer_def split: if_splits)

lemma reconnectNow_inv:
  assumes "login_inv s" "lg_phase s = L_Reconnecting"
  shows "login_inv (reconnectNow s)"
  using assms(1)
proof (rule quiet_inv)
  assume ok: "login_ok s" and al: "reconnectAllowed s"
  have "login_ok (login_reconnect (s\<lparr>lg_attempt := 0\<rparr>))"
    using ok al assms(2) by (intro login_reconnect_ok) (auto simp: login_ok_def phase_rest_def phase_socket_def pending_def reconnectAllowed_def)
  then show "login_ok (reconnectNow s)" by (simp add: reconnectNow_def)
qed (auto simp: reconnectNow_def)

text \<open>The sockets' own events.\<close>

lemma ws_state_at: "lg_ws s = Some i \<Longrightarrow> ws_state s = lg_sockets s ! i"
  by (simp add: ws_state_def)

lemma other_socket:
  assumes "one_socket s" "j < length (lg_sockets s)" "lg_sockets s ! j \<in> {Ws_Connecting, Ws_Open}"
  shows "lg_ws s = Some j"
  using assms by (auto simp: one_socket_def)

lemma socket_set:
  assumes "one_socket s" "i < length (lg_sockets s)" "lg_ws s = Some i \<or> r \<in> {Ws_Closing, Ws_Closed}"
  shows "one_socket (s\<lparr>lg_sockets := (lg_sockets s)[i := r]\<rparr>)"
    and "ws_state (s\<lparr>lg_sockets := (lg_sockets s)[i := r]\<rparr>) = (if lg_ws s = Some i then r else ws_state s)"
  using assms by (auto simp: one_socket_def ws_state_def nth_list_update split: option.split)

lemma phase_rest_same:
  assumes "lg_phase s' = lg_phase s" "lg_awaits s' = lg_awaits s" "lg_timer s' = lg_timer s" "lg_probing s' = lg_probing s"
    "lg_startGen s' = lg_startGen s" "lg_sessionIdRef s' = lg_sessionIdRef s" "lg_sessionId s' = lg_sessionId s"
  shows "phase_rest s' = phase_rest s"
  using assms by (simp add: phase_rest_def pending_def)

lemma ws_open_inv:
  assumes "login_inv s" "i < length (lg_sockets s)" "lg_sockets s ! i = Ws_Connecting"
  shows "login_inv (login_ws_open i s)"
  using assms(1)
proof (rule quiet_inv)
  assume ok: "login_ok s" and al: "reconnectAllowed s"
  let ?u = "s\<lparr>lg_sockets := (lg_sockets s)[i := Ws_Open]\<rparr>"
  have i: "lg_ws s = Some i" using ok assms(2,3) other_socket [of s i] by (simp add: login_ok_def)
  have m: "\<not> lg_unmounted s" using al by (simp add: reconnectAllowed_def)
  have u: "one_socket ?u" "ws_state ?u = Ws_Open" using socket_set [of s i Ws_Open] ok assms(2) i by (simp_all add: login_ok_def)
  have ph: "lg_phase s = L_Connecting \<or> lg_phase s = L_Reconnecting" "lg_timer s = None" "\<not> lg_probing s"
    using ok i assms(3) ws_state_at [OF i]
    by (auto simp: login_ok_def phase_socket_def phase_rest_def split: login_phase.splits if_splits)
  have "login_ws_open i s = setPhase L_Running (?u\<lparr>lg_attempt := 0\<rparr>)"
    using ph(1) i by (auto simp: login_ws_open_def Let_def)
  moreover have "phase_rest (setPhase L_Running (?u\<lparr>lg_attempt := 0\<rparr>))"
    using ok ph m by (auto simp: login_ok_def phase_rest_def pending_def)
  ultimately show "login_ok (login_ws_open i s)" using u m by (simp add: login_ok_def phase_socket_def)
qed (auto simp: login_ws_open_def Let_def pending_def split: if_splits)

lemma ws_closing_inv:
  assumes "login_inv s" "i < length (lg_sockets s)" "lg_sockets s ! i = Ws_Open"
  shows "login_inv (s\<lparr>lg_sockets := (lg_sockets s)[i := Ws_Closing]\<rparr>)"
  using assms(1)
proof (rule quiet_inv)
  assume ok: "login_ok s"
  let ?u = "s\<lparr>lg_sockets := (lg_sockets s)[i := Ws_Closing]\<rparr>"
  have i: "lg_ws s = Some i" using ok assms(2,3) other_socket [of s i] by (simp add: login_ok_def)
  have u: "one_socket ?u" "ws_state ?u = Ws_Closing" using socket_set [of s i Ws_Closing] ok assms(2) i by (simp_all add: login_ok_def)
  have "lg_phase s = L_Running" using ok i assms(3) ws_state_at [OF i]
    by (auto simp: login_ok_def phase_socket_def split: login_phase.splits if_splits)
  moreover have "phase_rest ?u" using ok phase_rest_same [of ?u s] by (simp add: login_ok_def)
  ultimately show "login_ok ?u" using u by (simp add: login_ok_def phase_socket_def)
qed (auto simp: pending_def)

lemma ws_close_inv:
  assumes "login_inv s" "i < length (lg_sockets s)" "lg_sockets s ! i \<noteq> Ws_Closed"
  shows "login_inv (login_ws_close i s)"
  using assms(1)
proof (rule quiet_inv)
  assume ok: "login_ok s" and al: "reconnectAllowed s"
  let ?u = "s\<lparr>lg_sockets := (lg_sockets s)[i := Ws_Closed]\<rparr>"
  have m: "\<not> lg_unmounted s" "reconnectAllowed ?u" using al by (simp_all add: reconnectAllowed_def)
  have u: "one_socket ?u" "ws_state ?u = (if lg_ws s = Some i then Ws_Closed else ws_state s)"
    using socket_set [of s i Ws_Closed] ok assms(2) by (simp_all add: login_ok_def)
  have rest: "phase_rest ?u" using ok phase_rest_same [of ?u s] by (simp add: login_ok_def)
  show "login_ok (login_ws_close i s)"
  proof (cases "lg_ws s = Some i")
    case False
    then have "login_ws_close i s = ?u" by (simp add: login_ws_close_def Let_def)
    moreover have "phase_socket ?u" using ok u(2) False by (auto simp: login_ok_def phase_socket_def split: login_phase.splits)
    ultimately show ?thesis using u rest by (simp add: login_ok_def)
  next
    case True
    have ph: "lg_phase s \<in> {L_Connecting, L_Running, L_Reconnecting}" "lg_timer s = None" "\<not> lg_probing s"
      using ok assms(3) ws_state_at [OF True]
      by (auto simp: login_ok_def phase_socket_def phase_rest_def split: login_phase.splits if_splits)
    have "login_ws_close i s = login_scheduleReconnect (setPhase L_Reconnecting ?u)"
      using True m(2) by (simp add: login_ws_close_def Let_def)
    moreover have "login_ok (login_scheduleReconnect (setPhase L_Reconnecting ?u))"
    proof (rule login_schedule_ok)
      show "phase_rest (setPhase L_Reconnecting ?u)"
        using rest ph m(1) by (auto simp: phase_rest_def pending_def)
      show "reconnectAllowed (setPhase L_Reconnecting ?u)" using m(2) by (simp add: reconnectAllowed_def)
    qed (use u ph m True in auto)
    ultimately show ?thesis by simp
  qed
qed (auto simp: login_ws_close_def Let_def pending_def split: if_splits)

text \<open>Timers and buttons.\<close>

lemma untouched_inv:
  assumes "login_inv s" "s' = s\<lparr>lg_interrupts := ns, lg_out := lg_out s @ es\<rparr>" "\<And>i. Cancel_Session i \<notin> set es"
  shows "login_inv s'"
  using assms(1)
proof (rule quiet_inv)
  show "login_ok s \<Longrightarrow> login_ok s'"
    using phase_rest_same [of s' s] by (simp add: assms(2) login_ok_def)
qed (use assms(2,3) in \<open>auto simp: pending_def\<close>)

lemma interrupt_inv:
  assumes "login_inv s"
  shows "login_inv (interrupt_timer i s)"
proof (rule untouched_inv [OF assms])
  show "interrupt_timer i s = s\<lparr>lg_interrupts := lg_interrupts (interrupt_timer i s),
    lg_out := lg_out s @ (if i \<in> set (lg_interrupts s) \<and> ws_is_open i s then [Interrupt i] else [])\<rparr>"
    by (simp add: interrupt_timer_def login_emit_def ws_is_open_def Let_def)
qed simp

lemma menu_inv:
  assumes "login_inv s"
  shows "login_inv (handleOpenLoginMenu s)" "login_inv (login_onData d s)"
proof -
  show "login_inv (handleOpenLoginMenu s)"
    by (rule untouched_inv [OF assms, where es = "case lg_ws s of None \<Rightarrow> [] | Some i \<Rightarrow> if ws_is_open i s then [Login_Menu i] else []" and ns = "lg_interrupts s"])
      (auto simp: handleOpenLoginMenu_def login_emit_def split: option.splits)
  show "login_inv (login_onData d s)"
    by (rule untouched_inv [OF assms, where es = "case lg_ws s of None \<Rightarrow> [] | Some i \<Rightarrow> if ws_is_open i s then [Typed i d] else []" and ns = "lg_interrupts s"])
      (auto simp: login_onData_def login_emit_def split: option.splits)
qed

lemma await_inv:
  assumes "login_inv s" "a = Await_Status \<or> a = Await_Unlock \<and> lg_phase s = L_Locked \<and> Await_Unlock \<notin> set (lg_awaits s)"
  shows "login_inv (login_await a s)"
  using assms(1)
proof (rule quiet_inv)
  show "login_ok s \<Longrightarrow> login_ok (login_await a s)"
    using assms(2) by (auto simp: login_ok_def login_await_def phase_rest_def pending_def is_unlock_def filter_empty_conv)
qed (use assms(2) in \<open>auto simp: login_await_def pending_def\<close>)

lemma cancel_inv:
  assumes "login_inv s"
  shows "login_inv (cancel_timer s)"
proof (cases "lg_cancels s = 0")
  case False
  let ?t = "cancel_timer s"
  have al: "reconnectAllowed ?t \<Longrightarrow> False"
    using assms False by (auto simp: cancel_timer_def cancelSession_def login_emit_def login_inv_def cancels_ok_def reconnectAllowed_def split: option.splits)
  have "starts_ok ?t" using assms False
    by (auto simp: cancel_timer_def cancelSession_def login_emit_def login_inv_def starts_ok_def pending_def split: option.splits)
  moreover have "cancels_ok ?t" using assms False
    by (auto simp: cancel_timer_def cancelSession_def login_emit_def login_inv_def cancels_ok_def split: option.splits)
  ultimately show ?thesis using al by (auto simp: login_inv_def)
qed (use assms in \<open>simp add: cancel_timer_def\<close>)

lemma manual_close_fields:
  "lg_closing (handleManualClose s)" "lg_cancels (handleManualClose s) = lg_cancels s + 1"
  "lg_awaits (handleManualClose s) = lg_awaits s" "lg_startGen (handleManualClose s) = lg_startGen s"
  "lg_phase (handleManualClose s) = lg_phase s"
  by (simp_all add: handleManualClose_def Let_def clearReconnectTimer_def login_emit_def split: option.split)

lemma close_inv:
  assumes "login_inv s"
  shows "login_inv (handleManualClose s)"
proof (rule login_invI)
  show "starts_ok (handleManualClose s)"
    using assms by (simp add: login_inv_def starts_ok_def manual_close_fields pending_def)
  show "cancels_ok (handleManualClose s)" by (simp add: cancels_ok_def manual_close_fields)
  show "reconnectAllowed (handleManualClose s) \<Longrightarrow> login_ok (handleManualClose s)"
    by (simp add: reconnectAllowed_def manual_close_fields)
qed

lemma auto_close_inv:
  assumes "login_inv s"
  shows "login_inv (auto_close s)"
proof (cases "lg_autoClose s")
  case True
  have "login_inv (s\<lparr>lg_autoClose := False\<rparr>)" using assms
  proof (rule quiet_inv)
    show "login_ok s \<Longrightarrow> login_ok (s\<lparr>lg_autoClose := False\<rparr>)"
      using phase_rest_same [of "s\<lparr>lg_autoClose := False\<rparr>" s]
      by (simp add: login_ok_def one_socket_def phase_socket_def ws_state_def cong: option.case_cong login_phase.case_cong)
  qed (simp_all add: pending_def)
  then show ?thesis using close_inv True by (simp add: auto_close_def)
qed (use assms in \<open>simp add: auto_close_def\<close>)

lemma unmount_inv:
  assumes "login_inv s" "\<not> lg_unmounted s"
  shows "login_inv (login_unmount s)"
proof -
  let ?t = "login_unmount s"
  have um: "lg_unmounted ?t"
    by (simp add: login_unmount_def Let_def cancelSession_def login_emit_def clearReconnectTimer_def split: option.split)
  show ?thesis
  proof (rule login_invI)
    show "starts_ok ?t" using assms by (auto simp: login_inv_def starts_ok_def login_unmount_def Let_def cancelSession_def
        login_emit_def clearReconnectTimer_def pending_def split: option.splits)
    show "cancels_ok ?t" using assms by (auto simp: login_inv_def cancels_ok_def login_unmount_def Let_def cancelSession_def
        login_emit_def clearReconnectTimer_def split: option.splits)
  qed (simp add: reconnectAllowed_def um)
qed

lemma restart_inv:
  assumes "login_inv s" "\<not> lg_unmounted s" "\<not> lg_closing s" "lg_phase s = L_Error"
  shows "login_inv (startSession s)"
proof (rule login_invI)
  have none: "g \<notin> set (lg_awaits s)" if "is_start g" for g
    using assms(1,4) that by (auto simp: login_inv_def starts_ok_def pending_def filter_empty_conv)
  show "starts_ok (startSession s)"
    using assms none by (auto simp: login_inv_def starts_ok_def startSession_def login_await_def clearReconnectTimer_def Let_def pending_def)
  show "cancels_ok (startSession s)"
    using assms by (auto simp: login_inv_def cancels_ok_def startSession_def login_await_def clearReconnectTimer_def Let_def)
  assume "reconnectAllowed (startSession s)"
  then have "login_ok s" using assms(1) by (simp add: login_inv_def reconnectAllowed_def startSession_def login_await_def clearReconnectTimer_def Let_def)
  then show "login_ok (startSession s)"
    using assms(2,4) by (auto simp: login_ok_def phase_socket_def phase_rest_def startSession_def login_await_def clearReconnectTimer_def
        Let_def pending_def filter_empty_conv is_probe_def split: if_splits)
qed

lemma login_step_inv: "login_step s s' \<Longrightarrow> login_inv s \<Longrightarrow> login_inv s'"
proof (induction rule: login_step.induct)
  case (foreground s)
  then show ?case by (simp add: login_onForeground_def reconnectNow_inv)
qed (simp_all add: started_inv not_started_inv probed_inv status_inv unlocked_inv ws_open_inv ws_closing_inv ws_close_inv
    timer_inv await_inv interrupt_inv cancel_inv auto_close_inv reconnectNow_inv restart_inv close_inv unmount_inv menu_inv)

lemma login_reachable_inv:
  assumes "login_reachable s"
  shows "login_inv s"
  using assms unfolding login_reachable_def
  by (induction rule: rtranclp_induct) (auto simp: mount_inv login_step_inv)

section \<open>A running terminal stays within reach\<close>

definition may_run :: "login \<Rightarrow> bool" where
  "may_run s \<longleftrightarrow> (\<exists>s'. login_step\<^sup>*\<^sup>* s s' \<and> reconnectAllowed s' \<and> lg_phase s' = L_Running)"

lemma may_run_step: "login_step s s' \<Longrightarrow> may_run s' \<Longrightarrow> may_run s"
  unfolding may_run_def by (meson converse_rtranclp_into_rtranclp)

lemma pending_at:
  assumes "0 < pending P s"
  obtains k a where "login_awaits k a s" "P a"
  using assms by (auto simp: pending_def login_awaits_def filter_empty_conv in_set_conv_nth)

lemma connecting_may_run:
  assumes "login_inv s" "reconnectAllowed s" "ws_state s = Ws_Connecting"
  shows "may_run s"
proof -
  have ok: "login_ok s" using assms(1,2) by (simp add: login_inv_def)
  obtain i where i: "lg_ws s = Some i" "lg_sockets s ! i = Ws_Connecting"
    using assms(3) by (auto simp: ws_state_def split: option.splits)
  have len: "i < length (lg_sockets s)" using ok i by (simp add: login_ok_def one_socket_def)
  have "lg_phase s \<noteq> L_Completed" using ok by (auto simp: login_ok_def phase_socket_def)
  then have "lg_phase (login_ws_open i s) = L_Running" "reconnectAllowed (login_ws_open i s)"
    using assms(2) i by (simp_all add: login_ws_open_def Let_def reconnectAllowed_def)
  then show ?thesis using login_step.ws_open [OF len i(2)] by (auto simp: may_run_def)
qed

lemma probing_may_run:
  assumes "login_inv s" "reconnectAllowed s" "lg_probing s"
  shows "may_run s"
proof -
  have ok: "login_ok s" using assms(1,2) by (simp add: login_inv_def)
  then have "0 < pending is_probe s" using assms(3) by (simp add: login_ok_def phase_rest_def)
  then obtain k gen where k: "login_awaits k (Await_Probe gen) s" by (metis pending_at is_probe_def)
  then have "Await_Probe gen \<in> set (lg_awaits s)" by (auto simp: login_awaits_def in_set_conv_nth)
  then have gen: "gen = lg_startGen s" using ok by (simp add: login_ok_def phase_rest_def)
  let ?t = "probe_answered gen (Inr True) (done_awaiting k s)"
  have "lg_sessionId s \<noteq> None" using ok assms(3) by (simp add: login_ok_def phase_rest_def)
  then have t: "reconnectAllowed ?t" "ws_state ?t = Ws_Connecting"
    using assms(2) gen by (auto simp: probe_answered_def Let_def reconnectAllowed_def done_awaiting_def intro!: dial_connects)
  have st: "login_step s ?t" using k by (rule login_step.probed)
  show ?thesis using connecting_may_run [OF login_step_inv [OF st assms(1)] t] st by (rule may_run_step [rotated])
qed

lemma reconnecting_may_run:
  assumes "login_inv s" "reconnectAllowed s" "lg_phase s = L_Reconnecting"
  shows "may_run s"
proof -
  have ok: "login_ok s" using assms(1,2) by (simp add: login_inv_def)
  consider "lg_probing s" | "ws_state s = Ws_Connecting" | "lg_timer s \<noteq> None" "\<not> lg_probing s" "ws_state s = Ws_Closed"
    using ok assms(3) by (auto simp: login_ok_def phase_socket_def split: if_splits)
  then show ?thesis
  proof cases
    case 3
    have "lg_sessionIdRef s \<noteq> None" using ok assms(3) by (simp add: login_ok_def phase_rest_def)
    then have "lg_probing (login_timer s)" "reconnectAllowed (login_timer s)"
      using 3 assms(2) by (auto simp: login_timer_def login_reconnect_def Let_def reconnectAllowed_def clearReconnectTimer_def
          login_await_def ws_alive_state)
    then show ?thesis
      using probing_may_run [OF login_step_inv [OF login_step.timer assms(1)]] may_run_step [OF login_step.timer] by blast
  qed (use assms probing_may_run connecting_may_run in auto)
qed

lemma locked_may_run:
  assumes "login_inv s" "reconnectAllowed s" "lg_phase s = L_Locked" "login_awaits k Await_Unlock s"
  shows "may_run s"
proof -
  let ?t = "unlock_answered True (done_awaiting k s)"
  have st: "login_step s ?t" using assms(4) by (rule login_step.unlocked)
  have "reconnectAllowed ?t" "lg_phase ?t = L_Reconnecting"
    using assms(2) by (simp_all add: unlock_answered_def reconnectNow_def done_awaiting_def reconnectAllowed_def)
  then show ?thesis using reconnecting_may_run [OF login_step_inv [OF st assms(1)]] may_run_step [OF st] by blast
qed

lemma starting_may_run:
  assumes "login_inv s" "reconnectAllowed s" "lg_phase s = L_Starting"
  shows "may_run s"
proof -
  have ok: "login_ok s" using assms(1,2) by (simp add: login_inv_def)
  then have "0 < pending is_start s" using assms(3) by (simp add: login_ok_def phase_rest_def)
  then obtain k gen where k: "login_awaits k (Await_Start gen) s" by (metis pending_at is_start_def)
  then have "Await_Start gen \<in> set (lg_awaits s)" by (auto simp: login_awaits_def in_set_conv_nth)
  then have gen: "gen = lg_startGen s" using assms(1) by (simp add: login_inv_def starts_ok_def)
  define i :: ustring where "i = (if lg_sessionId s = Some [] then [0] else [])"
  have new: "lg_sessionId s \<noteq> Some i" by (simp add: i_def)
  let ?t = "start_answered gen (Inr i) (done_awaiting k s)"
  have st: "login_step s ?t" using k new by (rule login_step.started)
  have "reconnectAllowed ?t" "ws_state ?t = Ws_Connecting"
    using assms(2) gen new by (auto simp: start_answered_def done_awaiting_def reconnectAllowed_def set_sessionId_def intro!: dial_connects)
  then show ?thesis using connecting_may_run [OF login_step_inv [OF st assms(1)]] may_run_step [OF st] by blast
qed

lemma login_may_run:
  assumes "login_inv s" "reconnectAllowed s"
  shows "may_run s"
proof -
  have ok: "login_ok s" using assms by (simp add: login_inv_def)
  have m: "\<not> lg_unmounted s" "\<not> lg_closing s" using assms(2) by (simp_all add: reconnectAllowed_def)
  show ?thesis
  proof (cases "lg_phase s")
    case L_Locked
    show ?thesis
    proof (cases "Await_Unlock \<in> set (lg_awaits s)")
      case True
      then show ?thesis using locked_may_run [OF assms L_Locked] by (auto simp: in_set_conv_nth login_awaits_def)
    next
      case False
      let ?t = "login_await Await_Unlock s"
      have st: "login_step s ?t" using m(1) L_Locked False by (rule login_step.unlock_button)
      have "login_awaits (length (lg_awaits s)) Await_Unlock ?t" "reconnectAllowed ?t" "lg_phase ?t = L_Locked"
        using assms(2) L_Locked by (simp_all add: login_awaits_def login_await_def reconnectAllowed_def)
      then show ?thesis using locked_may_run [OF login_step_inv [OF st assms(1)]] may_run_step [OF st] by blast
    qed
  next
    case L_Error
    have st: "login_step s (startSession s)" using m L_Error by (rule login_step.restart_button)
    have "reconnectAllowed (startSession s)" "lg_phase (startSession s) = L_Starting"
      using assms(2) by (simp_all add: startSession_def Let_def login_await_def clearReconnectTimer_def reconnectAllowed_def)
    then show ?thesis using starting_may_run [OF login_step_inv [OF st assms(1)]] may_run_step [OF st] by blast
  next
    case L_Running
    then show ?thesis using assms(2) by (auto simp: may_run_def)
  qed (use assms ok starting_may_run reconnecting_may_run connecting_may_run in \<open>auto simp: login_ok_def phase_socket_def\<close>)
qed

section \<open>The properties\<close>

text \<open>C8: In every reachable state in which the dialog may reconnect, at most the socket it holds is
connecting or open. While it reconnects exactly one of three things is under way: a delay of one to
thirty seconds, a question to the server whether the session lives, or a socket being opened; in the
other phases none of the first two. And whatever has happened, some course of events still leads to
a running terminal.\<close>

theorem login_never_stuck:
  assumes "login_reachable s" "reconnectAllowed s"
  shows "(\<forall>j < length (lg_sockets s). lg_sockets s ! j \<in> {Ws_Connecting, Ws_Open} \<longrightarrow> lg_ws s = Some j) \<and>
    (lg_phase s = L_Reconnecting \<longrightarrow> length (filter id [lg_timer s \<noteq> None, lg_probing s, ws_alive s]) = 1) \<and>
    (lg_phase s \<noteq> L_Reconnecting \<longrightarrow> lg_timer s = None \<and> \<not> lg_probing s) \<and>
    (\<forall>d. lg_timer s = Some d \<longrightarrow> 1000 \<le> d \<and> d \<le> 30000) \<and>
    (\<exists>s'. login_step\<^sup>*\<^sup>* s s' \<and> reconnectAllowed s' \<and> lg_phase s' = L_Running)"
proof (intro conjI)
  have inv: "login_inv s" using assms(1) by (rule login_reachable_inv)
  then have ok: "login_ok s" using assms(2) by (simp add: login_inv_def)
  show "\<forall>j < length (lg_sockets s). lg_sockets s ! j \<in> {Ws_Connecting, Ws_Open} \<longrightarrow> lg_ws s = Some j"
    using ok other_socket by (simp add: login_ok_def)
  show "lg_phase s = L_Reconnecting \<longrightarrow> length (filter id [lg_timer s \<noteq> None, lg_probing s, ws_alive s]) = 1"
    using ok by (auto simp: login_ok_def phase_socket_def phase_rest_def ws_alive_state split: if_splits)
  show "lg_phase s \<noteq> L_Reconnecting \<longrightarrow> lg_timer s = None \<and> \<not> lg_probing s"
    using ok by (auto simp: login_ok_def phase_rest_def)
  show "\<forall>d. lg_timer s = Some d \<longrightarrow> 1000 \<le> d \<and> d \<le> 30000"
    using ok by (simp add: login_ok_def phase_rest_def LOGIN_RECONNECT_BASE_DELAY_MS_def LOGIN_RECONNECT_MAX_DELAY_MS_def)
  show "\<exists>s'. login_step\<^sup>*\<^sup>* s s' \<and> reconnectAllowed s' \<and> lg_phase s' = L_Running"
    using login_may_run [OF inv assms(2)] by (simp add: may_run_def)
qed

lemma login_reachable_step: "login_reachable s \<Longrightarrow> login_step s s' \<Longrightarrow> login_reachable s'"
  unfolding login_reachable_def by (rule rtranclp.rtrancl_into_rtrancl)

lemma login_reachable_mount: "login_reachable login_mount"
  by (simp add: login_reachable_def)

text \<open>A login whose socket opened and was dropped.\<close>

definition login_started :: login where
  "login_started = start_answered 1 (Inr [7]) (done_awaiting 0 login_mount)"

definition login_dropped :: login where
  "login_dropped = login_ws_close 0 (login_ws_open 0 login_started)"

lemmas login_examples = login_started_def login_dropped_def login_mount_def done_awaiting_def login_ops Let_def
  reconnectAllowed_def

lemma login_started_reachable: "login_reachable login_started"
  unfolding login_started_def
  by (rule login_reachable_step [OF login_reachable_mount], rule login_step.started)
    (simp_all add: login_examples login_awaits_def)

lemma login_opened_reachable: "login_reachable (login_ws_open 0 login_started)"
  by (rule login_reachable_step [OF login_started_reachable], rule login_step.ws_open) (simp_all add: login_examples)

lemma login_dropped_reachable: "login_reachable login_dropped"
  unfolding login_dropped_def
  by (rule login_reachable_step [OF login_opened_reachable], rule login_step.ws_close) (simp_all add: login_examples)

theorem login_never_stuck_witness:
  "login_reachable login_dropped \<and> reconnectAllowed login_dropped \<and> lg_phase login_dropped = L_Reconnecting \<and>
   lg_timer login_dropped = Some 1000 \<and>
   (\<exists>s'. login_step\<^sup>*\<^sup>* login_dropped s' \<and> reconnectAllowed s' \<and> lg_phase s' = L_Running)"
proof -
  have "reconnectAllowed login_dropped" by (simp add: login_examples)
  moreover have "lg_phase login_dropped = L_Reconnecting" "lg_timer login_dropped = Some 1000"
    by (simp_all add: login_examples LOGIN_RECONNECT_BASE_DELAY_MS_def LOGIN_RECONNECT_MAX_DELAY_MS_def)
  ultimately show ?thesis using login_never_stuck [OF login_dropped_reachable] login_dropped_reachable by blast
qed





section \<open>Where the code does not do what it means to\<close>

text \<open>
  The dialog closes itself once the login is complete. When the poll sees the end while the user is
  unlocking, the unlock that then succeeds takes the phase back to reconnecting, where nothing is
  under way: reconnecting is over, and the effect that closes the dialog is never armed again.
\<close>

definition login_unlocking :: login where
  "login_unlocking = login_await Await_Unlock (login_await Await_Status (status_answered (Inr False) (done_awaiting 0
     (login_await Await_Status (probe_answered 1 (Inl (ApiError 401 LoginExpired)) (done_awaiting 0 (login_timer login_dropped)))))))"

definition login_undone :: login where
  "login_undone = unlock_answered True (done_awaiting 0 (status_answered (Inr True) (done_awaiting 0 login_unlocking)))"

lemmas login_constants = LOGIN_RECONNECT_BASE_DELAY_MS_def LOGIN_RECONNECT_MAX_DELAY_MS_def locked_out_def

lemma login_unlocking_reachable: "login_reachable login_unlocking"
  unfolding login_unlocking_def
  apply (rule login_reachable_step [OF _ login_step.unlock_button])
     apply (rule login_reachable_step [OF _ login_step.poll])
       apply (rule login_reachable_step [OF _ login_step.status])
        apply (rule login_reachable_step [OF _ login_step.poll])
          apply (rule login_reachable_step [OF _ login_step.probed])
           apply (rule login_reachable_step [OF login_dropped_reachable login_step.timer])
          apply (simp_all add: login_examples login_constants login_awaits_def pollActive_def)
  done

lemma unlock_undoes_completion:
  "login_reachable login_undone \<and> lg_completed login_undone \<and> lg_phase login_undone = L_Reconnecting \<and>
   \<not> lg_autoClose login_undone \<and> lg_closeScheduled login_undone \<and> lg_timer login_undone = None \<and> lg_awaits login_undone = []"
proof (intro conjI)
  show "login_reachable login_undone"
    unfolding login_undone_def
    apply (rule login_reachable_step [OF _ login_step.unlocked])
     apply (rule login_reachable_step [OF login_unlocking_reachable login_step.status])
     apply (simp_all add: login_unlocking_def login_examples login_constants login_awaits_def)
    done
qed (simp_all add: login_undone_def login_unlocking_def login_examples login_constants)

text \<open>
  Closing sends one interrupt at once and means to send another a quarter of a second later; but the
  parent takes the dialog away at once, which closes the socket, and then nothing more is sent on it.
\<close>

lemma second_interrupt_is_lost:
  assumes "lg_ws s = Some i" "i < length (lg_sockets s)" "lg_sockets s ! i = Ws_Open"
  defines "t \<equiv> login_unmount (handleManualClose s)"
  shows "i \<in> set (lg_interrupts t)" "lg_out (interrupt_timer i t) = lg_out t"
  using assms(1-3) unfolding t_def
  by (auto simp: login_unmount_def handleManualClose_def interrupt_timer_def close_ws_def cancelSession_def login_emit_def
      clearReconnectTimer_def ws_is_open_def Let_def split: option.splits)

end
