(* ===== verification/Webauthn.thy ===== *)
theory Webauthn
  imports Api_Types Device_Prefs "HOL-Library.Word"
begin

text \<open>
  The browser half of the fingerprint unlock, \<open>utils/webauthn.ts\<close>, and \<open>components/common/webauthnGate.ts\<close>:
  bytes as unpadded base64url (\<open>btoa\<close> and \<open>atob\<close> of the browser included), the two ceremonies with the
  server and the authenticator as arguments, and the flags they leave in the storage. A code unit is a
  number, a byte an \<open>8 word\<close>; what throws is \<open>None\<close> or \<open>Inl\<close>. Path parameters and message texts are values.
\<close>

section \<open>\<open>btoa\<close> and \<open>atob\<close>\<close>

definition B64_ALPHABET :: ustring where
  "B64_ALPHABET = js ''ABCDEFGHIJKLMNOPQRSTUVWXYZabcdefghijklmnopqrstuvwxyz0123456789+/''"

abbreviation (input) U_EQ :: codeunit where "U_EQ \<equiv> 0x3d"
abbreviation (input) U_PLUS :: codeunit where "U_PLUS \<equiv> 0x2b"
abbreviation (input) U_MINUS :: codeunit where "U_MINUS \<equiv> 0x2d"
abbreviation (input) U_UNDERSCORE :: codeunit where "U_UNDERSCORE \<equiv> 0x5f"

definition b64_char :: "nat \<Rightarrow> codeunit" where
  "b64_char n = B64_ALPHABET ! n"

definition b64_value :: "codeunit \<Rightarrow> nat option" where
  "b64_value u = map_of (zip B64_ALPHABET [0..<64]) u"

text \<open>Groups of six bits, most significant first.\<close>

fun sixbits :: "nat list \<Rightarrow> nat list" where
  "sixbits [] = []"
| "sixbits [a] = [a div 4, a mod 4 * 16]"
| "sixbits [a, b] = [a div 4, a mod 4 * 16 + b div 16, b mod 16 * 4]"
| "sixbits (a # b # c # r) =
     a div 4 # (a mod 4 * 16 + b div 16) # (b mod 16 * 4 + c div 64) # c mod 64 # sixbits r"

fun eightbits :: "nat list \<Rightarrow> nat list" where
  "eightbits (w # x # y # z # r) =
     (w * 4 + x div 16) # (x mod 16 * 16 + y div 4) # (y mod 4 * 64 + z) # eightbits r"
| "eightbits [w, x, y] = [w * 4 + x div 16, x mod 16 * 16 + y div 4]"
| "eightbits [w, x] = [w * 4 + x div 16]"
| "eightbits _ = []"

definition btoa :: "ustring \<Rightarrow> ustring option" where
  "btoa s =
     (if \<exists>u \<in> set s. 255 < u then None
      else Some (map b64_char (sixbits s) @ replicate ((3 - length s mod 3) mod 3) U_EQ))"

definition ascii_space :: "codeunit \<Rightarrow> bool" where
  "ascii_space u \<longleftrightarrow> u \<in> {0x09, 0x0a, 0x0c, 0x0d, 0x20}"

definition strip_padding :: "ustring \<Rightarrow> ustring" where
  "strip_padding s =
     (if ends_with s [U_EQ, U_EQ] then slice_drop_end s 2
      else if ends_with s [U_EQ] then slice_drop_end s 1 else s)"

definition atob :: "ustring \<Rightarrow> ustring option" where
  "atob s =
     (let t = filter (\<lambda>u. \<not> ascii_space u) s;
          v = (if length t mod 4 = 0 then strip_padding t else t)
      in if length v mod 4 = 1 \<or> (\<exists>u \<in> set v. b64_value u = None) then None
         else Some (eightbits (map (the \<circ> b64_value) v)))"

section \<open>base64url\<close>

type_synonym bytes = "8 word list"

definition fromB64url :: "ustring \<Rightarrow> bytes option" where
  "fromB64url s =
     (let b64 = map (\<lambda>u. if u = U_UNDERSCORE then U_SLASH else u) (map (\<lambda>u. if u = U_MINUS then U_PLUS else u) s)
            @ replicate ((4 - length s mod 4) mod 4) U_EQ
      in map_option (map of_nat) (atob b64))"

definition drop_trailing :: "codeunit \<Rightarrow> ustring \<Rightarrow> ustring" where
  "drop_trailing c s = rev (dropWhile (\<lambda>u. u = c) (rev s))"

definition toB64url :: "bytes option \<Rightarrow> ustring option" where
  "toB64url buf =
     (case buf of
        None \<Rightarrow> None
      | Some b \<Rightarrow> map_option
          (\<lambda>s. drop_trailing U_EQ
            (map (\<lambda>u. if u = U_SLASH then U_UNDERSCORE else u) (map (\<lambda>u. if u = U_PLUS then U_MINUS else u) s)))
          (btoa (map unat b)))"

subsection \<open>What was sent is what is read\<close>

lemma alphabet: "distinct B64_ALPHABET" "length B64_ALPHABET = 64"
  "list_all (\<lambda>u. u \<noteq> U_EQ \<and> \<not> ascii_space u \<and> u \<noteq> U_MINUS \<and> u \<noteq> U_UNDERSCORE) B64_ALPHABET"
  by (simp_all add: B64_ALPHABET_def js_def distinct_map inj_def ascii_space_def)

lemma b64_digit:
  assumes "n < 64"
  shows "b64_value (b64_char n) = Some n" "b64_char n \<noteq> U_EQ" "\<not> ascii_space (b64_char n)"
    "b64_char n \<noteq> U_MINUS" "b64_char n \<noteq> U_UNDERSCORE"
proof -
  show "b64_value (b64_char n) = Some n"
    using assms alphabet(1,2) map_of_zip_nth [of B64_ALPHABET "[0..<64]" n] by (simp add: b64_value_def b64_char_def)
  have "b64_char n \<in> set B64_ALPHABET" using assms alphabet(2) by (simp add: b64_char_def)
  then show "b64_char n \<noteq> U_EQ" "\<not> ascii_space (b64_char n)" "b64_char n \<noteq> U_MINUS" "b64_char n \<noteq> U_UNDERSCORE"
    using alphabet(3) by (auto simp: list_all_iff)
qed

lemma sixbits_bound: "\<forall>u \<in> set s. u < 256 \<Longrightarrow> n \<in> set (sixbits s) \<Longrightarrow> n < 64"
  by (induction s rule: sixbits.induct) auto

text \<open>A digit below its base.\<close>

lemma low_digit:
  fixes p q k :: nat
  assumes "q < k"
  shows "(p * k + q) mod k = q" "(p * k + q) div k = p"
  using assms by simp_all

lemma eightbits_sixbits: "\<forall>u \<in> set s. u < 256 \<Longrightarrow> eightbits (sixbits s) = s"
proof (induction s rule: sixbits.induct)
  case (4 a b c r)
  then have "b div 16 < 16" "c div 64 < 4" by (auto intro: less_mult_imp_div_less)
  then show ?case using 4 low_digit [of "b div 16" 16 "a mod 4"] low_digit [of "c div 64" 4 "b mod 16"] by simp
next
  case (3 a b)
  then have "b div 16 < 16" by (auto intro: less_mult_imp_div_less)
  then show ?case using low_digit [of "b div 16" 16 "a mod 4"] by simp
qed simp_all

lemma length_sixbits: "length (sixbits s) mod 4 = (if length s mod 3 = 0 then 0 else length s mod 3 + 1)"
  by (induction s rule: sixbits.induct) (simp_all add: mod_Suc, presburger?)

lemma length_sixbits_exact: "length (sixbits s) = (4 * length s + 2) div 3"
  by (induction s rule: sixbits.induct) simp_all

lemma unat_byte: "unat (b :: 8 word) < 256"
  using unsigned_less [of b] by simp

definition url_char :: "nat \<Rightarrow> codeunit" where
  "url_char n = (if b64_char n = U_PLUS then U_MINUS else if b64_char n = U_SLASH then U_UNDERSCORE else b64_char n)"

lemma toB64url_digits: "toB64url (Some bs) = Some (map url_char (sixbits (map unat bs)))"
proof -
  let ?ds = "sixbits (map unat bs)" and ?k = "(3 - length bs mod 3) mod 3"
  note small = unat_byte
  have ds: "\<forall>n \<in> set ?ds. n < 64" using sixbits_bound [of "map unat bs"] small by auto
  have ne: "\<forall>n \<in> set ?ds. url_char n \<noteq> U_EQ" using ds b64_digit(2) by (auto simp: url_char_def)
  then have "dropWhile (\<lambda>u. u = U_EQ) (rev (map url_char ?ds)) = rev (map url_char ?ds)"
    by (auto simp: dropWhile_eq_self_iff hd_rev last_map)
  then have "drop_trailing U_EQ (map url_char ?ds @ replicate ?k U_EQ) = map url_char ?ds"
    using dropWhile_append2 [of "replicate ?k U_EQ" "\<lambda>u. u = U_EQ" "rev (map url_char ?ds)"]
    by (simp add: drop_trailing_def)
  moreover have "btoa (map unat bs) = Some (map b64_char ?ds @ replicate ?k U_EQ)"
    using unat_byte by (auto simp: btoa_def not_less less_Suc_eq_le [symmetric])
  moreover have "map (\<lambda>u. if u = U_SLASH then U_UNDERSCORE else u)
      (map (\<lambda>u. if u = U_PLUS then U_MINUS else u) (map b64_char ?ds @ replicate ?k U_EQ))
    = map url_char ?ds @ replicate ?k U_EQ"
    by (simp add: url_char_def)
  ultimately show ?thesis by (simp only: toB64url_def option.case option.map)
qed

lemma standard_again: "n < 64 \<Longrightarrow>
  (if (if url_char n = U_MINUS then U_PLUS else url_char n) = U_UNDERSCORE then U_SLASH
   else if url_char n = U_MINUS then U_PLUS else url_char n) = b64_char n"
  using b64_digit(4,5) [of n] by (simp add: url_char_def)

lemma strip_replicate:
  assumes "\<forall>u \<in> set s. u \<noteq> U_EQ" "k \<le> 2"
  shows "strip_padding (s @ replicate k U_EQ) = s"
proof -
  have e: "\<not> ends_with s [U_EQ]" "\<not> ends_with s [U_EQ, U_EQ]" "\<not> ends_with (s @ [U_EQ]) [U_EQ, U_EQ]"
    using assms(1) by (auto simp: ends_with_def suffix_def)
  have "ends_with (s @ [U_EQ, U_EQ]) [U_EQ, U_EQ]" "ends_with (s @ [U_EQ]) [U_EQ]"
    by (auto simp: ends_with_def suffix_def)
  moreover have "k = 0 \<or> k = 1 \<or> k = 2" using assms(2) by arith
  ultimately show ?thesis using e by (auto simp: strip_padding_def slice_drop_end_def numeral_2_eq_2)
qed

lemma pad_length: "(n + (4 - n mod 4) mod 4) mod (4 :: nat) = 0"
proof -
  have "n mod 4 < 4" by simp
  then have "n mod 4 = 0 \<or> n mod 4 = 1 \<or> n mod 4 = 2 \<or> n mod 4 = 3" by linarith
  then show ?thesis using mod_add_left_eq [of n 4 "(4 - n mod 4) mod 4"] by (elim disjE) simp_all
qed

text \<open>Bytes written as base64url and read back are the same bytes; what is written consists of the
64 characters that need no escaping in a URL, without padding.\<close>

lemma bytes_survive_base64url:
  "\<exists>s. toB64url (Some bs) = Some s \<and> fromB64url s = Some bs \<and>
     set s \<subseteq> set B64_ALPHABET \<union> {U_MINUS, U_UNDERSCORE} - {U_PLUS, U_SLASH} \<and>
     length s = (4 * length bs + 2) div 3"
proof -
  let ?us = "map unat bs"
  let ?ds = "sixbits ?us"
  let ?s = "map url_char ?ds" and ?k = "(4 - length ?ds mod 4) mod 4"
  have small: "\<forall>u \<in> set ?us. u < 256" using unat_byte by auto
  have ds: "n < 64" if "n \<in> set ?ds" for n using sixbits_bound [OF small] that by simp
  have std: "map (\<lambda>u. if u = U_UNDERSCORE then U_SLASH else u) (map (\<lambda>u. if u = U_MINUS then U_PLUS else u) ?s)
    = map b64_char ?ds" using ds by (simp add: standard_again comp_def split del: if_split)
  let ?p = "map b64_char ?ds @ replicate ?k U_EQ"
  have "filter (\<lambda>u. \<not> ascii_space u) ?p = ?p"
    using ds b64_digit(3) by (auto simp: filter_id_conv ascii_space_def)
  moreover have "length ?p mod 4 = 0" using pad_length [of "length ?ds"] by simp
  moreover have "strip_padding ?p = map b64_char ?ds"
    using ds b64_digit(2) length_sixbits [of ?us] by (intro strip_replicate) (auto split: if_splits)
  moreover have "length ?ds mod 4 \<noteq> 1" using length_sixbits [of ?us] by (auto split: if_splits)
  moreover have "\<forall>u \<in> set (map b64_char ?ds). b64_value u \<noteq> None" using ds b64_digit(1) by auto
  moreover have "map (the \<circ> b64_value) (map b64_char ?ds) = ?ds" using ds b64_digit(1) by (simp add: map_idI)
  ultimately have at: "atob ?p = Some ?us" using eightbits_sixbits [OF small] by (simp add: atob_def)
  have "fromB64url ?s = map_option (map of_nat) (atob ?p)"
    unfolding fromB64url_def Let_def std by simp
  then have "fromB64url ?s = Some bs" by (simp add: at comp_def map_idI)
  moreover have "set ?s \<subseteq> set B64_ALPHABET \<union> {U_MINUS, U_UNDERSCORE} - {U_PLUS, U_SLASH}"
    using ds alphabet(2) by (auto simp: url_char_def b64_char_def)
  moreover have "length ?ds = (4 * length bs + 2) div 3" using length_sixbits_exact [of ?us] by simp
  ultimately show ?thesis using toB64url_digits by auto
qed

section \<open>What travels\<close>

record descriptor =
  de_id :: ustring
  de_type :: ustring
  de_transports :: "ustring list option"

record public_key_descriptor =
  pd_id :: bytes
  pd_type :: ustring
  pd_transports :: "ustring list option"

definition descriptors :: "descriptor list option \<Rightarrow> public_key_descriptor list option" where
  "descriptors l =
     those (map (\<lambda>d. map_option (\<lambda>i. \<lparr>pd_id = i, pd_type = de_type d, pd_transports = de_transports d\<rparr>) (fromB64url (de_id d)))
       (case l of None \<Rightarrow> [] | Some ds \<Rightarrow> ds))"

text \<open>A credential of the authenticator and its JSON; extension results pass through.\<close>

record 'x credential =
  cr_id :: ustring
  cr_rawId :: bytes
  cr_type :: ustring
  cr_attachment :: "ustring option"
  cr_extensions :: 'x
  cr_clientDataJSON :: bytes
  cr_attestationObject :: "bytes option"
  cr_authenticatorData :: "bytes option"
  cr_signature :: "bytes option"
  cr_userHandle :: "bytes option"
  cr_transports :: "ustring list option"

record 'x credential_json =
  cj_id :: ustring
  cj_rawId :: "ustring option"
  cj_type :: ustring
  cj_attachment :: "ustring option"
  cj_extensions :: 'x
  cj_clientDataJSON :: "ustring option"
  cj_attestationObject :: "ustring option"
  cj_authenticatorData :: "ustring option"
  cj_signature :: "ustring option"
  cj_userHandle :: "ustring option"
  cj_transports :: "ustring list option"

definition credentialToJSON :: "'x credential \<Rightarrow> 'x credential_json" where
  "credentialToJSON c =
     \<lparr>cj_id = cr_id c, cj_rawId = toB64url (Some (cr_rawId c)), cj_type = cr_type c, cj_attachment = cr_attachment c,
      cj_extensions = cr_extensions c, cj_clientDataJSON = toB64url (Some (cr_clientDataJSON c)),
      cj_attestationObject = toB64url (cr_attestationObject c), cj_authenticatorData = toB64url (cr_authenticatorData c),
      cj_signature = toB64url (cr_signature c), cj_userHandle = toB64url (cr_userHandle c), cj_transports = cr_transports c\<rparr>"

record begin_unlock =
  bu_ceremony :: ustring
  bu_challenge :: ustring
  bu_allow :: "descriptor list option"

record get_options =
  go_challenge :: bytes
  go_allow :: "public_key_descriptor list"

record begin_enroll =
  be_ceremony :: ustring
  be_challenge :: ustring
  be_user :: ustring
  be_exclude :: "descriptor list option"

record creation_options =
  co_challenge :: bytes
  co_user :: bytes
  co_exclude :: "public_key_descriptor list"

section \<open>Outcomes\<close>

datatype outcome = Outcome_Ok | Outcome_Cancelled | Password_Required | Rate_Limited | Outcome_Failed

text \<open>What was thrown: its name, and the status when it is an \<open>ApiError\<close>.\<close>

record thrown =
  th_name :: ustring
  th_status :: "nat option"

definition bad_base64 :: thrown where
  "bad_base64 = \<lparr>th_name = js ''InvalidCharacterError'', th_status = None\<rparr>"

definition outcomeOf :: "thrown \<Rightarrow> storage \<Rightarrow> outcome \<times> storage" where
  "outcomeOf e st =
     (if th_name e = js ''NotAllowedError'' \<or> th_name e = js ''AbortError'' then (Outcome_Cancelled, st)
      else if th_status e = Some 409 then (Password_Required, st)
      else if th_status e = Some 429 then (Rate_Limited, st)
      else (Outcome_Failed, if th_status e = Some 404 then writeFlag ENROLLED_KEY False st else st))"

section \<open>The ceremonies\<close>

text \<open>The server and the authenticator are the arguments; \<open>None\<close> of the authenticator is \<open>null\<close>.\<close>

definition unlockWithWebAuthn ::
  "(thrown + begin_unlock) \<Rightarrow> (get_options \<Rightarrow> thrown + 'x credential option) \<Rightarrow>
   (ustring \<Rightarrow> 'x credential_json \<Rightarrow> thrown + ustring option) \<Rightarrow> storage \<Rightarrow> (outcome \<times> ustring option) \<times> storage" where
  "unlockWithWebAuthn begin_r get finish st =
     (let caught = (\<lambda>e. case outcomeOf e st of (out, st') \<Rightarrow> ((out, None), st'))
      in case begin_r of
        Inl e \<Rightarrow> caught e
      | Inr b \<Rightarrow>
          (case (fromB64url (bu_challenge b), descriptors (bu_allow b)) of
             (Some c, Some ds) \<Rightarrow>
               (case get \<lparr>go_challenge = c, go_allow = ds\<rparr> of
                  Inl e \<Rightarrow> caught e
                | Inr None \<Rightarrow> ((Outcome_Cancelled, None), st)
                | Inr (Some cred) \<Rightarrow>
                    (case finish (bu_ceremony b) (credentialToJSON cred) of
                       Inl e \<Rightarrow> caught e
                     | Inr i \<Rightarrow> ((Outcome_Ok, i), rememberCredential i (writeFlag ENROLLED_KEY True st))))
           | _ \<Rightarrow> caught bad_base64))"

definition enrollWebAuthn ::
  "(thrown + begin_enroll) \<Rightarrow> (creation_options \<Rightarrow> thrown + 'x credential option) \<Rightarrow>
   (ustring \<Rightarrow> 'x credential_json \<Rightarrow> thrown option) \<Rightarrow> storage \<Rightarrow> outcome \<times> storage" where
  "enrollWebAuthn begin_r create finish st =
     (case begin_r of
        Inl e \<Rightarrow> outcomeOf e st
      | Inr b \<Rightarrow>
          (case (fromB64url (be_challenge b), fromB64url (be_user b), descriptors (be_exclude b)) of
             (Some c, Some u, Some ds) \<Rightarrow>
               (case create \<lparr>co_challenge = c, co_user = u, co_exclude = ds\<rparr> of
                  Inl e \<Rightarrow> outcomeOf e st
                | Inr None \<Rightarrow> (Outcome_Cancelled, st)
                | Inr (Some cred) \<Rightarrow>
                    (case finish (be_ceremony b) (credentialToJSON cred) of
                       Some e \<Rightarrow> outcomeOf e st
                     | None \<Rightarrow> (Outcome_Ok, rememberCredential (Some (cr_id cred)) (writeFlag ENROLLED_KEY True st))))
           | _ \<Rightarrow> outcomeOf bad_base64 st))"

section \<open>The label and the gate\<close>

fun has_text :: "ustring \<Rightarrow> ustring \<Rightarrow> bool" where
  "has_text [] p = (p = [])"
| "has_text (u # s) p = (prefix p (u # s) \<or> has_text s p)"

definition first_match :: "(ustring list \<times> ustring) list \<Rightarrow> ustring \<Rightarrow> ustring" where
  "first_match table ua =
     (case find (\<lambda>(ps, name). list_ex (has_text ua) ps) table of None \<Rightarrow> [] | Some (ps, name) \<Rightarrow> name)"

definition this_device :: ustring where
  "this_device = [0xc774, 0x20, 0xae30, 0xae30]"

definition defaultDeviceLabel :: "ustring \<Rightarrow> ustring" where
  "defaultDeviceLabel ua =
     (let os = first_match [([js ''Android''], js ''Android''), ([js ''iPhone'', js ''iPad'', js ''iPod''], js ''iOS''),
             ([js ''Mac OS X''], js ''macOS''), ([js ''Windows''], js ''Windows''), ([js ''Linux''], js ''Linux'')] ua;
          browser = first_match [([js ''Edg/''], js ''Edge''), ([js ''Firefox/''], js ''Firefox''),
             ([js ''SamsungBrowser/''], js ''Samsung Internet''), ([js ''Chrome/''], js ''Chrome''), ([js ''Safari/''], js ''Safari'')] ua;
          l = join_with U_SPACE (filter (\<lambda>w. w \<noteq> []) [os, browser])
      in if l = [] then this_device else l)"

definition webauthnUnlockAvailable :: "auth_status option \<Rightarrow> bool \<Rightarrow> bool" where
  "webauthnUnlockAvailable status supported \<longleftrightarrow> (case status of None \<Rightarrow> False | Some a \<Rightarrow> as_webauthn a = Some True) \<and> supported"

definition webauthnEnrollAvailable :: "auth_status option \<Rightarrow> bool \<Rightarrow> bool" where
  "webauthnEnrollAvailable status supported \<longleftrightarrow> (case status of None \<Rightarrow> False | Some a \<Rightarrow> as_webauthnEnroll a = Some True) \<and> supported"

text \<open>Whether the mounted host is asked to make the offer.\<close>

definition offerWebAuthnEnroll :: "auth_status option \<Rightarrow> bool \<Rightarrow> bool \<Rightarrow> storage \<Rightarrow> bool" where
  "offerWebAuthnEnroll status supported mounted st \<longleftrightarrow>
     \<not> (\<not> webauthnEnrollAvailable status supported \<or> deviceEnrolled st \<or> offerDeclined st) \<and> mounted"

section \<open>What the ceremonies leave behind\<close>

lemma outcomeOf_storage:
  "snd (outcomeOf e st) = st \<or> (fst (outcomeOf e st) = Outcome_Failed \<and> snd (outcomeOf e st) = writeFlag ENROLLED_KEY False st)"
  by (simp add: outcomeOf_def)

lemma outcomeOf_not_ok: "fst (outcomeOf e st) \<noteq> Outcome_Ok"
  by (simp add: outcomeOf_def)

text \<open>
  A ceremony that ends well marks the device as enrolled and remembers the credential; one that does not
  leaves the storage alone, but for an answer that nothing is enrolled, which unmarks the device.
\<close>

definition left_unmarked :: "storage \<Rightarrow> storage \<Rightarrow> outcome \<Rightarrow> bool" where
  "left_unmarked st st' out \<longleftrightarrow> out \<noteq> Outcome_Ok \<and> (st' = st \<or> (out = Outcome_Failed \<and> st' = writeFlag ENROLLED_KEY False st))"

lemma caught_left_unmarked: "left_unmarked st (snd (outcomeOf e st)) (fst (outcomeOf e st))"
  by (simp add: left_unmarked_def outcomeOf_def)

lemma unlock_marks:
  "case unlockWithWebAuthn b g f st of ((out, i), st') \<Rightarrow>
     if out = Outcome_Ok then st' = rememberCredential i (writeFlag ENROLLED_KEY True st) else left_unmarked st st' out"
  by (auto simp: unlockWithWebAuthn_def Let_def left_unmarked_def outcomeOf_def split: sum.split option.split if_splits)

lemma enroll_marks:
  "case enrollWebAuthn b c f st of (out, st') \<Rightarrow>
     if out = Outcome_Ok then \<exists>i. st' = rememberCredential (Some i) (writeFlag ENROLLED_KEY True st) else left_unmarked st st' out"
  by (auto simp: enrollWebAuthn_def Let_def left_unmarked_def outcomeOf_def split: sum.split option.split if_splits)

lemma enrolled_flags:
  assumes "st_readable st" "st_writable st"
  shows "deviceEnrolled (rememberCredential i (writeFlag ENROLLED_KEY True st))"
    "\<not> deviceEnrolled (writeFlag ENROLLED_KEY False st)"
    "offerDeclined (rememberCredential i (writeFlag ENROLLED_KEY b st)) = offerDeclined st"
    "i \<noteq> None \<Longrightarrow> i \<noteq> Some [] \<Longrightarrow> thisDeviceCredential (rememberCredential i (writeFlag ENROLLED_KEY b st)) = i"
  using assms
  by (auto simp: deviceEnrolled_def offerDeclined_def thisDeviceCredential_def rememberCredential_def readFlag_def writeFlag_def
      storage_ops ENROLLED_KEY_def DECLINED_KEY_def CREDENTIAL_KEY_def split: option.split)

text \<open>An enrolled device is not asked again.\<close>

lemma no_offer_after_unlock:
  assumes "unlockWithWebAuthn b g f st = ((Outcome_Ok, i), st')" "st_readable st" "st_writable st"
  shows "\<not> offerWebAuthnEnroll status supported mounted st'"
  using unlock_marks [of st b g f] enrolled_flags(1) [OF assms(2,3), of i] assms(1) by (simp add: offerWebAuthnEnroll_def)

end
