(* ===== verification/Unlock_Modal.thy ===== *)
theory Unlock_Modal
  imports Api_Client Webauthn
begin

text \<open>
  The prompt for the password, \<open>components/common/UnlockModal.tsx\<close>: the requests that wait for it, its form,
  and its hand-over to a card of the page that asks for the same password (\<open>registerInlineGate\<close> of the API client).

  An effect keeps the values it last ran for; a commit cleans up and runs those whose values changed, and
  a commit whose effects changed the state is followed by another. A request is known by its number.
\<close>

section \<open>State\<close>

datatype submit_error = Too_Many_Attempts | Wrong_Password

datatype unlock_await =
    Await_Check nat              \<comment> \<open>\<open>/auth/status\<close> after a hand-over ended, the run of the effect\<close>
  | Await_Auth_Status            \<comment> \<open>\<open>/auth/status\<close> after the status changed somewhere\<close>
  | Await_Submit ustring
  | Await_Fingerprint

record unlock_modal =
  um_client :: client
  um_open :: bool
  um_password :: ustring
  um_submitting :: bool
  um_error :: "submit_error option"
  um_waiters :: "nat list"
  um_handedOff :: bool
  um_handover_deps :: "bool \<times> bool"
  um_check_deps :: "bool \<times> bool \<times> bool"
  um_listen_deps :: bool
  um_check :: "nat option"       \<comment> \<open>the check that is not cancelled\<close>
  um_checks :: nat
  um_listening :: bool
  um_awaits :: "unlock_await list"
  um_prompts :: nat
  um_settled :: "(nat \<times> bool) list"
  um_focused :: "nat list"
  um_offers :: "ustring list"

definition um_init :: "client \<Rightarrow> unlock_modal" where
  "um_init c = \<lparr>um_client = c, um_open = False, um_password = [], um_submitting = False, um_error = None, um_waiters = [],
     um_handedOff = False, um_handover_deps = (False, inlineGateVisible c), um_check_deps = (False, inlineGateVisible c, False),
     um_listen_deps = False, um_check = None, um_checks = 0, um_listening = False, um_awaits = [], um_prompts = 0,
     um_settled = [], um_focused = [], um_offers = []\<rparr>"

abbreviation um_gate :: "unlock_modal \<Rightarrow> bool" where
  "um_gate s \<equiv> inlineGateVisible (um_client s)"

definition um_await :: "unlock_await \<Rightarrow> unlock_modal \<Rightarrow> unlock_modal" where
  "um_await a s = s\<lparr>um_awaits := um_awaits s @ [a]\<rparr>"

definition um_focus :: "unlock_modal \<Rightarrow> unlock_modal" where
  "um_focus s = (case focusInlineGate (um_client s) of None \<Rightarrow> s | Some g \<Rightarrow> s\<lparr>um_focused := um_focused s @ [g]\<rparr>)"

definition um_visible :: "unlock_modal \<Rightarrow> bool" where
  "um_visible s \<longleftrightarrow> \<not> (\<not> um_open s \<or> um_gate s \<or> um_handedOff s)"

section \<open>Effects\<close>

definition handover_effect :: "bool \<times> bool \<Rightarrow> unlock_modal \<Rightarrow> unlock_modal" where
  "handover_effect d s =
     (let s1 = s\<lparr>um_handover_deps := d\<rparr>
      in case d of (opened, gate) \<Rightarrow> if \<not> opened \<or> \<not> gate then s1 else um_focus (s1\<lparr>um_handedOff := True\<rparr>))"

definition check_effect :: "bool \<times> bool \<times> bool \<Rightarrow> unlock_modal \<Rightarrow> unlock_modal" where
  "check_effect d s =
     (let s1 = s\<lparr>um_check_deps := d\<rparr>
      in case d of (opened, gate, handedOff) \<Rightarrow>
        if \<not> opened \<or> gate \<or> \<not> handedOff then s1
        else um_await (Await_Check (um_checks s1)) (s1\<lparr>um_check := Some (um_checks s1), um_checks := um_checks s1 + 1\<rparr>))"

definition listen_effect :: "bool \<Rightarrow> unlock_modal \<Rightarrow> unlock_modal" where
  "listen_effect d s = s\<lparr>um_listen_deps := d, um_listening := d\<rparr>"

definition um_commit :: "unlock_modal \<Rightarrow> unlock_modal" where
  "um_commit s =
     (let h = (um_open s, um_gate s); c = (um_open s, um_gate s, um_handedOff s); l = um_open s;
          s1 = (if um_check_deps s = c then s else s\<lparr>um_check := None\<rparr>);
          s2 = (if um_listen_deps s = l then s1 else s1\<lparr>um_listening := False\<rparr>);
          s3 = (if um_handover_deps s = h then s2 else handover_effect h s2);
          s4 = (if um_check_deps s = c then s3 else check_effect c s3)
      in if um_listen_deps s = l then s4 else listen_effect l s4)"

definition um_render :: "unlock_modal \<Rightarrow> unlock_modal" where
  "um_render s = um_commit (um_commit s)"

section \<open>Operations\<close>

definition um_prompt :: "unlock_modal \<Rightarrow> unlock_modal" where
  "um_prompt s =
     (let s1 = s\<lparr>um_waiters := um_waiters s @ [um_prompts s], um_prompts := um_prompts s + 1, um_open := True\<rparr>
      in if um_gate s1 then um_focus s1 else s1)"

definition um_resetForm :: "unlock_modal \<Rightarrow> unlock_modal" where
  "um_resetForm s = s\<lparr>um_open := False, um_handedOff := False, um_password := [], um_error := None, um_submitting := False\<rparr>"

definition um_settle :: "bool \<Rightarrow> unlock_modal \<Rightarrow> unlock_modal" where
  "um_settle ok s =
     (let waiters = um_waiters s; s1 = um_resetForm (s\<lparr>um_waiters := []\<rparr>)
      in s1\<lparr>um_settled := um_settled s1 @ map (\<lambda>w. (w, ok)) waiters\<rparr>)"

definition finishUnlocked :: "unlock_modal \<Rightarrow> unlock_modal" where
  "finishUnlocked = um_settle True"

definition handleCancel :: "unlock_modal \<Rightarrow> unlock_modal" where
  "handleCancel = um_settle False"

definition handleSubmit :: "unlock_modal \<Rightarrow> unlock_modal" where
  "handleSubmit s = um_await (Await_Submit (um_password s)) (s\<lparr>um_submitting := True, um_error := None\<rparr>)"

definition submit_failed :: "api_error \<Rightarrow> submit_error" where
  "submit_failed e = (case e of ApiError st m \<Rightarrow> if st = 429 then Too_Many_Attempts else Wrong_Password | OtherError m \<Rightarrow> Wrong_Password)"

text \<open>\<open>offers\<close> tells whether \<open>offerWebAuthnEnroll\<close> reaches the host.\<close>

definition submit_answered :: "bool \<Rightarrow> ustring \<Rightarrow> api_error option \<Rightarrow> unlock_modal \<Rightarrow> unlock_modal" where
  "submit_answered offers typed r s =
     (case r of
        None \<Rightarrow> (let s1 = finishUnlocked s in if offers then s1\<lparr>um_offers := um_offers s1 @ [typed]\<rparr> else s1)
      | Some e \<Rightarrow> s\<lparr>um_error := Some (submit_failed e), um_submitting := False\<rparr>)"

text \<open>The answer of \<open>/auth/status\<close>, \<open>None\<close> when there was none.\<close>

definition check_answered :: "nat \<Rightarrow> bool option \<Rightarrow> unlock_modal \<Rightarrow> unlock_modal" where
  "check_answered n r s =
     (if um_check s \<noteq> Some n then s
      else case r of
        Some unlocked \<Rightarrow> if unlocked then finishUnlocked s else s\<lparr>um_handedOff := False\<rparr>
      | None \<Rightarrow> s\<lparr>um_handedOff := False\<rparr>)"

definition um_auth_changed :: "unlock_modal \<Rightarrow> unlock_modal" where
  "um_auth_changed s = (if um_listening s then um_await Await_Auth_Status s else s)"

definition auth_status_answered :: "bool option \<Rightarrow> unlock_modal \<Rightarrow> unlock_modal" where
  "auth_status_answered r s =
     (case r of
        Some unlocked \<Rightarrow> if \<not> unlocked \<or> length (um_waiters s) = 0 then s else um_settle True s
      | None \<Rightarrow> s)"

definition um_answered :: "nat \<Rightarrow> unlock_modal \<Rightarrow> unlock_modal" where
  "um_answered k s = s\<lparr>um_awaits := take k (um_awaits s) @ drop (k + 1) (um_awaits s)\<rparr>"

definition um_awaiting :: "nat \<Rightarrow> unlock_await \<Rightarrow> unlock_modal \<Rightarrow> bool" where
  "um_awaiting k a s \<longleftrightarrow> k < length (um_awaits s) \<and> um_awaits s ! k = a"

section \<open>Steps\<close>

inductive um_step :: "unlock_modal \<Rightarrow> unlock_modal \<Rightarrow> bool" where
  prompt: "um_step s (um_render (um_prompt s))"
| gate_on: "um_step s (um_render (s\<lparr>um_client := registerInlineGate g (um_client s)\<rparr>))"
| gate_off: "um_step s (um_render (s\<lparr>um_client := unregisterInlineGate g (um_client s)\<rparr>))"
| auth: "um_step s (um_auth_changed s)"
| check: "um_awaiting k (Await_Check n) s \<Longrightarrow> um_step s (um_render (check_answered n r (um_answered k s)))"
| auth_status: "um_awaiting k Await_Auth_Status s \<Longrightarrow> um_step s (um_render (auth_status_answered r (um_answered k s)))"
| submitted: "um_awaiting k (Await_Submit p) s \<Longrightarrow> um_step s (um_render (submit_answered offers p r (um_answered k s)))"
| fingerprint: "um_awaiting k Await_Fingerprint s \<Longrightarrow>
    um_step s (um_render ((if ok then finishUnlocked else id) (um_answered k s)))"
| typed: "um_visible s \<Longrightarrow> um_step s (s\<lparr>um_password := p\<rparr>)"
| dismiss: "um_visible s \<Longrightarrow> um_step s (s\<lparr>um_error := None\<rparr>)"
| submit: "um_visible s \<Longrightarrow> \<not> (um_submitting s \<or> um_password s = []) \<Longrightarrow> um_step s (handleSubmit s)"
| cancel: "um_visible s \<Longrightarrow> um_step s (um_render (handleCancel s))"
| press: "um_visible s \<Longrightarrow> um_step s (um_await Await_Fingerprint s)"

definition um_reachable :: "unlock_modal \<Rightarrow> bool" where
  "um_reachable s \<longleftrightarrow> (\<exists>c. um_step\<^sup>*\<^sup>* (um_init c) s)"

section \<open>The invariant\<close>

definition prompts_ok :: "unlock_modal \<Rightarrow> bool" where
  "prompts_ok s \<longleftrightarrow> distinct (um_waiters s @ map fst (um_settled s)) \<and>
     set (um_waiters s @ map fst (um_settled s)) = {..<um_prompts s}"


text \<open>What a step must hand to the renderer.\<close>

definition rendering_ok :: "unlock_modal \<Rightarrow> bool" where
  "rendering_ok s \<longleftrightarrow>
     (um_open s \<longleftrightarrow> um_waiters s \<noteq> []) \<and>
     um_listening s = um_listen_deps s \<and>
     (\<forall>n. Await_Check n \<in> set (um_awaits s) \<longrightarrow> n < um_checks s) \<and> (\<forall>n. um_check s = Some n \<longrightarrow> n < um_checks s) \<and>
     (um_handover_deps s = (True, True) \<and> um_open s \<and> um_gate s \<longrightarrow> um_handedOff s) \<and>
     (um_check_deps s = (um_open s, um_gate s, um_handedOff s) \<longrightarrow>
       (case um_check s of
          None \<Rightarrow> \<not> (um_open s \<and> \<not> um_gate s \<and> um_handedOff s)
        | Some n \<Rightarrow> um_open s \<and> \<not> um_gate s \<and> um_handedOff s \<and> Await_Check n \<in> set (um_awaits s)))"

lemma focus_fields [simp]:
  "um_client (um_focus s) = um_client s" "um_open (um_focus s) = um_open s" "um_waiters (um_focus s) = um_waiters s"
  "um_handedOff (um_focus s) = um_handedOff s" "um_handover_deps (um_focus s) = um_handover_deps s"
  "um_check_deps (um_focus s) = um_check_deps s" "um_listen_deps (um_focus s) = um_listen_deps s"
  "um_check (um_focus s) = um_check s" "um_checks (um_focus s) = um_checks s" "um_listening (um_focus s) = um_listening s"
  "um_awaits (um_focus s) = um_awaits s" "um_prompts (um_focus s) = um_prompts s" "um_settled (um_focus s) = um_settled s"
  by (simp_all add: um_focus_def split: option.split)

lemmas um_effects = um_commit_def handover_effect_def check_effect_def listen_effect_def um_await_def Let_def

lemma commit_fields [simp]:
  "um_client (um_commit s) = um_client s" "um_open (um_commit s) = um_open s" "um_waiters (um_commit s) = um_waiters s"
  "um_prompts (um_commit s) = um_prompts s" "um_settled (um_commit s) = um_settled s"
  by (simp_all add: um_effects)

lemma commit_deps [simp]:
  "um_handover_deps (um_commit s) = (um_open s, um_gate s)"
  "um_check_deps (um_commit s) = (um_open s, um_gate s, um_handedOff s)"
  "um_listen_deps (um_commit s) = um_open s"
  by (simp_all add: um_effects)




lemma render_fields [simp]:
  "um_client (um_render s) = um_client s" "um_open (um_render s) = um_open s" "um_waiters (um_render s) = um_waiters s"
  "um_prompts (um_render s) = um_prompts s" "um_settled (um_render s) = um_settled s"
  by (simp_all add: um_render_def)

lemma render_prompts [simp]: "prompts_ok (um_render s) = prompts_ok s"
  by (simp add: prompts_ok_def)

text \<open>What the operations hand to the renderer.\<close>

lemma rendering_form [simp]:
  "rendering_ok (s\<lparr>um_offers := l\<rparr>) = rendering_ok s" "rendering_ok (s\<lparr>um_error := e, um_submitting := b\<rparr>) = rendering_ok s"
  by (simp_all add: rendering_ok_def split: option.split)


lemma answered_fields [simp]:
  "um_client (um_answered k s) = um_client s" "um_open (um_answered k s) = um_open s" "um_waiters (um_answered k s) = um_waiters s"
  "um_handedOff (um_answered k s) = um_handedOff s" "um_handover_deps (um_answered k s) = um_handover_deps s"
  "um_check_deps (um_answered k s) = um_check_deps s" "um_listen_deps (um_answered k s) = um_listen_deps s"
  "um_check (um_answered k s) = um_check s" "um_checks (um_answered k s) = um_checks s"
  "um_listening (um_answered k s) = um_listening s" "um_prompts (um_answered k s) = um_prompts s"
  "um_settled (um_answered k s) = um_settled s"
  by (simp_all add: um_answered_def)










section \<open>The properties\<close>




lemma um_reachable_init: "um_reachable (um_init c)"
  by (auto simp: um_reachable_def)

lemma um_reachable_step: "um_reachable s \<Longrightarrow> um_step s t \<Longrightarrow> um_reachable t"
  unfolding um_reachable_def by (meson rtranclp.rtrancl_into_rtrancl)





section \<open>Where the code does not do what it means to\<close>

text \<open>
  An unlock that is still on its way when the prompt is cancelled, and then fails, leaves its error
  message for the next prompt, which opens with it although nothing was typed there.
\<close>

definition um_stale :: unlock_modal where
  "um_stale =
     (let s1 = um_render (um_prompt (um_init client_init));
          s2 = handleSubmit (s1\<lparr>um_password := [1]\<rparr>);
          s3 = um_render (handleCancel s2);
          s4 = um_render (submit_answered False [1] (Some (ApiError 401 LoginExpired)) (um_answered 0 s3))
      in um_render (um_prompt s4))"

lemma stale_error_in_next_prompt:
  "um_reachable um_stale \<and> um_waiters um_stale = [1] \<and> um_visible um_stale \<and> um_password um_stale = [] \<and>
   um_error um_stale = Some Wrong_Password"
proof -
  let ?s1 = "um_render (um_prompt (um_init client_init))"
  let ?p = "?s1\<lparr>um_password := [1]\<rparr>"
  let ?s2 = "handleSubmit ?p"
  let ?s3 = "um_render (handleCancel ?s2)"
  let ?s4 = "um_render (submit_answered False [1] (Some (ApiError 401 LoginExpired)) (um_answered 0 ?s3))"
  have v: "um_visible ?s1" "um_visible ?p" "\<not> (um_submitting ?p \<or> um_password ?p = [])" "um_visible ?s2"
    "um_awaiting 0 (Await_Submit [1]) ?s3"
    by code_simp+
  have "um_reachable ?s1" by (rule um_reachable_step [OF um_reachable_init um_step.prompt])
  then have "um_reachable ?p" by (rule um_reachable_step) (rule um_step.typed [OF v(1)])
  then have "um_reachable ?s2" by (rule um_reachable_step) (rule um_step.submit [OF v(2,3)])
  then have "um_reachable ?s3" by (rule um_reachable_step) (rule um_step.cancel [OF v(4)])
  then have "um_reachable ?s4" by (rule um_reachable_step) (rule um_step.submitted [OF v(5)])
  then have "um_reachable um_stale" unfolding um_stale_def Let_def by (rule um_reachable_step) (rule um_step.prompt)
  moreover have "um_waiters um_stale = [1]" "um_visible um_stale" "um_password um_stale = []" "um_error um_stale = Some Wrong_Password"
    by code_simp+
  ultimately show ?thesis by blast
qed

end
