(* ===== verification/Logs.thy ===== *)
theory Logs
  imports Api_Client
begin

text \<open>
  The log page, \<open>components/Logs/Logs.tsx\<close>: a table that is loaded page by page, reloaded when a filter
  changes and, live, extended by what is newer. A request is what its query asks for; the server
  (\<open>served\<close>) is the documented behaviour of \<open>ReadEntries\<close>: the matching entries newest first, at most
  \<open>limit\<close> of them, and whether there are more.
\<close>

section \<open>Entries and queries\<close>

datatype log_level = Info | Warn | Err

record log_entry =
  en_timestamp :: nat
  en_level :: log_level
  en_message :: ustring
  en_app :: ustring

record log_query =
  q_app :: "ustring option"
  q_level :: "log_level option"
  q_limit :: nat
  q_start :: "nat option"
  q_end :: "nat option"
  q_before :: "nat option"

record log_page =
  pg_entries :: "log_entry list"
  pg_hasMore :: bool
  pg_mock :: bool

definition query_matches :: "log_query \<Rightarrow> log_entry \<Rightarrow> bool" where
  "query_matches q e \<longleftrightarrow>
     (q_app q = None \<or> q_app q = Some (en_app e)) \<and> (q_level q = None \<or> q_level q = Some (en_level e)) \<and>
     (case q_start q of None \<Rightarrow> True | Some t \<Rightarrow> t \<le> en_timestamp e) \<and>
     (case q_end q of None \<Rightarrow> True | Some t \<Rightarrow> t = 0 \<or> en_timestamp e \<le> t) \<and>
     (case q_before q of None \<Rightarrow> True | Some t \<Rightarrow> t = 0 \<or> en_timestamp e < t)"

definition served :: "log_entry list \<Rightarrow> log_query \<Rightarrow> log_page" where
  "served store q =
     (let found = filter (query_matches q) store
      in \<lparr>pg_entries = take (q_limit q) found, pg_hasMore = q_limit q < length found, pg_mock = False\<rparr>)"

definition PAGE_SIZE :: nat where "PAGE_SIZE = 150"
definition MAX_ENTRIES :: nat where "MAX_ENTRIES = 2000"

section \<open>State\<close>

datatype log_await =
    Aw_First nat log_query bool       \<comment> \<open>its request id; whether a purge waits for it\<close>
  | Aw_Poll nat log_query             \<comment> \<open>the newest timestamp it knew\<close>
  | Aw_More log_query
  | Aw_Purge ustring log_query        \<comment> \<open>the app, and the first page of its closure\<close>
  | Aw_Purge_Range log_query
  | Aw_Apps

text \<open>\<open>entriesRef\<close> follows \<open>entries\<close> after every render and is not kept apart.\<close>

record logs =
  lo_apps :: "ustring list"
  lo_app :: ustring
  lo_level :: "log_level option"
  lo_range :: "(nat option \<times> nat option) option"
  lo_start :: "nat option"
  lo_end :: "nat option"
  lo_entries :: "log_entry list"
  lo_hasMore :: bool
  lo_mock :: bool
  lo_loading :: bool
  lo_loadingMore :: bool
  lo_error :: "api_error option"
  lo_live :: bool
  lo_purgeOpen :: bool
  lo_purging :: bool
  lo_requestId :: nat
  lo_firstPageLoading :: bool
  lo_polling :: bool
  lo_awaits :: "log_await list"

definition log_wait :: "log_await \<Rightarrow> logs \<Rightarrow> logs" where
  "log_wait a s = s\<lparr>lo_awaits := lo_awaits s @ [a]\<rparr>"

section \<open>Loading\<close>

definition buildParams :: "nat option \<Rightarrow> nat option \<Rightarrow> logs \<Rightarrow> log_query" where
  "buildParams before startOverride s =
     \<lparr>q_app = (if lo_app s = [] then None else Some (lo_app s)), q_level = lo_level s, q_limit = PAGE_SIZE,
      q_start = (case startOverride of None \<Rightarrow> lo_start s | Some t \<Rightarrow> Some t), q_end = lo_end s, q_before = before\<rparr>"

definition first_query :: "logs \<Rightarrow> log_query" where
  "first_query s = buildParams None None s"

definition loadFirstPage :: "log_query \<Rightarrow> bool \<Rightarrow> logs \<Rightarrow> logs" where
  "loadFirstPage q purge s =
     (let i = lo_requestId s + 1
      in log_wait (Aw_First i q purge) (s\<lparr>lo_requestId := i, lo_firstPageLoading := True, lo_loading := True\<rparr>))"

definition first_answered :: "nat \<Rightarrow> bool \<Rightarrow> api_error + log_page \<Rightarrow> logs \<Rightarrow> logs" where
  "first_answered i purge r s =
     (let s1 = (if lo_requestId s \<noteq> i then s
                else (case r of
                        Inr p \<Rightarrow> s\<lparr>lo_entries := pg_entries p, lo_hasMore := pg_hasMore p, lo_mock := lo_mock s \<or> pg_mock p, lo_error := None\<rparr>
                      | Inl e \<Rightarrow> s\<lparr>lo_error := Some e\<rparr>)\<lparr>lo_loading := False, lo_firstPageLoading := False\<rparr>)
      in if purge then s1\<lparr>lo_purging := False\<rparr> else s1)"

definition loadNewEntries :: "logs \<Rightarrow> logs" where
  "loadNewEntries s =
     (if lo_firstPageLoading s \<or> lo_polling s then s
      else case lo_entries s of
        [] \<Rightarrow> s
      | e # _ \<Rightarrow> log_wait (Aw_Poll (en_timestamp e) (buildParams None (Some (en_timestamp e)) s)) (s\<lparr>lo_polling := True\<rparr>))"

definition poll_answered :: "nat \<Rightarrow> api_error + log_page \<Rightarrow> logs \<Rightarrow> logs" where
  "poll_answered newest r s =
     (case r of
        Inr p \<Rightarrow>
          let fresh = filter (\<lambda>e. newest < en_timestamp e) (pg_entries p);
              combined = fresh @ lo_entries s
          in s\<lparr>lo_entries := (if length fresh > 0 then if length combined > MAX_ENTRIES then take MAX_ENTRIES combined else combined
                              else lo_entries s),
               lo_mock := lo_mock s \<or> pg_mock p, lo_error := None\<rparr>
      | Inl e \<Rightarrow> s\<lparr>lo_error := Some e\<rparr>)\<lparr>lo_polling := False\<rparr>"

definition handleLoadMore :: "logs \<Rightarrow> logs" where
  "handleLoadMore s =
     (if lo_loadingMore s \<or> lo_loading s \<or> length (lo_entries s) = 0 then s
      else log_wait (Aw_More (buildParams (Some (en_timestamp (last (lo_entries s)))) None s)) (s\<lparr>lo_loadingMore := True\<rparr>))"

definition more_answered :: "api_error + log_page \<Rightarrow> logs \<Rightarrow> logs" where
  "more_answered r s =
     (case r of
        Inr p \<Rightarrow>
          let combined = lo_entries s @ pg_entries p
          in s\<lparr>lo_entries := (if length combined > MAX_ENTRIES then take MAX_ENTRIES combined else combined),
               lo_hasMore := pg_hasMore p, lo_mock := lo_mock s \<or> pg_mock p, lo_error := None\<rparr>
      | Inl e \<Rightarrow> s\<lparr>lo_error := Some e\<rparr>)\<lparr>lo_loadingMore := False\<rparr>"

section \<open>Filters\<close>

text \<open>The effect that loads runs again when one of the filters has another value.\<close>

definition refiltered :: "logs \<Rightarrow> logs \<Rightarrow> logs" where
  "refiltered old s = (if first_query s = first_query old then s else loadFirstPage (first_query s) False s)"

definition setSelectedApp :: "ustring \<Rightarrow> logs \<Rightarrow> logs" where
  "setSelectedApp a s = refiltered s (s\<lparr>lo_app := a\<rparr>)"

definition setLevel :: "log_level option \<Rightarrow> logs \<Rightarrow> logs" where
  "setLevel l s = refiltered s (s\<lparr>lo_level := l\<rparr>)"

definition setStartMs :: "nat option \<Rightarrow> logs \<Rightarrow> logs" where
  "setStartMs t s = (if lo_range s = None \<or> lo_live s then s else refiltered s (s\<lparr>lo_start := t\<rparr>))"

definition setEndMs :: "nat option \<Rightarrow> logs \<Rightarrow> logs" where
  "setEndMs t s = (if lo_range s = None \<or> lo_live s then s else refiltered s (s\<lparr>lo_end := t\<rparr>))"

definition all_time :: "logs \<Rightarrow> logs" where
  "all_time s = s\<lparr>lo_start := None, lo_end := None\<rparr>"

definition handleAllTime :: "logs \<Rightarrow> logs" where
  "handleAllTime s = (if lo_live s \<or> (lo_start s = None \<and> lo_end s = None) then s else refiltered s (all_time s))"

definition setLiveRefresh :: "bool \<Rightarrow> logs \<Rightarrow> logs" where
  "setLiveRefresh checked s =
     (let s1 = s\<lparr>lo_live := checked\<rparr> in refiltered s (if checked then all_time s1 else s1))"

definition refresh_button :: "logs \<Rightarrow> logs" where
  "refresh_button s = (if lo_loading s then s else loadFirstPage (first_query s) False s)"

section \<open>Deleting\<close>

definition handlePurgeApp :: "logs \<Rightarrow> logs" where
  "handlePurgeApp s =
     (if lo_app s = [] then s else log_wait (Aw_Purge (lo_app s) (first_query s)) (s\<lparr>lo_purging := True\<rparr>))"

definition purge_answered :: "log_query \<Rightarrow> api_error option \<Rightarrow> logs \<Rightarrow> logs" where
  "purge_answered q r s =
     (case r of
        Some e \<Rightarrow> s\<lparr>lo_error := Some e, lo_purging := False\<rparr>
      | None \<Rightarrow> log_wait (Aw_Purge_Range q) (s\<lparr>lo_purgeOpen := False\<rparr>))"

definition purge_range_answered :: "log_query \<Rightarrow> api_error + (nat option \<times> nat option) \<Rightarrow> logs \<Rightarrow> logs" where
  "purge_range_answered q r s =
     (case r of
        Inl e \<Rightarrow> s\<lparr>lo_error := Some e, lo_purging := False\<rparr>
      | Inr rg \<Rightarrow> loadFirstPage q True (s\<lparr>lo_range := Some rg\<rparr>))"

section \<open>Mounting\<close>

definition apps_answered :: "api_error + (ustring list \<times> bool \<times> (nat option \<times> nat option)) \<Rightarrow> logs \<Rightarrow> logs" where
  "apps_answered r s =
     (case r of
        Inl e \<Rightarrow> s\<lparr>lo_error := Some e\<rparr>
      | Inr (apps, mock, rg) \<Rightarrow> s\<lparr>lo_apps := apps, lo_mock := lo_mock s \<or> mock, lo_range := Some rg\<rparr>)"

definition noData :: "logs \<Rightarrow> bool" where
  "noData s \<longleftrightarrow> lo_range s = Some (None, None)"

definition logs_mount :: logs where
  "logs_mount =
     (let s = \<lparr>lo_apps = [], lo_app = [], lo_level = None, lo_range = None, lo_start = None, lo_end = None,
                lo_entries = [], lo_hasMore = False, lo_mock = False, lo_loading = True, lo_loadingMore = False,
                lo_error = None, lo_live = False, lo_purgeOpen = False, lo_purging = False, lo_requestId = 0,
                lo_firstPageLoading = False, lo_polling = False, lo_awaits = []\<rparr>
      in loadFirstPage (first_query s) False (log_wait Aw_Apps s))"

definition log_answered :: "nat \<Rightarrow> logs \<Rightarrow> logs" where
  "log_answered k s = s\<lparr>lo_awaits := take k (lo_awaits s) @ drop (k + 1) (lo_awaits s)\<rparr>"

definition log_awaiting :: "nat \<Rightarrow> log_await \<Rightarrow> logs \<Rightarrow> bool" where
  "log_awaiting k a s \<longleftrightarrow> k < length (lo_awaits s) \<and> lo_awaits s ! k = a"

section \<open>One operation at a time\<close>

text \<open>The last request is answered from the store.\<close>

definition answer_last :: "log_entry list \<Rightarrow> logs \<Rightarrow> logs" where
  "answer_last store s =
     (let t = log_answered (length (lo_awaits s) - 1) s
      in case last (lo_awaits s) of
        Aw_First i q p \<Rightarrow> first_answered i p (Inr (served store q)) t
      | Aw_Poll n q \<Rightarrow> poll_answered n (Inr (served store q)) t
      | Aw_More q \<Rightarrow> more_answered (Inr (served store q)) t
      | _ \<Rightarrow> s)"

definition settle :: "log_entry list \<Rightarrow> (logs \<Rightarrow> logs) \<Rightarrow> logs \<Rightarrow> logs" where
  "settle store f s = (if length (lo_awaits s) < length (lo_awaits (f s)) then answer_last store (f s) else f s)"

definition newest_first :: "log_entry list \<Rightarrow> bool" where
  "newest_first store \<longleftrightarrow> sorted_wrt (\<lambda>a b. en_timestamp b < en_timestamp a) store \<and> (\<forall>e \<in> set store. 0 < en_timestamp e)"

text \<open>Entries newer than the newest one shown.\<close>

definition unseen :: "log_entry list \<Rightarrow> logs \<Rightarrow> log_entry list" where
  "unseen store s = filter (\<lambda>e. query_matches (first_query s) e \<and> en_timestamp (hd (lo_entries s)) < en_timestamp e) store"

inductive calm :: "log_entry list \<Rightarrow> logs \<Rightarrow> bool" where
  mount: "newest_first store \<Longrightarrow> calm store (answer_last store logs_mount)"
| grow: "calm store s \<Longrightarrow> newest_first (new @ store) \<Longrightarrow> calm (new @ store) s"
| apps: "calm store s \<Longrightarrow> log_awaiting k Aw_Apps s \<Longrightarrow> calm store (apps_answered r (log_answered k s))"
| app: "calm store s \<Longrightarrow> calm store (settle store (setSelectedApp a) s)"
| level: "calm store s \<Longrightarrow> calm store (settle store (setLevel l) s)"
| start: "calm store s \<Longrightarrow> calm store (settle store (setStartMs t) s)"
| until: "calm store s \<Longrightarrow> calm store (settle store (setEndMs t) s)"
| all_time: "calm store s \<Longrightarrow> calm store (settle store handleAllTime s)"
| live: "calm store s \<Longrightarrow> calm store (settle store (setLiveRefresh b) s)"
| refresh: "calm store s \<Longrightarrow> calm store (settle store refresh_button s)"
| more: "calm store s \<Longrightarrow> lo_hasMore s \<Longrightarrow> calm store (settle store handleLoadMore s)"
| poll: "calm store s \<Longrightarrow> lo_live s \<Longrightarrow> length (unseen store s) \<le> PAGE_SIZE \<Longrightarrow> calm store (settle store loadNewEntries s)"

definition shown_part :: "log_entry list \<Rightarrow> logs \<Rightarrow> log_entry list \<Rightarrow> log_entry list \<Rightarrow> bool" where
  "shown_part store s newer older \<longleftrightarrow>
     filter (query_matches (first_query s)) store = newer @ lo_entries s @ older \<and>
     (lo_hasMore s \<longrightarrow> older \<noteq> []) \<and> (\<not> lo_hasMore s \<and> length (lo_entries s) < MAX_ENTRIES \<longrightarrow> older = []) \<and>
     length (lo_entries s) \<le> MAX_ENTRIES"

definition at_rest :: "logs \<Rightarrow> bool" where
  "at_rest s \<longleftrightarrow> \<not> lo_loading s \<and> \<not> lo_firstPageLoading s \<and> \<not> lo_polling s \<and> \<not> lo_loadingMore s \<and>
     (lo_live s \<longrightarrow> lo_start s = None \<and> lo_end s = None)"

definition calm_ok :: "log_entry list \<Rightarrow> logs \<Rightarrow> bool" where
  "calm_ok store s \<longleftrightarrow> newest_first store \<and> at_rest s \<and> (\<exists>newer older. shown_part store s newer older)"

text \<open>A first page is the newest part of what matches.\<close>

lemma answered_wait: "log_answered (length (lo_awaits s)) (log_wait a s) = s"
  by (simp add: log_answered_def log_wait_def)

lemma answer_first:
  "answer_last store (loadFirstPage q p s) =
     first_answered (lo_requestId s + 1) p (Inr (served store q)) (s\<lparr>lo_requestId := lo_requestId s + 1, lo_firstPageLoading := True, lo_loading := True\<rparr>)"
  using answered_wait [of "s\<lparr>lo_requestId := lo_requestId s + 1, lo_firstPageLoading := True, lo_loading := True\<rparr>"]
  by (simp add: answer_last_def loadFirstPage_def Let_def log_wait_def)

lemma shown_first: "shown_part store (answer_last store (loadFirstPage (first_query s) p s)) [] (drop PAGE_SIZE (filter (query_matches (first_query s)) store))"
proof -
  have "first_query (answer_last store (loadFirstPage (first_query s) p s)) = first_query s"
    by (simp add: answer_first first_answered_def Let_def first_query_def buildParams_def)
  then show ?thesis
    by (simp add: shown_part_def answer_first first_answered_def Let_def served_def first_query_def buildParams_def PAGE_SIZE_def MAX_ENTRIES_def)
qed

lemma calm_first:
  assumes "newest_first store" "lo_live s \<longrightarrow> lo_start s = None \<and> lo_end s = None" "\<not> lo_polling s" "\<not> lo_loadingMore s"
  shows "calm_ok store (answer_last store (loadFirstPage (first_query s) p s))"
proof -
  have "at_rest (answer_last store (loadFirstPage (first_query s) p s))"
    using assms by (simp add: at_rest_def answer_first first_answered_def Let_def)
  then show ?thesis using assms(1) shown_first [of store s p] unfolding calm_ok_def by blast
qed

lemma calm_refilter:
  assumes "calm_ok store s" "f s = refiltered s s'" "lo_awaits s' = lo_awaits s" "lo_live s' \<longrightarrow> lo_start s' = None \<and> lo_end s' = None"
    "lo_entries s' = lo_entries s" "lo_hasMore s' = lo_hasMore s" "lo_loading s' = lo_loading s" "lo_firstPageLoading s' = lo_firstPageLoading s"
    "lo_polling s' = lo_polling s" "lo_loadingMore s' = lo_loadingMore s"
  shows "calm_ok store (settle store f s)"
proof (cases "first_query s' = first_query s")
  case True
  then have "settle store f s = s'" using assms(2,3) by (simp add: settle_def refiltered_def)
  moreover have "shown_part store s' n o' = shown_part store s n o'" for n o'
    using True assms(5,6) by (simp add: shown_part_def)
  ultimately show ?thesis using assms by (simp add: calm_ok_def at_rest_def)
next
  case False
  have "settle store f s = answer_last store (loadFirstPage (first_query s') False s')"
    using False assms(2,3) by (simp add: settle_def refiltered_def loadFirstPage_def log_wait_def Let_def)
  then show ?thesis using calm_first [of store s' False] assms by (simp add: calm_ok_def at_rest_def)
qed

text \<open>The older part is what a page before the oldest entry shown is taken from.\<close>

lemma split_newest_first:
  assumes "newest_first store" "filter P store = xs @ y # ys"
  shows "filter (\<lambda>e. P e \<and> en_timestamp e < en_timestamp y) store = ys"
    and "filter (\<lambda>e. P e \<and> en_timestamp y \<le> en_timestamp e) store = xs @ [y]"
    and "filter (\<lambda>e. P e \<and> en_timestamp y < en_timestamp e) store = xs"
    and "0 < en_timestamp y"
proof -
  have sorted: "sorted_wrt (\<lambda>a b. en_timestamp b < en_timestamp a) (xs @ y # ys)"
    using assms by (metis newest_first_def sorted_wrt_filter)
  then have o: "\<forall>x \<in> set xs. en_timestamp y < en_timestamp x" "\<forall>z \<in> set ys. en_timestamp z < en_timestamp y"
    by (auto simp: sorted_wrt_append)
  have f: "filter (\<lambda>e. P e \<and> Q e) store = filter Q (xs @ y # ys)" for Q
    by (simp only: assms(2) [symmetric] filter_filter conj_commute)
  show "filter (\<lambda>e. P e \<and> en_timestamp e < en_timestamp y) store = ys"
    unfolding f using o by (auto simp: filter_empty_conv filter_id_conv)
  show "filter (\<lambda>e. P e \<and> en_timestamp y \<le> en_timestamp e) store = xs @ [y]"
    unfolding f using o by (auto simp: filter_empty_conv filter_id_conv not_le less_imp_le)
  show "filter (\<lambda>e. P e \<and> en_timestamp y < en_timestamp e) store = xs"
    unfolding f using o by (auto simp: filter_empty_conv filter_id_conv)
  have "y \<in> set (filter P store)" using assms(2) by simp
  then have "y \<in> set store" by simp
  then show "0 < en_timestamp y" using assms(1) by (simp add: newest_first_def)
qed

lemma more_query:
  assumes "0 < t"
  shows "query_matches (buildParams (Some t) None s) = (\<lambda>e. query_matches (first_query s) e \<and> en_timestamp e < t)"
  using assms by (auto intro!: ext simp: query_matches_def first_query_def buildParams_def)

lemma poll_query:
  assumes "lo_start s = None"
  shows "query_matches (buildParams None (Some t) s) = (\<lambda>e. query_matches (first_query s) e \<and> t \<le> en_timestamp e)"
  using assms by (auto intro!: ext simp: query_matches_def first_query_def buildParams_def)

lemma more_entries: "lo_entries (more_answered (Inr p) s) = take MAX_ENTRIES (lo_entries s @ pg_entries p)"
  by (auto simp: more_answered_def Let_def)

lemma poll_entries:
  assumes "filter (\<lambda>e. n < en_timestamp e) (pg_entries p) = fresh" "length (lo_entries s) \<le> MAX_ENTRIES"
  shows "lo_entries (poll_answered n (Inr p) s) = take MAX_ENTRIES (fresh @ lo_entries s)"
  using assms(2) by (auto simp: poll_answered_def Let_def assms(1))

lemma calm_more:
  assumes "calm_ok store s" "lo_hasMore s"
  shows "calm_ok store (settle store handleLoadMore s)"
proof (cases "lo_entries s = []")
  case True
  then show ?thesis using assms by (simp add: settle_def handleLoadMore_def)
next
  case False
  obtain newer older where sh: "shown_part store s newer older" and nf: "newest_first store" and rest: "at_rest s"
    using assms(1) by (auto simp: calm_ok_def)
  define y where "y = last (lo_entries s)"
  have "filter (query_matches (first_query s)) store = (newer @ butlast (lo_entries s)) @ y # older"
    using sh False by (simp add: shown_part_def y_def)
  note y = split_newest_first [OF nf this]
  let ?q = "buildParams (Some (en_timestamp y)) None s"
  let ?s = "s\<lparr>lo_loadingMore := True\<rparr>"
  let ?t = "more_answered (Inr (served store ?q)) ?s"
  have found: "filter (query_matches ?q) store = older"
    using y(1) more_query [OF y(4), of s] by simp
  have "handleLoadMore s = log_wait (Aw_More ?q) ?s"
    using False rest by (simp add: handleLoadMore_def at_rest_def y_def)
  then have eq: "settle store handleLoadMore s = ?t"
    using answered_wait [of ?s] by (simp add: settle_def answer_last_def log_wait_def)
  have fq: "first_query ?t = first_query s"
    by (simp add: more_answered_def first_query_def buildParams_def Let_def)
  have en: "lo_entries ?t = take MAX_ENTRIES (lo_entries s @ take PAGE_SIZE older)" "lo_hasMore ?t = (PAGE_SIZE < length older)"
    unfolding more_entries
    using found by (simp_all add: more_answered_def served_def Let_def buildParams_def)
  define k where "k = min PAGE_SIZE (MAX_ENTRIES - length (lo_entries s))"
  have len: "length (lo_entries s) \<le> MAX_ENTRIES" using sh by (simp add: shown_part_def)
  have k: "lo_entries ?t = lo_entries s @ take k older" using len by (simp add: en(1) k_def min.commute)
  have "shown_part store ?t newer (drop k older)"
    unfolding shown_part_def fq
  proof (intro conjI impI)
    show "filter (query_matches (first_query s)) store = newer @ lo_entries ?t @ drop k older"
      using sh k by (simp add: shown_part_def)
    show "drop k older \<noteq> []" if "lo_hasMore ?t" using that en(2) by (simp add: k_def)
    show "length (lo_entries ?t) \<le> MAX_ENTRIES" by (simp add: en(1))
    show "drop k older = []" if "\<not> lo_hasMore ?t \<and> length (lo_entries ?t) < MAX_ENTRIES"
      using that len by (simp add: en(2) k k_def) linarith
  qed
  moreover have "at_rest ?t" using rest by (simp add: at_rest_def more_answered_def Let_def)
  ultimately show ?thesis unfolding eq calm_ok_def using nf by blast
qed

lemma calm_poll:
  assumes "calm_ok store s" "lo_live s" "length (unseen store s) \<le> PAGE_SIZE"
  shows "calm_ok store (settle store loadNewEntries s)"
proof (cases "lo_entries s")
  case Nil
  then show ?thesis using assms(1) by (simp add: settle_def loadNewEntries_def)
next
  case (Cons y ys)
  obtain newer older where sh: "shown_part store s newer older" and nf: "newest_first store" and rest: "at_rest s"
    using assms(1) by (auto simp: calm_ok_def)
  have "filter (query_matches (first_query s)) store = newer @ y # ys @ older"
    using sh Cons by (simp add: shown_part_def)
  note y = split_newest_first [OF nf this]
  let ?q = "buildParams None (Some (en_timestamp y)) s"
  let ?s = "s\<lparr>lo_polling := True\<rparr>"
  let ?t = "poll_answered (en_timestamp y) (Inr (served store ?q)) ?s"
  have "lo_start s = None" using rest assms(2) by (simp add: at_rest_def)
  then have found: "filter (query_matches ?q) store = newer @ [y]"
    using y(2) poll_query [of s "en_timestamp y"] by simp
  have few: "length newer \<le> PAGE_SIZE" using assms(3) y(3) Cons by (simp add: unseen_def)
  have "\<forall>x \<in> set newer. en_timestamp y < en_timestamp x"
  proof
    fix x
    assume "x \<in> set newer"
    then have "x \<in> set (filter (\<lambda>e. query_matches (first_query s) e \<and> en_timestamp y < en_timestamp e) store)" using y(3) by simp
    then show "en_timestamp y < en_timestamp x" by simp
  qed
  then have fresh: "filter (\<lambda>e. en_timestamp y < en_timestamp e) (take PAGE_SIZE (newer @ [y])) = newer"
    using few by (auto simp: filter_id_conv take_Cons')
  have "loadNewEntries s = log_wait (Aw_Poll (en_timestamp y) ?q) ?s"
    using Cons rest by (simp add: loadNewEntries_def at_rest_def)
  then have eq: "settle store loadNewEntries s = ?t"
    using answered_wait [of ?s] by (simp add: settle_def answer_last_def log_wait_def)
  have fq: "first_query ?t = first_query s"
    by (simp add: poll_answered_def first_query_def buildParams_def Let_def)
  have len: "length (lo_entries s) \<le> MAX_ENTRIES" using sh by (simp add: shown_part_def)
  have pg: "pg_entries (served store ?q) = take PAGE_SIZE (newer @ [y])"
    using found by (simp add: served_def Let_def buildParams_def)
  have en: "lo_entries ?t = take MAX_ENTRIES (newer @ lo_entries s)" "lo_hasMore ?t = lo_hasMore s"
    using poll_entries [of "en_timestamp y" "served store ?q" newer ?s] fresh pg len
    by (simp_all add: poll_answered_def Let_def)
  let ?o = "drop MAX_ENTRIES (newer @ lo_entries s) @ older"
  have "shown_part store ?t [] ?o"
    unfolding shown_part_def fq en
  proof (intro conjI impI)
    have "take MAX_ENTRIES (newer @ lo_entries s) @ drop MAX_ENTRIES (newer @ lo_entries s) = newer @ lo_entries s"
      by (rule append_take_drop_id)
    then show "filter (query_matches (first_query s)) store = [] @ take MAX_ENTRIES (newer @ lo_entries s) @ ?o"
      using sh by (metis append_Nil append_assoc shown_part_def)
    show "?o \<noteq> []" if "lo_hasMore s" using that sh by (simp add: shown_part_def)
    show "length (take MAX_ENTRIES (newer @ lo_entries s)) \<le> MAX_ENTRIES" by simp
    show "?o = []" if "\<not> lo_hasMore s \<and> length (take MAX_ENTRIES (newer @ lo_entries s)) < MAX_ENTRIES"
      using that sh by (auto simp: shown_part_def)
  qed
  moreover have "at_rest ?t" using rest by (simp add: at_rest_def poll_answered_def Let_def)
  ultimately show ?thesis unfolding eq calm_ok_def using nf by blast
qed

lemma calm_grow:
  assumes "calm_ok store s" "newest_first (new @ store)"
  shows "calm_ok (new @ store) s"
proof -
  obtain newer older where sh: "shown_part store s newer older" and rest: "at_rest s"
    using assms(1) by (auto simp: calm_ok_def)
  have "shown_part (new @ store) s (filter (query_matches (first_query s)) new @ newer) older"
    using sh by (simp add: shown_part_def)
  then show ?thesis using assms(2) rest by (auto simp: calm_ok_def)
qed

lemma calm_is_ok: "calm store s \<Longrightarrow> calm_ok store s"
proof (induction rule: calm.induct)
  case (mount store)
  let ?s = "log_wait Aw_Apps \<lparr>lo_apps = [], lo_app = [], lo_level = None, lo_range = None, lo_start = None, lo_end = None,
                lo_entries = [], lo_hasMore = False, lo_mock = False, lo_loading = True, lo_loadingMore = False,
                lo_error = None, lo_live = False, lo_purgeOpen = False, lo_purging = False, lo_requestId = 0,
                lo_firstPageLoading = False, lo_polling = False, lo_awaits = []\<rparr>"
  have "logs_mount = loadFirstPage (first_query ?s) False ?s"
    by (simp add: logs_mount_def first_query_def buildParams_def log_wait_def)
  then show ?case using calm_first [of store ?s False] mount by (simp add: log_wait_def)
next
  case (grow store s new)
  then show ?case by (simp add: calm_grow)
next
  case (apps store s k r)
  have "first_query (apps_answered r (log_answered k s)) = first_query s" "lo_entries (apps_answered r (log_answered k s)) = lo_entries s"
    "lo_hasMore (apps_answered r (log_answered k s)) = lo_hasMore s" "at_rest (apps_answered r (log_answered k s)) = at_rest s"
    by (simp_all add: apps_answered_def log_answered_def first_query_def buildParams_def at_rest_def split: sum.split)
  then show ?case using apps(3) by (simp add: calm_ok_def shown_part_def)
next
  case (app store s a)
  show ?case by (rule calm_refilter [where f = "setSelectedApp a", OF app(2) setSelectedApp_def]) (use app(2) in \<open>auto simp: calm_ok_def at_rest_def\<close>)
next
  case (level store s l)
  show ?case by (rule calm_refilter [where f = "setLevel l", OF level(2) setLevel_def]) (use level(2) in \<open>auto simp: calm_ok_def at_rest_def\<close>)
next
  case (start store s t)
  show ?case
  proof (cases "lo_range s = None \<or> lo_live s")
    case False
    have "setStartMs t s = refiltered s (s\<lparr>lo_start := t\<rparr>)" unfolding setStartMs_def if_not_P [OF False] by (rule refl)
    then show ?thesis by (rule calm_refilter [OF start(2)]) (use False in auto)
  qed (use start(2) in \<open>simp add: setStartMs_def settle_def\<close>)
next
  case (until store s t)
  show ?case
  proof (cases "lo_range s = None \<or> lo_live s")
    case False
    have "setEndMs t s = refiltered s (s\<lparr>lo_end := t\<rparr>)" unfolding setEndMs_def if_not_P [OF False] by (rule refl)
    then show ?thesis by (rule calm_refilter [OF until(2)]) (use False in auto)
  qed (use until(2) in \<open>simp add: setEndMs_def settle_def\<close>)
next
  case (all_time store s)
  show ?case
  proof (cases "lo_live s \<or> (lo_start s = None \<and> lo_end s = None)")
    case False
    have "handleAllTime s = refiltered s (all_time s)" unfolding handleAllTime_def if_not_P [OF False] by (rule refl)
    then show ?thesis by (rule calm_refilter [OF all_time(2)]) (auto simp: all_time_def)
  qed (use all_time(2) in \<open>simp add: handleAllTime_def settle_def\<close>)
next
  case (live store s b)
  have "setLiveRefresh b s = refiltered s (if b then all_time (s\<lparr>lo_live := b\<rparr>) else s\<lparr>lo_live := b\<rparr>)"
    by (simp add: setLiveRefresh_def)
  then show ?case by (rule calm_refilter [OF live(2)]) (auto simp: all_time_def)
next
  case (refresh store s)
  have "at_rest s" "newest_first store" using refresh(2) by (auto simp: calm_ok_def)
  then have "settle store refresh_button s = answer_last store (loadFirstPage (first_query s) False s)"
    by (simp add: settle_def refresh_button_def at_rest_def loadFirstPage_def log_wait_def Let_def)
  then show ?case using calm_first [of store s False] \<open>at_rest s\<close> \<open>newest_first store\<close> by (simp add: at_rest_def)
next
  case (more store s)
  then show ?case by (simp add: calm_more)
next
  case (poll store s)
  then show ?case by (simp add: calm_poll)
qed


definition demo_line :: "nat \<Rightarrow> nat \<Rightarrow> log_entry" where
  "demo_line t a = \<lparr>en_timestamp = t, en_level = Info, en_message = [], en_app = [a]\<rparr>"

definition demo_following :: logs where
  "demo_following = settle [demo_line 2 7, demo_line 1 8] (setLiveRefresh True) (answer_last [demo_line 2 7, demo_line 1 8] logs_mount)"




section \<open>Where the table and the filter part\<close>

text \<open>A page of older entries that is still on its way when the filter changes is appended to the new
filter's first page when it arrives, matching or not.\<close>

lemma stale_page_is_appended:
  assumes "calm store s" "lo_hasMore s" "lo_entries s \<noteq> []" "first_query (s\<lparr>lo_app := a\<rparr>) \<noteq> first_query s"
  shows "\<exists>old new.
    filter (query_matches (first_query s)) store \<noteq> [] \<and> old \<noteq> [] \<and> set old \<subseteq> set (filter (query_matches (first_query s)) store) \<and>
    new = take PAGE_SIZE (filter (query_matches (first_query (s\<lparr>lo_app := a\<rparr>))) store) \<and>
    (let t = settle store (setSelectedApp a) (handleLoadMore s)
     in lo_entries t = new \<and> lo_entries (more_answered (Inr (served store (buildParams (Some (en_timestamp (last (lo_entries s)))) None s))) t) = new @ old)"
proof -
  obtain newer older where sh: "shown_part store s newer older" and nf: "newest_first store" and rest: "at_rest s"
    using calm_is_ok [OF assms(1)] by (auto simp: calm_ok_def)
  let ?y = "last (lo_entries s)"
  have split: "filter (query_matches (first_query s)) store = (newer @ butlast (lo_entries s)) @ ?y # older"
    using sh assms(3) by (simp add: shown_part_def)
  let ?q = "buildParams (Some (en_timestamp ?y)) None s"
  have found: "filter (query_matches ?q) store = older"
    using split_newest_first(1,4) [OF nf split] more_query [of "en_timestamp ?y" s] by simp
  let ?old = "take PAGE_SIZE older" and ?new = "take PAGE_SIZE (filter (query_matches (first_query (s\<lparr>lo_app := a\<rparr>))) store)"
  let ?m = "log_wait (Aw_More ?q) (s\<lparr>lo_loadingMore := True\<rparr>)"
  have m: "handleLoadMore s = ?m" using assms(3) rest by (simp add: handleLoadMore_def at_rest_def)
  have fq: "first_query (?m\<lparr>lo_app := a\<rparr>) = first_query (s\<lparr>lo_app := a\<rparr>)" "first_query ?m = first_query s"
    by (simp_all add: first_query_def buildParams_def log_wait_def)
  have r: "refiltered ?m (?m\<lparr>lo_app := a\<rparr>) = loadFirstPage (first_query (s\<lparr>lo_app := a\<rparr>)) False (?m\<lparr>lo_app := a\<rparr>)"
    using assms(4) fq by (simp add: refiltered_def)
  have t: "settle store (setSelectedApp a) ?m = answer_last store (loadFirstPage (first_query (s\<lparr>lo_app := a\<rparr>)) False (?m\<lparr>lo_app := a\<rparr>))"
    unfolding settle_def setSelectedApp_def r by (simp add: loadFirstPage_def log_wait_def Let_def)
  have "lo_entries (settle store (setSelectedApp a) ?m) = ?new"
    unfolding t by (simp add: answer_first first_answered_def Let_def served_def first_query_def buildParams_def)
  moreover have "lo_entries (more_answered (Inr (served store ?q)) u) = ?new @ ?old" if "lo_entries u = ?new" for u
    unfolding more_entries that using found by (simp add: served_def Let_def buildParams_def PAGE_SIZE_def MAX_ENTRIES_def)
  moreover have "?old \<noteq> []" using sh assms(2) by (simp add: shown_part_def PAGE_SIZE_def)
  moreover have "set ?old \<subseteq> set (filter (query_matches (first_query s)) store)"
    unfolding split using set_take_subset [of PAGE_SIZE older] by auto
  moreover have "filter (query_matches (first_query s)) store \<noteq> []" unfolding split by simp
  ultimately show ?thesis unfolding m Let_def by blast
qed

text \<open>A log one entry longer than a page.\<close>

definition long_log :: "log_entry list" where
  "long_log = map (\<lambda>t. demo_line (Suc t) 7) (rev [0..<PAGE_SIZE + 1])"

lemma long_log_newest_first: "newest_first long_log"
  by (auto simp: newest_first_def long_log_def demo_line_def sorted_wrt_map rev_map sorted_wrt_rev sorted_wrt_upt)

lemma long_log_mounted:
  "calm long_log (answer_last long_log logs_mount)" "lo_hasMore (answer_last long_log logs_mount)"
  "lo_entries (answer_last long_log logs_mount) \<noteq> []" "lo_app (answer_last long_log logs_mount) = []"
proof -
  show "calm long_log (answer_last long_log logs_mount)" by (rule calm.mount [OF long_log_newest_first])
  have all: "filter (query_matches \<lparr>q_app = None, q_level = None, q_limit = PAGE_SIZE, q_start = None, q_end = None, q_before = None\<rparr>) long_log = long_log"
    by (simp add: query_matches_def)
  show "lo_hasMore (answer_last long_log logs_mount)" "lo_entries (answer_last long_log logs_mount) \<noteq> []"
    "lo_app (answer_last long_log logs_mount) = []"
    using all by (simp_all add: logs_mount_def answer_first first_answered_def Let_def served_def first_query_def buildParams_def
        long_log_def PAGE_SIZE_def log_wait_def)
qed

lemma stale_page_is_appended_witness:
  "let s = answer_last long_log logs_mount
   in calm long_log s \<and> lo_hasMore s \<and>
      (\<exists>old. old \<noteq> [] \<and> lo_entries (more_answered (Inr (served long_log (buildParams (Some (en_timestamp (last (lo_entries s)))) None s)))
        (settle long_log (setSelectedApp [8]) (handleLoadMore s))) =
        take PAGE_SIZE (filter (query_matches (first_query (s\<lparr>lo_app := [8]\<rparr>))) long_log) @ old)"
proof -
  have "first_query ((answer_last long_log logs_mount)\<lparr>lo_app := [8]\<rparr>) \<noteq> first_query (answer_last long_log logs_mount)"
    by (simp add: first_query_def buildParams_def long_log_mounted(4))
  from stale_page_is_appended [OF long_log_mounted(1-3) this] show ?thesis
    using long_log_mounted(1,2) unfolding Let_def by blast
qed

text \<open>A reload answered while a poll is on its way: what is new is then there twice.\<close>

lemma reload_during_poll_repeats:
  "let store = [demo_line 3 7, demo_line 2 7, demo_line 1 8];
       polling = loadNewEntries demo_following;
       reloaded = answer_last store (refresh_button polling)
   in lo_awaits polling \<noteq> lo_awaits demo_following \<and>
      map en_timestamp (lo_entries (poll_answered 2 (Inr (served store (buildParams None (Some 2) demo_following))) reloaded)) = [3, 3, 2, 1]"
  by code_simp

text \<open>More than a page of new entries between two polls leaves a gap that nothing fills.\<close>

lemma busy_log_leaves_gap:
  assumes "filter (query_matches (buildParams None (Some (en_timestamp y)) s)) store = newer @ [y]"
    and "\<forall>e \<in> set newer. en_timestamp y < en_timestamp e" "PAGE_SIZE < length newer" "lo_entries s = y # ys" "length ys + PAGE_SIZE < MAX_ENTRIES"
  shows "lo_entries (poll_answered (en_timestamp y) (Inr (served store (buildParams None (Some (en_timestamp y)) s))) s) =
    take PAGE_SIZE newer @ lo_entries s"
proof -
  have "pg_entries (served store (buildParams None (Some (en_timestamp y)) s)) = take PAGE_SIZE newer"
    using assms(1,3) by (simp add: served_def Let_def buildParams_def)
  moreover have "filter (\<lambda>e. en_timestamp y < en_timestamp e) (take PAGE_SIZE newer) = take PAGE_SIZE newer"
    using assms(2) by (auto simp: filter_id_conv dest: in_set_takeD)
  ultimately show ?thesis
    using poll_entries [of "en_timestamp y" "served store (buildParams None (Some (en_timestamp y)) s)" "take PAGE_SIZE newer" s] assms(4,5)
    by simp
qed

text \<open>Entries of the same millisecond as the oldest one shown are not in any later page.\<close>

lemma same_millisecond_is_skipped:
  assumes "0 < t" "e \<in> set (pg_entries (served store (buildParams (Some t) None s)))"
  shows "en_timestamp e \<noteq> t"
  using assms more_query [of t s] by (auto simp: served_def Let_def dest!: in_set_takeD)

end
