(* ===== verification/Job_Poll.thy ===== *)
theory Job_Poll
  imports Api_Client Device_Prefs
begin

text \<open>
  Jobs the page starts on the server and follows by polling: the effect both users share, with the hook
  \<open>useClaudeInstallJob\<close> of \<open>components/ClaudeCode/ClaudeCode.tsx\<close>, which remembers its job in the storage
  across mounts. A run of the effect has a number; a poll of a run whose cleanup has come is ignored.
\<close>

section \<open>The polling effect\<close>

record mise_job_status =
  js_running :: bool
  js_exitCode :: "int option"
  js_lines :: "ustring list"

type_synonym job = "ustring \<times> mise_job_status option"

definition job_busy :: "job option \<Rightarrow> bool" where
  "job_busy j \<longleftrightarrow> (case j of None \<Rightarrow> False | Some (i, None) \<Rightarrow> True | Some (i, Some st) \<Rightarrow> js_running st)"

definition job_succeeded :: "job option \<Rightarrow> bool" where
  "job_succeeded j \<longleftrightarrow> (case j of Some (i, Some st) \<Rightarrow> \<not> js_running st \<and> js_exitCode st = Some 0 | _ \<Rightarrow> False)"

text \<open>The dependencies \<open>[job?.jobId, job?.status?.running]\<close>.\<close>

definition job_deps :: "job option \<Rightarrow> ustring option \<times> bool option" where
  "job_deps j =
     (case j of None \<Rightarrow> (None, None) | Some (i, None) \<Rightarrow> (Some i, None) | Some (i, Some st) \<Rightarrow> (Some i, Some (js_running st)))"

record poller =
  po_deps :: "ustring option \<times> bool option"
  po_run :: "(nat \<times> ustring) option"       \<comment> \<open>the run in force and the job it asks about\<close>
  po_runs :: nat

definition poller_init :: poller where
  "poller_init = \<lparr>po_deps = (None, None), po_run = None, po_runs = 0\<rparr>"

text \<open>After a render: the run that starts polls at once.\<close>

definition poller_commit :: "job option \<Rightarrow> poller \<Rightarrow> poller" where
  "poller_commit j p =
     (if job_deps j = po_deps p then p
      else let p1 = p\<lparr>po_deps := job_deps j, po_run := None\<rparr>
           in case j of
             None \<Rightarrow> p1
           | Some (i, st) \<Rightarrow>
               if (case st of None \<Rightarrow> False | Some s \<Rightarrow> \<not> js_running s) then p1
               else p1\<lparr>po_run := Some (po_runs p1, i), po_runs := po_runs p1 + 1\<rparr>)"

definition job_polled :: "ustring \<Rightarrow> mise_job_status \<Rightarrow> job option \<Rightarrow> job option" where
  "job_polled i st j = (case j of None \<Rightarrow> None | Some (i', st') \<Rightarrow> if i' = i then Some (i', Some st) else Some (i', st'))"

definition poller_ok :: "job option \<Rightarrow> poller \<Rightarrow> bool" where
  "poller_ok j p \<longleftrightarrow> po_deps p = job_deps j \<and>
     (case po_run p of None \<Rightarrow> \<not> job_busy j | Some (n, i) \<Rightarrow> job_busy j \<and> map_option fst j = Some i \<and> n < po_runs p)"

lemma busy_deps: "job_busy j \<longleftrightarrow> fst (job_deps j) \<noteq> None \<and> snd (job_deps j) \<noteq> Some False"
  by (auto simp: job_busy_def job_deps_def split: option.splits)

lemma id_deps: "map_option fst j = fst (job_deps j)"
  by (auto simp: job_deps_def split: option.split prod.split)

text \<open>Whatever a step does to the job, the commit brings the run in line.\<close>

lemma commit_ok: "poller_ok j p \<Longrightarrow> poller_ok j' (poller_commit j' p)"
  by (auto simp: poller_ok_def poller_commit_def busy_deps id_deps Let_def split: option.splits)
     (auto simp: job_deps_def split: option.splits)

lemma poller_init_ok: "poller_ok None poller_init"
  by (simp add: poller_ok_def poller_init_def job_deps_def job_busy_def)

lemma commit_runs: "po_runs p \<le> po_runs (poller_commit j p)"
  by (auto simp: poller_commit_def Let_def split: option.split)

lemma commit_run: "po_run (poller_commit j p) = Some (n, i) \<Longrightarrow> po_run p = Some (n, i) \<or> n = po_runs p"
  by (auto simp: poller_commit_def Let_def split: if_splits option.splits)

section \<open>\<open>useClaudeInstallJob\<close>\<close>

datatype job_await =
    Aw_Start
  | Aw_Job nat ustring

record job_hook =
  jh_persist :: bool
  jh_job :: "job option"
  jh_error :: "api_error option"
  jh_poller :: poller
  jh_awaits :: "job_await list"
  jh_done :: nat                             \<comment> \<open>calls of \<open>onDone\<close>\<close>

definition jh_commit :: "job_hook \<Rightarrow> job_hook" where
  "jh_commit h =
     (let p = poller_commit (jh_job h) (jh_poller h)
      in case po_run p of
        Some (n, i) \<Rightarrow> if po_run (jh_poller h) = Some (n, i) then h\<lparr>jh_poller := p\<rparr>
                       else h\<lparr>jh_poller := p, jh_awaits := jh_awaits h @ [Aw_Job n i]\<rparr>
      | None \<Rightarrow> h\<lparr>jh_poller := p\<rparr>)"

definition jh_mount :: "bool \<Rightarrow> storage \<Rightarrow> job_hook" where
  "jh_mount persist st =
     jh_commit \<lparr>jh_persist = persist,
       jh_job = (if persist then (case loadPersistedInstallJobId st of None \<Rightarrow> None | Some i \<Rightarrow> if i = [] then None else Some (i, None)) else None),
       jh_error = None, jh_poller = poller_init, jh_awaits = [], jh_done = 0\<rparr>"

definition jh_start :: "job_hook \<Rightarrow> job_hook" where
  "jh_start h = (if job_busy (jh_job h) then h else h\<lparr>jh_error := None, jh_awaits := jh_awaits h @ [Aw_Start]\<rparr>)"

definition persist_job :: "job_hook \<Rightarrow> ustring option \<Rightarrow> storage \<Rightarrow> storage" where
  "persist_job h i st = (if jh_persist h then savePersistedInstallJobId i st else st)"

definition jh_started :: "api_error + ustring \<Rightarrow> job_hook \<times> storage \<Rightarrow> job_hook \<times> storage" where
  "jh_started r hs =
     (case hs of (h, st) \<Rightarrow>
       (case r of
          Inl e \<Rightarrow> (h\<lparr>jh_error := Some e\<rparr>, st)
        | Inr i \<Rightarrow> (jh_commit (h\<lparr>jh_job := Some (i, None)\<rparr>), persist_job h (Some i) st)))"

definition jh_tick :: "job_hook \<Rightarrow> job_hook" where
  "jh_tick h = (case po_run (jh_poller h) of None \<Rightarrow> h | Some (n, i) \<Rightarrow> h\<lparr>jh_awaits := jh_awaits h @ [Aw_Job n i]\<rparr>)"

definition jh_polled :: "nat \<Rightarrow> ustring \<Rightarrow> api_error + mise_job_status \<Rightarrow> job_hook \<times> storage \<Rightarrow> job_hook \<times> storage" where
  "jh_polled n i r hs =
     (case hs of (h, st) \<Rightarrow>
       if po_run (jh_poller h) \<noteq> Some (n, i) then (h, st)
       else case r of
         Inr s \<Rightarrow> (jh_commit (h\<lparr>jh_job := job_polled i s (jh_job h)\<rparr>), st)
       | Inl e \<Rightarrow>
           if jh_persist h \<and> (case e of ApiError c m \<Rightarrow> c = 404 | OtherError m \<Rightarrow> False)
           then (jh_commit (h\<lparr>jh_job := None\<rparr>), savePersistedInstallJobId None st)
           else (h\<lparr>jh_error := Some e\<rparr>, st))"

definition jh_close :: "job_hook \<times> storage \<Rightarrow> job_hook \<times> storage" where
  "jh_close hs = (case hs of (h, st) \<Rightarrow> (jh_commit (h\<lparr>jh_job := None\<rparr>), persist_job h None st))"

definition jh_reload :: "job_hook \<times> storage \<Rightarrow> job_hook \<times> storage" where
  "jh_reload hs = (case hs of (h, st) \<Rightarrow> (jh_commit (h\<lparr>jh_job := None, jh_done := jh_done h + 1\<rparr>), persist_job h None st))"

definition jh_answered :: "nat \<Rightarrow> job_hook \<Rightarrow> job_hook" where
  "jh_answered k h = h\<lparr>jh_awaits := take k (jh_awaits h) @ drop (k + 1) (jh_awaits h)\<rparr>"

definition jh_awaiting :: "nat \<Rightarrow> job_await \<Rightarrow> job_hook \<Rightarrow> bool" where
  "jh_awaiting k a h \<longleftrightarrow> k < length (jh_awaits h) \<and> jh_awaits h ! k = a"

text \<open>
  Steps. The panel of a job can be closed at any time, reloading is offered once it has succeeded.
  A mount takes the place of the one before; a start still on its way then is not followed here.
\<close>

inductive job_step :: "job_hook \<times> storage \<Rightarrow> job_hook \<times> storage \<Rightarrow> bool" where
  start: "jh_job h = None \<Longrightarrow> job_step (h, st) (jh_start h, st)"
| started: "jh_awaiting k Aw_Start h \<Longrightarrow> i \<noteq> [] \<Longrightarrow> r = Inr i \<or> r = Inl e \<Longrightarrow> job_step (h, st) (jh_started r (jh_answered k h, st))"
| tick: "job_step (h, st) (jh_tick h, st)"
| polled: "jh_awaiting k (Aw_Job n i) h \<Longrightarrow> job_step (h, st) (jh_polled n i r (jh_answered k h, st))"
| close: "jh_job h \<noteq> None \<Longrightarrow> job_step (h, st) (jh_close (h, st))"
| reload: "job_succeeded (jh_job h) \<Longrightarrow> job_step (h, st) (jh_reload (h, st))"
| dismiss: "job_step (h, st) (h\<lparr>jh_error := None\<rparr>, st)"
| remount: "Aw_Start \<notin> set (jh_awaits h) \<Longrightarrow> job_step (h, st) (jh_mount (jh_persist h) st, st)"

definition job_reachable :: "bool \<Rightarrow> storage \<Rightarrow> job_hook \<times> storage \<Rightarrow> bool" where
  "job_reachable persist st = job_step\<^sup>*\<^sup>* (jh_mount persist st, st)"

section \<open>A job is followed to its end\<close>

definition hook_ok :: "job_hook \<Rightarrow> bool" where
  "hook_ok h \<longleftrightarrow> poller_ok (jh_job h) (jh_poller h) \<and> (\<forall>st. jh_job h \<noteq> Some ([], st))"

definition stored_ok :: "job_hook \<times> storage \<Rightarrow> bool" where
  "stored_ok hs \<longleftrightarrow> (case hs of (h, st) \<Rightarrow>
     jh_persist h \<and> st_readable st \<and> st_writable st \<longrightarrow> loadPersistedInstallJobId st = map_option fst (jh_job h))"

lemma hook_commit_fields [simp]:
  "jh_job (jh_commit h) = jh_job h" "jh_persist (jh_commit h) = jh_persist h" "jh_error (jh_commit h) = jh_error h"
  "jh_done (jh_commit h) = jh_done h" "jh_poller (jh_commit h) = poller_commit (jh_job h) (jh_poller h)"
  "Aw_Start \<in> set (jh_awaits (jh_commit h)) \<longleftrightarrow> Aw_Start \<in> set (jh_awaits h)"
  by (auto simp: jh_commit_def Let_def split: option.split)

lemma hook_commit_ok: "poller_ok j (jh_poller h) \<Longrightarrow> (\<forall>st. jh_job h \<noteq> Some ([], st)) \<Longrightarrow> hook_ok (jh_commit h)"
  using commit_ok [of j "jh_poller h" "jh_job h"] by (simp add: hook_ok_def)

lemma polled_id: "map_option fst (job_polled i s j) = map_option fst j"
  by (auto simp: job_polled_def split: option.split)

lemma save_flags [simp]:
  "st_readable (savePersistedInstallJobId j st) = st_readable st" "st_writable (savePersistedInstallJobId j st) = st_writable st"
  by (fact install_job_pref.save_flags)+

lemma save_load:
  "st_readable st \<Longrightarrow> st_writable st \<Longrightarrow> j \<noteq> Some [] \<Longrightarrow> loadPersistedInstallJobId (savePersistedInstallJobId j st) = j"
  by (rule install_job_pref.load_save)

lemma job_mount_ok:
  assumes "loadPersistedInstallJobId st \<noteq> Some []"
  shows "hook_ok (jh_mount persist st)" "stored_ok (jh_mount persist st, st)" "jh_persist (jh_mount persist st) = persist"
    "Aw_Start \<notin> set (jh_awaits (jh_mount persist st))"
proof -
  show "hook_ok (jh_mount persist st)" unfolding jh_mount_def
    by (rule hook_commit_ok [of None]) (auto simp: poller_init_ok split: option.split)
  show "stored_ok (jh_mount persist st, st)" "jh_persist (jh_mount persist st) = persist"
    "Aw_Start \<notin> set (jh_awaits (jh_mount persist st))"
    using assms by (auto simp: stored_ok_def jh_mount_def split: option.split)
qed

lemma answered_hook [simp]:
  "jh_job (jh_answered k h) = jh_job h" "jh_persist (jh_answered k h) = jh_persist h" "jh_poller (jh_answered k h) = jh_poller h"
  by (simp_all add: jh_answered_def)

lemma started_ok:
  assumes "hook_ok h" "stored_ok (h, st)" "\<forall>i. r = Inr i \<longrightarrow> i \<noteq> []"
  shows "hook_ok (fst (jh_started r (h, st))) \<and> stored_ok (jh_started r (h, st))"
proof (cases r)
  case (Inl e)
  then show ?thesis using assms by (simp add: jh_started_def hook_ok_def stored_ok_def)
next
  case (Inr i)
  have "hook_ok (jh_commit (h\<lparr>jh_job := Some (i, None)\<rparr>))"
    using assms(1,3) Inr by (intro hook_commit_ok [of "jh_job h"]) (simp_all add: hook_ok_def)
  then show ?thesis using assms(3) Inr by (simp add: jh_started_def stored_ok_def persist_job_def save_load)
qed

lemma polled_ok:
  assumes "hook_ok h" "stored_ok (h, st)"
  shows "hook_ok (fst (jh_polled n i r (h, st))) \<and> stored_ok (jh_polled n i r (h, st))"
proof (cases "po_run (jh_poller h) = Some (n, i)")
  case True
  have ok: "poller_ok (jh_job h) (jh_poller h)" using assms(1) by (simp add: hook_ok_def)
  show ?thesis
  proof (cases r)
    case (Inl e)
    have "hook_ok (jh_commit (h\<lparr>jh_job := None\<rparr>))" by (rule hook_commit_ok [of "jh_job h"]) (simp_all add: ok)
    then show ?thesis using True Inl assms by (simp add: jh_polled_def hook_ok_def stored_ok_def save_load)
  next
    case (Inr s)
    have "job_polled i s (jh_job h) \<noteq> Some ([], x)" for x
      using assms(1) by (auto simp: hook_ok_def job_polled_def split: option.splits if_splits)
    then have "hook_ok (jh_commit (h\<lparr>jh_job := job_polled i s (jh_job h)\<rparr>))"
      by (intro hook_commit_ok [of "jh_job h"]) (simp_all add: ok)
    then show ?thesis using True Inr assms(2) by (simp add: jh_polled_def stored_ok_def polled_id)
  qed
qed (use assms in \<open>simp add: jh_polled_def\<close>)

lemma ended_ok:
  assumes "hook_ok h"
  shows "hook_ok (fst (jh_close (h, st))) \<and> stored_ok (jh_close (h, st)) \<and>
    hook_ok (fst (jh_reload (h, st))) \<and> stored_ok (jh_reload (h, st))"
proof -
  have ok: "poller_ok (jh_job h) (jh_poller h)" using assms by (simp add: hook_ok_def)
  have "hook_ok (jh_commit (h\<lparr>jh_job := None\<rparr>))" "hook_ok (jh_commit (h\<lparr>jh_job := None, jh_done := jh_done h + 1\<rparr>))"
    by (rule hook_commit_ok [of "jh_job h"]; simp add: ok)+
  then show ?thesis by (simp add: jh_close_def jh_reload_def stored_ok_def persist_job_def save_load)
qed

definition job_inv :: "bool \<Rightarrow> storage \<Rightarrow> job_hook \<times> storage \<Rightarrow> bool" where
  "job_inv persist st0 hs \<longleftrightarrow> (case hs of (h, st) \<Rightarrow>
     hook_ok h \<and> stored_ok (h, st) \<and> jh_persist h = persist \<and> st_readable st = st_readable st0 \<and> st_writable st = st_writable st0 \<and>
     loadPersistedInstallJobId st \<noteq> Some [])"

lemma stored_never_empty: "loadPersistedInstallJobId st \<noteq> Some [] \<Longrightarrow> loadPersistedInstallJobId (savePersistedInstallJobId j st) \<noteq> Some []"
  by (auto simp: loadPersistedInstallJobId_def savePersistedInstallJobId_def storage_ops split: option.splits if_splits)

lemma job_step_inv:
  assumes "job_step hs hs'" "job_inv persist st0 hs"
  shows "job_inv persist st0 hs'"
  using assms
proof (induction rule: job_step.induct)
  case (start h st)
  then show ?case by (auto simp: job_inv_def jh_start_def hook_ok_def stored_ok_def)
next
  case (started k h i r e st)
  have "hook_ok (jh_answered k h)" "stored_ok (jh_answered k h, st)"
    using started(4) by (simp_all add: job_inv_def hook_ok_def stored_ok_def)
  with started_ok [of "jh_answered k h" st r] started(2-4) show ?case
    by (auto simp: job_inv_def jh_started_def persist_job_def stored_never_empty split: sum.splits)
next
  case (tick h st)
  then show ?case by (auto simp: job_inv_def jh_tick_def hook_ok_def stored_ok_def split: option.split)
next
  case (polled k n i h st r)
  have "hook_ok (jh_answered k h)" "stored_ok (jh_answered k h, st)"
    using polled(2) by (simp_all add: job_inv_def hook_ok_def stored_ok_def)
  from polled_ok [OF this, of n i r] polled(2) show ?case
    by (auto simp: job_inv_def jh_polled_def stored_never_empty split: sum.splits if_splits)
next
  case (close h st)
  then show ?case using ended_ok [of h st] by (auto simp: job_inv_def jh_close_def persist_job_def stored_never_empty)
next
  case (reload h st)
  then show ?case using ended_ok [of h st] by (auto simp: job_inv_def jh_reload_def persist_job_def stored_never_empty)
next
  case (dismiss h st)
  then show ?case by (simp add: job_inv_def hook_ok_def stored_ok_def)
next
  case (remount h st)
  then show ?case using job_mount_ok [of st "jh_persist h"] by (simp add: job_inv_def)
qed

lemma job_reachable_inv:
  assumes "job_reachable persist st0 hs" "loadPersistedInstallJobId st0 \<noteq> Some []"
  shows "job_inv persist st0 hs"
  using assms(1) unfolding job_reachable_def
proof (induction rule: rtranclp_induct)
  case base
  then show ?case using job_mount_ok [OF assms(2), of persist] assms(2) by (simp add: job_inv_def)
next
  case (step y z)
  then show ?case using job_step_inv by blast
qed

text \<open>C22: A job is polled exactly while it is not known to have finished; once it has, no answer still on its way
changes what is shown. The stored id is always that of the job shown, so that a page that is left and opened
again shows the same job and asks about it at once.\<close>

theorem job_is_followed:
  assumes "job_reachable persist st0 (h, st)" "loadPersistedInstallJobId st0 \<noteq> Some []"
  shows "(job_busy (jh_job h) \<longleftrightarrow> po_run (jh_poller h) \<noteq> None) \<and>
    (\<forall>n i. po_run (jh_poller h) = Some (n, i) \<longrightarrow> map_option fst (jh_job h) = Some i) \<and>
    (\<not> job_busy (jh_job h) \<longrightarrow> (\<forall>n i r. jh_polled n i r (h, st) = (h, st))) \<and>
    (persist \<and> st_readable st0 \<and> st_writable st0 \<longrightarrow>
      map_option fst (jh_job (jh_mount persist st)) = map_option fst (jh_job h) \<and>
      (\<forall>i. map_option fst (jh_job h) = Some i \<longrightarrow> Aw_Job 0 i \<in> set (jh_awaits (jh_mount persist st))))"
proof (intro conjI impI allI)
  have inv: "job_inv persist st0 (h, st)" using job_reachable_inv [OF assms] .
  then have ok: "poller_ok (jh_job h) (jh_poller h)" by (simp add: job_inv_def hook_ok_def)
  show busy: "job_busy (jh_job h) \<longleftrightarrow> po_run (jh_poller h) \<noteq> None" using ok by (auto simp: poller_ok_def split: option.splits)
  show "map_option fst (jh_job h) = Some i" if "po_run (jh_poller h) = Some (n, i)" for n i
    using ok that by (simp add: poller_ok_def)
  show "jh_polled n i r (h, st) = (h, st)" if "\<not> job_busy (jh_job h)" for n i r
    using that busy by (simp add: jh_polled_def)
  assume "persist \<and> st_readable st0 \<and> st_writable st0"
  then have l: "loadPersistedInstallJobId st = map_option fst (jh_job h)" "persist"
    using inv by (simp_all add: job_inv_def stored_ok_def)
  then have ne: "map_option fst (jh_job h) \<noteq> Some []" using inv by (simp add: job_inv_def)
  then show "map_option fst (jh_job (jh_mount persist st)) = map_option fst (jh_job h)"
    using l by (auto simp: jh_mount_def split: option.split)
  show "Aw_Job 0 i \<in> set (jh_awaits (jh_mount persist st))" if "map_option fst (jh_job h) = Some i" for i
  proof -
    have "loadPersistedInstallJobId st = Some i" "i \<noteq> []" using that l(1) ne by auto
    then show ?thesis using l(2) by (simp add: jh_mount_def jh_commit_def poller_commit_def job_deps_def poller_init_def Let_def)
  qed
qed

definition demo_storage :: storage where
  "demo_storage = \<lparr>st_readable = True, st_writable = True, st_items = (\<lambda>_. None)\<rparr>"

definition demo_hook :: "job_hook \<times> storage" where
  "demo_hook = jh_started (Inr [5]) (jh_answered 0 (jh_start (jh_mount True demo_storage)), demo_storage)"

lemma demo_hook_reachable: "job_reachable True demo_storage demo_hook"
proof -
  have "jh_job (jh_mount True demo_storage) = None"
    by (simp add: jh_mount_def demo_storage_def loadPersistedInstallJobId_def storage_ops)
  then have s: "job_step (jh_mount True demo_storage, demo_storage) (jh_start (jh_mount True demo_storage), demo_storage)"
    by (rule job_step.start)
  have "jh_awaiting 0 Aw_Start (jh_start (jh_mount True demo_storage))"
    by (simp add: jh_awaiting_def jh_start_def jh_mount_def jh_commit_def poller_commit_def job_deps_def poller_init_def job_busy_def
        demo_storage_def loadPersistedInstallJobId_def storage_ops)
  then have "job_step (jh_start (jh_mount True demo_storage), demo_storage) demo_hook"
    unfolding demo_hook_def by (rule job_step.started [where i = "[5]"]) simp_all
  with s show ?thesis unfolding job_reachable_def by (meson converse_rtranclp_into_rtranclp r_into_rtranclp)
qed

theorem job_is_followed_witness:
  "job_reachable True demo_storage demo_hook \<and> map_option fst (jh_job (fst demo_hook)) = Some [5] \<and>
   map_option fst (jh_job (jh_mount True (snd demo_hook))) = Some [5] \<and> Aw_Job 0 [5] \<in> set (jh_awaits (jh_mount True (snd demo_hook)))"
proof -
  have "job_reachable True demo_storage (fst demo_hook, snd demo_hook)" using demo_hook_reachable by simp
  moreover have "loadPersistedInstallJobId demo_storage \<noteq> Some []"
    by (simp add: demo_storage_def loadPersistedInstallJobId_def storage_ops)
  moreover have "map_option fst (jh_job (fst demo_hook)) = Some [5]" by (simp add: demo_hook_def jh_started_def)
  moreover have "st_readable demo_storage" "st_writable demo_storage" by (simp_all add: demo_storage_def)
  ultimately show ?thesis using job_is_followed [of True demo_storage "fst demo_hook" "snd demo_hook"] demo_hook_reachable by simp
qed

end
