(* ===== verification/Claude_Page.thy ===== *)
theory Claude_Page
  imports Login_Properties
begin

text \<open>
  The Claude Code page, \<open>components/ClaudeCode/ClaudeCode.tsx\<close>: its status, preferences and version, and the
  view of an installed CLI with the login dialog inside it. The dialog is the one of \<open>Interactive_Login\<close>.

  React keeps a component while the same type stands at the same place of the tree and replaces it otherwise. The
  dialog is written at four places, one for each state of the login; \<open>dialog_place\<close> is where it stands. An object
  that an effect depends on is known by a number, as it is compared by identity.
\<close>

section \<open>State\<close>

record claude_auth =
  ca_loggedIn :: bool
  ca_email :: ustring

record claude_status =
  cs_installed :: bool
  cs_auth :: "claude_auth option"
  cs_authError :: "ustring option"

record mise_version =
  mv_current :: ustring
  mv_latest :: ustring
  mv_outdated :: bool

datatype claude_tab = Tab_Status | Tab_Analytics | Tab_Sessions | Tab_Management

datatype place = In_Fragment | In_Panel nat

datatype claude_await =
    Aw_Load
  | Aw_Version
  | Aw_Prefs "(nat \<times> bool) option"        \<comment> \<open>the preferences to go back to\<close>
  | Aw_Onboarding nat
  | Aw_Logout

record installed_view =
  iv_onboarding :: "bool option"
  iv_auth_deps :: "nat option"
  iv_run :: "nat option"
  iv_runs :: nat
  iv_showInteractive :: bool
  iv_showAdvanced :: bool
  iv_confirmLogout :: bool
  iv_loggingOut :: bool
  iv_dialog :: "(place \<times> login) option"

record claude_page =
  cp_status :: "claude_status option"
  cp_authId :: "nat option"                  \<comment> \<open>the \<open>auth\<close> object of the status, \<open>None\<close> for \<open>null\<close>\<close>
  cp_objects :: nat
  cp_prefs :: "(nat \<times> bool) option"
  cp_version :: "mise_version option"
  cp_version_deps :: "bool \<times> (nat \<times> bool) option"
  cp_error :: "api_error option"
  cp_loadError :: "api_error option"
  cp_loading :: bool
  cp_loadingRef :: bool
  cp_tab :: claude_tab
  cp_view :: "installed_view option"
  cp_awaits :: "claude_await list"
  cp_gone :: "login list"                    \<comment> \<open>dialogs that were taken away\<close>

definition cp_await :: "claude_await \<Rightarrow> claude_page \<Rightarrow> claude_page" where
  "cp_await a s = s\<lparr>cp_awaits := cp_awaits s @ [a]\<rparr>"

section \<open>What is shown\<close>

definition view_shown :: "claude_page \<Rightarrow> bool" where
  "view_shown s \<longleftrightarrow> cp_loadError s = None \<and>
     (case cp_status s of None \<Rightarrow> False | Some st \<Rightarrow> cs_installed st) \<and> cp_tab s = Tab_Status"

definition iv_init :: installed_view where
  "iv_init = \<lparr>iv_onboarding = None, iv_auth_deps = None, iv_run = None, iv_runs = 0, iv_showInteractive = False,
     iv_showAdvanced = False, iv_confirmLogout = False, iv_loggingOut = False, iv_dialog = None\<rparr>"

definition dialog_place :: "claude_status \<Rightarrow> installed_view \<Rightarrow> place option" where
  "dialog_place st v =
     (if (case cs_auth st of None \<Rightarrow> False | Some a \<Rightarrow> ca_loggedIn a)
      then (if iv_onboarding v = Some False \<and> iv_showInteractive v then Some In_Fragment else None)
      else if (case cs_authError st of None \<Rightarrow> False | Some e \<Rightarrow> e \<noteq> [])
      then (if iv_showInteractive v then Some (In_Panel 3) else None)
      else if iv_onboarding v = Some True
      then (if iv_showInteractive v then Some (In_Panel 2) else None)
      else (if iv_showInteractive v then Some (In_Panel 3) else None))"

text \<open>Where the dialog stood before and stands now.\<close>

definition reconcile_dialog :: "place option \<Rightarrow> (place \<times> login) option \<Rightarrow> (place \<times> login) option \<times> login list" where
  "reconcile_dialog p d =
     (case d of
        None \<Rightarrow> (map_option (\<lambda>q. (q, login_mount)) p, [])
      | Some (q, l) \<Rightarrow> if p = Some q then (d, []) else (map_option (\<lambda>q. (q, login_mount)) p, [login_unmount l]))"

section \<open>Effects\<close>

text \<open>The version is asked for when the status, the preferences or the switch in them change.\<close>

definition version_effect :: "claude_page \<Rightarrow> claude_page" where
  "version_effect s =
     (let installed = (case cp_status s of None \<Rightarrow> False | Some st \<Rightarrow> cs_installed st);
          deps = (installed, cp_prefs s)
      in if deps = cp_version_deps s then s
         else let s1 = s\<lparr>cp_version_deps := deps\<rparr>
              in if \<not> installed \<or> cp_prefs s = None \<or> (case cp_prefs s of None \<Rightarrow> False | Some (i, hide) \<Rightarrow> hide)
                 then s1\<lparr>cp_version := None\<rparr> else cp_await Aw_Version s1)"

text \<open>Whether the wizard was finished is asked for each new \<open>auth\<close>, and when the view appears.\<close>

definition onboarding_effect :: "bool \<Rightarrow> claude_page \<Rightarrow> claude_page" where
  "onboarding_effect appears s =
     (case cp_view s of
        None \<Rightarrow> s
      | Some v \<Rightarrow>
          if \<not> appears \<and> iv_auth_deps v = cp_authId s then s
          else cp_await (Aw_Onboarding (iv_runs v))
                 (s\<lparr>cp_view := Some (v\<lparr>iv_auth_deps := cp_authId s, iv_run := Some (iv_runs v), iv_runs := iv_runs v + 1\<rparr>)\<rparr>))"

definition place_dialog :: "claude_page \<Rightarrow> claude_page" where
  "place_dialog s =
     (case (cp_view s, cp_status s) of
        (Some v, Some st) \<Rightarrow>
          (case reconcile_dialog (dialog_place st v) (iv_dialog v) of
             (d, gone) \<Rightarrow> s\<lparr>cp_view := Some (v\<lparr>iv_dialog := d\<rparr>), cp_gone := cp_gone s @ gone\<rparr>)
      | _ \<Rightarrow> s)"

definition cp_render :: "claude_page \<Rightarrow> claude_page" where
  "cp_render s =
     (let s1 = version_effect s
      in if view_shown s1
         then (case cp_view s1 of
                 None \<Rightarrow> onboarding_effect True (place_dialog (s1\<lparr>cp_view := Some iv_init\<rparr>))
               | Some v \<Rightarrow> onboarding_effect False (place_dialog s1))
         else (case cp_view s1 of
                 None \<Rightarrow> s1
               | Some v \<Rightarrow> s1\<lparr>cp_view := None,
                    cp_gone := cp_gone s1 @ (case iv_dialog v of None \<Rightarrow> [] | Some (q, l) \<Rightarrow> [login_unmount l])\<rparr>))"

section \<open>Loading\<close>

definition cp_load :: "claude_page \<Rightarrow> claude_page" where
  "cp_load s = (if cp_loadingRef s then s else cp_await Aw_Load (s\<lparr>cp_loadingRef := True, cp_loading := True\<rparr>))"

definition load_answered :: "api_error + claude_status \<times> bool \<Rightarrow> claude_page \<Rightarrow> claude_page" where
  "load_answered r s =
     (case r of
        Inr (st, hide) \<Rightarrow>
          s\<lparr>cp_status := Some st, cp_authId := map_option (\<lambda>a. cp_objects s) (cs_auth st),
            cp_prefs := Some (cp_objects s + 1, hide), cp_objects := cp_objects s + 2, cp_loadError := None\<rparr>
      | Inl e \<Rightarrow> s\<lparr>cp_loadError := Some e\<rparr>)\<lparr>cp_loading := False, cp_loadingRef := False\<rparr>"

definition loadMiseVersion :: "claude_page \<Rightarrow> claude_page" where
  "loadMiseVersion = cp_await Aw_Version"

definition version_answered :: "api_error + mise_version option \<Rightarrow> claude_page \<Rightarrow> claude_page" where
  "version_answered r s = s\<lparr>cp_version := (case r of Inl e \<Rightarrow> None | Inr v \<Rightarrow> v)\<rparr>"

definition handleRefresh :: "claude_page \<Rightarrow> claude_page" where
  "handleRefresh s =
     (let s1 = cp_load s
      in if (case cp_prefs s of None \<Rightarrow> False | Some (i, hide) \<Rightarrow> \<not> hide) then loadMiseVersion s1 else s1)"

definition handleUpdated :: "claude_page \<Rightarrow> claude_page" where
  "handleUpdated s = loadMiseVersion (cp_load s)"

definition handleToggleHideVersionCheck :: "bool \<Rightarrow> claude_page \<Rightarrow> claude_page" where
  "handleToggleHideVersionCheck checked s =
     cp_await (Aw_Prefs (cp_prefs s)) (s\<lparr>cp_prefs := Some (cp_objects s, checked), cp_objects := cp_objects s + 1\<rparr>)"

definition prefs_answered :: "(nat \<times> bool) option \<Rightarrow> api_error option \<Rightarrow> claude_page \<Rightarrow> claude_page" where
  "prefs_answered prev r s = (case r of None \<Rightarrow> s | Some e \<Rightarrow> s\<lparr>cp_prefs := prev, cp_error := Some e\<rparr>)"

definition on_view :: "(installed_view \<Rightarrow> installed_view) \<Rightarrow> claude_page \<Rightarrow> claude_page" where
  "on_view f s = s\<lparr>cp_view := map_option f (cp_view s)\<rparr>"

definition onboarding_answered :: "nat \<Rightarrow> api_error + bool \<Rightarrow> claude_page \<Rightarrow> claude_page" where
  "onboarding_answered n r =
     on_view (\<lambda>v. case r of Inr c \<Rightarrow> if iv_run v = Some n then v\<lparr>iv_onboarding := Some c\<rparr> else v | Inl e \<Rightarrow> v)"

definition confirmLogout :: "claude_page \<Rightarrow> claude_page" where
  "confirmLogout s = cp_await Aw_Logout (on_view (\<lambda>v. v\<lparr>iv_loggingOut := True\<rparr>) s)"

definition logout_answered :: "bool \<Rightarrow> claude_page \<Rightarrow> claude_page" where
  "logout_answered ok s =
     on_view (\<lambda>v. v\<lparr>iv_loggingOut := False\<rparr>)
       (if ok then cp_load (on_view (\<lambda>v. v\<lparr>iv_confirmLogout := False\<rparr>) s) else s)"

section \<open>The dialog inside the page\<close>

text \<open>The calls of \<open>onLoggedIn\<close> and \<open>onClose\<close> a step of the dialog made.\<close>

definition dialog_calls :: "login_out list \<Rightarrow> claude_page \<Rightarrow> claude_page" where
  "dialog_calls es s =
     fold (\<lambda>e. case e of Logged_In \<Rightarrow> cp_load | Dialog_Closed \<Rightarrow> on_view (\<lambda>v. v\<lparr>iv_showInteractive := False\<rparr>) | _ \<Rightarrow> id) es s"


definition cp_mount :: claude_page where
  "cp_mount =
     cp_render (cp_load \<lparr>cp_status = None, cp_authId = None, cp_objects = 0, cp_prefs = None, cp_version = None, cp_version_deps = (False, None),
       cp_error = None, cp_loadError = None, cp_loading = True, cp_loadingRef = False, cp_tab = Tab_Status, cp_view = None,
       cp_awaits = [], cp_gone = []\<rparr>)"

definition cp_answered :: "nat \<Rightarrow> claude_page \<Rightarrow> claude_page" where
  "cp_answered k s = s\<lparr>cp_awaits := take k (cp_awaits s) @ drop (k + 1) (cp_awaits s)\<rparr>"


definition dialog_of :: "claude_page \<Rightarrow> login option" where
  "dialog_of s = (case cp_view s of None \<Rightarrow> None | Some v \<Rightarrow> map_option snd (iv_dialog v))"



section \<open>Every dialog of the page is a dialog\<close>






lemma await_same [simp]: "cp_gone (cp_await a s) = cp_gone s" "dialog_of (cp_await a s) = dialog_of s" "cp_view (cp_await a s) = cp_view s"
  by (simp_all add: cp_await_def dialog_of_def)

lemma version_same [simp]: "cp_gone (version_effect s) = cp_gone s" "cp_view (version_effect s) = cp_view s" "dialog_of (version_effect s) = dialog_of s"
  by (simp_all add: version_effect_def Let_def cp_await_def dialog_of_def)

lemma onboarding_same [simp]: "cp_gone (onboarding_effect b s) = cp_gone s" "dialog_of (onboarding_effect b s) = dialog_of s"
  by (auto simp: onboarding_effect_def cp_await_def dialog_of_def split: option.split)



lemma on_view_same: "(\<And>v. iv_dialog (f v) = iv_dialog v) \<Longrightarrow> dialog_of (on_view f s) = dialog_of s"
  by (simp add: on_view_def dialog_of_def split: option.split)

lemma on_view_gone [simp]: "cp_gone (on_view f s) = cp_gone s"
  by (simp add: on_view_def)

lemma load_same [simp]: "cp_gone (cp_load s) = cp_gone s" "dialog_of (cp_load s) = dialog_of s"
  by (simp_all add: cp_load_def cp_await_def dialog_of_def)

lemma calls_same [simp]: "cp_gone (dialog_calls es s) = cp_gone s" "dialog_of (dialog_calls es s) = dialog_of s"
proof -
  have "cp_gone (dialog_calls es s) = cp_gone s \<and> dialog_of (dialog_calls es s) = dialog_of s"
    unfolding dialog_calls_def
    by (induction es arbitrary: s) (auto simp: on_view_same split: login_out.split)
  then show "cp_gone (dialog_calls es s) = cp_gone s" "dialog_of (dialog_calls es s) = dialog_of s" by simp_all
qed

lemma answered_same [simp]: "cp_gone (cp_answered k s) = cp_gone s" "dialog_of (cp_answered k s) = dialog_of s"
  by (simp_all add: cp_answered_def dialog_of_def)

lemma answers_same [simp]:
  "cp_gone (load_answered r s) = cp_gone s" "dialog_of (load_answered r s) = dialog_of s"
  "cp_gone (version_answered v s) = cp_gone s" "dialog_of (version_answered v s) = dialog_of s"
  "cp_gone (prefs_answered p e s) = cp_gone s" "dialog_of (prefs_answered p e s) = dialog_of s"
  "cp_gone (onboarding_answered n c s) = cp_gone s" "dialog_of (onboarding_answered n c s) = dialog_of s"
  "cp_gone (logout_answered ok s) = cp_gone s" "dialog_of (logout_answered ok s) = dialog_of s"
  by (auto simp: load_answered_def version_answered_def prefs_answered_def onboarding_answered_def logout_answered_def
      dialog_of_def on_view_def cp_load_def cp_await_def split: sum.split option.split)

lemma buttons_same [simp]:
  "cp_gone (handleRefresh s) = cp_gone s" "dialog_of (handleRefresh s) = dialog_of s"
  "cp_gone (handleUpdated s) = cp_gone s" "dialog_of (handleUpdated s) = dialog_of s"
  "cp_gone (handleToggleHideVersionCheck b s) = cp_gone s" "dialog_of (handleToggleHideVersionCheck b s) = dialog_of s"
  "cp_gone (confirmLogout s) = cp_gone s" "dialog_of (confirmLogout s) = dialog_of s"
  by (auto simp: handleRefresh_def handleUpdated_def handleToggleHideVersionCheck_def confirmLogout_def loadMiseVersion_def
      dialog_of_def on_view_def cp_load_def cp_await_def Let_def split: option.split)

lemma tab_same [simp]: "dialog_of (s\<lparr>cp_tab := t\<rparr>) = dialog_of s"
  by (simp add: dialog_of_def)




section \<open>The properties\<close>


text \<open>The page of a CLI that is installed and not logged in, its dialog opened.\<close>

definition demo_status :: "bool \<Rightarrow> claude_status" where
  "demo_status b = \<lparr>cs_installed = True, cs_auth = Some \<lparr>ca_loggedIn = b, ca_email = []\<rparr>, cs_authError = None\<rparr>"

definition demo_loaded :: claude_page where
  "demo_loaded = cp_render (load_answered (Inr (demo_status False, True)) (cp_answered 0 cp_mount))"

definition demo_not_onboarded :: claude_page where
  "demo_not_onboarded = cp_render (onboarding_answered 0 (Inr False) (cp_answered 0 demo_loaded))"

definition demo_opened :: claude_page where
  "demo_opened = cp_render (on_view (\<lambda>v. v\<lparr>iv_showInteractive := True\<rparr>) demo_not_onboarded)"





lemma version_fields [simp]:
  "cp_status (version_effect s) = cp_status s" "cp_tab (version_effect s) = cp_tab s" "cp_loadError (version_effect s) = cp_loadError s"
  "cp_authId (version_effect s) = cp_authId s" "cp_objects (version_effect s) = cp_objects s" "view_shown (version_effect s) = view_shown s"
  by (simp_all add: version_effect_def Let_def cp_await_def view_shown_def)

lemma render_view:
  assumes "view_shown s" "cp_view s = Some v" "cp_status s = Some st"
    and "reconcile_dialog (dialog_place st v) (iv_dialog v) = (d, gone)"
  obtains v' where "cp_view (cp_render s) = Some v'" "iv_dialog v' = d" "iv_onboarding v' = iv_onboarding v"
    "iv_showInteractive v' = iv_showInteractive v" "cp_gone (cp_render s) = cp_gone s @ gone"
    "cp_status (cp_render s) = Some st" "cp_tab (cp_render s) = cp_tab s" "cp_loadError (cp_render s) = cp_loadError s"
    "cp_objects (cp_render s) = cp_objects s" "iv_auth_deps v' = cp_authId s"
    "iv_auth_deps v \<noteq> cp_authId s \<longrightarrow> iv_run v' = Some (iv_runs v) \<and> Aw_Onboarding (iv_runs v) \<in> set (cp_awaits (cp_render s))"
proof (cases "iv_auth_deps v = cp_authId s")
  case True
  then have "cp_render s = (version_effect s)\<lparr>cp_view := Some (v\<lparr>iv_dialog := d\<rparr>), cp_gone := cp_gone s @ gone\<rparr>"
    using assms by (simp add: cp_render_def Let_def place_dialog_def onboarding_effect_def)
  then show ?thesis using that [of "v\<lparr>iv_dialog := d\<rparr>"] True assms(3) by simp
next
  case False
  let ?v = "v\<lparr>iv_dialog := d, iv_auth_deps := cp_authId s, iv_run := Some (iv_runs v), iv_runs := iv_runs v + 1\<rparr>"
  have "cp_render s = cp_await (Aw_Onboarding (iv_runs v)) ((version_effect s)\<lparr>cp_gone := cp_gone s @ gone, cp_view := Some ?v\<rparr>)"
    using False assms by (simp add: cp_render_def Let_def place_dialog_def onboarding_effect_def)
  then show ?thesis using that [of ?v] False assms(3) by (simp add: cp_await_def)
qed

text \<open>When the wizard is finished while the dialog is open, the reload of the status that the dialog itself asked for
replaces it by a new one at another place of the page, which asks for a second session; the timer that was
to close the dialog is lost, so it counts as open, and after the next logout it comes up by itself.\<close>

lemma completion_restarts_dialog:
  assumes "cp_view s = Some v" "iv_dialog v = Some (In_Panel 3, l)" "iv_onboarding v = Some False" "iv_showInteractive v"
    and "cp_tab s = Tab_Status" "cs_installed st" "cs_auth st = Some a" "ca_loggedIn a"
    and "cs_installed st'" "cs_auth st' = Some a'" "\<not> ca_loggedIn a'" "cs_authError st' = None"
    and "iv_auth_deps v = Some i" "i < cp_objects s"
  shows "let t = cp_render (load_answered (Inr (st, hide)) s);
        u = cp_render (onboarding_answered (iv_runs v) (Inr True) t);
        w = cp_render (load_answered (Inr (st', hide)) u)
    in dialog_of t = Some login_mount \<and> lg_awaits login_mount = [Await_Start 1] \<and>
       login_unmount l \<in> set (cp_gone t) \<and> \<not> lg_autoClose (login_unmount l) \<and> Aw_Onboarding (iv_runs v) \<in> set (cp_awaits t) \<and>
       dialog_of u = None \<and> dialog_of w = Some login_mount"
proof -
  let ?s = "load_answered (Inr (st, hide)) s"
  have "reconcile_dialog (dialog_place st v) (iv_dialog v) = (Some (In_Fragment, login_mount), [login_unmount l])"
    using assms by (simp add: dialog_place_def reconcile_dialog_def)
  moreover have "view_shown ?s" "cp_view ?s = Some v" "cp_status ?s = Some st"
    using assms by (simp_all add: view_shown_def load_answered_def)
  ultimately obtain v1 where t: "cp_view (cp_render ?s) = Some v1" "iv_dialog v1 = Some (In_Fragment, login_mount)"
    "iv_onboarding v1 = Some False" "iv_showInteractive v1" "cp_gone (cp_render ?s) = cp_gone s @ [login_unmount l]"
    "cp_status (cp_render ?s) = Some st" "cp_tab (cp_render ?s) = Tab_Status" "cp_loadError (cp_render ?s) = None"
    "iv_run v1 = Some (iv_runs v)" "Aw_Onboarding (iv_runs v) \<in> set (cp_awaits (cp_render ?s))"
    using assms by (elim render_view) (auto simp: load_answered_def)
  let ?t = "cp_render ?s"
  let ?o = "onboarding_answered (iv_runs v) (Inr True) ?t" and ?v1 = "v1\<lparr>iv_onboarding := Some True\<rparr>"
  have "reconcile_dialog (dialog_place st ?v1) (iv_dialog ?v1) = (None, [login_unmount login_mount])"
    using assms t by (simp add: dialog_place_def reconcile_dialog_def)
  moreover have "view_shown ?o" "cp_view ?o = Some ?v1" "cp_status ?o = Some st"
    using assms t by (simp_all add: view_shown_def onboarding_answered_def on_view_def)
  ultimately obtain v2 where u: "cp_view (cp_render ?o) = Some v2" "iv_dialog v2 = None" "iv_onboarding v2 = Some True"
    "iv_showInteractive v2" "cp_tab (cp_render ?o) = Tab_Status"
    using t by (elim render_view) (auto simp: onboarding_answered_def on_view_def)
  let ?u = "cp_render ?o"
  let ?w = "load_answered (Inr (st', hide)) ?u"
  have "reconcile_dialog (dialog_place st' v2) (iv_dialog v2) = (Some (In_Panel 2, login_mount), [])"
    using assms u by (simp add: dialog_place_def reconcile_dialog_def)
  moreover have "view_shown ?w" "cp_view ?w = Some v2" "cp_status ?w = Some st'"
    using assms u by (simp_all add: view_shown_def load_answered_def)
  ultimately obtain v3 where w: "cp_view (cp_render ?w) = Some v3" "iv_dialog v3 = Some (In_Panel 2, login_mount)"
    by (elim render_view) auto
  have "lg_awaits login_mount = [Await_Start 1]" by (simp add: login_mount_def startSession_def login_await_def clearReconnectTimer_def Let_def)
  moreover have "\<not> lg_autoClose (login_unmount l)" by (simp add: login_unmount_def Let_def)
  ultimately show ?thesis using t u w by (simp add: Let_def dialog_of_def)
qed

lemma demo_opened_is:
  "(case cp_view demo_opened of None \<Rightarrow> False | Some v \<Rightarrow>
     iv_dialog v = Some (In_Panel 3, login_mount) \<and> iv_onboarding v = Some False \<and> iv_showInteractive v \<and> iv_auth_deps v = Some 0) \<and>
   cp_tab demo_opened = Tab_Status \<and> 0 < cp_objects demo_opened"
  by code_simp

lemma demo_view: "\<exists>v. cp_view demo_opened = Some v"
  using demo_opened_is by (auto split: option.splits)

lemma completion_restarts_dialog_witness:
  "\<exists>v l. cp_view demo_opened = Some v \<and> iv_dialog v = Some (In_Panel 3, l) \<and>
    dialog_of (cp_render (load_answered (Inr (demo_status True, True)) demo_opened)) = Some login_mount \<and>
    login_unmount l \<in> set (cp_gone (cp_render (load_answered (Inr (demo_status True, True)) demo_opened)))"
proof -
  obtain v where v: "cp_view demo_opened = Some v" using demo_view by blast
  have d: "iv_dialog v = Some (In_Panel 3, login_mount)" "iv_onboarding v = Some False" "iv_showInteractive v" "iv_auth_deps v = Some 0"
    "cp_tab demo_opened = Tab_Status" "0 < cp_objects demo_opened"
    using demo_opened_is v by auto
  have st: "cs_installed (demo_status b)" "cs_auth (demo_status b) = Some \<lparr>ca_loggedIn = b, ca_email = []\<rparr>" "cs_authError (demo_status b) = None" for b
    by (simp_all add: demo_status_def)
  show ?thesis
    using completion_restarts_dialog [OF v d(1-3,5) st(1,2) _ st(1,2) _ st(3) d(4,6), of True False True] v d(1)
    by (simp add: Let_def)
qed

text \<open>An answer about the version that comes after the check was switched off is shown all the same.\<close>

lemma render_version: "cp_version_deps s = (case cp_status s of None \<Rightarrow> False | Some st \<Rightarrow> cs_installed st, cp_prefs s) \<Longrightarrow>
  cp_version (cp_render s) = cp_version s"
  by (auto simp: cp_render_def version_effect_def Let_def place_dialog_def onboarding_effect_def cp_await_def
      split: option.split prod.split)

lemma late_version_is_shown:
  assumes "cp_version_deps s = (case cp_status s of None \<Rightarrow> False | Some st \<Rightarrow> cs_installed st, cp_prefs s)" "cp_prefs s = Some (i, True)"
  shows "cp_version (cp_render (version_answered (Inr (Some v)) s)) = Some v"
  using assms by (simp add: version_answered_def render_version)

end
