(* ===== verification/Terminal_Themes.thy ===== *)
theory Terminal_Themes
  imports Api_Types "HOL-Library.AList"
begin

text \<open>
  The terminal's colour themes, \<open>components/Terminal/themes.ts\<close>: the ten built-in palettes and how a theme
  id is resolved. A \<open>Record<string, string>\<close> of colours is an association list in its insertion order.
\<close>

type_synonym colors = "(ustring \<times> ustring) list"

record terminal_theme =
  tt_id :: ustring
  tt_name :: ustring
  tt_colors :: colors

definition THEME_COLOR_KEYS :: "ustring list" where
  "THEME_COLOR_KEYS = map js
    [''background'', ''foreground'', ''cursor'', ''black'', ''red'', ''green'', ''yellow'', ''blue'', ''magenta'', ''cyan'', ''white'', 
     ''brightBlack'', ''brightRed'', ''brightGreen'', ''brightYellow'', ''brightBlue'', ''brightMagenta'', ''brightCyan'', ''brightWhite'']"

definition palette :: "string list \<Rightarrow> colors" where
  "palette hs = zip THEME_COLOR_KEYS (map js hs)"

definition DRACULA :: terminal_theme where
  "DRACULA = \<lparr>tt_id = js ''dracula'', tt_name = js ''Dracula'', tt_colors = palette
    [''#282a36'', ''#f8f8f2'', ''#f8f8f2'', ''#21222c'', ''#ff5555'', ''#50fa7b'', ''#f1fa8c'', ''#bd93f9'', ''#ff79c6'', ''#8be9fd'', ''#f8f8f2'',
     ''#6272a4'', ''#ff6e6e'', ''#69ff94'', ''#ffffa5'', ''#d6acff'', ''#ff92df'', ''#a4ffff'', ''#ffffff'']\<rparr>"

definition SOLARIZED_DARK :: terminal_theme where
  "SOLARIZED_DARK = \<lparr>tt_id = js ''solarized-dark'', tt_name = js ''Solarized Dark'', tt_colors = palette
    [''#002b36'', ''#839496'', ''#839496'', ''#073642'', ''#dc322f'', ''#859900'', ''#b58900'', ''#268bd2'', ''#d33682'', ''#2aa198'', ''#eee8d5'',
     ''#002b36'', ''#cb4b16'', ''#586e75'', ''#657b83'', ''#839496'', ''#6c71c4'', ''#93a1a1'', ''#fdf6e3'']\<rparr>"

definition SOLARIZED_LIGHT :: terminal_theme where
  "SOLARIZED_LIGHT = \<lparr>tt_id = js ''solarized-light'', tt_name = js ''Solarized Light'', tt_colors = palette
    [''#fdf6e3'', ''#657b83'', ''#657b83'', ''#073642'', ''#dc322f'', ''#859900'', ''#b58900'', ''#268bd2'', ''#d33682'', ''#2aa198'', ''#eee8d5'',
     ''#002b36'', ''#cb4b16'', ''#586e75'', ''#657b83'', ''#839496'', ''#6c71c4'', ''#93a1a1'', ''#fdf6e3'']\<rparr>"

definition MONOKAI :: terminal_theme where
  "MONOKAI = \<lparr>tt_id = js ''monokai'', tt_name = js ''Monokai'', tt_colors = palette
    [''#272822'', ''#f8f8f2'', ''#f8f8f0'', ''#272822'', ''#f92672'', ''#a6e22e'', ''#f4bf75'', ''#66d9ef'', ''#ae81ff'', ''#a1efe4'', ''#f8f8f2'',
     ''#75715e'', ''#f92672'', ''#a6e22e'', ''#f4bf75'', ''#66d9ef'', ''#ae81ff'', ''#a1efe4'', ''#f9f8f5'']\<rparr>"

definition NORD :: terminal_theme where
  "NORD = \<lparr>tt_id = js ''nord'', tt_name = js ''Nord'', tt_colors = palette
    [''#2e3440'', ''#d8dee9'', ''#d8dee9'', ''#3b4252'', ''#bf616a'', ''#a3be8c'', ''#ebcb8b'', ''#81a1c1'', ''#b48ead'', ''#88c0d0'', ''#e5e9f0'',
     ''#4c566a'', ''#bf616a'', ''#a3be8c'', ''#ebcb8b'', ''#81a1c1'', ''#b48ead'', ''#8fbcbb'', ''#eceff4'']\<rparr>"

definition GRUVBOX_DARK :: terminal_theme where
  "GRUVBOX_DARK = \<lparr>tt_id = js ''gruvbox-dark'', tt_name = js ''Gruvbox Dark'', tt_colors = palette
    [''#282828'', ''#ebdbb2'', ''#ebdbb2'', ''#282828'', ''#cc241d'', ''#98971a'', ''#d79921'', ''#458588'', ''#b16286'', ''#689d6a'', ''#a89984'',
     ''#928374'', ''#fb4934'', ''#b8bb26'', ''#fabd2f'', ''#83a598'', ''#d3869b'', ''#8ec07c'', ''#ebdbb2'']\<rparr>"

definition ONE_DARK :: terminal_theme where
  "ONE_DARK = \<lparr>tt_id = js ''one-dark'', tt_name = js ''One Dark'', tt_colors = palette
    [''#282c34'', ''#abb2bf'', ''#528bff'', ''#282c34'', ''#e06c75'', ''#98c379'', ''#e5c07b'', ''#61afef'', ''#c678dd'', ''#56b6c2'', ''#abb2bf'',
     ''#5c6370'', ''#e06c75'', ''#98c379'', ''#e5c07b'', ''#61afef'', ''#c678dd'', ''#56b6c2'', ''#ffffff'']\<rparr>"

definition TOMORROW_NIGHT :: terminal_theme where
  "TOMORROW_NIGHT = \<lparr>tt_id = js ''tomorrow-night'', tt_name = js ''Tomorrow Night'', tt_colors = palette
    [''#1d1f21'', ''#c5c8c6'', ''#c5c8c6'', ''#1d1f21'', ''#cc6666'', ''#b5bd68'', ''#f0c674'', ''#81a2be'', ''#b294bb'', ''#8abeb7'', ''#c5c8c6'',
     ''#969896'', ''#cc6666'', ''#b5bd68'', ''#f0c674'', ''#81a2be'', ''#b294bb'', ''#8abeb7'', ''#ffffff'']\<rparr>"

definition AYU_DARK :: terminal_theme where
  "AYU_DARK = \<lparr>tt_id = js ''ayu-dark'', tt_name = js ''Ayu Dark'', tt_colors = palette
    [''#0a0e14'', ''#b3b1ad'', ''#e6b450'', ''#01060e'', ''#ea6c73'', ''#91b362'', ''#f9af4f'', ''#53bdfa'', ''#fae994'', ''#90e1c6'', ''#c7c7c7'',
     ''#686868'', ''#f07178'', ''#c2d94c'', ''#ffb454'', ''#59c2ff'', ''#ffee99'', ''#95e6cb'', ''#ffffff'']\<rparr>"

definition GITHUB_LIGHT :: terminal_theme where
  "GITHUB_LIGHT = \<lparr>tt_id = js ''github-light'', tt_name = js ''GitHub Light'', tt_colors = palette
    [''#ffffff'', ''#24292e'', ''#24292e'', ''#24292e'', ''#d73a49'', ''#28a745'', ''#dbab09'', ''#0366d6'', ''#5a32a3'', ''#1b7c83'', ''#6a737d'',
     ''#959da5'', ''#cb2431'', ''#22863a'', ''#b08800'', ''#005cc5'', ''#5a32a3'', ''#3192aa'', ''#d1d5da'']\<rparr>"

definition BUILTIN_THEMES :: "terminal_theme list" where
  "BUILTIN_THEMES =
    [DRACULA, SOLARIZED_DARK, SOLARIZED_LIGHT, MONOKAI, NORD, GRUVBOX_DARK, ONE_DARK, TOMORROW_NIGHT, AYU_DARK, GITHUB_LIGHT]"

definition DEFAULT_THEME_ID :: ustring where
  "DEFAULT_THEME_ID = tt_id (hd BUILTIN_THEMES)"

definition findTheme :: "ustring \<Rightarrow> terminal_theme list \<Rightarrow> terminal_theme" where
  "findTheme themeId customThemes =
     (case find (\<lambda>t. tt_id t = themeId) BUILTIN_THEMES of
        Some t \<Rightarrow> t
      | None \<Rightarrow> (case find (\<lambda>t. tt_id t = themeId) customThemes of Some t \<Rightarrow> t | None \<Rightarrow> hd BUILTIN_THEMES))"

definition isBuiltinTheme :: "ustring \<Rightarrow> bool" where
  "isBuiltinTheme themeId \<longleftrightarrow> list_ex (\<lambda>t. tt_id t = themeId) BUILTIN_THEMES"

definition themeToXterm :: "terminal_theme \<Rightarrow> colors" where
  "themeToXterm t = tt_colors t"

section \<open>The palettes\<close>

text \<open>What an \<open><input type="color">\<close> can show: \<open>#\<close> and six hexadecimal digits.\<close>

definition color_value :: "ustring \<Rightarrow> bool" where
  "color_value s \<longleftrightarrow> length s = 7 \<and> take 1 s = js ''#'' \<and>
     list_all (\<lambda>u. 0x30 \<le> u \<and> u \<le> 0x39 \<or> 0x61 \<le> u \<and> u \<le> 0x66) (drop 1 s)"

text \<open>Every built-in theme names each editable colour once, with a value the colour inputs can show.\<close>

lemma builtin_palettes_complete:
  "list_all (\<lambda>t. map fst (tt_colors t) = THEME_COLOR_KEYS \<and> list_all color_value (map snd (tt_colors t))) BUILTIN_THEMES"
  by code_simp

lemma builtin_ids_distinct: "distinct (map tt_id BUILTIN_THEMES)"
  by code_simp

lemma THEME_COLOR_KEYS_distinct: "distinct THEME_COLOR_KEYS"
  by code_simp

lemma builtin_nonempty [simp]: "BUILTIN_THEMES \<noteq> []"
  by (simp add: BUILTIN_THEMES_def)

lemma default_is_builtin [simp]: "isBuiltinTheme DEFAULT_THEME_ID"
  by code_simp

section \<open>Looking a theme up\<close>

lemma isBuiltinTheme_iff: "isBuiltinTheme i \<longleftrightarrow> i \<in> tt_id ` set BUILTIN_THEMES"
  by (auto simp: isBuiltinTheme_def list_ex_iff)

text \<open>A known id gives the theme of that id, an unknown one the first built-in theme.\<close>

lemma findTheme_known:
  "isBuiltinTheme i \<or> i \<in> tt_id ` set cs \<Longrightarrow> tt_id (findTheme i cs) = i \<and> findTheme i cs \<in> set BUILTIN_THEMES \<union> set cs"
  by (auto simp: findTheme_def isBuiltinTheme_iff find_None_iff find_Some_iff split: option.split)

lemma findTheme_unknown:
  "\<lbrakk>\<not> isBuiltinTheme i; i \<notin> tt_id ` set cs\<rbrakk> \<Longrightarrow> findTheme i cs = hd BUILTIN_THEMES"
  by (auto simp: findTheme_def isBuiltinTheme_iff find_None_iff find_Some_iff split: option.split)

lemma findTheme_builtin: "isBuiltinTheme i \<Longrightarrow> findTheme i cs = findTheme i cs'"
  by (auto simp: findTheme_def isBuiltinTheme_iff find_None_iff split: option.split)

lemma findTheme_custom: "\<not> isBuiltinTheme i \<Longrightarrow>
    findTheme i cs = (case find (\<lambda>t. tt_id t = i) cs of Some t \<Rightarrow> t | None \<Rightarrow> hd BUILTIN_THEMES)"
  by (auto simp: findTheme_def isBuiltinTheme_iff find_Some_iff split: option.split)

lemma find_custom: "\<lbrakk>\<not> isBuiltinTheme (tt_id t); distinct (map tt_id cs); t \<in> set cs\<rbrakk> \<Longrightarrow> findTheme (tt_id t) cs = t"
proof -
  assume a: "\<not> isBuiltinTheme (tt_id t)" "distinct (map tt_id cs)" "t \<in> set cs"
  then have "find (\<lambda>u. tt_id u = tt_id t) cs = Some t"
    by (induction cs) auto
  then show ?thesis using a(1) by (simp add: findTheme_custom)
qed

end
