(* ===== verification/Terminal_Settings.thy ===== *)
theory Terminal_Settings
  imports Terminal_Themes Modifiers Escape_Codec Api_Client
begin

text \<open>
  The terminal's stored settings: how \<open>components/Terminal/Terminal.tsx\<close> loads and saves the one settings
  document, the panel \<open>TerminalSettingsPanel.tsx\<close> that edits it, the theme and the font the terminal shows.
  A save sends the whole document, built from what the page holds. The server's copy and the requests on
  their way are part of the state, so what an edit does to the stored document can be stated.
\<close>

section \<open>The document\<close>

text \<open>\<open>TerminalSettings\<close>\<close>

record terminal_settings =
  se_keybindings :: "key_binding list"
  se_themeId :: ustring
  se_customThemes :: "terminal_theme list"
  se_homeLabel :: ustring
  se_fontFamily :: ustring
  se_detachSequence :: ustring

definition EMPTY_SETTINGS :: terminal_settings where
  "EMPTY_SETTINGS = \<lparr>se_keybindings = [], se_themeId = DEFAULT_THEME_ID, se_customThemes = [],
     se_homeLabel = [], se_fontFamily = [], se_detachSequence = []\<rparr>"

definition effectiveSettings :: "terminal_settings option \<Rightarrow> terminal_settings" where
  "effectiveSettings settings =
     (let base = (case settings of Some d \<Rightarrow> d | None \<Rightarrow> EMPTY_SETTINGS)
      in \<lparr>se_keybindings = (if length (se_keybindings base) > 0 then se_keybindings base else DEFAULT_KEYBINDINGS),
          se_themeId = (if se_themeId base \<noteq> [] then se_themeId base else DEFAULT_THEME_ID),
          se_customThemes = se_customThemes base, se_homeLabel = se_homeLabel base,
          se_fontFamily = se_fontFamily base, se_detachSequence = se_detachSequence base\<rparr>)"

definition DEFAULT_MONO_STACK :: ustring where
  "DEFAULT_MONO_STACK = js ''ui-monospace, SFMono-Regular, Consolas, '' @ 39 # js ''Liberation Mono'' @ 39 # js '', monospace''"

definition resolveFontFamily :: "ustring \<Rightarrow> ustring" where
  "resolveFontFamily selected =
     (if selected \<noteq> [] then 39 # selected @ 39 # js '', '' @ DEFAULT_MONO_STACK else DEFAULT_MONO_STACK)"

section \<open>The page\<close>

text \<open>\<open>ThemeDraft\<close>; its colours are read by key.\<close>

record theme_draft =
  td_editingId :: "ustring option"
  td_name :: ustring
  td_colors :: colors

text \<open>
  A request: a read with what the server answered, a save with the document, the id of the theme it writes
  anew and whether the server has taken it, and a font file on its way for a run of the font effect.
\<close>

datatype settings_await =
    Aw_Read "terminal_settings option"
  | Aw_Save terminal_settings "ustring option" bool
  | Aw_Font nat ustring

record settings_page =
  tg_settings :: "terminal_settings option"
  tg_settingsError :: "api_error option"
  tg_saving :: bool
  tg_saveError :: "api_error option"
  tg_open :: bool                              \<comment> \<open>\<open>settingsOpen\<close>\<close>
  tg_bindings :: "key_binding list"            \<comment> \<open>\<open>draftKeybindings\<close>\<close>
  tg_detach :: ustring                         \<comment> \<open>\<open>draftDetachSequence\<close>\<close>
  tg_themeDraft :: "theme_draft option"
  tg_delete :: "terminal_theme option"         \<comment> \<open>\<open>confirmDeleteTheme\<close>\<close>
  tg_theme :: colors                           \<comment> \<open>\<open>term.options.theme\<close>\<close>
  tg_font :: ustring                           \<comment> \<open>\<open>term.options.fontFamily\<close>\<close>
  tg_fontReady :: bool
  tg_fontRun :: nat                            \<comment> \<open>runs of the font effect\<close>
  tg_server :: terminal_settings
  tg_awaits :: "settings_await list"

abbreviation effective :: "settings_page \<Rightarrow> terminal_settings" where
  "effective p \<equiv> effectiveSettings (tg_settings p)"

definition current_theme :: "terminal_settings \<Rightarrow> terminal_theme" where
  "current_theme d = findTheme (se_themeId d) (se_customThemes d)"

definition ask :: "settings_await \<Rightarrow> settings_page \<Rightarrow> settings_page" where
  "ask a p = p\<lparr>tg_awaits := tg_awaits p @ [a]\<rparr>"

subsection \<open>Effects\<close>

text \<open>The panel's effect on \<open>[open, settings]\<close>.\<close>

definition panel_effect :: "settings_page \<Rightarrow> settings_page" where
  "panel_effect p =
     (if tg_open p
      then p\<lparr>tg_bindings := se_keybindings (effective p), tg_detach := bytes_to_display (se_detachSequence (effective p)),
             tg_themeDraft := None\<rparr>
      else p)"

text \<open>
  Is \<open>currentTheme\<close> still the same object? \<open>fresh\<close>: the document was parsed from an answer, so its custom
  themes are new objects; \<open>written\<close>: the theme a draft was saved as is a new object.
\<close>

definition same_theme :: "bool \<Rightarrow> ustring option \<Rightarrow> terminal_settings \<Rightarrow> terminal_settings \<Rightarrow> bool" where
  "same_theme fresh written d d' \<longleftrightarrow> current_theme d = current_theme d' \<and>
     (isBuiltinTheme (tt_id (current_theme d')) \<or> \<not> fresh \<and> written \<noteq> Some (tt_id (current_theme d')))"

text \<open>\<open>apply\<close> of the font effect, and the effect on \<open>[settingsLoaded, fontFamily]\<close>.\<close>

definition font_applied :: "ustring \<Rightarrow> settings_page \<Rightarrow> settings_page" where
  "font_applied family p = p\<lparr>tg_font := resolveFontFamily family, tg_fontReady := True\<rparr>"

definition font_effect :: "settings_page \<Rightarrow> settings_page" where
  "font_effect p =
     (let family = se_fontFamily (effective p); p1 = p\<lparr>tg_fontRun := tg_fontRun p + 1\<rparr>
      in if family = [] then font_applied family p1 else ask (Aw_Font (tg_fontRun p1) family) p1)"

text \<open>\<open>setSettings\<close>, with the effects of the render it causes.\<close>

definition setSettings :: "bool \<Rightarrow> ustring option \<Rightarrow> terminal_settings \<Rightarrow> settings_page \<Rightarrow> settings_page" where
  "setSettings fresh written d p =
     (let p1 = panel_effect (p\<lparr>tg_settings := Some d\<rparr>);
          p2 = (if same_theme fresh written (effective p) (effective p1) then p1
                else p1\<lparr>tg_theme := themeToXterm (current_theme (effective p1))\<rparr>)
      in if tg_settings p = None \<or> se_fontFamily (effective p) \<noteq> se_fontFamily (effective p1) then font_effect p2 else p2)"

subsection \<open>Loading and saving\<close>

definition settings_mount :: "terminal_settings \<Rightarrow> settings_page" where
  "settings_mount server =
     \<lparr>tg_settings = None, tg_settingsError = None, tg_saving = False, tg_saveError = None, tg_open = False,
      tg_bindings = se_keybindings (effectiveSettings None), tg_detach = bytes_to_display (se_detachSequence (effectiveSettings None)),
      tg_themeDraft = None, tg_delete = None, tg_theme = themeToXterm (current_theme (effectiveSettings None)),
      tg_font = resolveFontFamily [], tg_fontReady = False, tg_fontRun = 0, tg_server = server, tg_awaits = [Aw_Read None]\<rparr>"

definition settings_loaded :: "api_error + terminal_settings \<Rightarrow> settings_page \<Rightarrow> settings_page" where
  "settings_loaded r p =
     (case r of
        Inr d \<Rightarrow> setSettings True None d p
      | Inl e \<Rightarrow> p\<lparr>tg_settingsError := Some e, tg_fontReady := True\<rparr>)"

definition saveSettings :: "ustring option \<Rightarrow> terminal_settings \<Rightarrow> settings_page \<Rightarrow> settings_page" where
  "saveSettings written next p = ask (Aw_Save next written False) (p\<lparr>tg_saving := True, tg_saveError := None\<rparr>)"

definition settings_saved :: "ustring option \<Rightarrow> terminal_settings \<Rightarrow> api_error option \<Rightarrow> settings_page \<Rightarrow> settings_page" where
  "settings_saved written next e p =
     (case e of
        None \<Rightarrow> setSettings False written next p
      | Some err \<Rightarrow> p\<lparr>tg_saveError := Some err\<rparr>)\<lparr>tg_saving := False\<rparr>"

text \<open>\<open>document.fonts.load\<close> settled, one way or the other: only the last run of the effect is not cancelled.\<close>

definition font_settled :: "nat \<Rightarrow> ustring \<Rightarrow> settings_page \<Rightarrow> settings_page" where
  "font_settled n family p = (if n = tg_fontRun p then font_applied family p else p)"

definition font_deadline :: "settings_page \<Rightarrow> settings_page" where
  "font_deadline p = p\<lparr>tg_fontReady := True\<rparr>"

definition renameHome :: "ustring \<Rightarrow> settings_page \<Rightarrow> settings_page" where
  "renameHome label p = saveSettings None ((effective p)\<lparr>se_homeLabel := label\<rparr>) p"

definition previewTheme :: "colors \<Rightarrow> settings_page \<Rightarrow> settings_page" where
  "previewTheme cs p = p\<lparr>tg_theme := cs\<rparr>"

definition setSettingsOpen :: "bool \<Rightarrow> settings_page \<Rightarrow> settings_page" where
  "setSettingsOpen b p = (if b = tg_open p then p else panel_effect (p\<lparr>tg_open := b\<rparr>))"

subsection \<open>The panel\<close>

definition updateBinding :: "ustring \<Rightarrow> (key_binding \<Rightarrow> key_binding) \<Rightarrow> settings_page \<Rightarrow> settings_page" where
  "updateBinding i patch p = p\<lparr>tg_bindings := map (\<lambda>b. if kb_id b = i then patch b else b) (tg_bindings p)\<rparr>"

definition set_label :: "ustring \<Rightarrow> key_binding \<Rightarrow> key_binding" where
  "set_label l b = b\<lparr>kb_label := l\<rparr>"

definition set_bytes :: "ustring \<Rightarrow> key_binding \<Rightarrow> key_binding" where
  "set_bytes display b = b\<lparr>kb_bytes := display_to_bytes display\<rparr>"

definition removeBinding :: "ustring \<Rightarrow> settings_page \<Rightarrow> settings_page" where
  "removeBinding i p = p\<lparr>tg_bindings := filter (\<lambda>b. kb_id b \<noteq> i) (tg_bindings p)\<rparr>"

definition NEW_KEY :: ustring where
  "NEW_KEY = [0xc0c8, 0x20, 0xd0a4]"

definition addBinding :: "ustring \<Rightarrow> settings_page \<Rightarrow> settings_page" where
  "addBinding newId p = p\<lparr>tg_bindings := tg_bindings p @ [\<lparr>kb_id = newId, kb_label = NEW_KEY, kb_bytes = []\<rparr>]\<rparr>"

definition saveKeybindings :: "settings_page \<Rightarrow> settings_page" where
  "saveKeybindings p = saveSettings None ((effective p)\<lparr>se_keybindings := tg_bindings p\<rparr>) p"

definition setDraftDetach :: "ustring \<Rightarrow> settings_page \<Rightarrow> settings_page" where
  "setDraftDetach s p = p\<lparr>tg_detach := s\<rparr>"

text \<open>The two offered sequences, Ctrl+] and Ctrl+P Ctrl+Q, as the field writes them.\<close>

definition DETACH_PRESETS :: "ustring list" where
  "DETACH_PRESETS = [92 # js ''x1d'', (92 # js ''x10'') @ (92 # js ''x11'')]"

definition saveDetachSequence :: "ustring \<Rightarrow> settings_page \<Rightarrow> settings_page" where
  "saveDetachSequence display p =
     saveSettings None ((effective p)\<lparr>se_detachSequence := display_to_bytes display\<rparr>) (p\<lparr>tg_detach := display\<rparr>)"

definition selectFontFamily :: "ustring \<Rightarrow> settings_page \<Rightarrow> settings_page" where
  "selectFontFamily family p = saveSettings None ((effective p)\<lparr>se_fontFamily := family\<rparr>) p"

definition selectTheme :: "ustring \<Rightarrow> settings_page \<Rightarrow> settings_page" where
  "selectTheme themeId p =
     saveSettings None ((effective p)\<lparr>se_themeId := themeId\<rparr>)
       (previewTheme (tt_colors (findTheme themeId (se_customThemes (effective p)))) p)"

text \<open>The editable colours of a theme, a missing one black.\<close>

definition COPY_SUFFIX :: ustring where
  "COPY_SUFFIX = [0x20, 0xc0ac, 0xbcf8]"

definition seedDraft :: "terminal_theme \<Rightarrow> ustring option \<Rightarrow> theme_draft" where
  "seedDraft t editingId =
     \<lparr>td_editingId = editingId,
      td_name = (if editingId \<noteq> None \<and> editingId \<noteq> Some [] then tt_name t else tt_name t @ COPY_SUFFIX),
      td_colors = map (\<lambda>k. (k, case map_of (tt_colors t) k of Some c \<Rightarrow> c | None \<Rightarrow> js ''#000000'')) THEME_COLOR_KEYS\<rparr>"

definition startDraft :: "theme_draft \<Rightarrow> settings_page \<Rightarrow> settings_page" where
  "startDraft d p = previewTheme (td_colors d) (p\<lparr>tg_themeDraft := Some d\<rparr>)"

definition startCreateTheme :: "settings_page \<Rightarrow> settings_page" where
  "startCreateTheme p = startDraft (seedDraft (current_theme (effective p)) None) p"

definition startEditTheme :: "terminal_theme \<Rightarrow> settings_page \<Rightarrow> settings_page" where
  "startEditTheme t p = startDraft (seedDraft t (Some (tt_id t))) p"

definition cancelThemeDraft :: "settings_page \<Rightarrow> settings_page" where
  "cancelThemeDraft p = previewTheme (tt_colors (current_theme (effective p))) (p\<lparr>tg_themeDraft := None\<rparr>)"

definition updateDraftColor :: "ustring \<Rightarrow> ustring \<Rightarrow> settings_page \<Rightarrow> settings_page" where
  "updateDraftColor key val p =
     (case tg_themeDraft p of
        None \<Rightarrow> p
      | Some d \<Rightarrow> startDraft (d\<lparr>td_colors := AList.update key val (td_colors d)\<rparr>) p)"

definition setDraftName :: "ustring \<Rightarrow> settings_page \<Rightarrow> settings_page" where
  "setDraftName n p = p\<lparr>tg_themeDraft := map_option (\<lambda>d. d\<lparr>td_name := n\<rparr>) (tg_themeDraft p)\<rparr>"

definition UNNAMED_THEME :: ustring where
  "UNNAMED_THEME = [0xc774, 0xb984, 0x20, 0xc5c6, 0xb294, 0x20, 0xd14c, 0xb9c8]"

definition saveThemeDraft :: "ustring \<Rightarrow> settings_page \<Rightarrow> settings_page" where
  "saveThemeDraft newId p =
     (case tg_themeDraft p of
        None \<Rightarrow> p
      | Some d \<Rightarrow>
          let i = (case td_editingId d of Some j \<Rightarrow> j | None \<Rightarrow> newId);
              saved = \<lparr>tt_id = i, tt_name = (if trim (td_name d) \<noteq> [] then trim (td_name d) else UNNAMED_THEME),
                       tt_colors = td_colors d\<rparr>;
              themes = se_customThemes (effective p);
              customThemes = (if td_editingId d \<noteq> None \<and> td_editingId d \<noteq> Some []
                              then map (\<lambda>t. if tt_id t = i then saved else t) themes else themes @ [saved])
          in saveSettings (Some i) ((effective p)\<lparr>se_customThemes := customThemes, se_themeId := i\<rparr>)
               (p\<lparr>tg_themeDraft := None\<rparr>))"

definition setConfirmDelete :: "terminal_theme option \<Rightarrow> settings_page \<Rightarrow> settings_page" where
  "setConfirmDelete t p = p\<lparr>tg_delete := t\<rparr>"

definition deleteTheme :: "ustring \<Rightarrow> settings_page \<Rightarrow> settings_page" where
  "deleteTheme themeId p =
     (let customThemes = filter (\<lambda>t. tt_id t \<noteq> themeId) (se_customThemes (effective p));
          selected = (se_themeId (effective p) = themeId);
          p1 = (if selected then previewTheme (tt_colors (hd BUILTIN_THEMES)) p else p)
      in (saveSettings None ((effective p)\<lparr>se_customThemes := customThemes,
             se_themeId := (if selected then tt_id (hd BUILTIN_THEMES) else se_themeId (effective p))\<rparr>) p1)\<lparr>tg_delete := None\<rparr>)"

section \<open>Steps\<close>

datatype settings_event =
    Server_Reads nat
  | Server_Saves nat
  | Settled nat "api_error option"
  | Font_Deadline
  | Open_Settings bool
  | Rename_Home ustring
  | Set_Label ustring ustring
  | Set_Bytes ustring ustring
  | Remove_Binding ustring
  | Add_Binding ustring
  | Save_Keybindings
  | Type_Detach ustring
  | Save_Detach ustring
  | Select_Font ustring
  | Select_Theme ustring
  | Create_Theme
  | Edit_Theme terminal_theme
  | Cancel_Theme
  | Draft_Color ustring ustring
  | Draft_Name ustring
  | Save_Theme ustring
  | Ask_Delete "terminal_theme option"
  | Delete_Theme

definition await_at :: "nat \<Rightarrow> settings_page \<Rightarrow> settings_await option" where
  "await_at n p = (if n < length (tg_awaits p) then Some (tg_awaits p ! n) else None)"

definition drop_await :: "nat \<Rightarrow> settings_page \<Rightarrow> settings_page" where
  "drop_await n p = p\<lparr>tg_awaits := take n (tg_awaits p) @ drop (Suc n) (tg_awaits p)\<rparr>"

text \<open>What the server does with a request, and the answer: it takes a save before it says so.\<close>

definition server_reads :: "nat \<Rightarrow> settings_page \<Rightarrow> settings_page" where
  "server_reads n p =
     (if await_at n p = Some (Aw_Read None) then p\<lparr>tg_awaits := (tg_awaits p)[n := Aw_Read (Some (tg_server p))]\<rparr> else p)"

definition server_saves :: "nat \<Rightarrow> settings_page \<Rightarrow> settings_page" where
  "server_saves n p =
     (case await_at n p of
        Some (Aw_Save d w False) \<Rightarrow> p\<lparr>tg_server := d, tg_awaits := (tg_awaits p)[n := Aw_Save d w True]\<rparr>
      | _ \<Rightarrow> p)"

definition settled :: "nat \<Rightarrow> api_error option \<Rightarrow> settings_page \<Rightarrow> settings_page" where
  "settled n e p =
     (case await_at n p of
        Some (Aw_Read r) \<Rightarrow>
          (case (e, r) of
             (Some err, _) \<Rightarrow> settings_loaded (Inl err) (drop_await n p)
           | (None, Some d) \<Rightarrow> settings_loaded (Inr d) (drop_await n p)
           | (None, None) \<Rightarrow> p)
      | Some (Aw_Save d w taken) \<Rightarrow> if taken \<or> e \<noteq> None then settings_saved w d e (drop_await n p) else p
      | Some (Aw_Font k f) \<Rightarrow> font_settled k f (drop_await n p)
      | None \<Rightarrow> p)"

text \<open>
  The panel's controls are there while it is open; a control lists what the settings hold, and the buttons
  that save drafts are disabled while a save is on its way.
\<close>

definition theme_offered :: "ustring \<Rightarrow> settings_page \<Rightarrow> bool" where
  "theme_offered i p \<longleftrightarrow> isBuiltinTheme i \<or> i \<in> tt_id ` set (se_customThemes (effective p))"

definition in_panel :: "bool \<Rightarrow> (settings_page \<Rightarrow> settings_page) \<Rightarrow> settings_page \<Rightarrow> settings_page" where
  "in_panel guard f p = (if tg_open p \<and> guard then f p else p)"

fun settings_step :: "settings_event \<Rightarrow> settings_page \<Rightarrow> settings_page" where
  "settings_step (Server_Reads n) p = server_reads n p"
| "settings_step (Server_Saves n) p = server_saves n p"
| "settings_step (Settled n e) p = settled n e p"
| "settings_step Font_Deadline p = font_deadline p"
| "settings_step (Open_Settings b) p = setSettingsOpen b p"
| "settings_step (Rename_Home l) p = renameHome l p"
| "settings_step (Set_Label i l) p = in_panel True (updateBinding i (set_label l)) p"
| "settings_step (Set_Bytes i d) p = in_panel True (updateBinding i (set_bytes d)) p"
| "settings_step (Remove_Binding i) p = in_panel True (removeBinding i) p"
| "settings_step (Add_Binding i) p = in_panel True (addBinding i) p"
| "settings_step Save_Keybindings p = in_panel (\<not> tg_saving p) saveKeybindings p"
| "settings_step (Type_Detach d) p = in_panel True (setDraftDetach d) p"
| "settings_step (Save_Detach d) p =
     in_panel (d \<in> set DETACH_PRESETS \<or> d = tg_detach p \<and> \<not> tg_saving p) (saveDetachSequence d) p"
| "settings_step (Select_Font f) p = in_panel True (selectFontFamily f) p"
| "settings_step (Select_Theme i) p = in_panel (theme_offered i p) (selectTheme i) p"
| "settings_step Create_Theme p = in_panel (tg_themeDraft p = None) startCreateTheme p"
| "settings_step (Edit_Theme t) p = in_panel (t \<in> set (se_customThemes (effective p))) (startEditTheme t) p"
| "settings_step Cancel_Theme p = in_panel (tg_themeDraft p \<noteq> None) cancelThemeDraft p"
| "settings_step (Draft_Color k v) p = in_panel (k \<in> set THEME_COLOR_KEYS) (updateDraftColor k v) p"
| "settings_step (Draft_Name n) p = in_panel True (setDraftName n) p"
| "settings_step (Save_Theme i) p = in_panel (\<not> tg_saving p) (saveThemeDraft i) p"
| "settings_step (Ask_Delete t) p =
     in_panel (case t of None \<Rightarrow> True | Some u \<Rightarrow> u \<in> set (se_customThemes (effective p))) (setConfirmDelete t) p"
| "settings_step Delete_Theme p =
     (case tg_delete p of None \<Rightarrow> p | Some t \<Rightarrow> in_panel True (deleteTheme (tt_id t)) p)"

definition settings_run :: "settings_event list \<Rightarrow> settings_page \<Rightarrow> settings_page" where
  "settings_run es p = fold settings_step es p"

end
