(* ===== verification/Project_Clone.thy ===== *)
theory Project_Clone
  imports Job_Poll Js_Number
begin

text \<open>
  Cloning a repository from the projects page, \<open>components/Projects/CloneProjectDialog.tsx\<close>: the folder name
  read off the URL, what the form accepts, and the job it starts and follows. The dialog stays mounted while
  it is closed, so an answer can arrive for a form that is gone.
\<close>

section \<open>Names\<close>

text \<open>How white space is decided when a concrete text is evaluated.\<close>

lemma js_space_code [code]:
  "js_space u \<longleftrightarrow>
     (if u < 0xa0 then u = 0x20 \<or> 0x09 \<le> u \<and> u \<le> 0x0d
      else u \<in> {0xa0, 0x1680, 0x2028, 0x2029, 0x202f, 0x205f, 0x3000, 0xfeff} \<or> 0x2000 \<le> u \<and> u \<le> 0x200a)"
  by (auto simp: js_space_def)

definition ascii_alnum :: "codeunit \<Rightarrow> bool" where
  "ascii_alnum u \<longleftrightarrow> 0x30 \<le> u \<and> u \<le> 0x39 \<or> 0x41 \<le> u \<and> u \<le> 0x5a \<or> 0x61 \<le> u \<and> u \<le> 0x7a"

definition CLONE_NAME_RE :: "ustring \<Rightarrow> bool" where
  "CLONE_NAME_RE s \<longleftrightarrow> (case s of [] \<Rightarrow> False
     | u # r \<Rightarrow> ascii_alnum u \<and> list_all (\<lambda>v. ascii_alnum v \<or> v \<in> {0x2e, 0x5f, 0x2d}) r)"

definition BRANCH_NAME_RE :: "ustring \<Rightarrow> bool" where
  "BRANCH_NAME_RE s \<longleftrightarrow> (case s of [] \<Rightarrow> False
     | u # r \<Rightarrow> ascii_alnum u \<and> list_all (\<lambda>v. ascii_alnum v \<or> v \<in> {0x2e, 0x5f, 0x2f, 0x2d}) r)"

definition isValidBranchName :: "ustring \<Rightarrow> bool" where
  "isValidBranchName name \<longleftrightarrow>
     BRANCH_NAME_RE name \<and> \<not> sublist (js ''..'') name \<and> \<not> sublist (js ''//'') name \<and> \<not> sublist [0x40, 0x7b] name \<and>
     \<not> ends_with name (js ''/'') \<and> \<not> ends_with name (js ''.'') \<and> \<not> ends_with name (js ''.lock'')"

text \<open>\<open>url.trim().replace(/\/+$/, '')\<close>, the last segment of a split at \<open>/\<close> and \<open>:\<close>, and \<open>replace(/\.git$/, '')\<close>.\<close>

definition strip_slashes :: "ustring \<Rightarrow> ustring" where
  "strip_slashes s = rev (dropWhile (\<lambda>u. u = 0x2f) (rev s))"

definition last_url_segment :: "ustring \<Rightarrow> ustring" where
  "last_url_segment s = rev (takeWhile (\<lambda>u. u \<notin> {0x2f, 0x3a}) (rev s))"

definition strip_git :: "ustring \<Rightarrow> ustring" where
  "strip_git s = (if ends_with s (js ''.git'') then slice_drop_end s 4 else s)"

definition deriveNameFromUrl :: "ustring \<Rightarrow> ustring" where
  "deriveNameFromUrl url =
     (let trimmed = strip_slashes (trim url)
      in if trimmed = [] then [] else strip_git (last_url_segment trimmed))"

section \<open>The dialog\<close>

record clone_body =
  cb_url :: ustring
  cb_name :: ustring
  cb_root :: "ustring option"
  cb_branch :: "ustring option"
  cb_recursive :: bool
  cb_depth :: "int option"

datatype form_error = Url_Missing | Name_Invalid | Branch_Invalid | Depth_Invalid | Request_Failed api_error

datatype clone_await =
    Aw_Clone
  | Aw_Progress nat ustring

record clone_dialog =
  cd_open :: bool
  cd_roots :: "ustring list"
  cd_url :: ustring
  cd_name :: ustring
  cd_nameEdited :: bool
  cd_branch :: ustring
  cd_recursive :: bool
  cd_depth :: ustring
  cd_root :: ustring
  cd_formError :: "form_error option"
  cd_submitting :: bool
  cd_job :: "job option"
  cd_notified :: bool
  cd_run :: "(nat \<times> ustring) option"       \<comment> \<open>the polling effect in force and the job it asks about\<close>
  cd_runs :: nat
  cd_awaits :: "clone_await list"
  cd_sent :: "(ustring list \<times> clone_body) list"   \<comment> \<open>requests, with the roots offered when they were sent\<close>
  cd_refreshes :: nat                      \<comment> \<open>calls of \<open>onCloned\<close>\<close>

definition first_root :: "ustring list \<Rightarrow> ustring" where
  "first_root roots = (case roots of [] \<Rightarrow> [] | r # rs \<Rightarrow> r)"

definition clone_mount :: "ustring list \<Rightarrow> clone_dialog" where
  "clone_mount roots =
     \<lparr>cd_open = False, cd_roots = roots, cd_url = [], cd_name = [], cd_nameEdited = False, cd_branch = [],
      cd_recursive = False, cd_depth = [], cd_root = first_root roots, cd_formError = None, cd_submitting = False,
      cd_job = None, cd_notified = False, cd_run = None, cd_runs = 0, cd_awaits = [], cd_sent = [], cd_refreshes = 0\<rparr>"

text \<open>
  \<open>setJob\<close> with a new object: the effect on \<open>[job]\<close> starts over, and the one on \<open>job.status\<close> tells the page
  once about a clone that succeeded.
\<close>

definition notify_effect :: "clone_dialog \<Rightarrow> clone_dialog" where
  "notify_effect c =
     (if job_succeeded (cd_job c) \<and> \<not> cd_notified c
      then c\<lparr>cd_notified := True, cd_refreshes := cd_refreshes c + 1\<rparr> else c)"

definition set_job :: "job option \<Rightarrow> clone_dialog \<Rightarrow> clone_dialog" where
  "set_job j c =
     notify_effect (case j of
        Some (i, st) \<Rightarrow>
          if job_busy j then c\<lparr>cd_job := j, cd_run := Some (cd_runs c, i), cd_runs := cd_runs c + 1\<rparr>
          else c\<lparr>cd_job := j, cd_run := None\<rparr>
      | None \<Rightarrow> c\<lparr>cd_job := None, cd_run := None\<rparr>)"

definition clone_reset :: "clone_dialog \<Rightarrow> clone_dialog" where
  "clone_reset c =
     (set_job None (c\<lparr>cd_url := [], cd_name := [], cd_nameEdited := False, cd_branch := [], cd_recursive := False,
        cd_depth := [], cd_root := first_root (cd_roots c), cd_formError := None, cd_submitting := False\<rparr>))\<lparr>cd_notified := False\<rparr>"

definition handleUrlChange :: "ustring \<Rightarrow> clone_dialog \<Rightarrow> clone_dialog" where
  "handleUrlChange v c =
     (if cd_nameEdited c then c\<lparr>cd_url := v\<rparr> else c\<lparr>cd_url := v, cd_name := deriveNameFromUrl v\<rparr>)"

definition handleNameChange :: "ustring \<Rightarrow> clone_dialog \<Rightarrow> clone_dialog" where
  "handleNameChange v c = c\<lparr>cd_name := v, cd_nameEdited := True\<rparr>"

text \<open>The effect on \<open>[open, roots]\<close>.\<close>

definition root_effect :: "clone_dialog \<Rightarrow> clone_dialog" where
  "root_effect c =
     (if \<not> cd_open c then c
      else c\<lparr>cd_root := (if cd_root c \<noteq> [] \<and> cd_root c \<in> set (cd_roots c) then cd_root c else first_root (cd_roots c))\<rparr>)"

definition set_roots :: "ustring list \<Rightarrow> clone_dialog \<Rightarrow> clone_dialog" where
  "set_roots roots c = root_effect (c\<lparr>cd_roots := roots\<rparr>)"

definition open_dialog :: "clone_dialog \<Rightarrow> clone_dialog" where
  "open_dialog c = (if cd_open c then c else root_effect (c\<lparr>cd_open := True\<rparr>))"

definition select_root :: "ustring \<Rightarrow> clone_dialog \<Rightarrow> clone_dialog" where
  "select_root r c = (if r \<in> set (cd_roots c) then c\<lparr>cd_root := r\<rparr> else c)"

section \<open>Submitting\<close>

definition depth_value :: "ustring \<Rightarrow> int option" where
  "depth_value s =
     (case js_Number s of
        Finite x \<Rightarrow> if snd (quotient_of x) = 1 \<and> fst (quotient_of x) \<ge> 1 then Some (fst (quotient_of x)) else None
      | _ \<Rightarrow> None)"

definition clone_body_of :: "clone_dialog \<Rightarrow> form_error + clone_body" where
  "clone_body_of c =
     (let trimmedUrl = trim (cd_url c); trimmedBranch = trim (cd_branch c); trimmedDepth = trim (cd_depth c)
      in if trimmedUrl = [] then Inl Url_Missing
         else if cd_name c = [] \<or> \<not> CLONE_NAME_RE (cd_name c) then Inl Name_Invalid
         else if trimmedBranch \<noteq> [] \<and> \<not> isValidBranchName trimmedBranch then Inl Branch_Invalid
         else if trimmedDepth \<noteq> [] \<and> depth_value trimmedDepth = None then Inl Depth_Invalid
         else Inr \<lparr>cb_url = trimmedUrl, cb_name = cd_name c,
                   cb_root = (if length (cd_roots c) > 1 then Some (cd_root c) else None),
                   cb_branch = (if trimmedBranch \<noteq> [] then Some trimmedBranch else None),
                   cb_recursive = cd_recursive c,
                   cb_depth = (if trimmedDepth \<noteq> [] then depth_value trimmedDepth else None)\<rparr>)"

text \<open>The form is there while no job is; its button is disabled while a request is on its way.\<close>

definition submit_clone :: "clone_dialog \<Rightarrow> clone_dialog" where
  "submit_clone c =
     (if cd_submitting c \<or> trim (cd_url c) = [] \<or> cd_name c = [] then c
      else case clone_body_of c of
        Inl e \<Rightarrow> c\<lparr>cd_formError := Some e\<rparr>
      | Inr b \<Rightarrow> c\<lparr>cd_submitting := True, cd_formError := None, cd_awaits := cd_awaits c @ [Aw_Clone],
                   cd_sent := cd_sent c @ [(cd_roots c, b)]\<rparr>)"

definition clone_posted :: "api_error + ustring \<Rightarrow> clone_dialog \<Rightarrow> clone_dialog" where
  "clone_posted r c =
     (case r of
        Inr i \<Rightarrow> set_job (Some (i, None)) c
      | Inl e \<Rightarrow> c\<lparr>cd_formError := Some (Request_Failed e)\<rparr>)\<lparr>cd_submitting := False\<rparr>"

definition clone_tick :: "clone_dialog \<Rightarrow> clone_dialog" where
  "clone_tick c = (case cd_run c of None \<Rightarrow> c | Some (n, i) \<Rightarrow> c\<lparr>cd_awaits := cd_awaits c @ [Aw_Progress n i]\<rparr>)"

definition clone_polled :: "nat \<Rightarrow> ustring \<Rightarrow> api_error + mise_job_status \<Rightarrow> clone_dialog \<Rightarrow> clone_dialog" where
  "clone_polled n i r c =
     (case r of
        Inr st \<Rightarrow> if cd_run c = Some (n, i) then set_job (job_polled i st (cd_job c)) c else c
      | Inl e \<Rightarrow> c)"

definition handleDialogClose :: "clone_dialog \<Rightarrow> clone_dialog" where
  "handleDialogClose c = (clone_reset c)\<lparr>cd_open := False\<rparr>"

section \<open>Steps\<close>

datatype clone_event =
    Open_Clone
  | Close_Clone
  | New_Roots "ustring list"
  | Type_Url ustring
  | Type_Name ustring
  | Type_Branch ustring
  | Type_Depth ustring
  | Set_Recursive bool
  | Pick_Root ustring
  | Submit_Clone
  | Clone_Tick
  | Clone_Answer nat "api_error + ustring"
  | Progress_Answer nat "api_error + mise_job_status"

definition in_form :: "(clone_dialog \<Rightarrow> clone_dialog) \<Rightarrow> clone_dialog \<Rightarrow> clone_dialog" where
  "in_form f c = (if cd_open c \<and> cd_job c = None then f c else c)"

definition clone_await_at :: "nat \<Rightarrow> clone_dialog \<Rightarrow> clone_await option" where
  "clone_await_at k c = (if k < length (cd_awaits c) then Some (cd_awaits c ! k) else None)"

definition clone_answered :: "nat \<Rightarrow> clone_dialog \<Rightarrow> clone_dialog" where
  "clone_answered k c = c\<lparr>cd_awaits := take k (cd_awaits c) @ drop (Suc k) (cd_awaits c)\<rparr>"

fun clone_step :: "clone_event \<Rightarrow> clone_dialog \<Rightarrow> clone_dialog" where
  "clone_step Open_Clone c = open_dialog c"
| "clone_step Close_Clone c = (if cd_open c then handleDialogClose c else c)"
| "clone_step (New_Roots rs) c = set_roots rs c"
| "clone_step (Type_Url v) c = in_form (handleUrlChange v) c"
| "clone_step (Type_Name v) c = in_form (handleNameChange v) c"
| "clone_step (Type_Branch v) c = in_form (\<lambda>c. c\<lparr>cd_branch := v\<rparr>) c"
| "clone_step (Type_Depth v) c = in_form (\<lambda>c. c\<lparr>cd_depth := v\<rparr>) c"
| "clone_step (Set_Recursive b) c = in_form (\<lambda>c. c\<lparr>cd_recursive := b\<rparr>) c"
| "clone_step (Pick_Root r) c = in_form (select_root r) c"
| "clone_step Submit_Clone c = in_form submit_clone c"
| "clone_step Clone_Tick c = clone_tick c"
| "clone_step (Clone_Answer k r) c =
     (if clone_await_at k c = Some Aw_Clone then clone_posted r (clone_answered k c) else c)"
| "clone_step (Progress_Answer k r) c =
     (case clone_await_at k c of Some (Aw_Progress n i) \<Rightarrow> clone_polled n i r (clone_answered k c) | _ \<Rightarrow> c)"

definition clone_run :: "clone_event list \<Rightarrow> clone_dialog \<Rightarrow> clone_dialog" where
  "clone_run es c = fold clone_step es c"

section \<open>What is sent\<close>

text \<open>
  A folder name: one segment that is neither hidden nor an option. A branch: characters git allows in a ref,
  no empty or doubled part, no \<open>..\<close>, no at sign before a brace, nothing that reads as an option or a lock file.
\<close>

definition folder_name :: "ustring \<Rightarrow> bool" where
  "folder_name s \<longleftrightarrow> s \<noteq> [] \<and> 0x2f \<notin> set s \<and> hd s \<noteq> 0x2e \<and> hd s \<noteq> 0x2d \<and> list_all (\<lambda>u. 0x20 < u \<and> u < 0x7f) s"

definition branch_name :: "ustring \<Rightarrow> bool" where
  "branch_name s \<longleftrightarrow> s \<noteq> [] \<and> hd s \<noteq> 0x2d \<and> [] \<notin> set (split_on 0x2f s) \<and>
     \<not> sublist (js ''..'') s \<and> \<not> sublist [0x40, 0x7b] s \<and> \<not> suffix (js ''.lock'') s \<and>
     list_all (\<lambda>u. 0x20 < u \<and> u < 0x7f \<and> u \<notin> set (js ''~^:?*['')) s"

definition body_ok :: "ustring list \<times> clone_body \<Rightarrow> bool" where
  "body_ok rb \<longleftrightarrow> (case rb of (roots, b) \<Rightarrow>
     cb_url b \<noteq> [] \<and> folder_name (cb_name b) \<and>
     (case cb_root b of None \<Rightarrow> length roots \<le> 1 | Some r \<Rightarrow> r \<in> set roots) \<and>
     (case cb_branch b of None \<Rightarrow> True | Some s \<Rightarrow> branch_name s) \<and>
     (case cb_depth b of None \<Rightarrow> True | Some d \<Rightarrow> 1 \<le> d))"








section \<open>The job\<close>

text \<open>The effect runs exactly while the job is not over, and a clone that succeeded has been reported.\<close>

definition run_ok :: "(nat \<times> ustring) option \<Rightarrow> nat \<Rightarrow> job option \<Rightarrow> bool" where
  "run_ok r k j \<longleftrightarrow>
     (case r of None \<Rightarrow> \<not> job_busy j | Some (n, i) \<Rightarrow> job_busy j \<and> map_option fst j = Some i \<and> n < k)"

definition clone_inv :: "clone_dialog \<Rightarrow> bool" where
  "clone_inv c \<longleftrightarrow>
     list_all body_ok (cd_sent c) \<and>
     (cd_open c \<longrightarrow> cd_roots c = [] \<or> cd_root c \<in> set (cd_roots c)) \<and>
     run_ok (cd_run c) (cd_runs c) (cd_job c) \<and>
     (job_succeeded (cd_job c) \<longrightarrow> cd_notified c) \<and> (cd_notified c \<longrightarrow> cd_job c \<noteq> None)"


lemma clone_notify_fields [simp]:
  "cd_sent (notify_effect c) = cd_sent c" "cd_open (notify_effect c) = cd_open c" "cd_roots (notify_effect c) = cd_roots c"
  "cd_root (notify_effect c) = cd_root c" "cd_run (notify_effect c) = cd_run c" "cd_runs (notify_effect c) = cd_runs c"
  "cd_job (notify_effect c) = cd_job c" "cd_notified (notify_effect c) \<longleftrightarrow> job_succeeded (cd_job c) \<or> cd_notified c"
  by (auto simp: notify_effect_def)

lemma set_job_fields [simp]:
  "cd_sent (set_job j c) = cd_sent c" "cd_open (set_job j c) = cd_open c" "cd_roots (set_job j c) = cd_roots c"
  "cd_root (set_job j c) = cd_root c" "cd_job (set_job j c) = j"
  "cd_notified (set_job j c) \<longleftrightarrow> job_succeeded j \<or> cd_notified c"
  by (cases j; auto simp: set_job_def split: prod.splits)+

lemma no_job [simp]: "\<not> job_succeeded None" "\<not> job_busy None"
  by (simp_all add: job_succeeded_def job_busy_def)

lemma set_job_run [simp]: "run_ok (cd_run (set_job j c)) (cd_runs (set_job j c)) j"
  by (cases j) (auto simp: set_job_def run_ok_def)





lemma clone_inv_updates [simp]:
  "clone_inv (c\<lparr>cd_submitting := b\<rparr>) = clone_inv c" "clone_inv (c\<lparr>cd_formError := x\<rparr>) = clone_inv c"
  by (simp_all add: clone_inv_def)






section \<open>Names read off a URL\<close>

lemma dropWhile_none: "\<lbrakk>xs \<noteq> []; \<not> P (hd xs)\<rbrakk> \<Longrightarrow> dropWhile P xs = xs"
  by (cases xs) auto

lemma trim_id: "\<lbrakk>s \<noteq> []; \<not> js_space (hd s); \<not> js_space (last s)\<rbrakk> \<Longrightarrow> trim s = s"
  by (simp add: trim_def dropWhile_none hd_rev)

lemma strip_slashes_replicate: "\<lbrakk>s \<noteq> []; last s \<noteq> 0x2f\<rbrakk> \<Longrightarrow> strip_slashes (s @ replicate k 0x2f) = s"
  by (simp add: strip_slashes_def dropWhile_append dropWhile_none hd_rev)

lemma last_segment_append: "\<lbrakk>set n \<inter> {0x2f, 0x3a} = {}; c \<in> {0x2f, 0x3a}\<rbrakk> \<Longrightarrow> last_url_segment (p @ c # n) = n"
proof -
  assume n: "set n \<inter> {0x2f, 0x3a} = {}" and c: "c \<in> {0x2f, 0x3a}"
  have "takeWhile (\<lambda>u. u \<notin> {0x2f, 0x3a}) (rev n @ c # rev p) = rev n @ takeWhile (\<lambda>u. u \<notin> {0x2f, 0x3a}) (c # rev p)"
    using n by (intro takeWhile_append2) auto
  also have "\<dots> = rev n" using c by simp
  finally show ?thesis by (simp add: last_url_segment_def)
qed

lemma clone_name_chars: "\<lbrakk>CLONE_NAME_RE n; u \<in> set n\<rbrakk> \<Longrightarrow> u \<notin> {0x2f, 0x3a} \<and> \<not> js_space u"
  by (cases n) (auto simp: CLONE_NAME_RE_def list_all_iff js_space_def ascii_alnum_def)

text \<open>The folder of a usual URL, with or without \<open>.git\<close> and trailing slashes, is read off it and accepted.\<close>

lemma derived_name:
  assumes n: "CLONE_NAME_RE n" "\<not> suffix (js ''.git'') n" and c: "c \<in> {0x2f, 0x3a}"
    and p: "p = [] \<or> \<not> js_space (hd p)" and g: "g = [] \<or> g = js ''.git''"
  shows "deriveNameFromUrl (p @ c # n @ g @ replicate k 0x2f) = n"
proof -
  let ?s = "p @ c # n @ g"
  have chars: "u \<notin> {0x2f, 0x3a} \<and> \<not> js_space u" if "u \<in> set (n @ g)" for u
    using that g clone_name_chars [OF n(1)] by (auto simp: js_Cons js_space_def)
  have ne: "n @ g \<noteq> []" using n(1) by (auto simp: CLONE_NAME_RE_def)
  then have "last ?s \<in> set (n @ g)" by (metis append_is_Nil_conv last_ConsR last_appendR last_in_set list.distinct(1))
  then have l: "last ?s \<noteq> 0x2f" "\<not> js_space (last ?s)" using chars by auto
  have "\<not> js_space (last (?s @ replicate k 0x2f))" using l by (cases k) (auto simp: js_space_def last_append)
  moreover have "\<not> js_space (hd (?s @ replicate k 0x2f))" using p c by (cases p) (auto simp: js_space_def)
  ultimately have "trim (?s @ replicate k 0x2f) = ?s @ replicate k 0x2f" by (intro trim_id) simp_all
  moreover have "strip_slashes (?s @ replicate k 0x2f) = ?s" using l by (intro strip_slashes_replicate) simp_all
  moreover have "last_url_segment ?s = n @ g" using chars c by (intro last_segment_append) auto
  moreover have "strip_git (n @ g) = n"
    using g n(2) by (auto simp: strip_git_def ends_with_def slice_drop_end_def suffix_def js_Cons)
  ultimately show ?thesis by (simp add: deriveNameFromUrl_def)
qed

section \<open>Forms that are gone\<close>

text \<open>
  A clone whose request is still on its way when the dialog is closed comes back: its job is shown where the
  next form should be. And when a second clone is sent meanwhile its end is never reported.
\<close>

lemma closed_clone_comes_back:
  assumes "cd_open c" "cd_job c = None" "\<not> cd_submitting c" "clone_body_of c = Inr b" "cd_awaits c = []"
  shows "cd_job (clone_run [Submit_Clone, Close_Clone, Open_Clone, Clone_Answer 0 (Inr i)] c) = Some (i, None)"
  using assms
  by (auto simp: clone_run_def in_form_def submit_clone_def handleDialogClose_def clone_reset_def open_dialog_def
      clone_await_at_def clone_posted_def clone_body_of_def Let_def set_job_def notify_effect_def root_effect_def job_succeeded_def
      clone_answered_def split: if_splits)

definition two_clones :: "clone_event list" where
  "two_clones =
     (let form = [Open_Clone, Type_Url (js ''h:a''), Submit_Clone]; done = \<lparr>js_running = False, js_exitCode = Some 0, js_lines = []\<rparr>
      in form @ [Close_Clone] @ form @
         [Clone_Answer 0 (Inr (js ''1'')), Clone_Tick, Progress_Answer 1 (Inr done),
          Clone_Answer 0 (Inr (js ''2'')), Clone_Tick, Progress_Answer 0 (Inr done)])"

lemma second_clone_is_not_reported:
  "let c = clone_run two_clones (clone_mount [js ''/p''])
   in job_succeeded (cd_job c) \<and> map_option fst (cd_job c) = Some (js ''2'') \<and> cd_refreshes c = 1 \<and> length (cd_sent c) = 2"
  by code_simp

text \<open>A part that git refuses, one that starts with a dot, passes the check of the branch name.\<close>

lemma hidden_branch_part_passes: "isValidBranchName (js ''a/.b'') \<and> isValidBranchName (js ''a.lock/b'')"
  by code_simp

end
