(* ===== verification/Control_Bar.thy ===== *)
theory Control_Bar
  imports Modifiers Device_Prefs
begin

text \<open>
  The control bar under the terminal and the on-screen keyboard (\<open>components/Terminal/Terminal.tsx\<close>,
  \<open>TerminalControls.tsx\<close>): the modifier that waits for the next bytes, and which calls move the focus. On a
  touch device focusing a text field opens the keyboard, so every such call is recorded with its cause.
\<close>

section \<open>State\<close>

text \<open>\<open>document.activeElement\<close>: the input field that stands in for xterm's textarea, that textarea, or another.\<close>

datatype focus_target = On_Field | On_Textarea | Elsewhere

datatype focus_cause =
    By_Button            \<comment> \<open>\<open>openKeyboard\<close>\<close>
  | Kept                 \<comment> \<open>\<open>keepFocus\<close>\<close>
  | By_Terminal          \<comment> \<open>xterm's own \<open>focus()\<close>: a tap, a message of the editor\<close>
  | By_Browser           \<comment> \<open>the Tab key and the like\<close>
  | Word_Boundary        \<comment> \<open>\<open>scheduleRefocus\<close>\<close>

text \<open>A focus that stays: where it went, why, and the bar, the inset and the focus just before.\<close>

record focus_move =
  fm_to :: focus_target
  fm_cause :: focus_cause
  fm_bar :: bool
  fm_inset :: int
  fm_from :: focus_target

record keyboard =
  kb_touch :: bool                     \<comment> \<open>\<open>isTouchDevice\<close>\<close>
  kb_mode :: input_mode
  kb_bar :: bool                       \<comment> \<open>\<open>controlBarEnabledRef\<close>\<close>
  kb_inset :: int                      \<comment> \<open>\<open>keyboardInsetRef\<close>\<close>
  kb_now :: nat
  kb_suppressUntil :: nat              \<comment> \<open>\<open>suppressFocusUntilRef\<close>\<close>
  kb_active :: focus_target
  kb_moves :: "focus_move list"
  kb_armed :: "modifier_id option"
  kb_armedRef :: "modifier_id option"
  kb_open :: bool                      \<comment> \<open>the socket is open\<close>
  kb_sent :: "ustring list"

definition KEYBOARD_OPEN_MIN_INSET :: int where
  "KEYBOARD_OPEN_MIN_INSET = 80"

definition useField :: "keyboard \<Rightarrow> bool" where
  "useField s \<longleftrightarrow> kb_touch s \<and> kb_mode s \<noteq> Native"

text \<open>\<open>mobileInputRef.current ?? termRef.current?.textarea\<close>\<close>

definition focus_field :: "keyboard \<Rightarrow> focus_target" where
  "focus_field s = (if useField s then On_Field else On_Textarea)"

section \<open>Focus\<close>

definition focus_settles :: "focus_target \<Rightarrow> focus_cause \<Rightarrow> focus_target \<Rightarrow> keyboard \<Rightarrow> keyboard" where
  "focus_settles t c before s =
     s\<lparr>kb_active := t, kb_moves := kb_moves s @ [\<lparr>fm_to = t, fm_cause = c, fm_bar = kb_bar s, fm_inset = kb_inset s, fm_from = before\<rparr>]\<rparr>"

text \<open>The listener on xterm's textarea while the field exists; \<open>before\<close> is the event's \<open>relatedTarget\<close>.\<close>

definition onTextareaFocus :: "focus_cause \<Rightarrow> focus_target \<Rightarrow> keyboard \<Rightarrow> keyboard" where
  "onTextareaFocus c before s =
     (if before = On_Field then focus_settles On_Field c before s
      else if kb_now s < kb_suppressUntil s then s\<lparr>kb_active := Elsewhere\<rparr>
      else if kb_bar s then s\<lparr>kb_active := Elsewhere\<rparr>
      else focus_settles On_Field c before s)"

text \<open>\<open>HTMLElement.prototype.focus\<close> of the textarea: the listener hears it unless it had the focus.\<close>

definition native_focus :: "focus_cause \<Rightarrow> keyboard \<Rightarrow> keyboard" where
  "native_focus c s =
     (if useField s \<and> kb_active s \<noteq> On_Textarea then onTextareaFocus c (kb_active s) s
      else focus_settles On_Textarea c (kb_active s) s)"

text \<open>\<open>textarea.focus()\<close>, shadowed on a touch device.\<close>

definition textarea_focus :: "focus_cause \<Rightarrow> keyboard \<Rightarrow> keyboard" where
  "textarea_focus c s = (if kb_touch s \<and> kb_bar s then s else native_focus c s)"

definition keepFocus :: "keyboard \<Rightarrow> keyboard" where
  "keepFocus s =
     (if kb_active s \<noteq> focus_field s then s
      else if kb_inset s < KEYBOARD_OPEN_MIN_INSET then s
      else if useField s then focus_settles On_Field Kept (kb_active s) s else textarea_focus Kept s)"




section \<open>Modifiers and bytes\<close>

definition sendBytes :: "ustring \<Rightarrow> keyboard \<Rightarrow> keyboard" where
  "sendBytes bytes s =
     (if bytes = [] then s
      else let out = (case kb_armedRef s of Some m \<Rightarrow> applyModifier m bytes | None \<Rightarrow> bytes);
               s1 = (if kb_armedRef s \<noteq> None then s\<lparr>kb_armedRef := None, kb_armed := None\<rparr> else s);
               s2 = (if kb_open s1 then s1\<lparr>kb_sent := kb_sent s1 @ [out]\<rparr> else s1)
           in keepFocus s2)"

definition armModifier :: "modifier_id \<Rightarrow> keyboard \<Rightarrow> keyboard" where
  "armModifier m s =
     (let next = (if kb_armed s = Some m then None else Some m)
      in keepFocus (s\<lparr>kb_armed := next, kb_armedRef := next\<rparr>))"






section \<open>Steps\<close>





section \<open>The keyboard opens from its button\<close>



lemma focus_settles_fields [simp]:
  "kb_touch (focus_settles t c b s) = kb_touch s" "useField (focus_settles t c b s) = useField s" "kb_active (focus_settles t c b s) = t"
  "kb_armed (focus_settles t c b s) = kb_armed s" "kb_armedRef (focus_settles t c b s) = kb_armedRef s" "kb_sent (focus_settles t c b s) = kb_sent s"
  "kb_moves (focus_settles t c b s) = kb_moves s @ [\<lparr>fm_to = t, fm_cause = c, fm_bar = kb_bar s, fm_inset = kb_inset s, fm_from = b\<rparr>]"
  "kb_open (focus_settles t c b s) = kb_open s"
  by (simp_all add: focus_settles_def useField_def)

lemma useField_updates [simp]:
  "useField (s\<lparr>kb_active := t\<rparr>) = useField s" "useField (s\<lparr>kb_armed := a, kb_armedRef := r\<rparr>) = useField s"
  "useField (s\<lparr>kb_armedRef := r, kb_armed := a\<rparr>) = useField s"
  "useField (s\<lparr>kb_sent := x\<rparr>) = useField s" "useField (s\<lparr>kb_bar := b\<rparr>) = useField s"
  "useField (s\<lparr>kb_inset := i\<rparr>) = useField s" "useField (s\<lparr>kb_now := n\<rparr>) = useField s"
  "useField (s\<lparr>kb_suppressUntil := n\<rparr>) = useField s" "useField (s\<lparr>kb_open := b\<rparr>) = useField s"
  "useField s \<Longrightarrow> kb_touch s"
  by (simp_all add: useField_def)











section \<open>An armed modifier is used once\<close>

lemma keepFocus_fields [simp]:
  "kb_sent (keepFocus s) = kb_sent s" "kb_armedRef (keepFocus s) = kb_armedRef s" "kb_open (keepFocus s) = kb_open s"
  "kb_armed (keepFocus s) = kb_armed s"
  by (auto simp: keepFocus_def textarea_focus_def native_focus_def onTextareaFocus_def)

lemma armed_modifier_applies_once:
  assumes "kb_open s" "kb_armed s = None" "kb_armedRef s = None" "a \<noteq> []" "b \<noteq> []"
  shows "kb_sent (sendBytes b (sendBytes a (armModifier m s))) = kb_sent s @ [applyModifier m a, b]"
    and "kb_sent (sendBytes a (armModifier m (armModifier m s))) = kb_sent s @ [a]"
  using assms by (simp_all add: sendBytes_def armModifier_def Let_def)

text \<open>Bytes typed while the socket is closed are lost, and the modifier with them.\<close>

lemma closed_socket_takes_the_modifier:
  assumes "\<not> kb_open s" "kb_armedRef s = Some m" "a \<noteq> []"
  shows "kb_sent (sendBytes a s) = kb_sent s \<and> kb_armedRef (sendBytes a s) = None"
  using assms by (simp add: sendBytes_def Let_def)

end
