(* ===== verification/Mise_Page.thy ===== *)
theory Mise_Page
  imports Job_Poll
begin

text \<open>
  The mise page, \<open>components/Mise/Mise.tsx\<close>: loading the recommendations and the tools, the one job that
  installs or removes a tool, which the effect of \<open>Job_Poll\<close> follows, and the confirmations.
\<close>

section \<open>State\<close>

record mise_tool =
  mt_name :: ustring
  mt_version :: ustring
  mt_requestedVersion :: ustring
  mt_source :: "(ustring \<times> ustring) option"
  mt_installed :: bool
  mt_active :: bool

datatype job_kind = Install | Uninstall
datatype job_action = Deactivate | Reactivate

record mise_job =
  mj_id :: ustring
  mj_kind :: job_kind
  mj_action :: "job_action option"
  mj_toolId :: ustring
  mj_toolLabel :: ustring
  mj_status :: "mise_job_status option"

text \<open>The request that starts a job: \<open>POST\<close> and \<open>DELETE /mise/tools\<close> with their flags.\<close>

datatype mise_request =
    Post_Tool ustring ustring
  | Delete_Tool ustring ustring bool
  | Delete_From_Config ustring ustring

type_synonym recommendations = "(ustring \<times> ustring list) list"

datatype mise_await =
    Mw_Recs nat
  | Mw_Tools nat
  | Mw_Start mise_job
  | Mw_Poll nat ustring
  | Mw_Reload nat
  | Mw_Env

record mise_page =
  mp_recs :: recommendations
  mp_tools :: "mise_tool list"
  mp_loading :: bool
  mp_loadingRef :: bool
  mp_load :: "(nat \<times> recommendations option \<times> bool) option"   \<comment> \<open>the \<open>Promise.all\<close> not yet settled\<close>
  mp_loads :: nat
  mp_error :: "api_error option"
  mp_job :: "mise_job option"
  mp_poller :: poller
  mp_removeFromConfig :: bool
  mp_deleteTarget :: "(ustring \<times> mise_tool) option"
  mp_deactivateTarget :: "(ustring \<times> mise_tool) option"
  mp_categoryOpen :: "ustring \<rightharpoonup> bool"
  mp_env :: "(ustring \<times> ustring) list option"
  mp_envLoading :: bool
  mp_envError :: "api_error option"
  mp_awaits :: "mise_await list"
  mp_sent :: "mise_request list"

definition job_of :: "mise_job option \<Rightarrow> job option" where
  "job_of = map_option (\<lambda>j. (mj_id j, mj_status j))"

definition mise_busy :: "mise_page \<Rightarrow> bool" where
  "mise_busy s \<longleftrightarrow> job_busy (job_of (mp_job s))"

definition mise_ask :: "mise_await list \<Rightarrow> mise_page \<Rightarrow> mise_page" where
  "mise_ask as s = s\<lparr>mp_awaits := mp_awaits s @ as\<rparr>"

text \<open>The effect on the job; a run polls at once.\<close>

definition mise_commit :: "mise_page \<Rightarrow> mise_page" where
  "mise_commit s =
     (let p = poller_commit (job_of (mp_job s)) (mp_poller s); s1 = s\<lparr>mp_poller := p\<rparr>
      in case po_run p of
        Some (n, i) \<Rightarrow> if po_run (mp_poller s) = Some (n, i) then s1 else mise_ask [Mw_Poll n i] s1
      | None \<Rightarrow> s1)"

definition setJob :: "mise_job option \<Rightarrow> mise_page \<Rightarrow> mise_page" where
  "setJob j s = mise_commit (s\<lparr>mp_job := j\<rparr>)"

section \<open>Loading\<close>

definition mise_load :: "mise_page \<Rightarrow> mise_page" where
  "mise_load s =
     (if mp_loadingRef s then s
      else mise_ask [Mw_Recs (mp_loads s), Mw_Tools (mp_loads s)]
        (s\<lparr>mp_loadingRef := True, mp_loading := True, mp_load := Some (mp_loads s, None, False), mp_loads := mp_loads s + 1\<rparr>))"

definition load_settled :: "api_error + recommendations \<Rightarrow> mise_page \<Rightarrow> mise_page" where
  "load_settled r s =
     (case r of Inr recs \<Rightarrow> s\<lparr>mp_recs := recs, mp_error := None\<rparr> | Inl e \<Rightarrow> s\<lparr>mp_error := Some e\<rparr>)
       \<lparr>mp_load := None, mp_loading := False, mp_loadingRef := False\<rparr>"

definition recs_answered :: "nat \<Rightarrow> api_error + recommendations \<Rightarrow> mise_page \<Rightarrow> mise_page" where
  "recs_answered k r s =
     (case mp_load s of
        Some (k', recs, tools) \<Rightarrow>
          if k' \<noteq> k then s
          else (case r of
            Inr rs \<Rightarrow> if tools then load_settled (Inr rs) s else s\<lparr>mp_load := Some (k, Some rs, False)\<rparr>
          | Inl e \<Rightarrow> load_settled (Inl e) s)
      | None \<Rightarrow> s)"

definition tools_answered :: "nat \<Rightarrow> api_error + mise_tool list \<Rightarrow> mise_page \<Rightarrow> mise_page" where
  "tools_answered k r s =
     (let s1 = (case r of Inr ts \<Rightarrow> s\<lparr>mp_tools := ts\<rparr> | Inl e \<Rightarrow> s)
      in case mp_load s of
        Some (k', recs, tools) \<Rightarrow>
          if k' \<noteq> k then s1
          else (case r of
            Inr ts \<Rightarrow> (case recs of Some rs \<Rightarrow> load_settled (Inr rs) s1 | None \<Rightarrow> s1\<lparr>mp_load := Some (k, None, True)\<rparr>)
          | Inl e \<Rightarrow> load_settled (Inl e) s1)
      | None \<Rightarrow> s1)"

definition mise_mount :: mise_page where
  "mise_mount = mise_load
     \<lparr>mp_recs = [], mp_tools = [], mp_loading = True, mp_loadingRef = False, mp_load = None, mp_loads = 0, mp_error = None,
      mp_job = None, mp_poller = poller_init, mp_removeFromConfig = False, mp_deleteTarget = None, mp_deactivateTarget = None,
      mp_categoryOpen = Map.empty, mp_env = None, mp_envLoading = False, mp_envError = None, mp_awaits = [], mp_sent = []\<rparr>"

section \<open>Jobs\<close>

definition new_job :: "job_kind \<Rightarrow> job_action option \<Rightarrow> ustring \<Rightarrow> ustring \<Rightarrow> mise_job" where
  "new_job k a i l = \<lparr>mj_id = [], mj_kind = k, mj_action = a, mj_toolId = i, mj_toolLabel = l, mj_status = None\<rparr>"

definition keyFor :: "ustring \<Rightarrow> ustring \<Rightarrow> ustring" where
  "keyFor i version = i @ 0x40 # version"

definition start_job :: "mise_request \<Rightarrow> mise_job \<Rightarrow> mise_page \<Rightarrow> mise_page" where
  "start_job q j s = mise_ask [Mw_Start j] (s\<lparr>mp_error := None, mp_sent := mp_sent s @ [q]\<rparr>)"

definition installTool :: "ustring \<Rightarrow> ustring \<Rightarrow> ustring \<Rightarrow> mise_page \<Rightarrow> mise_page" where
  "installTool i version label s =
     (if mise_busy s then s else start_job (Post_Tool i version) (new_job Install None i label) s)"

definition ask_delete_tool :: "ustring \<Rightarrow> mise_tool \<Rightarrow> mise_page \<Rightarrow> mise_page" where
  "ask_delete_tool i tool s = (if mise_busy s then s else s\<lparr>mp_removeFromConfig := False, mp_deleteTarget := Some (i, tool)\<rparr>)"

definition confirmDelete :: "mise_page \<Rightarrow> mise_page" where
  "confirmDelete s =
     (case mp_deleteTarget s of
        None \<Rightarrow> s
      | Some (i, tool) \<Rightarrow>
          start_job (Delete_Tool i (mt_version tool) (mp_removeFromConfig s))
            (new_job Uninstall None i (keyFor i (mt_version tool))) (s\<lparr>mp_deleteTarget := None\<rparr>))"

definition handleDeactivate :: "ustring \<Rightarrow> mise_tool \<Rightarrow> mise_page \<Rightarrow> mise_page" where
  "handleDeactivate i tool s = (if mise_busy s then s else s\<lparr>mp_deactivateTarget := Some (i, tool)\<rparr>)"

definition confirmDeactivate :: "mise_page \<Rightarrow> mise_page" where
  "confirmDeactivate s =
     (case mp_deactivateTarget s of
        None \<Rightarrow> s
      | Some (i, tool) \<Rightarrow>
          start_job (Delete_From_Config i (mt_version tool))
            (new_job Uninstall (Some Deactivate) i (keyFor i (mt_version tool))) (s\<lparr>mp_deactivateTarget := None\<rparr>))"

definition handleReactivate :: "ustring \<Rightarrow> mise_tool \<Rightarrow> mise_page \<Rightarrow> mise_page" where
  "handleReactivate i tool s =
     (if mise_busy s then s
      else start_job (Post_Tool i (mt_version tool)) (new_job Install (Some Reactivate) i (keyFor i (mt_version tool))) s)"

definition started :: "mise_job \<Rightarrow> api_error + ustring \<Rightarrow> mise_page \<Rightarrow> mise_page" where
  "started j r s =
     (case r of Inr i \<Rightarrow> setJob (Some (j\<lparr>mj_id := i\<rparr>)) s | Inl e \<Rightarrow> s\<lparr>mp_error := Some e\<rparr>)"

definition mise_tick :: "mise_page \<Rightarrow> mise_page" where
  "mise_tick s = (case po_run (mp_poller s) of None \<Rightarrow> s | Some (n, i) \<Rightarrow> mise_ask [Mw_Poll n i] s)"

text \<open>\<open>poll\<close> of run \<open>n\<close>; \<open>cancelled\<close> is that the run is over. The list is asked for before React renders.\<close>

definition mise_polled :: "nat \<Rightarrow> ustring \<Rightarrow> api_error + mise_job_status \<Rightarrow> mise_page \<Rightarrow> mise_page" where
  "mise_polled n i r s =
     (if po_run (mp_poller s) \<noteq> Some (n, i) then s
      else case r of
        Inr st \<Rightarrow>
          setJob (map_option (\<lambda>j. if mj_id j = i then j\<lparr>mj_status := Some st\<rparr> else j) (mp_job s))
            (if js_running st then s else mise_ask [Mw_Reload n] s)
      | Inl e \<Rightarrow> s\<lparr>mp_error := Some e\<rparr>)"

definition reload_answered :: "nat \<Rightarrow> api_error + mise_tool list \<Rightarrow> mise_page \<Rightarrow> mise_page" where
  "reload_answered n r s =
     (case r of
        Inr ts \<Rightarrow> s\<lparr>mp_tools := ts\<rparr>
      | Inl e \<Rightarrow> if map_option fst (po_run (mp_poller s)) = Some n then s\<lparr>mp_error := Some e\<rparr> else s)"

section \<open>The rest of the page\<close>

definition isCategoryOpen :: "ustring \<Rightarrow> (ustring \<rightharpoonup> bool) \<Rightarrow> bool" where
  "isCategoryOpen c m = (case m c of Some b \<Rightarrow> b | None \<Rightarrow> False)"

definition toggleCategory :: "ustring \<Rightarrow> mise_page \<Rightarrow> mise_page" where
  "toggleCategory c s = s\<lparr>mp_categoryOpen := (mp_categoryOpen s)(c \<mapsto> \<not> isCategoryOpen c (mp_categoryOpen s))\<rparr>"

definition loadEnv :: "mise_page \<Rightarrow> mise_page" where
  "loadEnv s = mise_ask [Mw_Env] (s\<lparr>mp_envLoading := True, mp_envError := None\<rparr>)"

definition env_answered :: "api_error + (ustring \<times> ustring) list \<Rightarrow> mise_page \<Rightarrow> mise_page" where
  "env_answered r s =
     (case r of Inr e \<Rightarrow> s\<lparr>mp_env := Some e\<rparr> | Inl e \<Rightarrow> s\<lparr>mp_envError := Some e\<rparr>)\<lparr>mp_envLoading := False\<rparr>"

definition installedToolNames :: "mise_page \<Rightarrow> ustring set" where
  "installedToolNames s = set (map mt_name (filter mt_installed (mp_tools s)))"

section \<open>Steps\<close>

datatype mise_event =
    Mise_Refresh
  | Install_Tool ustring ustring ustring
  | Ask_Delete_Tool ustring mise_tool
  | Tick_Remove bool
  | Cancel_Delete
  | Confirm_Delete
  | Ask_Deactivate ustring mise_tool
  | Cancel_Deactivate
  | Confirm_Deactivate
  | Reactivate_Tool ustring mise_tool
  | Close_Job
  | Mise_Tick
  | Toggle_Category ustring
  | Load_Env
  | Dismiss_Error
  | Recs_Answer nat "api_error + recommendations"
  | Tools_Answer nat "api_error + mise_tool list"
  | Start_Answer nat "api_error + ustring"
  | Poll_Answer nat "api_error + mise_job_status"
  | Env_Answer nat "api_error + (ustring \<times> ustring) list"

definition mise_await_at :: "nat \<Rightarrow> mise_page \<Rightarrow> mise_await option" where
  "mise_await_at k s = (if k < length (mp_awaits s) then Some (mp_awaits s ! k) else None)"

definition mise_answered :: "nat \<Rightarrow> mise_page \<Rightarrow> mise_page" where
  "mise_answered k s = s\<lparr>mp_awaits := take k (mp_awaits s) @ drop (Suc k) (mp_awaits s)\<rparr>"

fun mise_step :: "mise_event \<Rightarrow> mise_page \<Rightarrow> mise_page" where
  "mise_step Mise_Refresh s = (if mp_loading s then s else mise_load s)"
| "mise_step (Install_Tool i v l) s = installTool i v l s"
| "mise_step (Ask_Delete_Tool i t) s = ask_delete_tool i t s"
| "mise_step (Tick_Remove b) s = (if mp_deleteTarget s = None then s else s\<lparr>mp_removeFromConfig := b\<rparr>)"
| "mise_step Cancel_Delete s = s\<lparr>mp_deleteTarget := None\<rparr>"
| "mise_step Confirm_Delete s = confirmDelete s"
| "mise_step (Ask_Deactivate i t) s = handleDeactivate i t s"
| "mise_step Cancel_Deactivate s = s\<lparr>mp_deactivateTarget := None\<rparr>"
| "mise_step Confirm_Deactivate s = confirmDeactivate s"
| "mise_step (Reactivate_Tool i t) s = handleReactivate i t s"
| "mise_step Close_Job s = setJob None s"
| "mise_step Mise_Tick s = mise_tick s"
| "mise_step (Toggle_Category c) s = toggleCategory c s"
| "mise_step Load_Env s = (if mp_envLoading s then s else loadEnv s)"
| "mise_step Dismiss_Error s = s\<lparr>mp_error := None\<rparr>"
| "mise_step (Recs_Answer k r) s =
     (case mise_await_at k s of Some (Mw_Recs n) \<Rightarrow> recs_answered n r (mise_answered k s) | _ \<Rightarrow> s)"
| "mise_step (Tools_Answer k r) s =
     (case mise_await_at k s of
        Some (Mw_Tools n) \<Rightarrow> tools_answered n r (mise_answered k s)
      | Some (Mw_Reload n) \<Rightarrow> reload_answered n r (mise_answered k s)
      | _ \<Rightarrow> s)"
| "mise_step (Start_Answer k r) s =
     (case mise_await_at k s of Some (Mw_Start j) \<Rightarrow> started j r (mise_answered k s) | _ \<Rightarrow> s)"
| "mise_step (Poll_Answer k r) s =
     (case mise_await_at k s of Some (Mw_Poll n i) \<Rightarrow> mise_polled n i r (mise_answered k s) | _ \<Rightarrow> s)"
| "mise_step (Env_Answer k r) s =
     (case mise_await_at k s of Some Mw_Env \<Rightarrow> env_answered r (mise_answered k s) | _ \<Rightarrow> s)"

definition mise_run :: "mise_event list \<Rightarrow> mise_page \<Rightarrow> mise_page" where
  "mise_run es s = fold mise_step es s"

section \<open>The job is followed to its end\<close>

text \<open>
  The run in force belongs to the job shown, and a list asked for after a job belongs to a run that is over:
  the render its status brought came first.
\<close>

definition reloads_are_late :: "mise_page \<Rightarrow> bool" where
  "reloads_are_late s \<longleftrightarrow> list_all (\<lambda>a. case a of
     Mw_Reload n \<Rightarrow> n < po_runs (mp_poller s) \<and> map_option fst (po_run (mp_poller s)) \<noteq> Some n | _ \<Rightarrow> True) (mp_awaits s)"

definition mise_inv :: "mise_page \<Rightarrow> bool" where
  "mise_inv s \<longleftrightarrow> poller_ok (job_of (mp_job s)) (mp_poller s) \<and> reloads_are_late s"

lemma mise_commit_fields [simp]:
  "mp_job (mise_commit s) = mp_job s" "mp_error (mise_commit s) = mp_error s"
  "mp_poller (mise_commit s) = poller_commit (job_of (mp_job s)) (mp_poller s)" "mp_sent (mise_commit s) = mp_sent s"
  by (auto simp: mise_commit_def mise_ask_def Let_def split: option.split)

lemma mise_commit_awaits:
  "\<exists>as. mp_awaits (mise_commit s) = mp_awaits s @ as \<and> list_all (\<lambda>a. \<exists>n i. a = Mw_Poll n i) as"
  by (auto simp: mise_commit_def mise_ask_def Let_def split: option.split)

text \<open>A run that is over stays over: new ones take new numbers.\<close>

lemma over_stays_over:
  "\<lbrakk>n < po_runs p; map_option fst (po_run p) \<noteq> Some n\<rbrakk> \<Longrightarrow>
   n < po_runs (poller_commit j p) \<and> map_option fst (po_run (poller_commit j p)) \<noteq> Some n"
  using commit_runs [of p j] commit_run [of j p]
  by (cases "po_run (poller_commit j p)") (auto split: prod.splits)

lemma setJob_inv:
  assumes "poller_ok j0 (mp_poller s)" "reloads_are_late s"
  shows "mise_inv (setJob j s)"
proof -
  obtain as where as: "mp_awaits (mise_commit (s\<lparr>mp_job := j\<rparr>)) = mp_awaits s @ as"
      "list_all (\<lambda>a. \<exists>n i. a = Mw_Poll n i) as"
    using mise_commit_awaits [of "s\<lparr>mp_job := j\<rparr>"] by auto
  have "reloads_are_late (setJob j s)"
    using assms(2) as over_stays_over by (fastforce simp: reloads_are_late_def setJob_def list_all_iff split: mise_await.splits)
  then show ?thesis using commit_ok [OF assms(1)] by (simp add: mise_inv_def setJob_def)
qed

text \<open>Steps that leave job and run alone, and wait for no list after a job.\<close>

lemma mise_inv_frame:
  assumes "mise_inv s" "mp_job s' = mp_job s" "mp_poller s' = mp_poller s"
    "\<forall>a \<in> set (mp_awaits s'). a \<in> set (mp_awaits s) \<or> (\<forall>n. a \<noteq> Mw_Reload n)"
  shows "mise_inv s'"
  using assms by (fastforce simp: mise_inv_def reloads_are_late_def list_all_iff split: mise_await.splits)

lemma fewer_awaits: "mise_inv s \<Longrightarrow> mise_inv (mise_answered k s)"
  by (rule mise_inv_frame) (auto simp: mise_answered_def dest: in_set_takeD in_set_dropD)

lemma mise_load_inv: "mise_inv s \<Longrightarrow> mise_inv (mise_load s)"
  by (rule mise_inv_frame [of s]) (auto simp: mise_load_def mise_ask_def)

lemma start_job_inv: "mise_inv s \<Longrightarrow> mise_inv (start_job q j s)"
  by (rule mise_inv_frame) (auto simp: start_job_def mise_ask_def)

lemma confirm_inv: "mise_inv s \<Longrightarrow> mise_inv (confirmDelete s) \<and> mise_inv (confirmDeactivate s)"
proof -
  assume s: "mise_inv s"
  have "mise_inv (s\<lparr>mp_deleteTarget := None\<rparr>)" "mise_inv (s\<lparr>mp_deactivateTarget := None\<rparr>)"
    by (rule mise_inv_frame [OF s]; simp)+
  then show ?thesis using s start_job_inv by (simp add: confirmDelete_def confirmDeactivate_def split: option.split)
qed

lemma start_answered_inv: "mise_inv s \<Longrightarrow> mise_inv (started j r s)"
proof (cases r)
  case (Inl e)
  assume "mise_inv s"
  then show ?thesis by (rule mise_inv_frame) (simp_all add: started_def Inl)
next
  case (Inr i)
  assume "mise_inv s"
  then show ?thesis using setJob_inv by (auto simp: mise_inv_def started_def Inr)
qed

lemma loads_inv: "mise_inv s \<Longrightarrow> mise_inv (recs_answered n r s) \<and> mise_inv (tools_answered n r' s)"
  by (auto simp: recs_answered_def tools_answered_def load_settled_def Let_def split: option.split sum.split elim!: mise_inv_frame)

lemma polled_job: "job_of (map_option (\<lambda>j. if mj_id j = i then j\<lparr>mj_status := Some st\<rparr> else j) j) = job_polled i st (job_of j)"
  by (auto simp: job_of_def job_polled_def split: option.split)

text \<open>The answer that ends a job ends the run.\<close>

lemma finished_run:
  assumes "poller_ok j p" "po_run p = Some (n, i)" "\<not> js_running st"
  shows "po_run (poller_commit (job_polled i st j) p) = None \<and> n < po_runs (poller_commit (job_polled i st j) p)"
  using assms commit_ok [OF assms(1), of "job_polled i st j"] commit_runs [of p "job_polled i st j"]
  by (auto simp: poller_ok_def job_polled_def job_busy_def split: option.splits)

lemma mise_polled_inv:
  assumes s: "mise_inv s"
  shows "mise_inv (mise_polled n i r s)"
proof (cases "po_run (mp_poller s) = Some (n, i) \<and> (\<exists>st. r = Inr st)")
  case False
  then show ?thesis using s by (auto simp: mise_polled_def split: sum.split intro: mise_inv_frame)
next
  case True
  then obtain st where run: "po_run (mp_poller s) = Some (n, i)" and st: "r = Inr st" by blast
  let ?j = "map_option (\<lambda>j. if mj_id j = i then j\<lparr>mj_status := Some st\<rparr> else j) (mp_job s)"
  have ok: "poller_ok (job_of (mp_job s)) (mp_poller s)" and late: "reloads_are_late s" using s by (simp_all add: mise_inv_def)
  show ?thesis
  proof (cases "js_running st")
    case True
    then show ?thesis using run st setJob_inv [OF ok late] by (simp add: mise_polled_def)
  next
    case False
    obtain as where as: "mp_awaits (setJob ?j (mise_ask [Mw_Reload n] s)) = mp_awaits s @ Mw_Reload n # as"
        "list_all (\<lambda>a. \<exists>n i. a = Mw_Poll n i) as"
      using mise_commit_awaits [of "(mise_ask [Mw_Reload n] s)\<lparr>mp_job := ?j\<rparr>"] by (auto simp: setJob_def mise_ask_def)
    let ?p = "poller_commit (job_polled i st (job_of (mp_job s))) (mp_poller s)"
    have p: "mp_poller (setJob ?j (mise_ask [Mw_Reload n] s)) = ?p" "mp_job (setJob ?j (mise_ask [Mw_Reload n] s)) = ?j"
      by (simp_all add: setJob_def mise_ask_def polled_job)
    have "reloads_are_late (setJob ?j (mise_ask [Mw_Reload n] s))"
      using late as over_stays_over finished_run [OF ok run False]
      by (fastforce simp: reloads_are_late_def p list_all_iff split: mise_await.splits)
    then show ?thesis using run st False commit_ok [OF ok] by (simp add: mise_polled_def mise_inv_def p polled_job)
  qed
qed

lemma mise_step_inv: "mise_inv s \<Longrightarrow> mise_inv (mise_step ev s)"
proof (cases ev)
  case (Tools_Answer k r)
  assume s: "mise_inv s"
  have "mise_inv (reload_answered n r (mise_answered k s))" for n
    by (rule mise_inv_frame [OF fewer_awaits [OF s, of k]]) (auto simp: reload_answered_def split: sum.split)
  then show ?thesis using s Tools_Answer loads_inv [OF fewer_awaits] by (simp split: option.split mise_await.split)
next
  case (Env_Answer k r)
  assume s: "mise_inv s"
  have "mise_inv (env_answered r (mise_answered k s))"
    by (rule mise_inv_frame [OF fewer_awaits [OF s, of k]]) (auto simp: env_answered_def split: sum.split)
  then show ?thesis using s Env_Answer by (simp split: option.split mise_await.split)
next
  case Close_Job
  assume "mise_inv s"
  then show ?thesis using Close_Job setJob_inv by (auto simp: mise_inv_def)
qed (auto simp: installTool_def ask_delete_tool_def handleDeactivate_def handleReactivate_def mise_tick_def toggleCategory_def
  loadEnv_def mise_ask_def mise_load_inv start_job_inv confirm_inv start_answered_inv loads_inv mise_polled_inv fewer_awaits
  split: option.split mise_await.split elim!: mise_inv_frame)

lemma mise_mount_inv: "mise_inv mise_mount"
  by (simp add: mise_mount_def mise_load_def mise_ask_def mise_inv_def reloads_are_late_def poller_init_ok job_of_def)

lemma mise_run_inv: "mise_inv (mise_run es mise_mount)"
proof (induction es rule: rev_induct)
  case (snoc ev es)
  then show ?case using mise_step_inv by (simp add: mise_run_def)
qed (simp add: mise_run_def mise_mount_inv)

text \<open>C17: Whatever happens on the mise page, the job it shows is polled under its own id exactly while it is not known
to have finished, and the answer to a poll of any other run changes nothing.\<close>

theorem mise_job_is_followed:
  "let s = mise_run es mise_mount
   in map_option snd (po_run (mp_poller s)) = (if mise_busy s then map_option mj_id (mp_job s) else None) \<and>
      (po_run (mp_poller s) = Some (n, i) \<or> mise_polled n i r s = s)"
  using mise_run_inv [of es]
  by (auto simp: Let_def mise_inv_def poller_ok_def mise_busy_def mise_polled_def job_of_def split: option.splits)

text \<open>
  The list asked for when a job ends: should it fail, the error is dropped, whatever the page does meanwhile.
\<close>

lemma job_reload_errors_vanish:
  assumes "mise_await_at k (mise_run es mise_mount) = Some (Mw_Reload n)"
  shows "mp_error (mise_step (Tools_Answer k (Inl e)) (mise_run es mise_mount)) = mp_error (mise_run es mise_mount)"
proof -
  have "Mw_Reload n \<in> set (mp_awaits (mise_run es mise_mount))"
    using assms unfolding mise_await_at_def by (metis nth_mem option.distinct(1) option.inject)
  then have "map_option fst (po_run (mp_poller (mise_run es mise_mount))) \<noteq> Some n"
    using mise_run_inv [of es] by (auto simp: mise_inv_def reloads_are_late_def list_all_iff)
  then show ?thesis using assms by (simp add: reload_answered_def mise_answered_def)
qed

section \<open>Two jobs at once\<close>

text \<open>
  \<open>busy\<close> knows a job only once its request was answered, and a confirmation does not ask again: a second
  click, or a removal confirmed while an install starts, sends a second job; the page follows the one answered last.
\<close>

lemma second_click_starts_another_job:
  "mise_busy s = False \<Longrightarrow>
   mp_sent (mise_run [Install_Tool i v l, Install_Tool i v l] s) = mp_sent s @ [Post_Tool i v, Post_Tool i v]"
  by (simp add: mise_run_def installTool_def start_job_def mise_ask_def mise_busy_def)

lemma confirming_ignores_busy:
  assumes "mp_deleteTarget s = Some (i, t)"
  shows "mp_sent (mise_step Confirm_Delete s) = mp_sent s @ [Delete_Tool i (mt_version t) (mp_removeFromConfig s)]"
  using assms by (simp add: confirmDelete_def start_job_def mise_ask_def)

end
