(* ===== verification/Tool_Search.thy ===== *)
theory Tool_Search
  imports Mise_Page
begin

text \<open>
  The search dialog of the mise page, \<open>components/Mise/ToolSearchDialog.tsx\<close>: searches and version lists whose
  answers count only while their request is the last one, and the installs it hands to the page.
\<close>

section \<open>State\<close>

record registry_entry =
  re_short :: ustring
  re_backends :: "ustring list"
  re_description :: ustring
  re_aliases :: "ustring list"

definition MIN_QUERY_LEN :: nat where
  "MIN_QUERY_LEN = 2"

definition SEARCH_RESULT_LIMIT :: nat where
  "SEARCH_RESULT_LIMIT = 50"

definition VERSION_RENDER_LIMIT :: nat where
  "VERSION_RENDER_LIMIT = 300"

datatype search_await =
    Aw_Search nat ustring
  | Aw_Versions nat registry_entry

text \<open>What the server has answered, kept as history.\<close>

datatype registry_answer =
    Found ustring "registry_entry list"
  | Versions_Of ustring "ustring list"

record tool_search =
  ts_open :: bool
  ts_query :: ustring
  ts_queryError :: bool
  ts_results :: "registry_entry list option"
  ts_searching :: bool
  ts_searchError :: "api_error option"
  ts_selected :: "registry_entry option"
  ts_versions :: "ustring list option"
  ts_versionsLoading :: bool
  ts_versionsError :: "api_error option"
  ts_versionFilter :: ustring
  ts_searchId :: nat
  ts_versionsId :: nat
  ts_awaits :: "search_await list"
  ts_answers :: "registry_answer list"
  ts_installs :: "(ustring \<times> ustring \<times> ustring) list"    \<comment> \<open>calls of \<open>onInstall\<close>\<close>

definition search_mount :: tool_search where
  "search_mount =
     \<lparr>ts_open = False, ts_query = [], ts_queryError = False, ts_results = None, ts_searching = False, ts_searchError = None,
      ts_selected = None, ts_versions = None, ts_versionsLoading = False, ts_versionsError = None, ts_versionFilter = [],
      ts_searchId = 0, ts_versionsId = 0, ts_awaits = [], ts_answers = [], ts_installs = []\<rparr>"

text \<open>The effect on \<open>[open]\<close>.\<close>

definition search_opened :: "tool_search \<Rightarrow> tool_search" where
  "search_opened d =
     (if ts_open d then d
      else d\<lparr>ts_open := True, ts_query := [], ts_queryError := False, ts_results := None, ts_searchError := None,
             ts_selected := None, ts_versions := None, ts_versionsError := None, ts_versionFilter := []\<rparr>)"

section \<open>Searching\<close>

definition runSearch :: "tool_search \<Rightarrow> tool_search" where
  "runSearch d =
     (let trimmed = trim (ts_query d)
      in if length (code_points trimmed) < MIN_QUERY_LEN then d\<lparr>ts_queryError := True, ts_results := None\<rparr>
         else d\<lparr>ts_queryError := False, ts_searchError := None, ts_searching := True, ts_searchId := ts_searchId d + 1,
                ts_awaits := ts_awaits d @ [Aw_Search (ts_searchId d + 1) trimmed]\<rparr>)"

definition search_answered :: "nat \<Rightarrow> ustring \<Rightarrow> api_error + registry_entry list \<Rightarrow> tool_search \<Rightarrow> tool_search" where
  "search_answered k q r d0 =
     (let d = (case r of Inr es \<Rightarrow> d0\<lparr>ts_answers := ts_answers d0 @ [Found q es]\<rparr> | Inl e \<Rightarrow> d0)
      in if ts_searchId d \<noteq> k then d
         else (case r of
             Inr es \<Rightarrow> d\<lparr>ts_results := Some es\<rparr>
           | Inl e \<Rightarrow> d\<lparr>ts_searchError := Some e, ts_results := None\<rparr>)\<lparr>ts_searching := False\<rparr>)"

definition shownResults :: "tool_search \<Rightarrow> registry_entry list" where
  "shownResults d = take SEARCH_RESULT_LIMIT (case ts_results d of Some es \<Rightarrow> es | None \<Rightarrow> [])"

section \<open>Versions\<close>

definition openVersions :: "registry_entry \<Rightarrow> tool_search \<Rightarrow> tool_search" where
  "openVersions e d =
     d\<lparr>ts_selected := Some e, ts_versions := None, ts_versionsError := None, ts_versionFilter := [], ts_versionsLoading := True,
       ts_versionsId := ts_versionsId d + 1, ts_awaits := ts_awaits d @ [Aw_Versions (ts_versionsId d + 1) e]\<rparr>"

definition versions_answered :: "nat \<Rightarrow> registry_entry \<Rightarrow> api_error + ustring list \<Rightarrow> tool_search \<Rightarrow> tool_search" where
  "versions_answered k e r d0 =
     (let d = (case r of Inr vs \<Rightarrow> d0\<lparr>ts_answers := ts_answers d0 @ [Versions_Of (re_short e) vs]\<rparr> | Inl x \<Rightarrow> d0)
      in if ts_versionsId d \<noteq> k then d
         else (case r of
             Inr vs \<Rightarrow> d\<lparr>ts_versions := Some (rev vs)\<rparr>
           | Inl x \<Rightarrow> d\<lparr>ts_versionsError := Some x\<rparr>)\<lparr>ts_versionsLoading := False\<rparr>)"

definition backToSearch :: "tool_search \<Rightarrow> tool_search" where
  "backToSearch d = d\<lparr>ts_selected := None, ts_versions := None, ts_versionsError := None\<rparr>"

definition installedVersions :: "mise_tool list \<Rightarrow> tool_search \<Rightarrow> ustring list" where
  "installedVersions tools d =
     (case ts_selected d of Some e \<Rightarrow> map mt_version (filter (\<lambda>t. mt_name t = re_short e) tools) | None \<Rightarrow> [])"

definition filteredVersions :: "tool_search \<Rightarrow> ustring list" where
  "filteredVersions d = filter (\<lambda>v. sublist (trim (ts_versionFilter d)) v) (case ts_versions d of Some vs \<Rightarrow> vs | None \<Rightarrow> [])"

definition shownVersions :: "tool_search \<Rightarrow> ustring list" where
  "shownVersions d = take VERSION_RENDER_LIMIT (filteredVersions d)"

section \<open>Installing\<close>

text \<open>\<open>onInstall\<close> is the page's \<open>installTool\<close>; the dialog closes whatever comes of it.\<close>

definition onInstall :: "ustring \<Rightarrow> ustring \<Rightarrow> ustring \<Rightarrow> tool_search \<times> mise_page \<Rightarrow> tool_search \<times> mise_page" where
  "onInstall i v l dp =
     (case dp of (d, p) \<Rightarrow> (d\<lparr>ts_installs := ts_installs d @ [(i, v, l)], ts_open := False\<rparr>, installTool i v l p))"

definition handleQuickInstall :: "registry_entry \<Rightarrow> tool_search \<times> mise_page \<Rightarrow> tool_search \<times> mise_page" where
  "handleQuickInstall e dp = onInstall (re_short e) (js ''latest'') (re_short e) dp"

definition handleInstallVersion :: "ustring \<Rightarrow> tool_search \<times> mise_page \<Rightarrow> tool_search \<times> mise_page" where
  "handleInstallVersion v dp =
     (case ts_selected (fst dp) of None \<Rightarrow> dp | Some e \<Rightarrow> onInstall (re_short e) v (keyFor (re_short e) v) dp)"

section \<open>Steps\<close>

datatype search_event =
    Open_Search
  | Close_Search
  | Type_Query ustring
  | Submit_Search
  | Open_Versions nat
  | Type_Filter ustring
  | Back_To_Search
  | Quick_Install nat
  | Install_Version nat
  | Search_Answer nat "api_error + registry_entry list"
  | Versions_Answer nat "api_error + ustring list"
  | On_Page mise_event

definition entry_at :: "nat \<Rightarrow> 'a list \<Rightarrow> 'a option" where
  "entry_at k xs = (if k < length xs then Some (xs ! k) else None)"

text \<open>The form and the results are there without a selected tool, the versions with one.\<close>

definition on_results :: "tool_search \<Rightarrow> bool" where
  "on_results d \<longleftrightarrow> ts_open d \<and> ts_selected d = None"

definition on_versions :: "tool_search \<Rightarrow> bool" where
  "on_versions d \<longleftrightarrow> ts_open d \<and> ts_selected d \<noteq> None"

definition search_await_done :: "nat \<Rightarrow> tool_search \<Rightarrow> tool_search" where
  "search_await_done k d = d\<lparr>ts_awaits := take k (ts_awaits d) @ drop (Suc k) (ts_awaits d)\<rparr>"

fun search_step :: "search_event \<Rightarrow> tool_search \<times> mise_page \<Rightarrow> tool_search \<times> mise_page" where
  "search_step Open_Search (d, p) = (search_opened d, p)"
| "search_step Close_Search (d, p) = (d\<lparr>ts_open := False\<rparr>, p)"
| "search_step (Type_Query q) (d, p) = (if on_results d then d\<lparr>ts_query := q\<rparr> else d, p)"
| "search_step Submit_Search (d, p) = (if on_results d \<and> \<not> ts_searching d then runSearch d else d, p)"
| "search_step (Open_Versions k) (d, p) =
     (case entry_at k (shownResults d) of Some e \<Rightarrow> if on_results d then openVersions e d else d | None \<Rightarrow> d, p)"
| "search_step (Type_Filter f) (d, p) = (if on_versions d then d\<lparr>ts_versionFilter := f\<rparr> else d, p)"
| "search_step Back_To_Search (d, p) = (if on_versions d then backToSearch d else d, p)"
| "search_step (Quick_Install k) (d, p) =
     (case entry_at k (shownResults d) of Some e \<Rightarrow> if on_results d then handleQuickInstall e (d, p) else (d, p) | None \<Rightarrow> (d, p))"
| "search_step (Install_Version k) (d, p) =
     (case entry_at k (shownVersions d) of
        Some v \<Rightarrow> if on_versions d \<and> \<not> ts_versionsLoading d \<and> v \<notin> set (installedVersions (mp_tools p) d)
                  then handleInstallVersion v (d, p) else (d, p)
      | None \<Rightarrow> (d, p))"
| "search_step (Search_Answer k r) (d, p) =
     (case entry_at k (ts_awaits d) of Some (Aw_Search n q) \<Rightarrow> search_answered n q r (search_await_done k d) | _ \<Rightarrow> d, p)"
| "search_step (Versions_Answer k r) (d, p) =
     (case entry_at k (ts_awaits d) of Some (Aw_Versions n e) \<Rightarrow> versions_answered n e r (search_await_done k d) | _ \<Rightarrow> d, p)"
| "search_step (On_Page ev) (d, p) = (d, mise_step ev p)"

definition search_run :: "search_event list \<Rightarrow> tool_search \<times> mise_page \<Rightarrow> tool_search \<times> mise_page" where
  "search_run es dp = fold search_step es dp"

section \<open>Only what was found is installed\<close>

definition install_found :: "registry_answer list \<Rightarrow> ustring \<times> ustring \<times> ustring \<Rightarrow> bool" where
  "install_found as c \<longleftrightarrow> (case c of (i, v, l) \<Rightarrow>
     v = js ''latest'' \<and> l = i \<and> list_ex (\<lambda>a. case a of Found q es \<Rightarrow> i \<in> re_short ` set es | _ \<Rightarrow> False) as \<or>
     l = i @ 0x40 # v \<and> list_ex (\<lambda>a. case a of Versions_Of i' vs \<Rightarrow> i' = i \<and> v \<in> set vs | _ \<Rightarrow> False) as)"

definition query_ok :: "ustring \<Rightarrow> bool" where
  "query_ok q \<longleftrightarrow> trim q = q \<and> 2 \<le> length (code_points q)"

text \<open>
  What is shown was answered: the results to a search, the versions to the selected tool, for which the last
  request asked. What is waited for is on its way.
\<close>

definition versions_belong :: "nat \<Rightarrow> search_await list \<Rightarrow> registry_answer list \<Rightarrow> ustring list option \<Rightarrow> registry_entry option \<Rightarrow> bool" where
  "versions_belong n aw ans vs sel \<longleftrightarrow> (case sel of
     Some e \<Rightarrow> (case vs of Some v \<Rightarrow> Versions_Of (re_short e) (rev v) \<in> set ans | None \<Rightarrow> True) \<and>
               (\<forall>e'. Aw_Versions n e' \<in> set aw \<longrightarrow> e' = e)
   | None \<Rightarrow> True)"

definition results_found :: "registry_answer list \<Rightarrow> registry_entry list option \<Rightarrow> bool" where
  "results_found ans r \<longleftrightarrow> (case r of Some es \<Rightarrow> \<exists>q. Found q es \<in> set ans | None \<Rightarrow> True)"

definition await_ok :: "nat \<Rightarrow> search_await \<Rightarrow> bool" where
  "await_ok n a \<longleftrightarrow> (case a of Aw_Versions m e \<Rightarrow> m \<le> n | Aw_Search m q \<Rightarrow> query_ok q)"

definition search_inv :: "tool_search \<Rightarrow> bool" where
  "search_inv d \<longleftrightarrow>
     list_all (install_found (ts_answers d)) (ts_installs d) \<and> results_found (ts_answers d) (ts_results d) \<and>
     versions_belong (ts_versionsId d) (ts_awaits d) (ts_answers d) (ts_versions d) (ts_selected d) \<and>
     list_all (await_ok (ts_versionsId d)) (ts_awaits d) \<and>
     (ts_searching d \<longrightarrow> (\<exists>q. Aw_Search (ts_searchId d) q \<in> set (ts_awaits d))) \<and>
     (ts_versionsLoading d \<longrightarrow> (\<exists>e. Aw_Versions (ts_versionsId d) e \<in> set (ts_awaits d)))"

lemma install_found_more: "install_found as c \<Longrightarrow> install_found (as @ bs) c"
  by (auto simp: install_found_def)

lemma entry_at_in: "entry_at k xs = Some x \<Longrightarrow> x \<in> set xs"
  by (auto simp: entry_at_def split: if_splits)

text \<open>An answered request is gone, the others stay.\<close>

lemma other_awaits_stay:
  assumes "entry_at k xs = Some y" "x \<in> set xs" "x \<noteq> y"
  shows "x \<in> set (take k xs @ drop (Suc k) xs)"
proof -
  have "xs = take k xs @ y # drop (Suc k) xs"
    using assms(1) id_take_nth_drop [of k xs] by (auto simp: entry_at_def split: if_splits)
  then show ?thesis using assms(2,3) by (metis UnE set_ConsD set_append UnI1 UnI2)
qed

lemma fewer_search_awaits: "set (ts_awaits (search_await_done k d)) \<subseteq> set (ts_awaits d)"
  by (auto simp: search_await_done_def dest: in_set_takeD in_set_dropD)

lemma await_done_fields [simp]:
  "ts_installs (search_await_done k d) = ts_installs d" "ts_answers (search_await_done k d) = ts_answers d"
  "ts_results (search_await_done k d) = ts_results d" "ts_versionsId (search_await_done k d) = ts_versionsId d"
  "ts_versions (search_await_done k d) = ts_versions d" "ts_selected (search_await_done k d) = ts_selected d"
  "ts_searchId (search_await_done k d) = ts_searchId d" "ts_searching (search_await_done k d) = ts_searching d"
  "ts_versionsLoading (search_await_done k d) = ts_versionsLoading d"
  by (simp_all add: search_await_done_def)

lemma versions_belong_less:
  "\<lbrakk>versions_belong n aw ans vs sel; set aw' \<subseteq> set aw; set ans \<subseteq> set ans'\<rbrakk> \<Longrightarrow> versions_belong n aw' ans' vs sel"
  by (auto simp: versions_belong_def split: option.splits)

lemma results_found_more: "results_found ans r \<Longrightarrow> set ans \<subseteq> set ans' \<Longrightarrow> results_found ans' r"
  by (auto simp: results_found_def split: option.splits)

lemma search_answered_inv:
  assumes d: "search_inv d" and k: "entry_at k (ts_awaits d) = Some (Aw_Search n q)"
  shows "search_inv (search_answered n q r (search_await_done k d))"
proof -
  let ?a = "ts_awaits (search_await_done k d)"
  have stays: "Aw_Search m q' \<in> set ?a" if "Aw_Search m q' \<in> set (ts_awaits d)" "m \<noteq> n" for m q'
    using other_awaits_stay [OF k that(1)] that(2) by (simp add: search_await_done_def)
  have stays': "Aw_Versions m e \<in> set ?a" if "Aw_Versions m e \<in> set (ts_awaits d)" for m e
    using other_awaits_stay [OF k that] by (simp add: search_await_done_def)
  define x where "x = search_await_done k d"
  have f: "ts_awaits x = ?a" "ts_installs x = ts_installs d" "ts_answers x = ts_answers d" "ts_results x = ts_results d"
    "ts_versionsId x = ts_versionsId d" "ts_versions x = ts_versions d" "ts_selected x = ts_selected d"
    "ts_searchId x = ts_searchId d" "ts_searching x = ts_searching d" "ts_versionsLoading x = ts_versionsLoading d"
    by (simp_all add: x_def)
  have i: "list_all (install_found (ts_answers d @ as)) (ts_installs d)" for as
    using d by (simp add: search_inv_def list_all_iff install_found_more)
  have a: "list_all (await_ok (ts_versionsId d)) ?a"
    using d fewer_search_awaits [of k d] by (auto simp: search_inv_def list_all_iff)
  have v: "versions_belong (ts_versionsId d) ?a (ts_answers d @ as) (ts_versions d) (ts_selected d)" for as
    using d by (intro versions_belong_less [OF _ fewer_search_awaits]) (auto simp: search_inv_def)
  have res: "results_found (ts_answers d @ as) (ts_results d)" for as
    using d by (auto simp: search_inv_def intro: results_found_more)
  have l: "ts_versionsLoading d \<Longrightarrow> \<exists>e. Aw_Versions (ts_versionsId d) e \<in> set ?a"
    using d stays' by (auto simp: search_inv_def)
  have w: "ts_searching d \<Longrightarrow> ts_searchId d \<noteq> n \<Longrightarrow> \<exists>q. Aw_Search (ts_searchId d) q \<in> set ?a"
    using d stays by (fastforce simp: search_inv_def)
  show ?thesis unfolding x_def [symmetric]
  proof (cases r)
    case (Inl y)
    then show "search_inv (search_answered n q r x)"
      using i [of "[]"] a v [of "[]"] res [of "[]"] l w
      by (simp add: search_inv_def search_answered_def f results_found_def [of _ None])
  next
    case (Inr es)
    have "results_found (ts_answers d @ [Found q es]) (Some es)" by (auto simp: results_found_def)
    then show "search_inv (search_answered n q r x)"
      using Inr i a v res l w by (simp add: search_inv_def search_answered_def Let_def f)
  qed
qed

lemma versions_answered_inv:
  assumes d: "search_inv d" and k: "entry_at k (ts_awaits d) = Some (Aw_Versions n e)"
  shows "search_inv (versions_answered n e r (search_await_done k d))"
proof -
  let ?a = "ts_awaits (search_await_done k d)"
  have stays: "Aw_Versions m e' \<in> set ?a" if "Aw_Versions m e' \<in> set (ts_awaits d)" "m \<noteq> n" for m e'
    using other_awaits_stay [OF k that(1)] that(2) by (simp add: search_await_done_def)
  have stays': "Aw_Search m q \<in> set ?a" if "Aw_Search m q \<in> set (ts_awaits d)" for m q
    using other_awaits_stay [OF k that] by (simp add: search_await_done_def)
  have mine: "ts_selected d = Some x \<Longrightarrow> ts_versionsId d = n \<Longrightarrow> x = e" for x
    using d entry_at_in [OF k] by (auto simp: search_inv_def versions_belong_def)
  have belong: "versions_belong (ts_versionsId d) ?a (ts_answers d @ bs) (ts_versions d) (ts_selected d)" for bs
    using d by (auto simp: search_inv_def elim!: versions_belong_less dest: subsetD [OF fewer_search_awaits])
  have answered: "versions_belong n ?a (ts_answers d @ [Versions_Of (re_short e) vs]) (Some (rev vs)) (ts_selected d)"
    if "ts_versionsId d = n" for vs
    using belong [of "[]"] mine that by (auto simp: versions_belong_def split: option.splits)
  define x where "x = search_await_done k d"
  have f: "ts_awaits x = ?a" "ts_installs x = ts_installs d" "ts_answers x = ts_answers d" "ts_results x = ts_results d"
    "ts_versionsId x = ts_versionsId d" "ts_versions x = ts_versions d" "ts_selected x = ts_selected d"
    "ts_searchId x = ts_searchId d" "ts_searching x = ts_searching d" "ts_versionsLoading x = ts_versionsLoading d"
    by (simp_all add: x_def)
  have i: "list_all (install_found (ts_answers d @ as)) (ts_installs d)" for as
    using d by (simp add: search_inv_def list_all_iff install_found_more)
  have a: "list_all (await_ok (ts_versionsId d)) ?a"
    using d fewer_search_awaits [of k d] by (auto simp: search_inv_def list_all_iff)
  have res: "results_found (ts_answers d @ as) (ts_results d)" for as
    using d by (auto simp: search_inv_def intro: results_found_more)
  have w: "ts_searching d \<Longrightarrow> \<exists>q. Aw_Search (ts_searchId d) q \<in> set ?a"
    using d stays' by (auto simp: search_inv_def)
  have l: "ts_versionsLoading d \<Longrightarrow> ts_versionsId d \<noteq> n \<Longrightarrow> \<exists>e. Aw_Versions (ts_versionsId d) e \<in> set ?a"
    using d stays by (fastforce simp: search_inv_def)
  show ?thesis unfolding x_def [symmetric]
  proof (cases r)
    case (Inl y)
    then show "search_inv (versions_answered n e r x)"
      using i [of "[]"] a belong [of "[]"] res [of "[]"] l w by (auto simp: search_inv_def versions_answered_def Let_def f)
  next
    case (Inr vs)
    have "ts_versionsId d = n \<Longrightarrow> versions_belong (ts_versionsId d) ?a (ts_answers d @ [Versions_Of (re_short e) vs]) (Some (rev vs)) (ts_selected d)"
      using answered by simp
    then show "search_inv (versions_answered n e r x)"
      using Inr i a belong res l w by (auto simp: search_inv_def versions_answered_def Let_def f)
  qed
qed

lemma searches_keep_versions: "versions_belong n (aw @ [Aw_Search m q]) ans vs sel = versions_belong n aw ans vs sel"
  by (cases sel) (simp_all add: versions_belong_def)

lemma runSearch_inv: "search_inv d \<Longrightarrow> search_inv (runSearch d)"
  by (simp add: search_inv_def runSearch_def Let_def results_found_def [of _ None] searches_keep_versions
    await_ok_def query_ok_def
    MIN_QUERY_LEN_def trim_trim) blast

lemma openVersions_inv:
  assumes d: "search_inv d"
  shows "search_inv (openVersions e d)"
proof -
  let ?n = "ts_versionsId d"
  have old: "list_all (await_ok ?n) (ts_awaits d)" using d by (simp add: search_inv_def)
  then have "list_all (await_ok (?n + 1)) (ts_awaits d)"
    by (fastforce simp: await_ok_def list_all_iff split: search_await.splits)
  moreover have "Aw_Versions (Suc ?n) e' \<notin> set (ts_awaits d)" for e'
    using old by (force simp: await_ok_def list_all_iff)
  ultimately show ?thesis
    using d by (auto simp: search_inv_def openVersions_def versions_belong_def await_ok_def)
qed

lemma backToSearch_inv: "search_inv d \<Longrightarrow> search_inv (backToSearch d)"
  by (simp add: search_inv_def backToSearch_def versions_belong_def)

lemma search_opened_inv: "search_inv d \<Longrightarrow> search_inv (search_opened d)"
  by (simp add: search_inv_def search_opened_def versions_belong_def results_found_def)

lemma onInstall_inv:
  "\<lbrakk>search_inv d; install_found (ts_answers d) (i, v, l)\<rbrakk> \<Longrightarrow> search_inv (fst (onInstall i v l (d, p)))"
  by (simp add: search_inv_def onInstall_def)

lemma quick_install_inv:
  assumes "search_inv d" "entry_at k (shownResults d) = Some e"
  shows "search_inv (fst (handleQuickInstall e (d, p)))"
proof -
  obtain es q where "ts_results d = Some es" "e \<in> set es" "Found q es \<in> set (ts_answers d)"
    using assms entry_at_in [OF assms(2)]
    by (auto simp: shownResults_def search_inv_def results_found_def split: option.splits dest: in_set_takeD)
  then have "install_found (ts_answers d) (re_short e, js ''latest'', re_short e)"
    by (force simp: install_found_def list_ex_iff)
  then show ?thesis using assms(1) by (simp add: handleQuickInstall_def onInstall_inv)
qed

lemma install_version_inv:
  assumes "search_inv d" "entry_at k (shownVersions d) = Some v"
  shows "search_inv (fst (handleInstallVersion v (d, p)))"
proof (cases "ts_selected d")
  case (Some e)
  obtain vs where "ts_versions d = Some vs" "v \<in> set vs"
    using entry_at_in [OF assms(2)] by (auto simp: shownVersions_def filteredVersions_def split: option.splits dest!: in_set_takeD)
  then have "install_found (ts_answers d) (re_short e, v, keyFor (re_short e) v)"
    using assms(1) Some by (force simp: install_found_def list_ex_iff search_inv_def versions_belong_def keyFor_def)
  then show ?thesis using assms(1) Some by (simp add: handleInstallVersion_def onInstall_inv)
qed (use assms in \<open>simp add: handleInstallVersion_def\<close>)

lemma search_inv_frame:
  "search_inv (d\<lparr>ts_open := b\<rparr>) = search_inv d" "search_inv (d\<lparr>ts_query := q\<rparr>) = search_inv d"
  "search_inv (d\<lparr>ts_versionFilter := q\<rparr>) = search_inv d"
  by (simp_all add: search_inv_def)

lemma search_step_inv: "search_inv (fst dp) \<Longrightarrow> search_inv (fst (search_step ev dp))"
  by (cases dp; cases ev)
     (auto simp: search_inv_frame search_opened_inv runSearch_inv openVersions_inv backToSearch_inv quick_install_inv
       install_version_inv search_answered_inv versions_answered_inv split: option.split search_await.split)

lemma search_run_inv: "search_inv (fst (search_run es (search_mount, p)))"
proof (induction es rule: rev_induct)
  case Nil
  show ?case by (simp add: search_run_def search_mount_def search_inv_def results_found_def versions_belong_def)
next
  case (snoc ev es)
  then show ?case using search_step_inv by (simp add: search_run_def)
qed

text \<open>C16: Whatever order searches, version lists and their answers come in, a tool is only installed at the latest
version when a search found it, or at a version the server listed for that very tool; the versions shown are the
selected tool's, and a dialog that waits has its request on the way.\<close>

theorem only_found_tools_are_installed:
  "let d = fst (search_run es (search_mount, p))
   in list_all (install_found (ts_answers d)) (ts_installs d) \<and>
      versions_belong (ts_versionsId d) (ts_awaits d) (ts_answers d) (ts_versions d) (ts_selected d) \<and>
      (ts_searching d \<and> list_all (\<lambda>a. case a of Aw_Search n q \<Rightarrow> n \<noteq> ts_searchId d | _ \<Rightarrow> True) (ts_awaits d)) = False \<and>
      (ts_versionsLoading d \<and> list_all (\<lambda>a. case a of Aw_Versions n e \<Rightarrow> n \<noteq> ts_versionsId d | _ \<Rightarrow> True) (ts_awaits d)) = False"
  using search_run_inv [of es p] by (force simp: search_inv_def Let_def list_all_iff)

section \<open>A dialog opened again\<close>

text \<open>
  Neither closing nor opening takes the request back: the answer to the search of the last time fills the new
  dialog, whose field is empty, and the button waits for it.
\<close>

lemma search_outlives_its_dialog:
  assumes "ts_open d" "ts_selected d = None" "\<not> ts_searching d" "ts_awaits d = []" "query_ok (ts_query d)"
  shows "let d' = fst (search_run [Submit_Search, Close_Search, Open_Search, Search_Answer 0 (Inr es)] (d, p))
         in ts_query d' = [] \<and> ts_results d' = Some es"
    and "ts_searching (fst (search_run [Submit_Search, Close_Search, Open_Search] (d, p)))"
  using assms by (simp_all add: search_run_def on_results_def runSearch_def query_ok_def MIN_QUERY_LEN_def search_opened_def
    entry_at_def search_answered_def search_await_done_def Let_def)

text \<open>Choosing a version while a job is known closes the dialog and installs nothing.\<close>

lemma install_while_busy_is_dropped:
  assumes "mise_busy p"
  shows "onInstall i v l (d, p) = (d\<lparr>ts_installs := ts_installs d @ [(i, v, l)], ts_open := False\<rparr>, p)"
  using assms by (simp add: onInstall_def installTool_def)

end
