(* ===== verification/Projects_Page.thy ===== *)
theory Projects_Page
  imports Mise_Page Process_Table
begin

text \<open>
  The projects page: \<open>components/Projects/Projects.tsx\<close>, the table and the detail sheet of \<open>ProjectTable.tsx\<close>, and
  the confirmation dialog they delete through, \<open>components/common/ConfirmDialog.tsx\<close>. The table is taken away
  with everything it holds when there are no projects left, while its requests go on.
\<close>

section \<open>The confirmation dialog\<close>

record confirm_config =
  cg_busy :: bool
  cg_typed :: "ustring option"        \<comment> \<open>\<open>requireTypedConfirmation\<close>\<close>
  cg_checkbox :: bool                 \<comment> \<open>\<open>requireCheckbox\<close> is given\<close>

record confirm_dialog =
  cf_open :: bool
  cf_typedValue :: ustring
  cf_checked :: bool

definition confirm_mount :: confirm_dialog where
  "confirm_mount = \<lparr>cf_open = False, cf_typedValue = [], cf_checked = False\<rparr>"

text \<open>A render with \<open>open\<close>; opening clears what was typed and ticked.\<close>

definition confirm_render :: "bool \<Rightarrow> confirm_dialog \<Rightarrow> confirm_dialog" where
  "confirm_render opn d =
     (if opn \<and> \<not> cf_open d then \<lparr>cf_open = True, cf_typedValue = [], cf_checked = False\<rparr> else d\<lparr>cf_open := opn\<rparr>)"

definition typedOk :: "confirm_config \<Rightarrow> confirm_dialog \<Rightarrow> bool" where
  "typedOk g d \<longleftrightarrow> (case cg_typed g of None \<Rightarrow> True | Some t \<Rightarrow> t = [] \<or> cf_typedValue d = t)"

definition checkboxOk :: "confirm_config \<Rightarrow> confirm_dialog \<Rightarrow> bool" where
  "checkboxOk g d \<longleftrightarrow> cg_checkbox g \<longrightarrow> cf_checked d"

definition confirmDisabled :: "confirm_config \<Rightarrow> confirm_dialog \<Rightarrow> bool" where
  "confirmDisabled g d \<longleftrightarrow> cg_busy g \<or> \<not> typedOk g d \<or> \<not> checkboxOk g d"

text \<open>Escape and a click beside the dialog close it, busy or not; the button for it is disabled while busy.\<close>

datatype confirm_close = Cancel_Button | Escape_Key | Backdrop

definition confirm_closes :: "confirm_config \<Rightarrow> confirm_close \<Rightarrow> bool" where
  "confirm_closes g c \<longleftrightarrow> (c = Cancel_Button \<longrightarrow> \<not> cg_busy g)"

section \<open>Projects\<close>

record reclaimable_entry =
  rc_pattern :: ustring
  rc_path :: ustring
  rc_sizeBytes :: nat

record project =
  pj_root :: ustring
  pj_name :: ustring
  pj_path :: ustring
  pj_totalSizeBytes :: nat
  pj_reclaimable :: "reclaimable_entry list"
  pj_lastModified :: ustring
  pj_scannedAt :: ustring

record projects_data =
  pr_roots :: "ustring list"
  pr_scanning :: bool
  pr_projects :: "project list"

definition handleProjectUpdated :: "project \<Rightarrow> projects_data option \<Rightarrow> projects_data option" where
  "handleProjectUpdated u =
     map_option (\<lambda>d. d\<lparr>pr_projects := map (\<lambda>p. if pj_path p = pj_path u then u else p) (pr_projects d)\<rparr>)"

definition handleProjectDeleted :: "ustring \<Rightarrow> projects_data option \<Rightarrow> projects_data option" where
  "handleProjectDeleted path = map_option (\<lambda>d. d\<lparr>pr_projects := filter (\<lambda>p. pj_path p \<noteq> path) (pr_projects d)\<rparr>)"

text \<open>Sorting; \<open>time\<close> is \<open>new Date(s).getTime()\<close>.\<close>

datatype project_sort = Last_Modified | Total_Size

definition toggle_project_sort :: "project_sort \<Rightarrow> project_sort \<times> sort_dir \<Rightarrow> project_sort \<times> sort_dir" where
  "toggle_project_sort key st =
     (if key = fst st then (key, case snd st of Asc \<Rightarrow> Desc | Desc \<Rightarrow> Asc) else (key, Desc))"

definition compare_projects :: "(ustring \<Rightarrow> rat) \<Rightarrow> project_sort \<times> sort_dir \<Rightarrow> project \<Rightarrow> project \<Rightarrow> rat" where
  "compare_projects time st a b =
     (let cmp = (case fst st of
        Total_Size \<Rightarrow> of_nat (pj_totalSizeBytes a) - of_nat (pj_totalSizeBytes b)
      | Last_Modified \<Rightarrow> time (pj_lastModified a) - time (pj_lastModified b))
      in case snd st of Asc \<Rightarrow> cmp | Desc \<Rightarrow> - cmp)"

definition sorted_projects :: "(ustring \<Rightarrow> rat) \<Rightarrow> project_sort \<times> sort_dir \<Rightarrow> project list \<Rightarrow> project list" where
  "sorted_projects time st ps = js_sort (compare_projects time st) ps"

definition STALE_AFTER_MS :: rat where
  "STALE_AFTER_MS = 60 * 60 * 1000"

definition isStale :: "(ustring \<Rightarrow> rat) \<Rightarrow> rat \<Rightarrow> ustring \<Rightarrow> bool" where
  "isStale time now scannedAt \<longleftrightarrow> now - time scannedAt > STALE_AFTER_MS"

section \<open>State\<close>

text \<open>A table has a number: what an older one still waits for no longer finds it.\<close>

record project_table =
  pt_sort :: "project_sort \<times> sort_dir"
  pt_detailsPath :: "ustring option"
  pt_rescanning :: "ustring set"
  pt_miseTools :: "ustring \<rightharpoonup> mise_tool list"
  pt_miseLoading :: "ustring set"
  pt_pendingDelete :: "(project \<times> reclaimable_entry) option"
  pt_deleting :: bool
  pt_pendingDeleteProject :: "project option"
  pt_deletingProject :: bool
  pt_dialog :: confirm_dialog                    \<comment> \<open>the one that deletes a project\<close>

datatype project_await =
    Pa_Load
  | Pa_Scan
  | Pa_Unlock nat project bool                    \<comment> \<open>\<open>openDetails\<close>; were its tools known or asked for\<close>
  | Pa_Rescan nat ustring
  | Pa_Tools nat ustring
  | Pa_Entry nat project reclaimable_entry
  | Pa_Project nat project "ustring option"       \<comment> \<open>the details shown when it was confirmed\<close>

record projects_page =
  pp_data :: "projects_data option"
  pp_loading :: bool
  pp_loadingRef :: bool
  pp_error :: "api_error option"
  pp_mounted :: bool                              \<comment> \<open>the table is there\<close>
  pp_instance :: nat
  pp_table :: project_table
  pp_awaits :: "project_await list"
  pp_deletions :: "(project \<times> ustring \<times> bool) list"   \<comment> \<open>requests to delete a project, with what was typed and ticked\<close>

definition table_mount :: project_table where
  "table_mount =
     \<lparr>pt_sort = (Last_Modified, Desc), pt_detailsPath = None, pt_rescanning = {}, pt_miseTools = Map.empty, pt_miseLoading = {},
      pt_pendingDelete = None, pt_deleting = False, pt_pendingDeleteProject = None, pt_deletingProject = False,
      pt_dialog = confirm_mount\<rparr>"

definition projects_of :: "projects_page \<Rightarrow> project list" where
  "projects_of s = (case pp_data s of Some d \<Rightarrow> pr_projects d | None \<Rightarrow> [])"

definition scanning_of :: "projects_page \<Rightarrow> bool" where
  "scanning_of s = (case pp_data s of Some d \<Rightarrow> pr_scanning d | None \<Rightarrow> False)"

definition detailsProject :: "projects_page \<Rightarrow> project option" where
  "detailsProject s =
     (case pt_detailsPath (pp_table s) of None \<Rightarrow> None
      | Some path \<Rightarrow> if path = [] then None else find (\<lambda>p. pj_path p = path) (projects_of s))"

definition project_confirm :: "projects_page \<Rightarrow> confirm_config" where
  "project_confirm s =
     \<lparr>cg_busy = pt_deletingProject (pp_table s), cg_typed = map_option pj_name (pt_pendingDeleteProject (pp_table s)), cg_checkbox = True\<rparr>"

definition entry_confirm :: "projects_page \<Rightarrow> confirm_config" where
  "entry_confirm s = \<lparr>cg_busy = pt_deleting (pp_table s), cg_typed = None, cg_checkbox = False\<rparr>"

text \<open>
  After a render: no table without data or with no projects and no scan; the dialogs of a table whose list is
  empty are not shown either.
\<close>

definition table_shown :: "projects_page \<Rightarrow> bool" where
  "table_shown s \<longleftrightarrow> pp_data s \<noteq> None \<and> (projects_of s \<noteq> [] \<or> scanning_of s)"

definition dialog_shown :: "projects_page \<Rightarrow> bool" where
  "dialog_shown s \<longleftrightarrow> projects_of s \<noteq> [] \<and> pt_pendingDeleteProject (pp_table s) \<noteq> None"

definition pp_commit :: "projects_page \<Rightarrow> projects_page" where
  "pp_commit s =
     (if \<not> table_shown s then s\<lparr>pp_mounted := False\<rparr>
      else let s1 = (if pp_mounted s then s
                     else s\<lparr>pp_mounted := True, pp_instance := pp_instance s + 1, pp_table := table_mount\<rparr>)
           in s1\<lparr>pp_table := (pp_table s1)\<lparr>pt_dialog := confirm_render (dialog_shown s1) (pt_dialog (pp_table s1))\<rparr>\<rparr>)"

definition pp_ask :: "project_await \<Rightarrow> projects_page \<Rightarrow> projects_page" where
  "pp_ask a s = s\<lparr>pp_awaits := pp_awaits s @ [a]\<rparr>"

text \<open>An update of the table that asked, if it is still there.\<close>

definition in_table :: "nat \<Rightarrow> (project_table \<Rightarrow> project_table) \<Rightarrow> projects_page \<Rightarrow> projects_page" where
  "in_table n f s = (if pp_mounted s \<and> pp_instance s = n then s\<lparr>pp_table := f (pp_table s)\<rparr> else s)"

definition set_table :: "(project_table \<Rightarrow> project_table) \<Rightarrow> projects_page \<Rightarrow> projects_page" where
  "set_table f s = s\<lparr>pp_table := f (pp_table s)\<rparr>"

section \<open>Loading\<close>

definition pp_load :: "projects_page \<Rightarrow> projects_page" where
  "pp_load s = (if pp_loadingRef s then s else pp_ask Pa_Load (s\<lparr>pp_loadingRef := True, pp_loading := True\<rparr>))"

definition rescanAll :: "projects_page \<Rightarrow> projects_page" where
  "rescanAll s = pp_ask Pa_Scan (s\<lparr>pp_loading := True\<rparr>)"

definition projects_answered :: "api_error + projects_data \<Rightarrow> projects_page \<Rightarrow> projects_page" where
  "projects_answered r s =
     (case r of Inr d \<Rightarrow> s\<lparr>pp_data := Some d, pp_error := None\<rparr> | Inl e \<Rightarrow> s\<lparr>pp_error := Some e\<rparr>)\<lparr>pp_loading := False\<rparr>"

definition load_done :: "api_error + projects_data \<Rightarrow> projects_page \<Rightarrow> projects_page" where
  "load_done r s = (projects_answered r s)\<lparr>pp_loadingRef := False\<rparr>"

definition projects_mount :: projects_page where
  "projects_mount = pp_load
     \<lparr>pp_data = None, pp_loading = True, pp_loadingRef = False, pp_error = None, pp_mounted = False, pp_instance = 0,
      pp_table = table_mount, pp_awaits = [], pp_deletions = []\<rparr>"

section \<open>The table\<close>

definition rescanProject :: "ustring \<Rightarrow> projects_page \<Rightarrow> projects_page" where
  "rescanProject path s =
     pp_ask (Pa_Rescan (pp_instance s) path) (set_table (\<lambda>t. t\<lparr>pt_rescanning := insert path (pt_rescanning t)\<rparr>) s)"

definition rescan_answered :: "nat \<Rightarrow> ustring \<Rightarrow> api_error + project \<Rightarrow> projects_page \<Rightarrow> projects_page" where
  "rescan_answered n path r s =
     in_table n (\<lambda>t. t\<lparr>pt_rescanning := pt_rescanning t - {path}\<rparr>)
       (case r of Inr u \<Rightarrow> s\<lparr>pp_data := handleProjectUpdated u (pp_data s)\<rparr> | Inl e \<Rightarrow> s\<lparr>pp_error := Some e\<rparr>)"

definition loadMiseTools :: "bool \<Rightarrow> nat \<Rightarrow> ustring \<Rightarrow> projects_page \<Rightarrow> projects_page" where
  "loadMiseTools known n path s =
     (if known then s
      else pp_ask (Pa_Tools n path) (in_table n (\<lambda>t. t\<lparr>pt_miseLoading := insert path (pt_miseLoading t)\<rparr>) s))"

definition project_tools_answered :: "nat \<Rightarrow> ustring \<Rightarrow> api_error + mise_tool list \<Rightarrow> projects_page \<Rightarrow> projects_page" where
  "project_tools_answered n path r s =
     in_table n (\<lambda>t. t\<lparr>pt_miseLoading := pt_miseLoading t - {path}\<rparr>)
       (case r of Inr ts \<Rightarrow> in_table n (\<lambda>t. t\<lparr>pt_miseTools := (pt_miseTools t)(path \<mapsto> ts)\<rparr>) s
        | Inl e \<Rightarrow> s\<lparr>pp_error := Some e\<rparr>)"

definition openDetails :: "project \<Rightarrow> projects_page \<Rightarrow> projects_page" where
  "openDetails p s =
     pp_ask (Pa_Unlock (pp_instance s) p
       (pt_miseTools (pp_table s) (pj_path p) \<noteq> None \<or> pj_path p \<in> pt_miseLoading (pp_table s))) s"

text \<open>After \<open>ensureUnlocked\<close>; what follows runs even when the table has gone.\<close>

definition details_unlocked :: "nat \<Rightarrow> project \<Rightarrow> bool \<Rightarrow> bool \<Rightarrow> bool \<Rightarrow> projects_page \<Rightarrow> projects_page" where
  "details_unlocked n p known unlocked stale s =
     (if \<not> unlocked then s
      else let s1 = in_table n (\<lambda>t. t\<lparr>pt_detailsPath := Some (pj_path p)\<rparr>) s;
               s2 = (if stale then pp_ask (Pa_Rescan n (pj_path p))
                       (in_table n (\<lambda>t. t\<lparr>pt_rescanning := insert (pj_path p) (pt_rescanning t)\<rparr>) s1) else s1)
           in loadMiseTools known n (pj_path p) s2)"

definition open_initial :: "ustring \<Rightarrow> projects_page \<Rightarrow> projects_page" where
  "open_initial path s =
     (if path = [] then s else case find (\<lambda>p. pj_path p = path) (projects_of s) of None \<Rightarrow> s | Some p \<Rightarrow> openDetails p s)"

section \<open>Deleting\<close>

definition confirm_entry :: "projects_page \<Rightarrow> projects_page" where
  "confirm_entry s =
     (case pt_pendingDelete (pp_table s) of
        None \<Rightarrow> s
      | Some (p, e) \<Rightarrow> pp_ask (Pa_Entry (pp_instance s) p e) (set_table (\<lambda>t. t\<lparr>pt_deleting := True\<rparr>) s))"

definition entry_deleted :: "nat \<Rightarrow> api_error + project \<Rightarrow> projects_page \<Rightarrow> projects_page" where
  "entry_deleted n r s =
     in_table n (\<lambda>t. t\<lparr>pt_deleting := False\<rparr>)
       (case r of
          Inr u \<Rightarrow> in_table n (\<lambda>t. t\<lparr>pt_pendingDelete := None\<rparr>) (s\<lparr>pp_data := handleProjectUpdated u (pp_data s)\<rparr>)
        | Inl e \<Rightarrow> s\<lparr>pp_error := Some e\<rparr>)"

definition confirmDeleteProject :: "projects_page \<Rightarrow> projects_page" where
  "confirmDeleteProject s =
     (case pt_pendingDeleteProject (pp_table s) of
        None \<Rightarrow> s
      | Some p \<Rightarrow>
          (pp_ask (Pa_Project (pp_instance s) p (pt_detailsPath (pp_table s)))
            (set_table (\<lambda>t. t\<lparr>pt_deletingProject := True\<rparr>) s))
            \<lparr>pp_deletions := pp_deletions s @ [(p, cf_typedValue (pt_dialog (pp_table s)), cf_checked (pt_dialog (pp_table s)))]\<rparr>)"

definition project_deleted :: "nat \<Rightarrow> project \<Rightarrow> ustring option \<Rightarrow> api_error + unit \<Rightarrow> projects_page \<Rightarrow> projects_page" where
  "project_deleted n p details r s =
     in_table n (\<lambda>t. t\<lparr>pt_deletingProject := False\<rparr>)
       (case r of
          Inr u \<Rightarrow> in_table n (\<lambda>t. t\<lparr>pt_pendingDeleteProject := None,
                                     pt_detailsPath := (if details = Some (pj_path p) then None else pt_detailsPath t)\<rparr>)
                     (s\<lparr>pp_data := handleProjectDeleted (pj_path p) (pp_data s)\<rparr>)
        | Inl e \<Rightarrow> s\<lparr>pp_error := Some e\<rparr>)"

section \<open>Steps\<close>

datatype project_event =
    Rescan_All
  | Scan_Tick
  | Reload_Projects                     \<comment> \<open>a clone has ended\<close>
  | Dismiss_Projects_Error
  | Sort_By project_sort
  | Rescan_Row project
  | Open_Row project
  | Open_Initial ustring
  | Close_Details
  | Ask_Entry reclaimable_entry
  | Close_Entry confirm_close
  | Confirm_Entry
  | Ask_Project project
  | Close_Project confirm_close
  | Type_Project_Name ustring
  | Tick_Project bool
  | Confirm_Project
  | Projects_Answer nat "api_error + projects_data"
  | Unlock_Answer nat bool bool
  | Rescan_Answer nat "api_error + project"
  | Tool_List_Answer nat "api_error + mise_tool list"
  | Deleted_Answer nat "api_error + unit"

definition pp_await_at :: "nat \<Rightarrow> projects_page \<Rightarrow> project_await option" where
  "pp_await_at k s = (if k < length (pp_awaits s) then Some (pp_awaits s ! k) else None)"

definition pp_answered :: "nat \<Rightarrow> projects_page \<Rightarrow> projects_page" where
  "pp_answered k s = s\<lparr>pp_awaits := take k (pp_awaits s) @ drop (Suc k) (pp_awaits s)\<rparr>"

text \<open>A row of the table, which shows rows and dialogs only while there are projects.\<close>

definition row_shown :: "project \<Rightarrow> projects_page \<Rightarrow> bool" where
  "row_shown p s \<longleftrightarrow> pp_mounted s \<and> p \<in> set (projects_of s)"

definition table_active :: "projects_page \<Rightarrow> bool" where
  "table_active s \<longleftrightarrow> pp_mounted s \<and> projects_of s \<noteq> []"

fun pp_handle :: "project_event \<Rightarrow> projects_page \<Rightarrow> projects_page" where
  "pp_handle Rescan_All s = (if pp_loading s then s else rescanAll s)"
| "pp_handle Scan_Tick s = (if scanning_of s then pp_load s else s)"
| "pp_handle Reload_Projects s = pp_load s"
| "pp_handle Dismiss_Projects_Error s = s\<lparr>pp_error := None\<rparr>"
| "pp_handle (Sort_By k) s =
     (if table_active s then set_table (\<lambda>t. t\<lparr>pt_sort := toggle_project_sort k (pt_sort t)\<rparr>) s else s)"
| "pp_handle (Rescan_Row p) s =
     (if row_shown p s \<and> pj_path p \<notin> pt_rescanning (pp_table s) then rescanProject (pj_path p) s else s)"
| "pp_handle (Open_Row p) s = (if row_shown p s then openDetails p s else s)"
| "pp_handle (Open_Initial path) s = (if pp_mounted s then open_initial path s else s)"
| "pp_handle Close_Details s = (if table_active s then set_table (\<lambda>t. t\<lparr>pt_detailsPath := None\<rparr>) s else s)"
| "pp_handle (Ask_Entry e) s =
     (case detailsProject s of
        Some p \<Rightarrow> if pp_mounted s \<and> e \<in> set (pj_reclaimable p) then set_table (\<lambda>t. t\<lparr>pt_pendingDelete := Some (p, e)\<rparr>) s else s
      | None \<Rightarrow> s)"
| "pp_handle (Close_Entry c) s =
     (if table_active s \<and> confirm_closes (entry_confirm s) c then set_table (\<lambda>t. t\<lparr>pt_pendingDelete := None\<rparr>) s else s)"
| "pp_handle Confirm_Entry s = (if table_active s \<and> \<not> confirmDisabled (entry_confirm s) confirm_mount then confirm_entry s else s)"
| "pp_handle (Ask_Project p) s =
     (if row_shown p s then set_table (\<lambda>t. t\<lparr>pt_pendingDeleteProject := Some p\<rparr>) s else s)"
| "pp_handle (Close_Project c) s =
     (if table_active s \<and> confirm_closes (project_confirm s) c
      then set_table (\<lambda>t. t\<lparr>pt_pendingDeleteProject := None\<rparr>) s else s)"
| "pp_handle (Type_Project_Name v) s =
     (if table_active s \<and> cf_open (pt_dialog (pp_table s)) \<and> \<not> pt_deletingProject (pp_table s)
      then set_table (\<lambda>t. t\<lparr>pt_dialog := (pt_dialog t)\<lparr>cf_typedValue := v\<rparr>\<rparr>) s else s)"
| "pp_handle (Tick_Project b) s =
     (if table_active s \<and> cf_open (pt_dialog (pp_table s)) \<and> \<not> pt_deletingProject (pp_table s)
      then set_table (\<lambda>t. t\<lparr>pt_dialog := (pt_dialog t)\<lparr>cf_checked := b\<rparr>\<rparr>) s else s)"
| "pp_handle Confirm_Project s =
     (if table_active s \<and> \<not> confirmDisabled (project_confirm s) (pt_dialog (pp_table s)) then confirmDeleteProject s else s)"
| "pp_handle (Projects_Answer k r) s =
     (case pp_await_at k s of
        Some Pa_Load \<Rightarrow> load_done r (pp_answered k s)
      | Some Pa_Scan \<Rightarrow> projects_answered r (pp_answered k s)
      | _ \<Rightarrow> s)"
| "pp_handle (Unlock_Answer k unlocked stale) s =
     (case pp_await_at k s of Some (Pa_Unlock n p known) \<Rightarrow> details_unlocked n p known unlocked stale (pp_answered k s) | _ \<Rightarrow> s)"
| "pp_handle (Rescan_Answer k r) s =
     (case pp_await_at k s of
        Some (Pa_Rescan n path) \<Rightarrow> rescan_answered n path r (pp_answered k s)
      | Some (Pa_Entry n p e) \<Rightarrow> entry_deleted n r (pp_answered k s)
      | _ \<Rightarrow> s)"
| "pp_handle (Tool_List_Answer k r) s =
     (case pp_await_at k s of Some (Pa_Tools n path) \<Rightarrow> project_tools_answered n path r (pp_answered k s) | _ \<Rightarrow> s)"
| "pp_handle (Deleted_Answer k r) s =
     (case pp_await_at k s of Some (Pa_Project n p d) \<Rightarrow> project_deleted n p d r (pp_answered k s) | _ \<Rightarrow> s)"

definition pp_step :: "project_event \<Rightarrow> projects_page \<Rightarrow> projects_page" where
  "pp_step ev s = pp_commit (pp_handle ev s)"

definition pp_run :: "project_event list \<Rightarrow> projects_page \<Rightarrow> projects_page" where
  "pp_run es s = fold pp_step es s"

section \<open>What is marked as busy has a request on its way\<close>

type_synonym busy_marks = "ustring set \<times> ustring set \<times> bool \<times> bool"

definition marks :: "project_table \<Rightarrow> busy_marks" where
  "marks t = (pt_rescanning t, pt_miseLoading t, pt_deleting t, pt_deletingProject t)"

definition is_entry :: "nat \<Rightarrow> project_await \<Rightarrow> bool" where
  "is_entry n a \<longleftrightarrow> (case a of Pa_Entry m p e \<Rightarrow> m = n | _ \<Rightarrow> False)"

definition is_project :: "nat \<Rightarrow> project_await \<Rightarrow> bool" where
  "is_project n a \<longleftrightarrow> (case a of Pa_Project m p d \<Rightarrow> m = n | _ \<Rightarrow> False)"

definition await_table :: "project_await \<Rightarrow> nat" where
  "await_table a = (case a of Pa_Unlock n p b \<Rightarrow> n | Pa_Rescan n q \<Rightarrow> n | Pa_Tools n q \<Rightarrow> n | Pa_Entry n p e \<Rightarrow> n
     | Pa_Project n p d \<Rightarrow> n | _ \<Rightarrow> 0)"

definition marks_ok :: "nat \<Rightarrow> busy_marks \<Rightarrow> project_await list \<Rightarrow> bool" where
  "marks_ok n m aw \<longleftrightarrow> (case m of (rs, ml, de, dp) \<Rightarrow>
     (\<forall>q \<in> rs. Pa_Rescan n q \<in> set aw) \<and> (\<forall>q \<in> ml. Pa_Tools n q \<in> set aw) \<and>
     length (filter (is_entry n) aw) = of_bool de \<and> length (filter (is_project n) aw) = of_bool dp)"

text \<open>What an answer clears in the table it belongs to.\<close>

definition unmark :: "nat \<Rightarrow> project_await \<Rightarrow> busy_marks \<Rightarrow> busy_marks" where
  "unmark n a m = (case m of (rs, ml, de, dp) \<Rightarrow>
     (case a of
        Pa_Rescan k q \<Rightarrow> if k = n then (rs - {q}, ml, de, dp) else m
      | Pa_Tools k q \<Rightarrow> if k = n then (rs, ml - {q}, de, dp) else m
      | Pa_Entry k p e \<Rightarrow> if k = n then (rs, ml, False, dp) else m
      | Pa_Project k p d \<Rightarrow> if k = n then (rs, ml, de, False) else m
      | _ \<Rightarrow> m))"

definition typed_ok :: "project \<times> ustring \<times> bool \<Rightarrow> bool" where
  "typed_ok x \<longleftrightarrow> (case x of (p, typed, ticked) \<Rightarrow> (pj_name p = [] \<or> typed = pj_name p) \<and> ticked)"

definition loads_ok :: "projects_page \<Rightarrow> bool" where
  "loads_ok s \<longleftrightarrow> length (filter (\<lambda>a. a = Pa_Load) (pp_awaits s)) = of_bool (pp_loadingRef s) \<and>
     (pp_loading s \<longrightarrow> Pa_Load \<in> set (pp_awaits s) \<or> Pa_Scan \<in> set (pp_awaits s))"

definition pp_inv :: "projects_page \<Rightarrow> bool" where
  "pp_inv s \<longleftrightarrow> list_all typed_ok (pp_deletions s) \<and> list_all (\<lambda>a. await_table a \<le> pp_instance s) (pp_awaits s) \<and>
     (pp_mounted s \<longrightarrow> marks_ok (pp_instance s) (marks (pp_table s)) (pp_awaits s)) \<and> loads_ok s"

lemma answered_split:
  assumes "pp_await_at k s = Some a"
  obtains xs ys where "pp_awaits s = xs @ a # ys" "pp_awaits (pp_answered k s) = xs @ ys"
proof
  show "pp_awaits s = take k (pp_awaits s) @ a # drop (Suc k) (pp_awaits s)"
    using assms id_take_nth_drop [of k "pp_awaits s"] by (auto simp: pp_await_at_def split: if_splits)
  show "pp_awaits (pp_answered k s) = take k (pp_awaits s) @ drop (Suc k) (pp_awaits s)" by (simp add: pp_answered_def)
qed

lemma answered_marks:
  assumes "marks_ok n m (xs @ a # ys)"
  shows "marks_ok n (unmark n a m) (xs @ ys)"
  using assms
  by (cases a; cases m)
     (auto simp: marks_ok_def unmark_def is_entry_def is_project_def of_bool_def split: if_splits)

lemma pp_inv_commit: "pp_inv s \<Longrightarrow> pp_inv (pp_commit s)"
proof -
  assume s: "pp_inv s"
  have old: "filter (is_entry (Suc (pp_instance s))) (pp_awaits s) = []"
    "filter (is_project (Suc (pp_instance s))) (pp_awaits s) = []"
    using s by (fastforce simp: pp_inv_def list_all_iff filter_empty_conv is_entry_def is_project_def await_table_def
      split: project_await.splits)+
  have "list_all (\<lambda>a. await_table a \<le> Suc (pp_instance s)) (pp_awaits s)"
    using s by (fastforce simp: pp_inv_def list_all_iff)
  then show ?thesis using s old
    by (auto simp: pp_inv_def pp_commit_def Let_def marks_def table_mount_def marks_ok_def loads_ok_def)
qed

text \<open>A step that marks nothing and asks for nothing that is marked.\<close>

lemma pp_frame:
  assumes "pp_inv s" "pp_mounted s' = pp_mounted s" "pp_instance s' = pp_instance s"
    "pp_mounted s \<longrightarrow> marks (pp_table s') = marks (pp_table s)" "pp_awaits s' = pp_awaits s"
    "pp_deletions s' = pp_deletions s" "pp_loadingRef s' = pp_loadingRef s" "pp_loading s' = pp_loading s"
  shows "pp_inv s'"
  using assms by (simp add: pp_inv_def loads_ok_def)

lemma table_frame:
  "\<lbrakk>pp_inv s; marks (f (pp_table s)) = marks (pp_table s)\<rbrakk> \<Longrightarrow> pp_inv (set_table f s)"
  by (rule pp_frame) (simp_all add: set_table_def)

lemma pp_load_inv: "pp_inv s \<Longrightarrow> pp_inv (pp_load s)"
  by (auto simp: pp_inv_def pp_load_def pp_ask_def loads_ok_def marks_ok_def is_entry_def is_project_def await_table_def)

lemma rescanAll_inv: "pp_inv s \<Longrightarrow> pp_inv (rescanAll s)"
  by (auto simp: pp_inv_def rescanAll_def pp_ask_def loads_ok_def marks_ok_def is_entry_def is_project_def await_table_def)

lemma rescanProject_inv: "pp_inv s \<Longrightarrow> pp_inv (rescanProject q s)"
  by (auto simp: pp_inv_def rescanProject_def pp_ask_def set_table_def loads_ok_def marks_def marks_ok_def is_entry_def is_project_def
    await_table_def)

lemma openDetails_inv: "pp_inv s \<Longrightarrow> pp_inv (openDetails p s)"
  by (auto simp: pp_inv_def openDetails_def pp_ask_def loads_ok_def marks_ok_def is_entry_def is_project_def await_table_def)

lemma confirm_entry_inv: "pp_inv s \<Longrightarrow> \<not> pt_deleting (pp_table s) \<Longrightarrow> pp_inv (confirm_entry s)"
  by (auto simp: pp_inv_def confirm_entry_def pp_ask_def set_table_def loads_ok_def marks_def marks_ok_def is_entry_def is_project_def
    await_table_def split: option.split)

lemma confirm_project_inv:
  assumes "pp_inv s" "\<not> confirmDisabled (project_confirm s) (pt_dialog (pp_table s))"
  shows "pp_inv (confirmDeleteProject s)"
proof (cases "pt_pendingDeleteProject (pp_table s)")
  case (Some p)
  then have "typed_ok (p, cf_typedValue (pt_dialog (pp_table s)), cf_checked (pt_dialog (pp_table s)))"
    using assms(2) by (simp add: confirmDisabled_def project_confirm_def typedOk_def checkboxOk_def typed_ok_def)
  moreover have "\<not> pt_deletingProject (pp_table s)" using assms(2) by (simp add: confirmDisabled_def project_confirm_def)
  ultimately show ?thesis using assms(1) Some
    by (auto simp: pp_inv_def confirmDeleteProject_def pp_ask_def set_table_def loads_ok_def marks_def marks_ok_def is_entry_def
      is_project_def await_table_def)
qed (use assms in \<open>simp add: confirmDeleteProject_def\<close>)

text \<open>An answer: what remains of the state when its request is gone and its mark with it.\<close>

lemma answered_inv:
  assumes s: "pp_inv s" and k: "pp_await_at k s = Some a" and a: "a \<noteq> Pa_Load" "a \<noteq> Pa_Scan"
    and s': "pp_mounted s' = pp_mounted s" "pp_instance s' = pp_instance s" "pp_awaits s' = pp_awaits (pp_answered k s)"
      "pp_deletions s' = pp_deletions s" "pp_loadingRef s' = pp_loadingRef s" "pp_loading s' = pp_loading s"
    and m: "pp_mounted s \<Longrightarrow> marks (pp_table s') = unmark (pp_instance s) a (marks (pp_table s))"
  shows "pp_inv s'"
proof -
  obtain xs ys where split: "pp_awaits s = xs @ a # ys" and aw: "pp_awaits s' = xs @ ys"
    using answered_split [OF k] s'(3) by metis
  have "loads_ok s'" using s a by (auto simp: pp_inv_def loads_ok_def split aw s'(5,6))
  moreover have "pp_mounted s' \<Longrightarrow> marks_ok (pp_instance s') (marks (pp_table s')) (pp_awaits s')"
    using s answered_marks m by (simp add: pp_inv_def split aw s'(1,2))
  ultimately show ?thesis using s by (simp add: pp_inv_def split aw s'(2,4))
qed

lemma pp_answered_fields [simp]:
  "pp_table (pp_answered k s) = pp_table s" "pp_mounted (pp_answered k s) = pp_mounted s" "pp_instance (pp_answered k s) = pp_instance s"
  "pp_deletions (pp_answered k s) = pp_deletions s" "pp_loadingRef (pp_answered k s) = pp_loadingRef s"
  "pp_loading (pp_answered k s) = pp_loading s"
  by (simp_all add: pp_answered_def)

lemma in_table_fields [simp]:
  "pp_mounted (in_table n f s) = pp_mounted s" "pp_instance (in_table n f s) = pp_instance s" "pp_awaits (in_table n f s) = pp_awaits s"
  "pp_deletions (in_table n f s) = pp_deletions s" "pp_loadingRef (in_table n f s) = pp_loadingRef s"
  "pp_loading (in_table n f s) = pp_loading s" "pp_data (in_table n f s) = pp_data s"
  "pp_table (in_table n f s) = (if pp_mounted s \<and> pp_instance s = n then f (pp_table s) else pp_table s)"
  by (simp_all add: in_table_def)

lemma table_answers_inv:
  assumes s: "pp_inv s"
  shows "pp_await_at k s = Some (Pa_Rescan n q) \<Longrightarrow> pp_inv (rescan_answered n q r (pp_answered k s))"
    and "pp_await_at k s = Some (Pa_Tools n q) \<Longrightarrow> pp_inv (project_tools_answered n q rt (pp_answered k s))"
    and "pp_await_at k s = Some (Pa_Entry n p e) \<Longrightarrow> pp_inv (entry_deleted n r (pp_answered k s))"
    and "pp_await_at k s = Some (Pa_Project n p d) \<Longrightarrow> pp_inv (project_deleted n p d ru (pp_answered k s))"
  by (erule answered_inv [OF s];
      simp add: rescan_answered_def project_tools_answered_def entry_deleted_def project_deleted_def marks_def unmark_def
        split: sum.split)+

lemma mark_requests:
  assumes "pp_inv s" "n \<le> pp_instance s"
  shows "pp_inv (pp_ask (Pa_Rescan n q) (in_table n (\<lambda>t. t\<lparr>pt_rescanning := insert q (pt_rescanning t)\<rparr>) s))"
    and "pp_inv (pp_ask (Pa_Tools n q) (in_table n (\<lambda>t. t\<lparr>pt_miseLoading := insert q (pt_miseLoading t)\<rparr>) s))"
  using assms
  by (auto simp: pp_inv_def pp_ask_def loads_ok_def marks_def marks_ok_def is_entry_def is_project_def await_table_def)

lemma unlock_inv:
  assumes s: "pp_inv s" and k: "pp_await_at k s = Some (Pa_Unlock n p known)"
  shows "pp_inv (details_unlocked n p known unlocked stale (pp_answered k s))"
proof -
  obtain xs ys where "pp_awaits s = xs @ Pa_Unlock n p known # ys" by (rule answered_split [OF k])
  then have n: "n \<le> pp_instance s" using s by (simp add: pp_inv_def await_table_def)
  have base: "pp_inv (pp_answered k s)"
    by (rule answered_inv [OF s k]) (simp_all add: unmark_def split: prod.split)
  then have open1: "pp_inv (in_table n (\<lambda>t. t\<lparr>pt_detailsPath := Some (pj_path p)\<rparr>) (pp_answered k s))" (is "pp_inv ?s1")
    by (rule pp_frame) (simp_all add: marks_def)
  let ?s2 = "if stale then pp_ask (Pa_Rescan n (pj_path p))
      (in_table n (\<lambda>t. t\<lparr>pt_rescanning := insert (pj_path p) (pt_rescanning t)\<rparr>) ?s1) else ?s1"
  have "pp_inv ?s2" "n \<le> pp_instance ?s2" using open1 n mark_requests(1) [OF open1] by (simp_all add: pp_ask_def)
  then have "pp_inv (loadMiseTools known n (pj_path p) ?s2)" using mark_requests(2) by (simp add: loadMiseTools_def)
  then show ?thesis using base by (simp add: details_unlocked_def Let_def)
qed

lemma data_answered_inv:
  assumes s: "pp_inv s" and k: "pp_await_at k s = Some a" and a: "a = Pa_Load \<or> a = Pa_Scan"
    and s': "pp_mounted s' = pp_mounted s" "pp_instance s' = pp_instance s" "pp_table s' = pp_table s"
      "pp_awaits s' = pp_awaits (pp_answered k s)" "pp_deletions s' = pp_deletions s" "\<not> pp_loading s'"
      "pp_loadingRef s' = (a \<noteq> Pa_Load \<and> pp_loadingRef s)"
  shows "pp_inv s'"
proof -
  obtain xs ys where split: "pp_awaits s = xs @ a # ys" and aw: "pp_awaits s' = xs @ ys"
    using answered_split [OF k] s'(4) by metis
  have "unmark n a m = m" for n m using a by (auto simp: unmark_def split: prod.split)
  then have "marks_ok (pp_instance s) (marks (pp_table s)) (xs @ ys)" if "pp_mounted s"
    using s answered_marks [of "pp_instance s" "marks (pp_table s)" xs a ys] that by (simp add: pp_inv_def split)
  moreover have "loads_ok s'" using s a by (auto simp: pp_inv_def loads_ok_def split aw s'(6,7) of_bool_def split: if_splits)
  ultimately show ?thesis using s by (simp add: pp_inv_def split aw s'(1,2,3,5))
qed

lemma loads_answered:
  assumes s: "pp_inv s"
  shows "pp_await_at k s = Some Pa_Load \<Longrightarrow> pp_inv (load_done r (pp_answered k s))"
    and "pp_await_at k s = Some Pa_Scan \<Longrightarrow> pp_inv (projects_answered r (pp_answered k s))"
  by (erule data_answered_inv [OF s]; simp add: load_done_def projects_answered_def split: sum.split)+

lemma pp_handle_inv: "pp_inv s \<Longrightarrow> pp_inv (pp_handle ev s)"
proof (cases ev)
  case Confirm_Entry
  assume "pp_inv s"
  then show ?thesis using Confirm_Entry confirm_entry_inv by (simp add: confirmDisabled_def entry_confirm_def)
qed (auto simp: pp_load_inv rescanAll_inv rescanProject_inv openDetails_inv confirm_project_inv open_initial_def loads_answered unlock_inv
  table_answers_inv marks_def split: option.split project_await.split intro!: table_frame elim!: pp_frame)

lemma pp_mount_inv: "pp_inv projects_mount"
  by (simp add: projects_mount_def pp_load_def pp_ask_def pp_inv_def loads_ok_def await_table_def)

lemma pp_run_inv: "pp_inv (pp_run es projects_mount)"
proof (induction es rule: rev_induct)
  case (snoc ev es)
  then show ?case by (simp add: pp_run_def pp_step_def pp_inv_commit pp_handle_inv)
qed (simp add: pp_run_def pp_mount_inv)

text \<open>C9: Every request to delete a project was confirmed with its exact name typed and the box ticked, and at most one
of them, and one deletion of a folder inside a project, is under way for the table on screen at a time.\<close>

theorem project_deletions_were_typed:
  "let s = pp_run es projects_mount
   in list_all (\<lambda>(p, typed, ticked). (pj_name p = [] \<or> typed = pj_name p) \<and> ticked) (pp_deletions s) \<and>
      (pp_mounted s \<and> length (filter (is_project (pp_instance s)) (pp_awaits s)) \<noteq> of_bool (pt_deletingProject (pp_table s))) = False \<and>
      (pp_mounted s \<and> length (filter (is_entry (pp_instance s)) (pp_awaits s)) \<noteq> of_bool (pt_deleting (pp_table s))) = False"
  using pp_run_inv [of es] by (auto simp: Let_def pp_inv_def typed_ok_def list_all_iff marks_ok_def marks_def)


section \<open>The order of the rows\<close>

interpretation project_compare: consistent_compare "compare_projects time st" for time st
  by unfold_locales (cases "fst st"; cases "snd st"; force simp: compare_projects_def)+

lemma rows_are_sorted:
  "mset (sorted_projects time st ps) = mset ps \<and>
   sorted_wrt (\<lambda>a b. compare_projects time st a b \<le> 0) (sorted_projects time st ps)"
  by (simp add: sorted_projects_def project_compare.sorted_js_sort)

section \<open>Answers that come late\<close>

definition demo_project :: "ustring \<Rightarrow> project" where
  "demo_project n = \<lparr>pj_root = js ''/p'', pj_name = n, pj_path = js ''/p/'' @ n, pj_totalSizeBytes = 0, pj_reclaimable = [],
     pj_lastModified = [], pj_scannedAt = []\<rparr>"

definition demo_answer :: "bool \<Rightarrow> project list \<Rightarrow> api_error + projects_data" where
  "demo_answer scanning ps = Inr \<lparr>pr_roots = [js ''/p''], pr_scanning = scanning, pr_projects = ps\<rparr>"

definition demo_delete :: "project \<Rightarrow> project_event list" where
  "demo_delete p = [Ask_Project p, Type_Project_Name (pj_name p), Tick_Project True, Confirm_Project]"

text \<open>A list asked for before a project was deleted brings it back.\<close>

lemma deleted_project_comes_back:
  "let a = demo_project (js ''a''); b = demo_project (js ''b'');
       s = pp_run ([Projects_Answer 0 (demo_answer False [a, b]), Reload_Projects] @ demo_delete a @ [Deleted_Answer 1 (Inr ())])
             projects_mount
   in projects_of s = [b] \<and> projects_of (pp_step (Projects_Answer 0 (demo_answer False [a, b])) s) = [a, b]"
  by code_simp

text \<open>
  A deletion remembers the sheet that was open when it was confirmed: closed by Escape meanwhile, it takes away
  the sheet of another project when it succeeds, and leaves the deleted one selected when it was opened since.
\<close>

lemma deletion_closes_another_sheet:
  "let a = demo_project (js ''a''); b = demo_project (js ''b'');
       s = pp_run ([Projects_Answer 0 (demo_answer False [a, b]), Open_Row a, Unlock_Answer 0 True False] @ demo_delete a @
             [Close_Project Escape_Key, Close_Details, Open_Row b, Unlock_Answer 2 True False]) projects_mount
   in detailsProject s = Some b \<and> detailsProject (pp_step (Deleted_Answer 1 (Inr ())) s) = None"
  by code_simp

lemma deleted_project_stays_selected:
  "let a = demo_project (js ''a''); b = demo_project (js ''b'');
       s = pp_run ([Projects_Answer 0 (demo_answer False [a, b])] @ demo_delete a @
             [Close_Project Backdrop, Open_Row a, Unlock_Answer 1 True False, Deleted_Answer 0 (Inr ())]) projects_mount
   in projects_of s = [b] \<and> pt_detailsPath (pp_table s) = Some (pj_path a)"
  by code_simp

text \<open>A list asked for before the scan was answered overwrites its result.\<close>

lemma older_list_overwrites_scan:
  "let a = demo_project (js ''a''); b = demo_project (js ''b'');
       s = pp_run [Projects_Answer 0 (demo_answer True [a]), Rescan_All, Scan_Tick,
             Projects_Answer 0 (demo_answer False [a, b]), Projects_Answer 0 (demo_answer True [a])] projects_mount
   in projects_of s = [a] \<and> scanning_of s"
  by code_simp

end
