(* ===== verification/Authorized_Keys.thy ===== *)
theory Authorized_Keys
  imports Prelude "HOL-Library.Multiset"
begin

text \<open>
  The \<open>authorized_keys\<close> file as the backend edits it, \<open>internal/sshkeys/sshkeys.go\<close>: entries are the lines that are
  a key or a comment. Parsing a public key is \<open>golang.org/x/crypto/ssh\<close> and an argument, so is SHA-256; failures
  of the file system are left out.
\<close>

section \<open>Lines\<close>

text \<open>\<open>unicode.IsSpace\<close> and \<open>strings.TrimSpace\<close>.\<close>

definition go_space :: "codeunit \<Rightarrow> bool" where
  "go_space u \<longleftrightarrow> 9 \<le> u \<and> u \<le> 13 \<or> 0x2000 \<le> u \<and> u \<le> 0x200a \<or>
     List.member [0x20, 0x85, 0xa0, 0x1680, 0x2028, 0x2029, 0x202f, 0x205f, 0x3000] u"

text \<open>How white space is decided when a concrete text is evaluated.\<close>

lemma go_space_code [code]:
  "go_space u \<longleftrightarrow>
     (if u < 0x85 then u = 0x20 \<or> 9 \<le> u \<and> u \<le> 13
      else u \<in> {0x85, 0xa0, 0x1680, 0x2028, 0x2029, 0x202f, 0x205f, 0x3000} \<or> 0x2000 \<le> u \<and> u \<le> 0x200a)"
  by (auto simp: go_space_def)

definition TrimSpace :: "ustring \<Rightarrow> ustring" where
  "TrimSpace s = rev (dropWhile go_space (rev (dropWhile go_space s)))"

record ssh_key =
  sk_id :: ustring
  sk_type :: ustring
  sk_comment :: ustring
  sk_fingerprint :: ustring
  sk_raw :: ustring

datatype ssh_entry =
    Key_Entry ssh_key
  | Comment_Entry (ce_id: ustring) (ce_text: ustring)

fun se_id :: "ssh_entry \<Rightarrow> ustring" where
  "se_id (Key_Entry k) = sk_id k"
| "se_id (Comment_Entry i t) = i"

text \<open>What \<open>Reorder\<close> writes for an entry.\<close>

fun entry_line :: "ssh_entry \<Rightarrow> ustring" where
  "entry_line (Key_Entry k) = sk_raw k"
| "entry_line (Comment_Entry i t) = t"

text \<open>\<open>ParseAuthorizedKey\<close> with \<open>computeID\<close>, \<open>Type\<close> and \<open>FingerprintSHA256\<close>: id, type, comment, fingerprint.\<close>

type_synonym key_parser = "ustring \<Rightarrow> (ustring \<times> ustring \<times> ustring \<times> ustring) option"

definition HASH_SIGN :: codeunit where
  "HASH_SIGN = 0x23"

definition multi_line :: "ustring \<Rightarrow> bool" where
  "multi_line s \<longleftrightarrow> 0x0a \<in> set s \<or> 0x0d \<in> set s"

definition parseLine :: "key_parser \<Rightarrow> ustring \<Rightarrow> ssh_key option" where
  "parseLine pk line =
     (let trimmed = TrimSpace line
      in if trimmed = [] \<or> hd trimmed = HASH_SIGN then None
         else if multi_line trimmed then None
         else map_option (\<lambda>(i, ty, c, f). \<lparr>sk_id = i, sk_type = ty, sk_comment = c, sk_fingerprint = f, sk_raw = trimmed\<rparr>)
                (pk trimmed))"

definition computeCommentID :: "(ustring \<Rightarrow> ustring) \<Rightarrow> nat \<Rightarrow> ustring \<Rightarrow> ustring" where
  "computeCommentID sha i t = sha (show_nat i @ 0x3a # t)"

definition parseEntry :: "key_parser \<Rightarrow> (ustring \<Rightarrow> ustring) \<Rightarrow> nat \<Rightarrow> ustring \<Rightarrow> ssh_entry option" where
  "parseEntry pk sha i line =
     (let trimmed = TrimSpace line
      in if trimmed = [] then None
         else if hd trimmed = HASH_SIGN then Some (Comment_Entry (computeCommentID sha i trimmed) trimmed)
         else map_option Key_Entry (parseLine pk line))"

fun entries_from :: "key_parser \<Rightarrow> (ustring \<Rightarrow> ustring) \<Rightarrow> nat \<Rightarrow> ustring list \<Rightarrow> ssh_entry list" where
  "entries_from pk sha i [] = []"
| "entries_from pk sha i (l # ls) =
     (case parseEntry pk sha i l of Some e \<Rightarrow> [e] | None \<Rightarrow> []) @ entries_from pk sha (Suc i) ls"

text \<open>The file, \<open>None\<close> when there is none; its lines are separated by line feeds.\<close>

type_synonym keys_file = "ustring option"

definition file_lines :: "ustring \<Rightarrow> ustring list" where
  "file_lines c = split_on 0x0a c"

definition join_lines :: "ustring list \<Rightarrow> ustring" where
  "join_lines ls = join_with 0x0a ls"

definition List_Entries :: "key_parser \<Rightarrow> (ustring \<Rightarrow> ustring) \<Rightarrow> keys_file \<Rightarrow> ssh_entry list" where
  "List_Entries pk sha f = (case f of None \<Rightarrow> [] | Some c \<Rightarrow> entries_from pk sha 0 (file_lines c))"

definition ListKeys :: "key_parser \<Rightarrow> (ustring \<Rightarrow> ustring) \<Rightarrow> keys_file \<Rightarrow> ssh_key list" where
  "ListKeys pk sha f = List.map_filter (\<lambda>e. case e of Key_Entry k \<Rightarrow> Some k | _ \<Rightarrow> None) (List_Entries pk sha f)"

section \<open>Operations\<close>

datatype keys_error = ErrInvalidKey | ErrInvalidComment | ErrDuplicate | ErrNotFound | ErrOrderMismatch | ErrMissing

definition appendLine :: "ustring \<Rightarrow> keys_file \<Rightarrow> keys_file" where
  "appendLine line f =
     (let content = (case f of Some c \<Rightarrow> c | None \<Rightarrow> []);
          content = (if content \<noteq> [] \<and> last content \<noteq> 0x0a then content @ [0x0a] else content)
      in Some (content @ line @ [0x0a]))"

definition Add :: "key_parser \<Rightarrow> (ustring \<Rightarrow> ustring) \<Rightarrow> ustring \<Rightarrow> keys_file \<Rightarrow> (keys_error + ssh_key) \<times> keys_file" where
  "Add pk sha keyLine f =
     (case parseLine pk keyLine of
        None \<Rightarrow> (Inl ErrInvalidKey, f)
      | Some k \<Rightarrow>
          if sk_id k \<in> set (map sk_id (ListKeys pk sha f)) then (Inl ErrDuplicate, f)
          else (Inr k, appendLine (sk_raw k) f))"

definition comment_line :: "ustring \<Rightarrow> ustring option" where
  "comment_line text =
     (let trimmed = TrimSpace text
      in if trimmed = [] \<or> multi_line trimmed then None
         else Some (if hd trimmed = HASH_SIGN then trimmed else HASH_SIGN # 0x20 # trimmed))"

definition AddComment :: "key_parser \<Rightarrow> (ustring \<Rightarrow> ustring) \<Rightarrow> ustring \<Rightarrow> keys_file \<Rightarrow> (keys_error + ssh_entry) \<times> keys_file" where
  "AddComment pk sha text f =
     (case comment_line text of
        None \<Rightarrow> (Inl ErrInvalidComment, f)
      | Some line \<Rightarrow>
          let f1 = appendLine line f; entries = List_Entries pk sha f1
          in (if entries = [] then Inl ErrMissing else Inr (last entries), f1))"

text \<open>The loop over the lines: the lines with the id are replaced, another line with the new id refuses.\<close>

fun update_lines :: "key_parser \<Rightarrow> ustring \<Rightarrow> ssh_key \<Rightarrow> ustring list \<Rightarrow> (ustring list \<times> bool) option" where
  "update_lines pk i new [] = Some ([], False)"
| "update_lines pk i new (l # ls) =
     (case parseLine pk l of
        None \<Rightarrow> map_option (\<lambda>(r, found). (l # r, found)) (update_lines pk i new ls)
      | Some k \<Rightarrow>
          if sk_id k = i then map_option (\<lambda>(r, found). (sk_raw new # r, True)) (update_lines pk i new ls)
          else if sk_id k = sk_id new then None
          else map_option (\<lambda>(r, found). (l # r, found)) (update_lines pk i new ls))"

definition Update :: "key_parser \<Rightarrow> ustring \<Rightarrow> ustring \<Rightarrow> keys_file \<Rightarrow> (keys_error + ssh_key) \<times> keys_file" where
  "Update pk i newKeyLine f =
     (case parseLine pk newKeyLine of
        None \<Rightarrow> (Inl ErrInvalidKey, f)
      | Some new \<Rightarrow>
          (case f of
             None \<Rightarrow> (Inl ErrNotFound, f)
           | Some c \<Rightarrow>
               (case update_lines pk i new (file_lines c) of
                  None \<Rightarrow> (Inl ErrDuplicate, f)
                | Some (ls, found) \<Rightarrow> if found then (Inr new, Some (join_lines ls)) else (Inl ErrNotFound, f))))"

text \<open>The first comment line with an id, counted from \<open>n\<close>.\<close>

fun find_comment :: "key_parser \<Rightarrow> (ustring \<Rightarrow> ustring) \<Rightarrow> ustring \<Rightarrow> nat \<Rightarrow> ustring list \<Rightarrow> nat option" where
  "find_comment pk sha i n [] = None"
| "find_comment pk sha i n (l # ls) =
     (case parseEntry pk sha n l of
        Some (Comment_Entry i' t) \<Rightarrow> if i' = i then Some n else find_comment pk sha i (Suc n) ls
      | _ \<Rightarrow> find_comment pk sha i (Suc n) ls)"

definition UpdateComment :: "key_parser \<Rightarrow> (ustring \<Rightarrow> ustring) \<Rightarrow> ustring \<Rightarrow> ustring \<Rightarrow> keys_file \<Rightarrow>
    (keys_error + ssh_entry) \<times> keys_file" where
  "UpdateComment pk sha i newText f =
     (case comment_line newText of
        None \<Rightarrow> (Inl ErrInvalidComment, f)
      | Some line \<Rightarrow>
          (case f of
             None \<Rightarrow> (Inl ErrNotFound, f)
           | Some c \<Rightarrow>
               (case find_comment pk sha i 0 (file_lines c) of
                  None \<Rightarrow> (Inl ErrNotFound, f)
                | Some n \<Rightarrow> (Inr (Comment_Entry (computeCommentID sha n line) line), Some (join_lines ((file_lines c)[n := line]))))))"

text \<open>\<open>byID\<close> keeps the last entry of an id.\<close>

fun reorder_lines :: "ssh_entry list \<Rightarrow> ustring list \<Rightarrow> ustring list \<Rightarrow> ustring list option" where
  "reorder_lines es seen [] = Some []"
| "reorder_lines es seen (i # is) =
     (if i \<in> set seen then None
      else case find (\<lambda>e. se_id e = i) (rev es) of
        None \<Rightarrow> None
      | Some e \<Rightarrow> map_option ((#) (entry_line e)) (reorder_lines es (i # seen) is))"

definition Reorder :: "key_parser \<Rightarrow> (ustring \<Rightarrow> ustring) \<Rightarrow> ustring list \<Rightarrow> keys_file \<Rightarrow> (keys_error + ssh_entry list) \<times> keys_file" where
  "Reorder pk sha ids f =
     (let entries = List_Entries pk sha f
      in if length ids \<noteq> length entries then (Inl ErrOrderMismatch, f)
         else case reorder_lines entries [] ids of
           None \<Rightarrow> (Inl ErrOrderMismatch, f)
         | Some ls \<Rightarrow>
             if ls = [] then (Inr [], f)
             else let f1 = Some (join_lines ls @ [0x0a]) in (Inr (List_Entries pk sha f1), f1))"

definition has_key_id :: "key_parser \<Rightarrow> ustring \<Rightarrow> ustring \<Rightarrow> bool" where
  "has_key_id pk i line \<longleftrightarrow> (case parseLine pk line of Some k \<Rightarrow> sk_id k = i | None \<Rightarrow> False)"

definition Delete :: "key_parser \<Rightarrow> ustring \<Rightarrow> keys_file \<Rightarrow> (keys_error + unit) \<times> keys_file" where
  "Delete pk i f =
     (case f of
        None \<Rightarrow> (Inl ErrNotFound, f)
      | Some c \<Rightarrow>
          if list_ex (has_key_id pk i) (file_lines c)
          then (Inr (), Some (join_lines (filter (\<lambda>l. \<not> has_key_id pk i l) (file_lines c)))) else (Inl ErrNotFound, f))"

fun drop_comment :: "key_parser \<Rightarrow> (ustring \<Rightarrow> ustring) \<Rightarrow> ustring \<Rightarrow> nat \<Rightarrow> ustring list \<Rightarrow> ustring list" where
  "drop_comment pk sha i n [] = []"
| "drop_comment pk sha i n (l # ls) =
     (case parseEntry pk sha n l of
        Some (Comment_Entry i' t) \<Rightarrow> if i' = i then drop_comment pk sha i (Suc n) ls else l # drop_comment pk sha i (Suc n) ls
      | _ \<Rightarrow> l # drop_comment pk sha i (Suc n) ls)"

definition DeleteComment :: "key_parser \<Rightarrow> (ustring \<Rightarrow> ustring) \<Rightarrow> ustring \<Rightarrow> keys_file \<Rightarrow> (keys_error + unit) \<times> keys_file" where
  "DeleteComment pk sha i f =
     (case f of
        None \<Rightarrow> (Inl ErrNotFound, f)
      | Some c \<Rightarrow>
          if find_comment pk sha i 0 (file_lines c) = None then (Inl ErrNotFound, f)
          else (Inr (), Some (join_lines (drop_comment pk sha i 0 (file_lines c)))))"

section \<open>What the lines say\<close>

text \<open>The line of an entry without its position.\<close>

definition line_content :: "key_parser \<Rightarrow> ustring \<Rightarrow> ustring option" where
  "line_content pk l =
     (let t = TrimSpace l in if t = [] then None else if hd t = HASH_SIGN then Some t else map_option sk_raw (parseLine pk l))"

definition contents :: "key_parser \<Rightarrow> keys_file \<Rightarrow> ustring list" where
  "contents pk f = (case f of None \<Rightarrow> [] | Some c \<Rightarrow> List.map_filter (line_content pk) (file_lines c))"

lemma entry_content: "map_option entry_line (parseEntry pk sha i l) = line_content pk l"
  by (simp add: parseEntry_def line_content_def Let_def option.map_comp comp_def)

lemma entries_contents: "map entry_line (entries_from pk sha i ls) = List.map_filter (line_content pk) ls"
proof (induction ls arbitrary: i)
  case (Cons l ls)
  then show ?case by (simp add: map_filter_simps entry_content [of pk sha i l, symmetric] split: option.split)
qed (simp add: map_filter_simps)

lemma list_contents: "map entry_line (List_Entries pk sha f) = contents pk f"
  by (simp add: List_Entries_def contents_def entries_contents split: option.split)

lemma file_contents: "contents pk (Some c) = List.map_filter (line_content pk) (file_lines c)"
  by (simp add: contents_def)

lemma empty_line: "line_content pk [] = None"
  by (simp add: line_content_def TrimSpace_def)

lemma contents_join: "\<forall>l \<in> set ls. 0x0a \<notin> set l \<Longrightarrow> contents pk (Some (join_lines ls)) = List.map_filter (line_content pk) ls"
  by (cases "ls = []") (simp_all add: file_contents file_lines_def join_lines_def split_join map_filter_simps empty_line)

lemma no_feed: "l \<in> set (file_lines c) \<Longrightarrow> 0x0a \<notin> set l"
  using split_on_no_sep by (simp add: file_lines_def)

lemma TrimSpace_idem [simp]: "TrimSpace (TrimSpace s) = TrimSpace s"
  by (simp add: TrimSpace_def stripped_twice)

text \<open>A key and a comment are read back as they are written.\<close>

lemma key_read_back:
  assumes "parseLine pk s = Some k"
  shows "parseLine pk (sk_raw k) = Some k" "line_content pk (sk_raw k) = Some (sk_raw k)" "0x0a \<notin> set (sk_raw k)"
  using assms by (auto simp: parseLine_def line_content_def Let_def multi_line_def split: if_splits)

lemma TrimSpace_id: "\<lbrakk>s \<noteq> []; \<not> go_space (hd s); \<not> go_space (last s)\<rbrakk> \<Longrightarrow> TrimSpace s = s"
proof -
  assume "s \<noteq> []" "\<not> go_space (hd s)" "\<not> go_space (last s)"
  then have "dropWhile go_space s = s" "dropWhile go_space (rev s) = rev s" by (simp_all add: dropWhile_eq_self_iff hd_rev)
  then show ?thesis by (simp add: TrimSpace_def)
qed

lemma comment_read_back:
  assumes "comment_line s = Some l"
  shows "line_content pk l = Some l" "0x0a \<notin> set l" "parseEntry pk sha n l = Some (Comment_Entry (computeCommentID sha n l) l)"
proof -
  let ?t = "TrimSpace s"
  have t: "?t \<noteq> []" "\<not> multi_line ?t" and l: "l = (if hd ?t = HASH_SIGN then ?t else HASH_SIGN # 0x20 # ?t)"
    using assms by (auto simp: comment_line_def Let_def split: if_splits)
  have "dropWhile go_space (rev ?t) = rev ?t"
    using stripped_twice [of go_space "rev (dropWhile go_space s)"] by (simp add: TrimSpace_def)
  then have "\<not> go_space (last ?t)" using t(1) by (metis dropWhile_eq_self_iff hd_rev rev_is_Nil_conv)
  moreover have "\<not> go_space HASH_SIGN" by (simp add: go_space_def HASH_SIGN_def)
  ultimately have "TrimSpace (HASH_SIGN # 0x20 # ?t) = HASH_SIGN # 0x20 # ?t"
    using t(1) by (intro TrimSpace_id) simp_all
  then have "TrimSpace l = l" using l by simp
  then show "line_content pk l = Some l" "parseEntry pk sha n l = Some (Comment_Entry (computeCommentID sha n l) l)"
    using t l by (auto simp: line_content_def parseEntry_def Let_def)
  show "0x0a \<notin> set l" using t l by (auto simp: multi_line_def HASH_SIGN_def)
qed

lemma content_stable:
  assumes "line_content pk l = Some c" "0x0a \<notin> set l"
  shows "line_content pk c = Some c \<and> 0x0a \<notin> set c"
proof (cases "hd (TrimSpace l) = HASH_SIGN")
  case True
  then have c: "c = TrimSpace l" "TrimSpace l \<noteq> []" using assms(1) by (simp_all add: line_content_def Let_def split: if_splits)
  have "0x0a \<notin> set c"
    using assms(2) set_dropWhileD [of "0x0a" go_space l] set_dropWhileD [of "0x0a" go_space "rev (dropWhile go_space l)"]
    by (auto simp: TrimSpace_def c(1))
  then show ?thesis using True c by (simp add: line_content_def)
next
  case False
  then obtain k where "parseLine pk l = Some k" "c = sk_raw k"
    using assms(1) by (auto simp: line_content_def Let_def split: if_splits)
  then show ?thesis using key_read_back by blast
qed

lemma map_filter_same: "\<forall>l \<in> set ls. f l = Some l \<and> P l \<Longrightarrow> List.map_filter f ls = ls"
  by (induction ls) (simp_all add: map_filter_simps)

section \<open>What each operation does to the entries\<close>

lemma append_contents:
  assumes "0x0a \<notin> set line" "line_content pk line = Some l"
  shows "contents pk (appendLine line f) = contents pk f @ [l]"
proof -
  define c where "c = (case f of Some c \<Rightarrow> c | None \<Rightarrow> [])"
  have f: "contents pk f = List.map_filter (line_content pk) (file_lines c)"
    by (simp add: c_def contents_def file_lines_def map_filter_simps empty_line split: option.split)
  have line: "file_lines (line @ [0x0a]) = [line, []]"
    using split_on_append [of "0x0a" line "[]"] assms(1) by (simp add: file_lines_def split_on_free)
  have lines: "List.map_filter (line_content pk) (file_lines (s @ 0x0a # line @ [0x0a])) =
      List.map_filter (line_content pk) (file_lines s) @ [l]" for s
    using line by (simp add: file_lines_def split_on_append [of _ s] map_filter_def assms(2) empty_line)
  show ?thesis
  proof (cases "c \<noteq> [] \<and> last c = 0x0a")
    case True
    then obtain s where s: "c = s @ [0x0a]" by (metis append_butlast_last_id)
    then have "contents pk f = List.map_filter (line_content pk) (file_lines s)"
      using split_on_append [of "0x0a" s "[]"] by (simp add: f file_lines_def map_filter_def empty_line)
    then show ?thesis using lines [of s] s by (simp add: appendLine_def Let_def c_def [symmetric] file_contents)
  next
    case False
    then show ?thesis using lines [of c] line f
      by (cases "c = []") (simp_all add: appendLine_def Let_def c_def [symmetric] file_contents map_filter_def assms(2) empty_line
        file_lines_def)
  qed
qed

lemma Add_contents:
  assumes "Add pk sha s f = (r, f')"
  shows "f' = f \<or> (\<exists>k. parseLine pk s = Some k \<and> contents pk f' = contents pk f @ [sk_raw k] \<and>
    sk_id k \<notin> set (map sk_id (ListKeys pk sha f)))"
  using assms append_contents key_read_back by (fastforce simp: Add_def split: option.splits if_splits)

lemma AddComment_contents:
  assumes "AddComment pk sha s f = (r, f')"
  shows "f' = f \<or> (\<exists>l. comment_line s = Some l \<and> contents pk f' = contents pk f @ [l])"
  using assms append_contents comment_read_back by (fastforce simp: AddComment_def Let_def split: option.splits)

definition is_key :: "ustring \<Rightarrow> ssh_entry \<Rightarrow> bool" where
  "is_key i e \<longleftrightarrow> (case e of Key_Entry k \<Rightarrow> sk_id k = i | _ \<Rightarrow> False)"

definition is_comment :: "ustring \<Rightarrow> ssh_entry \<Rightarrow> bool" where
  "is_comment i e \<longleftrightarrow> (case e of Comment_Entry i' t \<Rightarrow> i' = i | _ \<Rightarrow> False)"

text \<open>Lines and entries line by line.\<close>

lemma parseEntry_cases:
  "parseEntry pk sha n l = Some (Key_Entry k) \<longleftrightarrow> parseLine pk l = Some k"
  "parseEntry pk sha n l = None \<Longrightarrow> parseLine pk l = None"
  "parseEntry pk sha n l = Some (Comment_Entry i t) \<Longrightarrow> parseLine pk l = None \<and> i = computeCommentID sha n t \<and> t = TrimSpace l"
  by (auto simp: parseEntry_def parseLine_def Let_def split: if_splits)

lemma deleted_lines:
  "List.map_filter (line_content pk) (filter (\<lambda>l. \<not> has_key_id pk i l) ls) =
   map entry_line (filter (\<lambda>e. \<not> is_key i e) (entries_from pk sha n ls))"
proof (induction ls arbitrary: n)
  case (Cons l ls)
  note c = entry_content [of pk sha n l, symmetric]
  show ?case
  proof (cases "parseEntry pk sha n l")
    case None
    then show ?thesis using Cons c parseEntry_cases(2) by (simp add: map_filter_simps has_key_id_def)
  next
    case (Some e)
    then have "has_key_id pk i l = is_key i e"
      using parseEntry_cases(1,3) [of pk sha n l] by (cases e) (simp_all add: has_key_id_def is_key_def)
    then show ?thesis using Cons Some c by (simp add: map_filter_simps)
  qed
qed (simp add: map_filter_simps)

lemma Delete_contents:
  assumes "Delete pk i f = (r, f')"
  shows "f' = f \<or> contents pk f' = map entry_line (filter (\<lambda>e. \<not> is_key i e) (List_Entries pk sha f))"
proof (cases f)
  case (Some c)
  have "contents pk (Some (join_lines (filter (\<lambda>l. \<not> has_key_id pk i l) (file_lines c)))) =
      map entry_line (filter (\<lambda>e. \<not> is_key i e) (List_Entries pk sha f))"
    using no_feed by (subst contents_join) (auto simp: Some List_Entries_def deleted_lines)
  then show ?thesis using assms Some by (auto simp: Delete_def split: if_splits)
qed (use assms in \<open>simp add: Delete_def\<close>)

lemma dropped_lines:
  "List.map_filter (line_content pk) (drop_comment pk sha i n ls) =
   map entry_line (filter (\<lambda>e. \<not> is_comment i e) (entries_from pk sha n ls))"
proof (induction ls arbitrary: n)
  case (Cons l ls)
  note c = entry_content [of pk sha n l, symmetric]
  show ?case
  proof (cases "parseEntry pk sha n l")
    case None
    then show ?thesis using Cons c by (simp add: map_filter_simps)
  next
    case (Some e)
    then show ?thesis using Cons c by (cases e) (auto simp: map_filter_simps is_comment_def)
  qed
qed (simp add: map_filter_simps)

lemma drop_comment_set: "set (drop_comment pk sha i n ls) \<subseteq> set ls"
proof (induction ls arbitrary: n)
  case (Cons l ls)
  from Cons.IH [of "Suc n"] show ?case by (auto split: option.split ssh_entry.split)
qed simp

lemma DeleteComment_contents:
  assumes "DeleteComment pk sha i f = (r, f')"
  shows "f' = f \<or> contents pk f' = map entry_line (filter (\<lambda>e. \<not> is_comment i e) (List_Entries pk sha f))"
proof (cases f)
  case (Some c)
  have "contents pk (Some (join_lines (drop_comment pk sha i 0 (file_lines c)))) =
      map entry_line (filter (\<lambda>e. \<not> is_comment i e) (List_Entries pk sha f))"
    using no_feed drop_comment_set [of pk sha i 0 "file_lines c"]
    by (subst contents_join) (auto simp: Some List_Entries_def dropped_lines)
  then show ?thesis using assms Some by (auto simp: DeleteComment_def split: if_splits)
qed (use assms in \<open>simp add: DeleteComment_def\<close>)

lemma update_lines_contents:
  assumes "update_lines pk i new ls = Some (r, found)" "parseLine pk t = Some new"
  shows "List.map_filter (line_content pk) r =
      map (\<lambda>e. if is_key i e then sk_raw new else entry_line e) (entries_from pk sha n ls) \<and>
    (set ls \<subseteq> {l. 0x0a \<notin> set l} \<longrightarrow> set r \<subseteq> {l. 0x0a \<notin> set l})"
  using assms(1)
proof (induction ls arbitrary: r found n)
  case (Cons l ls)
  note c = entry_content [of pk sha n l, symmetric]
  note raw = key_read_back [OF assms(2)]
  obtain r' found' where rest: "update_lines pk i new ls = Some (r', found')"
      and r: "r = (if has_key_id pk i l then sk_raw new else l) # r'"
    using Cons.prems by (auto simp: has_key_id_def split: option.splits if_splits)
  note IH = Cons.IH [OF rest, of "Suc n"]
  have hit: "parseEntry pk sha n l = Some e \<Longrightarrow> has_key_id pk i l = is_key i e" for e
    using parseEntry_cases(1,3) [of pk sha n l] by (cases e) (simp_all add: has_key_id_def is_key_def)
  have miss: "parseEntry pk sha n l = None \<Longrightarrow> \<not> has_key_id pk i l"
    using parseEntry_cases(2) by (simp add: has_key_id_def)
  show ?case
    using IH r c raw hit miss by (cases "parseEntry pk sha n l") (auto simp: map_filter_simps)
qed (simp add: map_filter_simps)

lemma Update_contents:
  assumes "Update pk i s f = (r, f')"
  shows "f' = f \<or> (\<exists>new. parseLine pk s = Some new \<and>
    contents pk f' = map (\<lambda>e. if is_key i e then sk_raw new else entry_line e) (List_Entries pk sha f))"
proof (cases "f' = f")
  case False
  then obtain new c ls found where new: "parseLine pk s = Some new" and f: "f = Some c" "f' = Some (join_lines ls)"
      and ls: "update_lines pk i new (file_lines c) = Some (ls, found)"
    using assms by (fastforce simp: Update_def split: option.splits if_splits)
  have "set (file_lines c) \<subseteq> {l. 0x0a \<notin> set l}" using no_feed by auto
  then show ?thesis using update_lines_contents [OF ls new, of sha 0] new
    by (subst f(2), subst contents_join) (auto simp: f(1) List_Entries_def)
qed simp

lemma find_comment_split:
  assumes "find_comment pk sha i n ls = Some m" "comment_line s = Some line"
  shows "n \<le> m \<and> m - n < length ls \<and> (\<exists>xs t ys. entries_from pk sha n ls = xs @ Comment_Entry i t # ys \<and>
    i = computeCommentID sha m t \<and>
    List.map_filter (line_content pk) (ls[m - n := line]) = map entry_line xs @ line # map entry_line ys)"
  using assms(1)
proof (induction ls arbitrary: n)
  case (Cons l ls)
  note c = entry_content [of pk sha n l, symmetric]
  note line = comment_read_back [OF assms(2)]
  show ?case
  proof (cases "\<exists>t. parseEntry pk sha n l = Some (Comment_Entry i t)")
    case True
    then obtain t where t: "parseEntry pk sha n l = Some (Comment_Entry i t)" by blast
    then have "m = n" using Cons.prems by simp
    moreover have "List.map_filter (line_content pk) (line # ls) = line # map entry_line (entries_from pk sha (Suc n) ls)"
      using line(1) by (simp add: map_filter_simps entries_contents)
    moreover have "i = computeCommentID sha n t" using parseEntry_cases(3) [OF t] by simp
    moreover have "entries_from pk sha n (l # ls) = [] @ Comment_Entry i t # entries_from pk sha (Suc n) ls" using t by simp
    ultimately show ?thesis by (intro conjI exI [of _ "[]"] exI [of _ t] exI [of _ "entries_from pk sha (Suc n) ls"]) simp_all
  next
    case False
    then have "find_comment pk sha i (Suc n) ls = Some m"
      using Cons.prems by (auto split: option.splits ssh_entry.splits if_splits)
    from Cons.IH [OF this] obtain xs t ys where IH: "Suc n \<le> m" "m - Suc n < length ls"
        "entries_from pk sha (Suc n) ls = xs @ Comment_Entry i t # ys" "i = computeCommentID sha m t"
        "List.map_filter (line_content pk) (ls[m - Suc n := line]) = map entry_line xs @ line # map entry_line ys"
      by blast
    obtain d where d: "m - n = Suc d" "m - Suc n = d" using IH(1) by (metis Suc_diff_Suc Suc_le_lessD)
    let ?x = "case parseEntry pk sha n l of Some e \<Rightarrow> [e] | None \<Rightarrow> []"
    have "List.map_filter (line_content pk) ((l # ls)[m - n := line]) = map entry_line (?x @ xs) @ line # map entry_line ys"
      using IH(5) d c by (simp add: map_filter_simps split: option.split)
    moreover have "entries_from pk sha n (l # ls) = (?x @ xs) @ Comment_Entry i t # ys" using IH(3) by simp
    moreover have "n \<le> m" "m - n < length (l # ls)" using IH(1,2) d by simp_all
    ultimately show ?thesis using IH(4) by blast
  qed
qed simp

lemma UpdateComment_contents:
  assumes "UpdateComment pk sha i s f = (r, f')"
  shows "f' = f \<or> (\<exists>line xs t ys n. comment_line s = Some line \<and> List_Entries pk sha f = xs @ Comment_Entry i t # ys \<and>
    i = computeCommentID sha n t \<and> contents pk f' = map entry_line xs @ line # map entry_line ys)"
proof (cases "f' = f")
  case False
  then obtain line c n where line: "comment_line s = Some line" and f: "f = Some c" "f' = Some (join_lines ((file_lines c)[n := line]))"
      and n: "find_comment pk sha i 0 (file_lines c) = Some n"
    using assms by (auto simp: UpdateComment_def split: option.splits)
  have "\<forall>l \<in> set ((file_lines c)[n := line]). 0x0a \<notin> set l"
    using no_feed comment_read_back(2) [OF line] set_update_subset_insert by fastforce
  then have "contents pk f' = List.map_filter (line_content pk) ((file_lines c)[n := line])" by (simp add: f(2) contents_join)
  with find_comment_split [OF n line] line show ?thesis by (simp add: f(1) List_Entries_def) metis
qed simp

section \<open>Reordering\<close>

lemma reorder_lines_result:
  assumes "reorder_lines es seen ids = Some ls"
  shows "distinct ids \<and> set ids \<inter> set seen = {} \<and> set ids \<subseteq> se_id ` set es \<and> length ls = length ids \<and>
    list_all2 (\<lambda>i l. \<exists>e \<in> set es. se_id e = i \<and> l = entry_line e) ids ls"
  using assms
proof (induction es seen ids arbitrary: ls rule: reorder_lines.induct)
  case (2 es seen i "is")
  then obtain e ls' where "i \<notin> set seen" and e: "find (\<lambda>e. se_id e = i) (rev es) = Some e"
      and ls': "reorder_lines es (i # seen) is = Some ls'" "ls = entry_line e # ls'"
    by (auto split: if_splits option.splits)
  then show ?case using find_Some_mem [OF e] "2.IH" [OF \<open>i \<notin> set seen\<close> e ls'(1)] by auto
qed simp

text \<open>
  An order is accepted only when it names every entry once, and then the file holds the same lines of entries in
  that order.
\<close>

lemma Reorder_contents:
  assumes "Reorder pk sha ids f = (r, f')"
  shows "f' = f \<or> (\<exists>ls. r = Inr (List_Entries pk sha f') \<and> contents pk f' = ls \<and> mset ls = mset (contents pk f) \<and>
    ls = map (\<lambda>i. entry_line (the (find (\<lambda>e. se_id e = i) (List_Entries pk sha f)))) ids)"
proof (cases "f' = f")
  case False
  let ?es = "List_Entries pk sha f"
  from False obtain ls where len: "length ids = length ?es" and ls: "reorder_lines ?es [] ids = Some ls" "ls \<noteq> []"
      and f': "f' = Some (join_lines ls @ [0x0a])" and r: "r = Inr (List_Entries pk sha f')"
    using assms by (auto simp: Reorder_def Let_def split: if_splits option.splits)
  note res = reorder_lines_result [OF ls(1)]
  have "card (se_id ` set ?es) \<le> length ?es" using card_length [of "map se_id ?es"] by simp
  moreover have "length ids \<le> card (se_id ` set ?es)"
    using res card_mono [of "se_id ` set ?es" "set ids"] distinct_card [of ids] by simp
  ultimately have "card (set (map se_id ?es)) = length (map se_id ?es)" using len by simp
  then have d: "distinct (map se_id ?es)" by (rule card_distinct)
  have ids: "set ids = set (map se_id ?es)"
  proof (rule card_subset_eq)
    show "card (set ids) = card (set (map se_id ?es))" using distinct_card [of ids] distinct_card [OF d] res len by simp
  qed (use res in auto)
  define g where "g i = the (find (\<lambda>e. se_id e = i) ?es)" for i
  have g: "g (se_id e) = e" if "e \<in> set ?es" for e
  proof -
    have "find (\<lambda>x. se_id x = se_id e) ?es \<noteq> None" using that unfolding find_None_iff by blast
    then obtain e' where e': "find (\<lambda>x. se_id x = se_id e) ?es = Some e'" by blast
    then have "e' \<in> set ?es" "se_id e' = se_id e" using find_Some_mem [OF e'] by simp_all
    then have "e' = e" using d that inj_onD [of se_id "set ?es" e' e] by (simp add: distinct_map)
    then show ?thesis using e' by (simp add: g_def)
  qed
  have "list_all2 (\<lambda>i l. \<exists>e \<in> set ?es. se_id e = i \<and> l = entry_line e) ids ls" using res by blast
  then have "list_all2 (\<lambda>i l. l = entry_line (g i)) ids ls" by (rule list_all2_mono) (use g in auto)
  then have map: "ls = map (\<lambda>i. entry_line (g i)) ids" by (induction rule: list_all2_induct) simp_all
  have "mset ids = mset (map se_id ?es)" using ids d res set_eq_iff_mset_eq_distinct [of ids "map se_id ?es"] by simp
  then have "mset (map (\<lambda>i. entry_line (g i)) ids) = mset (map (\<lambda>i. entry_line (g i)) (map se_id ?es))"
    by (metis mset_map)
  moreover have same: "map (\<lambda>i. entry_line (g i)) (map se_id ?es) = contents pk f"
    using g by (simp add: list_contents [of pk sha f, symmetric])
  ultimately have perm: "mset ls = mset (contents pk f)" by (simp only: map same)
  have "contents pk f' = ls"
  proof -
    have l: "line_content pk (entry_line e) = Some (entry_line e) \<and> 0x0a \<notin> set (entry_line e)" if "e \<in> set ?es" for e
    proof -
      have "entry_line e \<in> set (contents pk f)" using that list_contents [of pk sha f] by (metis image_eqI list.set_map)
      then obtain c l where c: "f = Some c" "l \<in> set (file_lines c)" "line_content pk l = Some (entry_line e)"
        by (auto simp: contents_def map_filter_def split: option.splits)
      then show ?thesis using content_stable [OF c(3) no_feed [OF c(2)]] by simp
    qed
    have "\<forall>l \<in> set ls. line_content pk l = Some l \<and> 0x0a \<notin> set l"
    proof
      fix x
      assume "x \<in> set ls"
      then obtain e where "e \<in> set ?es" "x = entry_line e" using map ids g by auto
      then show "line_content pk x = Some x \<and> 0x0a \<notin> set x" using l by blast
    qed
    then have "file_lines (join_lines ls @ [0x0a]) = ls @ [[]]" "List.map_filter (line_content pk) ls = ls"
      using ls(2) split_on_snoc [of "0x0a" "[]" "join_lines ls"]
      by (simp_all add: file_lines_def join_lines_def split_join map_filter_same)
    then show ?thesis by (simp add: f' file_contents map_filter_def empty_line)
  qed
  then show ?thesis using r perm map by (auto simp: g_def)
qed simp

text \<open>Lines that are neither a key nor a comment are not written again, blank or not.\<close>

lemma reorder_drops_unread_lines:
  "Reorder (\<lambda>s. None) (\<lambda>s. s) [js ''2:# b'', js ''0:# a''] (Some (js ''# a'' @ 10 # js ''ssh-new AAAA'' @ 10 # js ''# b'')) =
   (Inr [Comment_Entry (js ''0:# b'') (js ''# b''), Comment_Entry (js ''1:# a'') (js ''# a'')],
    Some (js ''# b'' @ 10 # js ''# a'' @ [10]))"
  by code_simp

section \<open>Ids\<close>

text \<open>The id of a comment was made from its text; that of another text is another one.\<close>

definition genuine :: "(ustring \<Rightarrow> ustring) \<Rightarrow> ssh_entry \<Rightarrow> bool" where
  "genuine sha e \<longleftrightarrow> (case e of Comment_Entry i t \<Rightarrow> \<exists>n. i = computeCommentID sha n t | Key_Entry k \<Rightarrow> True)"

lemma listed_genuine: "e \<in> set (List_Entries pk sha f) \<Longrightarrow> genuine sha e"
proof -
  have "e \<in> set (entries_from pk sha n ls) \<Longrightarrow> genuine sha e" for n ls
  proof (induction ls arbitrary: n)
    case (Cons l ls)
    show ?case
    proof (cases "parseEntry pk sha n l")
      case (Some x)
      then have "genuine sha x"
        using parseEntry_cases(3) [of pk sha n l] by (cases x) (auto simp: genuine_def)
      then show ?thesis using Cons Some by auto
    qed (use Cons in simp)
  qed simp
  then show "e \<in> set (List_Entries pk sha f) \<Longrightarrow> genuine sha e" by (auto simp: List_Entries_def split: option.splits)
qed

lemma comment_id_text:
  assumes "inj sha" "computeCommentID sha n t = computeCommentID sha m t'"
  shows "t = t'"
proof -
  have "show_nat n @ 0x3a # t = show_nat m @ 0x3a # t'"
    using assms by (simp add: computeCommentID_def inj_eq)
  moreover have "\<forall>u \<in> set (show_nat k). u \<noteq> 0x3a" for k
    by (auto dest!: show_nat_digits simp: is_digit_def)
  then have "takeWhile (\<lambda>u. u \<noteq> 0x3a) (show_nat k @ 0x3a # s) = show_nat k" for k s
    by (simp add: takeWhile_append2)
  ultimately have "show_nat n = show_nat m" by metis
  then show ?thesis using \<open>show_nat n @ _ = _\<close> by simp
qed

end
