(* ===== verification/Ssh_Keys.thy ===== *)
theory Ssh_Keys
  imports Authorized_Keys Api_Types
begin

text \<open>
  The page of authorised keys, \<open>components/SshKeys/SshKeys.tsx\<close>, with the file it edits: requests are served one
  after the other by the operations of \<open>Authorized_Keys\<close>, answered in any order or lost, and the file may change
  under them. The digest that makes the id of a comment is an argument; the last theorem takes it to tell different
  texts apart.
\<close>

section \<open>Requests\<close>

datatype ssh_request =
    Q_List
  | Q_Add ustring
  | Q_AddComment ustring
  | Q_Delete ssh_entry
  | Q_Update ssh_entry ustring
  | Q_Reorder "ustring list"

datatype ssh_answer = A_Done | A_List "ssh_entry list" | A_Failed

definition answer_of :: "(keys_error + 'a) \<times> keys_file \<Rightarrow> ssh_answer \<times> keys_file" where
  "answer_of rf = (case fst rf of Inl e \<Rightarrow> A_Failed | Inr x \<Rightarrow> A_Done, snd rf)"

text \<open>What a request does at the backend; \<open>entryUrl\<close> tells comments and keys apart.\<close>

definition serve_keys :: "key_parser \<Rightarrow> (ustring \<Rightarrow> ustring) \<Rightarrow> ssh_request \<Rightarrow> keys_file \<Rightarrow> ssh_answer \<times> keys_file" where
  "serve_keys pk sha q f =
     (case q of
        Q_List \<Rightarrow> (A_List (List_Entries pk sha f), f)
      | Q_Add s \<Rightarrow> answer_of (Add pk sha s f)
      | Q_AddComment s \<Rightarrow> answer_of (AddComment pk sha s f)
      | Q_Delete (Key_Entry k) \<Rightarrow> answer_of (Delete pk (sk_id k) f)
      | Q_Delete (Comment_Entry i t) \<Rightarrow> answer_of (DeleteComment pk sha i f)
      | Q_Update (Key_Entry k) v \<Rightarrow> answer_of (Update pk (sk_id k) v f)
      | Q_Update (Comment_Entry i t) v \<Rightarrow> answer_of (UpdateComment pk sha i v f)
      | Q_Reorder ids \<Rightarrow>
          (case Reorder pk sha ids f of (Inr es, f1) \<Rightarrow> (A_List es, f1) | (Inl e, f1) \<Rightarrow> (A_Failed, f1)))"

section \<open>State\<close>

datatype ssh_continuation =
    K_Mount
  | K_AddKey
  | K_AddKey_Load
  | K_AddComment
  | K_AddComment_Load
  | K_Delete
  | K_Delete_Load
  | K_Save
  | K_Save_Load
  | K_Reorder
  | K_Reorder_Load

record ssh_call =
  sc_request :: ssh_request
  sc_next :: ssh_continuation
  sc_answer :: "ssh_answer option"     \<comment> \<open>the backend's, once it has served the request\<close>

record ssh_page =
  sp_entries :: "ssh_entry list"
  sp_loading :: bool
  sp_error :: bool
  sp_addKeyOpen :: bool
  sp_newKey :: ustring
  sp_submittingKey :: bool
  sp_keyFormError :: bool
  sp_addCommentOpen :: bool
  sp_newComment :: ustring
  sp_submittingComment :: bool
  sp_commentFormError :: bool
  sp_deletingId :: "ustring option"
  sp_confirmDelete :: "ssh_entry option"
  sp_editingId :: "ustring option"
  sp_editValue :: ustring
  sp_editError :: bool
  sp_savingEdit :: bool
  sp_dragId :: "ustring option"
  sp_calls :: "ssh_call list"
  sp_file :: keys_file
  sp_served :: "(ssh_request \<times> keys_file \<times> keys_file) list"   \<comment> \<open>with the file before and after\<close>

definition send_keys :: "ssh_request \<Rightarrow> ssh_continuation \<Rightarrow> ssh_page \<Rightarrow> ssh_page" where
  "send_keys q k s = s\<lparr>sp_calls := sp_calls s @ [\<lparr>sc_request = q, sc_next = k, sc_answer = None\<rparr>]\<rparr>"

definition ssh_mount :: "keys_file \<Rightarrow> ssh_page" where
  "ssh_mount f = send_keys Q_List K_Mount
     \<lparr>sp_entries = [], sp_loading = True, sp_error = False, sp_addKeyOpen = False, sp_newKey = [], sp_submittingKey = False,
      sp_keyFormError = False, sp_addCommentOpen = False, sp_newComment = [], sp_submittingComment = False,
      sp_commentFormError = False, sp_deletingId = None, sp_confirmDelete = None, sp_editingId = None, sp_editValue = [],
      sp_editError = False, sp_savingEdit = False, sp_dragId = None, sp_calls = [], sp_file = f, sp_served = []\<rparr>"

section \<open>Handlers\<close>

definition handleAddKey :: "ssh_page \<Rightarrow> ssh_page" where
  "handleAddKey s =
     (if trim (sp_newKey s) = [] then s
      else send_keys (Q_Add (trim (sp_newKey s))) K_AddKey (s\<lparr>sp_submittingKey := True, sp_keyFormError := False\<rparr>))"

definition handleAddComment :: "ssh_page \<Rightarrow> ssh_page" where
  "handleAddComment s =
     (if trim (sp_newComment s) = [] then s
      else send_keys (Q_AddComment (trim (sp_newComment s))) K_AddComment
        (s\<lparr>sp_submittingComment := True, sp_commentFormError := False\<rparr>))"

definition delete_entry :: "ssh_entry \<Rightarrow> ssh_page \<Rightarrow> ssh_page" where
  "delete_entry e s = send_keys (Q_Delete e) K_Delete (s\<lparr>sp_deletingId := Some (se_id e)\<rparr>)"

definition start_key_edit :: "ssh_entry \<Rightarrow> ssh_page \<Rightarrow> ssh_page" where
  "start_key_edit e s = s\<lparr>sp_editingId := Some (se_id e), sp_editValue := entry_line e, sp_editError := False\<rparr>"

definition cancel_key_edit :: "ssh_page \<Rightarrow> ssh_page" where
  "cancel_key_edit s = s\<lparr>sp_editingId := None, sp_editValue := [], sp_editError := False\<rparr>"

definition handleSaveEdit :: "ssh_entry \<Rightarrow> ssh_page \<Rightarrow> ssh_page" where
  "handleSaveEdit e s =
     (if trim (sp_editValue s) = [] then s
      else send_keys (Q_Update e (trim (sp_editValue s))) K_Save (s\<lparr>sp_savingEdit := True, sp_editError := False\<rparr>))"

text \<open>\<open>findIndex\<close>, and the two calls of \<open>splice\<close>.\<close>

fun entry_index :: "ustring \<Rightarrow> ssh_entry list \<Rightarrow> nat option" where
  "entry_index i [] = None"
| "entry_index i (e # es) = (if se_id e = i then Some 0 else map_option Suc (entry_index i es))"

definition move_entry :: "nat \<Rightarrow> nat \<Rightarrow> ssh_entry list \<Rightarrow> ssh_entry list" where
  "move_entry from to es = (let rest = take from es @ drop (Suc from) es in take to rest @ es ! from # drop to rest)"

definition drop_entry :: "ustring \<Rightarrow> ssh_page \<Rightarrow> ssh_page" where
  "drop_entry target s0 =
     (let s = s0\<lparr>sp_dragId := None\<rparr>
      in case sp_dragId s0 of
        None \<Rightarrow> s
      | Some dragged \<Rightarrow>
          if dragged = [] \<or> dragged = target then s
          else case (entry_index dragged (sp_entries s), entry_index target (sp_entries s)) of
            (Some from, Some to) \<Rightarrow>
              let next = move_entry from to (sp_entries s)
              in send_keys (Q_Reorder (map se_id next)) K_Reorder (s\<lparr>sp_entries := next\<rparr>)
          | _ \<Rightarrow> s)"

section \<open>Answers\<close>

text \<open>\<open>load\<close>: an error is shown, an answer replaces the list.\<close>

definition keys_loaded :: "ssh_answer \<Rightarrow> ssh_page \<Rightarrow> ssh_page" where
  "keys_loaded a s =
     (case a of A_List es \<Rightarrow> s\<lparr>sp_entries := es, sp_error := False\<rparr> | _ \<Rightarrow> s\<lparr>sp_error := True\<rparr>)\<lparr>sp_loading := False\<rparr>"

definition keys_continue :: "ssh_continuation \<Rightarrow> ssh_answer \<Rightarrow> ssh_page \<Rightarrow> ssh_page" where
  "keys_continue k a s =
     (case k of
        K_Mount \<Rightarrow> keys_loaded a s
      | K_AddKey \<Rightarrow>
          if a = A_Failed then s\<lparr>sp_keyFormError := True, sp_submittingKey := False\<rparr>
          else send_keys Q_List K_AddKey_Load (s\<lparr>sp_newKey := [], sp_addKeyOpen := False\<rparr>)
      | K_AddKey_Load \<Rightarrow> (keys_loaded a s)\<lparr>sp_submittingKey := False\<rparr>
      | K_AddComment \<Rightarrow>
          if a = A_Failed then s\<lparr>sp_commentFormError := True, sp_submittingComment := False\<rparr>
          else send_keys Q_List K_AddComment_Load (s\<lparr>sp_newComment := [], sp_addCommentOpen := False\<rparr>)
      | K_AddComment_Load \<Rightarrow> (keys_loaded a s)\<lparr>sp_submittingComment := False\<rparr>
      | K_Delete \<Rightarrow>
          if a = A_Failed then s\<lparr>sp_error := True, sp_deletingId := None, sp_confirmDelete := None\<rparr>
          else send_keys Q_List K_Delete_Load s
      | K_Delete_Load \<Rightarrow> (keys_loaded a s)\<lparr>sp_deletingId := None, sp_confirmDelete := None\<rparr>
      | K_Save \<Rightarrow>
          if a = A_Failed then s\<lparr>sp_editError := True, sp_savingEdit := False\<rparr>
          else send_keys Q_List K_Save_Load (s\<lparr>sp_editingId := None, sp_editValue := []\<rparr>)
      | K_Save_Load \<Rightarrow> (keys_loaded a s)\<lparr>sp_savingEdit := False\<rparr>
      | K_Reorder \<Rightarrow>
          (case a of A_List es \<Rightarrow> s\<lparr>sp_entries := es\<rparr> | _ \<Rightarrow> send_keys Q_List K_Reorder_Load (s\<lparr>sp_error := True\<rparr>))
      | K_Reorder_Load \<Rightarrow> keys_loaded a s)"

section \<open>Steps\<close>

datatype ssh_event =
    Open_Add_Key bool
  | Type_Key ustring
  | Submit_Key
  | Open_Add_Comment bool
  | Type_Comment ustring
  | Submit_Comment
  | Ask_Delete_Entry ssh_entry
  | Cancel_Delete_Entry
  | Confirm_Delete_Entry
  | Start_Edit ssh_entry
  | Type_Edit ustring
  | Cancel_Edit
  | Save_Edit ssh_entry
  | Drag_Start ssh_entry
  | Drag_End
  | Drop_On ssh_entry
  | Served nat
  | Answered nat
  | Lost nat
  | Outside keys_file

definition call_at :: "nat \<Rightarrow> ssh_page \<Rightarrow> ssh_call option" where
  "call_at n s = (if n < length (sp_calls s) then Some (sp_calls s ! n) else None)"

definition call_done :: "nat \<Rightarrow> ssh_page \<Rightarrow> ssh_page" where
  "call_done n s = s\<lparr>sp_calls := take n (sp_calls s) @ drop (Suc n) (sp_calls s)\<rparr>"

definition call_served :: "key_parser \<Rightarrow> (ustring \<Rightarrow> ustring) \<Rightarrow> nat \<Rightarrow> ssh_call \<Rightarrow> ssh_page \<Rightarrow> ssh_page" where
  "call_served pk sha n c s =
     (let (a, f) = serve_keys pk sha (sc_request c) (sp_file s)
      in s\<lparr>sp_file := f, sp_calls := (sp_calls s)[n := c\<lparr>sc_answer := Some a\<rparr>],
           sp_served := sp_served s @ [(sc_request c, sp_file s, f)]\<rparr>)"

text \<open>A row in editing has the form, the others their buttons.\<close>

definition key_row :: "ssh_entry \<Rightarrow> ssh_page \<Rightarrow> bool" where
  "key_row e s \<longleftrightarrow> e \<in> set (sp_entries s) \<and> sp_editingId s \<noteq> Some (se_id e)"

definition edit_row :: "ssh_entry \<Rightarrow> ssh_page \<Rightarrow> bool" where
  "edit_row e s \<longleftrightarrow> e \<in> set (sp_entries s) \<and> sp_editingId s = Some (se_id e)"

fun ssh_step :: "key_parser \<Rightarrow> (ustring \<Rightarrow> ustring) \<Rightarrow> ssh_event \<Rightarrow> ssh_page \<Rightarrow> ssh_page" where
  "ssh_step pk sha (Open_Add_Key b) s =
     (if b then s\<lparr>sp_addKeyOpen := True\<rparr> else s\<lparr>sp_addKeyOpen := False, sp_keyFormError := False\<rparr>)"
| "ssh_step pk sha (Type_Key v) s = (if sp_addKeyOpen s then s\<lparr>sp_newKey := v\<rparr> else s)"
| "ssh_step pk sha Submit_Key s = (if sp_addKeyOpen s \<and> \<not> sp_submittingKey s then handleAddKey s else s)"
| "ssh_step pk sha (Open_Add_Comment b) s =
     (if b then s\<lparr>sp_addCommentOpen := True\<rparr> else s\<lparr>sp_addCommentOpen := False, sp_commentFormError := False\<rparr>)"
| "ssh_step pk sha (Type_Comment v) s = (if sp_addCommentOpen s then s\<lparr>sp_newComment := v\<rparr> else s)"
| "ssh_step pk sha Submit_Comment s = (if sp_addCommentOpen s \<and> \<not> sp_submittingComment s then handleAddComment s else s)"
| "ssh_step pk sha (Ask_Delete_Entry e) s =
     (if key_row e s \<and> sp_deletingId s \<noteq> Some (se_id e) then s\<lparr>sp_confirmDelete := Some e\<rparr> else s)"
| "ssh_step pk sha Cancel_Delete_Entry s = s\<lparr>sp_confirmDelete := None\<rparr>"
| "ssh_step pk sha Confirm_Delete_Entry s =
     (case sp_confirmDelete s of Some e \<Rightarrow> if sp_deletingId s = None then delete_entry e s else s | None \<Rightarrow> s)"
| "ssh_step pk sha (Start_Edit e) s = (if key_row e s then start_key_edit e s else s)"
| "ssh_step pk sha (Type_Edit v) s = (if sp_editingId s \<noteq> None then s\<lparr>sp_editValue := v\<rparr> else s)"
| "ssh_step pk sha Cancel_Edit s = (if sp_savingEdit s then s else cancel_key_edit s)"
| "ssh_step pk sha (Save_Edit e) s = (if edit_row e s \<and> \<not> sp_savingEdit s then handleSaveEdit e s else s)"
| "ssh_step pk sha (Drag_Start e) s = (if key_row e s then s\<lparr>sp_dragId := Some (se_id e)\<rparr> else s)"
| "ssh_step pk sha Drag_End s = s\<lparr>sp_dragId := None\<rparr>"
| "ssh_step pk sha (Drop_On e) s = (if key_row e s then drop_entry (se_id e) s else s)"
| "ssh_step pk sha (Served n) s =
     (case call_at n s of Some c \<Rightarrow> if sc_answer c = None then call_served pk sha n c s else s | None \<Rightarrow> s)"
| "ssh_step pk sha (Answered n) s =
     (case call_at n s of
        Some c \<Rightarrow> (case sc_answer c of Some a \<Rightarrow> keys_continue (sc_next c) a (call_done n s) | None \<Rightarrow> s)
      | None \<Rightarrow> s)"
| "ssh_step pk sha (Lost n) s =
     (case call_at n s of Some c \<Rightarrow> keys_continue (sc_next c) A_Failed (call_done n s) | None \<Rightarrow> s)"
| "ssh_step pk sha (Outside f) s = s\<lparr>sp_file := f\<rparr>"

definition ssh_run :: "key_parser \<Rightarrow> (ustring \<Rightarrow> ustring) \<Rightarrow> ssh_event list \<Rightarrow> ssh_page \<Rightarrow> ssh_page" where
  "ssh_run pk sha es s = fold (ssh_step pk sha) es s"

section \<open>A request changes what it names\<close>










section \<open>Whatever is on its way\<close>

















section \<open>An edit that goes away\<close>

text \<open>
  The id of a comment changes with its line: when an entry above it is deleted its form closes over what was typed,
  and the page still believes it is editing.
\<close>

lemma edited_comment_loses_its_row:
  "let s = ssh_run (\<lambda>l. None) (\<lambda>l. l)
         [Served 0, Answered 0, Start_Edit (Comment_Entry (js ''1:# b'') (js ''# b'')), Type_Edit (js ''# new''),
          Ask_Delete_Entry (Comment_Entry (js ''0:# a'') (js ''# a'')), Confirm_Delete_Entry, Served 0, Answered 0, Served 0, Answered 0]
         (ssh_mount (Some (js ''# a'' @ 10 # js ''# b'')))
   in sp_entries s = [Comment_Entry (js ''0:# b'') (js ''# b'')] \<and> sp_editingId s = Some (js ''1:# b'') \<and>
      list_all (\<lambda>e. \<not> edit_row e s) (sp_entries s)"
  by code_simp

end
