(* ===== verification/Spec2Isabelle.thy ===== *)
theory Spec2Isabelle
  imports Escape_Codec Modifiers Project_Path Ordering Session_Names Mobile_Mirror Mobile_Password Api_Client Device_Settings Terminal_Zoom Terminal_Connection Process_Tree Process_Table Theme Back_Navigation View_Properties View_Names Relay_Chords Touch_Properties Size_Properties File_Properties File_Editor Login_Properties Webauthn Unlock_Modal Logs Job_Poll Claude_Page Settings_Properties Project_Clone Control_Bar Tool_Search Projects_Page Ssh_Keys
begin

text \<open>
  \<^bold>\<open>The program.\<close> code-docker is a container image around code-server. Its own TypeScript is the
  web manager: a React page (\<open>webmanager/frontend/src\<close>) that shows terminals, files, processes,
  settings and remote desktops, and an editor extension (\<open>webmanager/vscode-extension\<close>) that shows the
  same page inside VS Code. The page talks to a Go backend over HTTP (\<open>api/client.ts\<close>) and one
  WebSocket per terminal (\<open>components/Terminal/Terminal.tsx\<close>). Inside the editor three programs
  exchange messages: the page (\<open>embed.ts\<close>), the document around it (\<open>media/embed.js\<close>) and the extension
  host (\<open>extension.js\<close>).

  \<^bold>\<open>The page.\<close>
  \<^item> \<open>Prelude\<close>: JavaScript strings as lists of UTF-16 code units, printing and reading numbers, query
    parameters, JSON values. \<open>Api_Types\<close>: the response records of \<open>api/types.ts\<close>.
  \<^item> \<open>Escape_Codec\<close>, \<open>Modifiers\<close>: the bytes a key binding sends and the modifier keys
    (\<open>escapeCodec.ts\<close>, \<open>modifiers.ts\<close>, \<open>keybindings.ts\<close>).
  \<^item> \<open>Mobile_Input\<close>, \<open>Mobile_Mirror\<close>, \<open>Mobile_Password\<close>: the text field that stands in for a keyboard on
    touch devices (\<open>Terminal.tsx\<close>), and why the terminal's line is always the field's text.
  \<^item> \<open>Terminal_Connection\<close>: the socket of the session on screen, reconnection, the password overlay and the
    session list, as a step relation. \<open>Session_Names\<close>, \<open>Project_Path\<close>, \<open>Terminal_Zoom\<close>: new names, the
    project of a directory, the font size. \<open>Terminal_Size\<close>, \<open>Size_Properties\<close>: the grid, the timers that
    fit it and what the backend is told. \<open>Touch_Gestures\<close>, \<open>Touch_Properties\<close>: fingers, replayed drags,
    momentum and the wheel.
  \<^item> \<open>Terminal_Themes\<close>, \<open>Terminal_Settings\<close>, \<open>Settings_Properties\<close>: the palettes, the settings document with
    its requests and the panel that edits it (\<open>themes.ts\<close>, \<open>Terminal.tsx\<close>, \<open>TerminalSettingsPanel.tsx\<close>); the
    server's copy is part of the state.
  \<^item> \<open>Control_Bar\<close>: the keys under the terminal, the modifier that waits for the next bytes, and what may move
    the focus and so open a phone's keyboard (\<open>Terminal.tsx\<close>, \<open>TerminalControls.tsx\<close>).
  \<^item> \<open>Api_Client\<close>: the client's module state; a request is a machine that moves at its awaits, and any
    number of requests, prompts and unlocks interleave. \<open>Device_Prefs\<close>, \<open>Device_Settings\<close>,
    \<open>Js_Number\<close>: every \<open>localStorage\<close> preference and the abstract settings they implement.
  \<^item> \<open>Ordering\<close>, \<open>Process_Tree\<close>, \<open>Process_Table\<close>, \<open>Fuzzy_Match\<close>: lists the user orders, searches and
    sorts. \<open>Theme\<close>, \<open>Navigation\<close>, \<open>Back_Navigation\<close>: the theme, the tab shown, the browser's history.
  \<^item> \<open>File_Manager\<close>, \<open>File_Properties\<close>, \<open>File_Editor\<close>: the listing, selection, dialogs and uploads of the file
    pages with their requests, and the editor sheet that saves against a version (\<open>components/FileManager\<close>).
  \<^item> \<open>Interactive_Login\<close>, \<open>Login_Properties\<close>: the dialog that runs \<open>claude login\<close> in a terminal of its own
    (\<open>InteractiveLoginDialog.tsx\<close>). \<open>Job_Poll\<close>, \<open>Claude_Page\<close>: the installation job and the page around the
    dialog (\<open>ClaudeCode.tsx\<close>), which mounts and removes it. \<open>Mise_Page\<close>, \<open>Tool_Search\<close>: the page that installs tools
    by the same jobs, and its search dialog (\<open>Mise.tsx\<close>, \<open>ToolSearchDialog.tsx\<close>). \<open>Project_Clone\<close>: the dialog that
    clones a repository (\<open>CloneProjectDialog.tsx\<close>). \<open>Projects_Page\<close>: the list of projects, the table and the
    dialogs that delete from it (\<open>Projects.tsx\<close>, \<open>ProjectTable.tsx\<close>, \<open>ConfirmDialog.tsx\<close>).
  \<^item> \<open>Authorized_Keys\<close>, \<open>Ssh_Keys\<close>: the page of SSH keys over the file it edits (\<open>SshKeys.tsx\<close>, and the
    backend's operations on \<open>authorized_keys\<close> in \<open>internal/sshkeys/sshkeys.go\<close>).
  \<^item> \<open>Unlock_Modal\<close>, \<open>Webauthn\<close>: the password prompt that answers the requests of \<open>Api_Client\<close>, and the
    fingerprint ceremonies (\<open>UnlockModal.tsx\<close>, \<open>utils/webauthn.ts\<close>).
  \<^item> \<open>Logs\<close>: filters, pages and live polling of the log table (\<open>Logs.tsx\<close>), against the documented
    behaviour of the log store.
  \<^item> \<open>Embed_Bridge\<close>, \<open>Embed_View\<close>: the page's end of the messages inside the editor.

  \<^bold>\<open>The extension.\<close>
  \<^item> \<open>View_State\<close>: what a view is identified by, titles, paths, key chords, names (\<open>src/*.js\<close> and the pure
    part of \<open>extension.js\<close>). \<open>View_Names\<close>: the names proposed for new sessions.
  \<^item> \<open>View_Host\<close>, \<open>View_Messages\<close>: the extension's state as the record \<open>ext\<close> (views, slot bindings,
    titles, last contexts) and every handler as a function on it. A handler runs as one step; where it
    waits for the user it is split and the answer is an argument. What it asks of VS Code is appended
    to \<open>x_effects\<close>.
  \<^item> \<open>View_Frame\<close>, \<open>View_Once\<close>: which part of the state each operation touches, and the abstract state: a
    map from places (a view, a bound slot not yet shown) to the session or target shown there.
    \<open>View_Window\<close>: a window over time, \<open>window_step\<close>, with the operations above as steps.
    \<open>View_Effects\<close>: what the operations ask of VS Code, up to a class of effects (the locale
    \<open>watched\<close>). \<open>View_Properties\<close>: the results.
  \<^item> \<open>Webview_Relay\<close>, \<open>Relay_View\<close>, \<open>Relay_Chords\<close>: the document around the page; it uses the messages
    (\<open>to_view\<close>) that \<open>View_Host\<close> sends.

  \<^bold>\<open>What the lemmas show.\<close> Invariants over all interleavings are rule inductions on step relations
  (one socket, one prompt, one place per session, a panel that never empties, a history of two entries,
  nothing saved that would run again, a log table without gaps, no login session left behind). Refinements map the code's state to a smaller one: the field
  to a line of text, the storage to a record of settings, the window to its map of places. Round trips
  cover the escape codec, deep links and rebuilt views. The security statements say what a page inside the
  editor can cause (\<open>views_are_not_trusted\<close>, \<open>only_the_extension_steers\<close>).

  \<^bold>\<open>Bounds.\<close> A code unit is a \<open>nat\<close>; positions and counters are natural numbers or integers, font sizes and
  scores exact rationals. \<open>buildNode\<close> takes fuel: more than the number of processes is enough when no
  parent link runs in a cycle, and no fuel is enough when one does (both proved). A request settles
  after at most five awaits. \<open>first_free\<close> terminates because every turn leaves a taken name behind.
  The timers that fit the terminal run out within
  \<open>timer_weight\<close> of them; a login dialog that may reconnect is at most one timer or probe from trying again
  (\<open>login_never_stuck\<close>). \<open>fromEmbedTree\<close> is a partial function: it returns for every window nested in the frame.

  \<^bold>\<open>Arguments.\<close> What the platform provides is an argument where it is used: \<open>JSON.parse\<close> and
  \<open>JSON.stringify\<close>, \<open>URL\<close> and \<open>URLSearchParams\<close> printing, \<open>toLowerCase\<close>, \<open>localeCompare\<close>, Unicode
  classes, storage failures, the answers of \<open>fetch\<close> and of the user. Hypotheses state only their documented
  behaviour.

  \<^bold>\<open>Not modelled.\<close> The rest of the Go backend, the shell, nginx and supervisor configuration and the scripts patched into
  code-server are other languages or glue. React's rendering, style sheets and markup, xterm.js, the
  VS Code API and the browser are third-party code. The pages that only fetch and display (fonts,
  SSH hosts and GPG keys, containers, charts, the panels of a project) contribute their preferences, orders and searches, not their markup.
\<close>

end
